(* ===== verification/Prelude.thy ===== *)
theory Prelude
  imports Main "HOL-Library.Char_ord" "HOL-Library.List_Lexorder" "HOL-Library.Sublist"
begin

text \<open>
  What the components share: Go's \<open>int64\<close> arithmetic with its wrap-around, \<open>time.Duration\<close>
  and \<open>time.Time\<close>, the \<open>strings\<close>, \<open>bytes\<close> and \<open>strconv\<close> functions the sources call, Go maps as
  association lists, and the list lemmas the component proofs use. A Go \<open>string\<close> or \<open>[]byte\<close> is
  an Isabelle \<open>string\<close>, a list of 8-bit characters, so \<open>length\<close> counts bytes as Go's \<open>len\<close> does.
\<close>

named_theorems go_strings \<open>characteristic equations of the modelled string functions\<close>
named_theorems go_ints \<open>facts on wrapped 64-bit integers\<close>

section \<open>Types\<close>

type_synonym bytes = string
type_synonym time = int \<comment> \<open>\<open>time.Time\<close>: nanoseconds since the Unix epoch\<close>
type_synonym duration = int \<comment> \<open>\<open>time.Duration\<close>: nanoseconds, an \<open>int64\<close>\<close>
type_synonym ('k, 'v) gomap = "('k \<times> 'v) list" \<comment> \<open>a Go map in one of its iteration orders\<close>

abbreviation second :: duration where "second \<equiv> 1000000000"
abbreviation minute :: duration where "minute \<equiv> 60000000000"

section \<open>64-bit integers\<close>

definition max_int64 :: int where "max_int64 = 9223372036854775807"
definition min_int64 :: int where "min_int64 = -9223372036854775808"

definition in_int64 :: "int \<Rightarrow> bool" where
  "in_int64 x \<longleftrightarrow> min_int64 \<le> x \<and> x \<le> max_int64"

text \<open>The value an \<open>int64\<close> holds after an operation whose exact result is \<open>x\<close>.\<close>

definition wrap64 :: "int \<Rightarrow> int" where
  "wrap64 x = (x + 9223372036854775808) mod 18446744073709551616 - 9223372036854775808"

lemma wrap64_in_range [go_ints]: "in_int64 (wrap64 x)"
  unfolding in_int64_def wrap64_def min_int64_def max_int64_def
  using pos_mod_bound [of 18446744073709551616 "x + 9223372036854775808"]
    pos_mod_sign [of 18446744073709551616 "x + 9223372036854775808"] by linarith

lemma wrap64_id [go_ints]: "in_int64 x \<Longrightarrow> wrap64 x = x"
  by (simp add: in_int64_def wrap64_def min_int64_def max_int64_def)

lemma wrap64_fixed_iff: "wrap64 x = x \<longleftrightarrow> in_int64 x"
  using wrap64_in_range [of x] wrap64_id [of x] by metis

text \<open>\<open>time.Time.Sub\<close> returns the difference when it fits a \<open>Duration\<close> and saturates otherwise.\<close>

definition time_sub :: "time \<Rightarrow> time \<Rightarrow> duration" where
  "time_sub t u = max min_int64 (min max_int64 (t - u))"

text \<open>The zero \<open>time.Time\<close>, 1 January of year 1 UTC; \<open>IsZero\<close> tests for it.\<close>

definition zero_time :: time where "zero_time = -62135596800000000000"

section \<open>Characters\<close>

definition char_code :: "char \<Rightarrow> nat" where
  "char_code c = of_char c"

definition is_digit :: "char \<Rightarrow> bool" where
  "is_digit c \<longleftrightarrow> 48 \<le> char_code c \<and> char_code c \<le> 57"

definition is_upper :: "char \<Rightarrow> bool" where
  "is_upper c \<longleftrightarrow> 65 \<le> char_code c \<and> char_code c \<le> 90"

definition is_lower :: "char \<Rightarrow> bool" where
  "is_lower c \<longleftrightarrow> 97 \<le> char_code c \<and> char_code c \<le> 122"

abbreviation NUL :: char where "NUL \<equiv> CHR 0x00"
abbreviation TAB :: char where "TAB \<equiv> CHR 0x09"
abbreviation LF :: char where "LF \<equiv> CHR 0x0A"
abbreviation CR :: char where "CR \<equiv> CHR 0x0D"
abbreviation DQUOTE :: char where "DQUOTE \<equiv> CHR 0x22"
abbreviation QUOTE :: char where "QUOTE \<equiv> CHR 0x27"
abbreviation BACKSLASH :: char where "BACKSLASH \<equiv> CHR 0x5C"

lemma char_code_bound [simp]: "char_code c < 256"
  by (simp add: char_code_def)

lemma char_code_inj [simp]: "char_code c = char_code d \<longleftrightarrow> c = d"
  by (simp add: char_code_def)

text \<open>\<open>strings.ToLower\<close>, \<open>strings.ToUpper\<close>: exact on ASCII; bytes above 127 are left alone.\<close>

definition lower_char :: "char \<Rightarrow> char" where
  "lower_char c = (if is_upper c then char_of (char_code c + 32) else c)"

definition upper_char :: "char \<Rightarrow> char" where
  "upper_char c = (if is_lower c then char_of (char_code c - 32) else c)"

definition to_lower :: "string \<Rightarrow> string" where "to_lower s = map lower_char s"
definition to_upper :: "string \<Rightarrow> string" where "to_upper s = map upper_char s"

definition equal_fold :: "string \<Rightarrow> string \<Rightarrow> bool" where
  "equal_fold s t \<longleftrightarrow> to_lower s = to_lower t"

section \<open>Package strings\<close>

definition has_prefix :: "string \<Rightarrow> string \<Rightarrow> bool" where
  "has_prefix s p \<longleftrightarrow> take (length p) s = p"

definition has_suffix :: "string \<Rightarrow> string \<Rightarrow> bool" where
  "has_suffix s p \<longleftrightarrow> has_prefix (rev s) (rev p)"

definition trim_prefix :: "string \<Rightarrow> string \<Rightarrow> string" where
  "trim_prefix s p = (if has_prefix s p then drop (length p) s else s)"

definition trim_suffix :: "string \<Rightarrow> string \<Rightarrow> string" where
  "trim_suffix s p = (if has_suffix s p then take (length s - length p) s else s)"

fun index_str :: "string \<Rightarrow> string \<Rightarrow> nat option" where
  "index_str [] p = (if p = [] then Some 0 else None)"
| "index_str (c # s) p = (if has_prefix (c # s) p then Some 0 else map_option Suc (index_str s p))"

definition contains_str :: "string \<Rightarrow> string \<Rightarrow> bool" where
  "contains_str s p \<longleftrightarrow> index_str s p \<noteq> None"

fun join :: "string \<Rightarrow> string list \<Rightarrow> string" where
  "join sep [] = []"
| "join sep [x] = x"
| "join sep (x # y # zs) = x @ sep @ join sep (y # zs)"

text \<open>\<open>strings.Split\<close> and \<open>strings.Cut\<close> with a one-byte separator.\<close>

fun split_char :: "char \<Rightarrow> string \<Rightarrow> string list" where
  "split_char c [] = [[]]"
| "split_char c (x # xs) =
     (if x = c then [] # split_char c xs
      else case split_char c xs of [] \<Rightarrow> [[x]] | y # ys \<Rightarrow> (x # y) # ys)"

fun cut_char :: "char \<Rightarrow> string \<Rightarrow> (string \<times> string) option" where
  "cut_char c [] = None"
| "cut_char c (x # xs) =
     (if x = c then Some ([], xs)
      else map_option (\<lambda>(a, b). (x # a, b)) (cut_char c xs))"

text \<open>\<open>strings.ReplaceAll\<close> with a non-empty \<open>old\<close>: leftmost, not overlapping.\<close>

function replace_all :: "string \<Rightarrow> string \<Rightarrow> string \<Rightarrow> string" where
  "replace_all s old new =
     (if s = [] \<or> old = [] then s
      else if has_prefix s old then new @ replace_all (drop (length old) s) old new
      else hd s # replace_all (tl s) old new)"
  by pat_completeness auto
termination
  by (relation "measure (\<lambda>(s, old, new). length s)") (auto simp: length_greater_0_conv [symmetric] simp del: length_greater_0_conv)

declare replace_all.simps [simp del]

text \<open>
  White space as \<open>unicode.IsSpace\<close> has it, in UTF-8. \<open>strings.TrimSpace\<close> and \<open>bytes.TrimSpace\<close>
  cut these encodings at both ends.
\<close>

definition space_runes :: "string list" where
  "space_runes =
     [[CHR 0x09], [CHR 0x0A], [CHR 0x0B], [CHR 0x0C], [CHR 0x0D], [CHR 0x20],
      [CHR 0xC2, CHR 0x85], [CHR 0xC2, CHR 0xA0], [CHR 0xE1, CHR 0x9A, CHR 0x80],
      [CHR 0xE2, CHR 0x80, CHR 0x80], [CHR 0xE2, CHR 0x80, CHR 0x81], [CHR 0xE2, CHR 0x80, CHR 0x82],
      [CHR 0xE2, CHR 0x80, CHR 0x83], [CHR 0xE2, CHR 0x80, CHR 0x84], [CHR 0xE2, CHR 0x80, CHR 0x85],
      [CHR 0xE2, CHR 0x80, CHR 0x86], [CHR 0xE2, CHR 0x80, CHR 0x87], [CHR 0xE2, CHR 0x80, CHR 0x88],
      [CHR 0xE2, CHR 0x80, CHR 0x89], [CHR 0xE2, CHR 0x80, CHR 0x8A], [CHR 0xE2, CHR 0x80, CHR 0xA8],
      [CHR 0xE2, CHR 0x80, CHR 0xA9], [CHR 0xE2, CHR 0x80, CHR 0xAF], [CHR 0xE2, CHR 0x81, CHR 0x9F],
      [CHR 0xE3, CHR 0x80, CHR 0x80]]"

fun lead_len :: "string list \<Rightarrow> string \<Rightarrow> nat" where
  "lead_len [] s = 0"
| "lead_len (r # rs) s = (if has_prefix s r then length r else lead_len rs s)"

function trim_left_runes :: "string list \<Rightarrow> string \<Rightarrow> string" where
  "trim_left_runes rs s =
     (if s = [] \<or> lead_len rs s = 0 then s else trim_left_runes rs (drop (lead_len rs s) s))"
  by pat_completeness auto
termination
  by (relation "measure (\<lambda>(rs, s). length s)") auto

declare trim_left_runes.simps [simp del]

definition trim_space :: "string \<Rightarrow> string" where
  "trim_space s =
     rev (trim_left_runes (map rev space_runes) (rev (trim_left_runes space_runes s)))"

section \<open>Package strconv\<close>

fun digits_val :: "int \<Rightarrow> int \<Rightarrow> string \<Rightarrow> int option" where
  "digits_val b acc [] = Some acc"
| "digits_val b acc (c # cs) =
     (if is_digit c \<and> int (char_code c) - 48 < b
      then digits_val b (acc * b + (int (char_code c) - 48)) cs else None)"

definition parse_digits :: "int \<Rightarrow> string \<Rightarrow> int option" where
  "parse_digits b s = (if s = [] then None else digits_val b 0 s)"

text \<open>\<open>strconv.ParseInt(s, 10, 64)\<close>: an optional sign, decimal digits, an error out of range.\<close>

definition parse_int64 :: "string \<Rightarrow> int option" where
  "parse_int64 s =
     (case s of [] \<Rightarrow> None
      | c # cs \<Rightarrow>
        (let r = (if c = CHR ''-'' then map_option uminus (parse_digits 10 cs)
                  else if c = CHR ''+'' then parse_digits 10 cs
                  else parse_digits 10 s)
         in case r of None \<Rightarrow> None | Some n \<Rightarrow> if in_int64 n then Some n else None))"

fun nat_digits :: "nat \<Rightarrow> string" where
  "nat_digits n =
     (if n < 10 then [char_of (48 + n)] else nat_digits (n div 10) @ [char_of (48 + n mod 10)])"

declare nat_digits.simps [simp del]

text \<open>\<open>strconv.FormatInt(n, 10)\<close> and \<open>%d\<close>.\<close>

definition format_int :: "int \<Rightarrow> string" where
  "format_int n = (if n < 0 then CHR ''-'' # nat_digits (nat (- n)) else nat_digits (nat n))"

section \<open>Go maps\<close>

definition map_set :: "'k \<Rightarrow> 'v \<Rightarrow> ('k, 'v) gomap \<Rightarrow> ('k, 'v) gomap" where
  "map_set k v m = (k, v) # filter (\<lambda>(k', _). k' \<noteq> k) m"

definition map_del :: "'k \<Rightarrow> ('k, 'v) gomap \<Rightarrow> ('k, 'v) gomap" where
  "map_del k m = filter (\<lambda>(k', _). k' \<noteq> k) m"

text \<open>A list represents a Go map when no key occurs twice; the order is one iteration order.\<close>

definition gomap_ok :: "('k, 'v) gomap \<Rightarrow> bool" where
  "gomap_ok m \<longleftrightarrow> distinct (map fst m)"

section \<open>Lemmas on strings\<close>

lemma has_prefix_iff: "has_prefix s p \<longleftrightarrow> (\<exists>r. s = p @ r)"
  unfolding has_prefix_def by (metis append_eq_conv_conj append_take_drop_id)

lemma has_prefix_append [simp, go_strings]: "has_prefix (p @ r) p"
  by (simp add: has_prefix_def)

lemma has_prefix_Nil [simp, go_strings]: "has_prefix s []"
  by (simp add: has_prefix_def)

lemma has_prefix_empty [simp, go_strings]: "has_prefix [] p \<longleftrightarrow> p = []"
  by (auto simp: has_prefix_def)

lemma has_prefix_Cons [simp, go_strings]:
  "has_prefix (c # s) (d # p) \<longleftrightarrow> c = d \<and> has_prefix s p"
  by (auto simp: has_prefix_def)

lemma has_prefix_length: "has_prefix s p \<Longrightarrow> length p \<le> length s"
  by (auto simp: has_prefix_iff)

lemma has_prefix_appendI: "has_prefix s p \<Longrightarrow> has_prefix (s @ t) p"
  by (auto simp: has_prefix_iff)

lemma has_prefix_append_short:
  "length p \<le> length s \<Longrightarrow> has_prefix (s @ t) p \<longleftrightarrow> has_prefix s p"
  by (simp add: has_prefix_def)

lemma has_prefix_total: "has_prefix s p \<Longrightarrow> has_prefix s q \<Longrightarrow> length p \<le> length q \<Longrightarrow> has_prefix q p"
  by (metis has_prefix_append_short has_prefix_iff)

lemma index_str_Some:
  "index_str s p = Some i \<Longrightarrow> i \<le> length s \<and> has_prefix (drop i s) p"
  by (induction s arbitrary: i) (auto split: if_splits)

lemma index_str_append: "index_str (a @ p @ b) p \<noteq> None"
proof (induction a)
  case Nil
  have "has_prefix (p @ b) p" by simp
  then show ?case by (cases "p @ b") auto
qed auto

lemma contains_str_iff: "contains_str s p \<longleftrightarrow> (\<exists>a b. s = a @ p @ b)"
proof
  assume "contains_str s p"
  then obtain i where "index_str s p = Some i" by (auto simp: contains_str_def)
  from index_str_Some [OF this] obtain b where "drop i s = p @ b"
    by (auto simp: has_prefix_iff)
  then have "s = take i s @ p @ b" by (metis append_take_drop_id)
  then show "\<exists>a b. s = a @ p @ b" by blast
next
  assume "\<exists>a b. s = a @ p @ b"
  then show "contains_str s p"
    using index_str_append by (auto simp: contains_str_def)
qed

lemma split_char_not_Nil [simp]: "split_char c s \<noteq> []"
  by (induction s) (auto split: list.splits)

lemma split_char_free [simp, go_strings]: "c \<notin> set s \<Longrightarrow> split_char c s = [s]"
  by (induction s) auto

lemma split_char_append [go_strings]:
  "c \<notin> set s \<Longrightarrow> split_char c (s @ c # t) = s # split_char c t"
  by (induction s) (auto split: list.splits)

lemma split_char_parts: "\<forall>p \<in> set (split_char c s). c \<notin> set p"
  by (induction s) (auto split: list.splits)

lemma join_Cons_not_Nil: "ys \<noteq> [] \<Longrightarrow> join sep (x # ys) = x @ sep @ join sep ys"
  by (cases ys) auto

lemma join_Cons_head: "join sep ((c # x) # ys) = c # join sep (x # ys)"
  by (cases ys) auto

lemma join_split_char: "join [c] (split_char c s) = s"
proof (induction s)
  case (Cons x s)
  obtain y ys where s: "split_char c s = y # ys" by (cases "split_char c s") auto
  show ?case
  proof (cases "x = c")
    case True
    then show ?thesis using Cons by (simp add: join_Cons_not_Nil)
  next
    case False
    then show ?thesis using Cons s by (simp add: join_Cons_head)
  qed
qed simp

lemma cut_char_append [go_strings]: "c \<notin> set a \<Longrightarrow> cut_char c (a @ c # b) = Some (a, b)"
  by (induction a) auto

lemma cut_char_Some: "cut_char c s = Some (a, b) \<Longrightarrow> s = a @ c # b \<and> c \<notin> set a"
  by (induction s arbitrary: a b) (auto split: if_splits)

lemma cut_char_None: "cut_char c s = None \<longleftrightarrow> c \<notin> set s"
  by (induction s) auto

section \<open>Lemmas on numbers\<close>

lemma digits_val_append:
  "digits_val b acc (xs @ ys) = (case digits_val b acc xs of None \<Rightarrow> None | Some a \<Rightarrow> digits_val b a ys)"
  by (induction xs arbitrary: acc) auto

lemma char_code_digit [simp]: "n < 10 \<Longrightarrow> char_code (char_of (48 + n :: nat)) = 48 + n"
  by (simp add: char_code_def)

lemma is_digit_char [simp]: "n < 10 \<Longrightarrow> is_digit (char_of (48 + n :: nat))"
  by (simp add: is_digit_def)

lemma nat_digits_not_Nil [simp]: "nat_digits n \<noteq> []"
  by (subst nat_digits.simps) simp

lemma nat_digits_is_digit: "c \<in> set (nat_digits n) \<Longrightarrow> is_digit c"
proof (induction n rule: nat_digits.induct)
  case (1 n)
  then show ?case
    by (cases "n < 10") (auto simp: nat_digits.simps [of n])
qed

lemma digits_val_nat_digits: "digits_val 10 0 (nat_digits n) = Some (int n)"
proof (induction n rule: nat_digits.induct)
  case (1 n)
  show ?case
  proof (cases "n < 10")
    case True
    then show ?thesis by (simp add: nat_digits.simps [of n])
  next
    case False
    with 1 have "digits_val 10 0 (nat_digits (n div 10)) = Some (int (n div 10))" by simp
    then show ?thesis
      using False by (simp add: nat_digits.simps [of n] digits_val_append) presburger
  qed
qed

lemma parse_digits_nat_digits [simp]: "parse_digits 10 (nat_digits n) = Some (int n)"
  by (simp add: parse_digits_def digits_val_nat_digits)

lemma hd_nat_digits: "is_digit (hd (nat_digits n))"
  using nat_digits_is_digit [of "hd (nat_digits n)" n] by simp

lemma not_digit_signs: "\<not> is_digit (CHR ''-'')" "\<not> is_digit (CHR ''+'')" "\<not> is_digit LF" "\<not> is_digit CHR '':''"
  by (simp_all add: is_digit_def char_code_def)

lemma parse_int64_format_int: "in_int64 n \<Longrightarrow> parse_int64 (format_int n) = Some n"
proof (cases "n < 0")
  case True
  assume "in_int64 n"
  with True show ?thesis by (simp add: parse_int64_def format_int_def)
next
  case False
  assume n: "in_int64 n"
  obtain c cs where d: "nat_digits (nat n) = c # cs" by (cases "nat_digits (nat n)") auto
  have "is_digit c" using hd_nat_digits [of "nat n"] d by simp
  then have "c \<noteq> CHR ''-''" "c \<noteq> CHR ''+''" using not_digit_signs by auto
  moreover have "parse_digits 10 (c # cs) = Some n"
    using parse_digits_nat_digits [of "nat n"] d False by simp
  ultimately show ?thesis using False n by (simp add: parse_int64_def format_int_def d)
qed

lemma digits_val_chars: "digits_val b acc s = Some n \<Longrightarrow> c \<in> set s \<Longrightarrow> is_digit c"
  by (induction s arbitrary: acc) (auto split: if_splits)

text \<open>A string \<open>ParseInt\<close> accepts holds digits and at most a sign: no line break.\<close>

lemma parse_int64_no_LF: "parse_int64 s = Some n \<Longrightarrow> LF \<notin> set s"
  using not_digit_signs
  by (cases s) (auto simp: parse_int64_def parse_digits_def Let_def split: if_splits option.splits
      dest: digits_val_chars)

section \<open>Lemmas on Go maps\<close>

lemma map_set_ok [simp]: "gomap_ok m \<Longrightarrow> gomap_ok (map_set k v m)"
  by (induction m) (auto simp: gomap_ok_def map_set_def)

lemma map_del_ok [simp]: "gomap_ok m \<Longrightarrow> gomap_ok (map_del k m)"
  by (induction m) (auto simp: gomap_ok_def map_del_def)

lemma map_of_map_del [simp]: "map_of (map_del k m) = (map_of m)(k := None)"
  by (induction m) (auto simp: map_del_def fun_eq_iff)

lemma map_of_map_set [simp]: "map_of (map_set k v m) = (map_of m)(k \<mapsto> v)"
  using map_of_map_del [of k m] by (auto simp: map_set_def map_del_def fun_eq_iff)

lemma map_of_filter_value:
  "gomap_ok m \<Longrightarrow> map_of (filter (\<lambda>(k, v). P k v) m) k =
     (case map_of m k of None \<Rightarrow> None | Some v \<Rightarrow> if P k v then Some v else None)"
proof (induction m)
  case (Cons x m)
  obtain k' v' where x: "x = (k', v')" by (cases x)
  from Cons.prems have "gomap_ok m" and k': "map_of m k' = None"
    by (auto simp: gomap_ok_def x map_of_eq_None_iff)
  with Cons.IH show ?case by (auto simp: x split: option.splits)
qed simp

lemma gomap_ok_filter [simp]: "gomap_ok m \<Longrightarrow> gomap_ok (filter P m)"
  by (simp add: gomap_ok_def distinct_map_filter)

lemma gomap_ok_Nil [simp]: "gomap_ok []"
  by (simp add: gomap_ok_def)

lemma length_map_set:
  "gomap_ok m \<Longrightarrow> length (map_set k v m) = (if map_of m k = None then Suc (length m) else length m)"
proof (induction m)
  case Nil
  show ?case by (simp add: map_set_def)
next
  case (Cons x m)
  obtain k' v' where x: "x = (k', v')" by (cases x)
  show ?case
  proof (cases "k' = k")
    case True
    with Cons.prems have "map_of m k = None" by (auto simp: gomap_ok_def x map_of_eq_None_iff)
    then have "\<forall>y \<in> set m. fst y \<noteq> k" by (auto simp: map_of_eq_None_iff)
    then have "filter (\<lambda>(k', _). k' \<noteq> k) m = m" by (auto simp: filter_id_conv)
    with True show ?thesis by (simp add: x map_set_def)
  next
    case False
    with Cons show ?thesis by (auto simp: x map_set_def gomap_ok_def)
  qed
qed

section \<open>Simulations\<close>

text \<open>
  A component against its abstract specification: both react to the same events, and an event that
  meets \<open>ok\<close> keeps the two states related.
\<close>

locale simulation =
  fixes related :: "'a \<Rightarrow> 'c \<Rightarrow> bool"
    and ok :: "'e \<Rightarrow> bool"
    and spec_step :: "'e \<Rightarrow> 'a \<Rightarrow> 'a"
    and step :: "'e \<Rightarrow> 'c \<Rightarrow> 'c"
  assumes step_related: "related a c \<Longrightarrow> ok e \<Longrightarrow> related (spec_step e a) (step e c)"
begin

lemma run_related:
  "related a c \<Longrightarrow> \<forall>e \<in> set es. ok e \<Longrightarrow> related (fold spec_step es a) (fold step es c)"
  by (induction es arbitrary: a c) (auto intro: step_related)

end

end
