(* ===== verification/Base64.thy ===== *)
theory Base64
  imports Prelude
begin

text \<open>
  Go's \<open>encoding/base64\<close> as the sources use it: \<open>StdEncoding\<close> (padded) for HMACs, nonces, secrets
  and output chunks, \<open>RawURLEncoding\<close> (unpadded, URL alphabet) for the proxy token and the JWT.
  Decoding is Go's: carriage returns and line feeds are skipped anywhere, and the unused low bits
  of the last character are not checked (neither encoding is \<open>Strict()\<close>).
\<close>

record encoding =
  url_alphabet :: bool
  padded :: bool

definition StdEncoding :: encoding where
  "StdEncoding = \<lparr>url_alphabet = False, padded = True\<rparr>"

definition RawURLEncoding :: encoding where
  "RawURLEncoding = \<lparr>url_alphabet = True, padded = False\<rparr>"

definition b64_char :: "encoding \<Rightarrow> nat \<Rightarrow> char" where
  "b64_char e n =
     (if n < 26 then char_of (65 + n) else if n < 52 then char_of (71 + n)
      else if n < 62 then char_of (n - 4)
      else if n = 62 then (if url_alphabet e then CHR ''-'' else CHR ''+'')
      else (if url_alphabet e then CHR ''_'' else CHR ''/''))"

definition b64_val :: "encoding \<Rightarrow> char \<Rightarrow> nat option" where
  "b64_val e c =
     (let n = char_code c in
      if is_upper c then Some (n - 65) else if is_lower c then Some (n - 71)
      else if is_digit c then Some (n + 4)
      else if c = (if url_alphabet e then CHR ''-'' else CHR ''+'') then Some 62
      else if c = (if url_alphabet e then CHR ''_'' else CHR ''/'') then Some 63
      else None)"

fun b64_encode :: "encoding \<Rightarrow> bytes \<Rightarrow> string" where
  "b64_encode e [] = []"
| "b64_encode e [a] =
     [b64_char e (char_code a div 4), b64_char e (char_code a mod 4 * 16)]
     @ (if padded e then ''=='' else [])"
| "b64_encode e [a, b] =
     [b64_char e (char_code a div 4), b64_char e (char_code a mod 4 * 16 + char_code b div 16),
      b64_char e (char_code b mod 16 * 4)] @ (if padded e then ''='' else [])"
| "b64_encode e (a # b # c # r) =
     [b64_char e (char_code a div 4), b64_char e (char_code a mod 4 * 16 + char_code b div 16),
      b64_char e (char_code b mod 16 * 4 + char_code c div 64), b64_char e (char_code c mod 64)]
     @ b64_encode e r"

definition b64_bytes1 :: "nat \<Rightarrow> nat \<Rightarrow> bytes" where
  "b64_bytes1 a b = [char_of (a * 4 + b div 16)]"

definition b64_bytes2 :: "nat \<Rightarrow> nat \<Rightarrow> nat \<Rightarrow> bytes" where
  "b64_bytes2 a b c = [char_of (a * 4 + b div 16), char_of (b mod 16 * 16 + c div 4)]"

definition b64_bytes3 :: "nat \<Rightarrow> nat \<Rightarrow> nat \<Rightarrow> nat \<Rightarrow> bytes" where
  "b64_bytes3 a b c d =
     [char_of (a * 4 + b div 16), char_of (b mod 16 * 16 + c div 4), char_of (c mod 4 * 64 + d)]"

text \<open>\<open>decodeQuantum\<close> on input without line breaks.\<close>

fun b64_quanta :: "encoding \<Rightarrow> string \<Rightarrow> bytes option" where
  "b64_quanta e [] = Some []"
| "b64_quanta e [a] = None"
| "b64_quanta e [a, b] =
     (if padded e then None
      else case (b64_val e a, b64_val e b) of
        (Some x, Some y) \<Rightarrow> Some (b64_bytes1 x y) | _ \<Rightarrow> None)"
| "b64_quanta e [a, b, c] =
     (if padded e then None
      else case (b64_val e a, b64_val e b, b64_val e c) of
        (Some x, Some y, Some z) \<Rightarrow> Some (b64_bytes2 x y z) | _ \<Rightarrow> None)"
| "b64_quanta e (a # b # c # d # r) =
     (case (b64_val e a, b64_val e b, b64_val e c, b64_val e d) of
        (Some w, Some x, Some y, Some z) \<Rightarrow>
          (case b64_quanta e r of None \<Rightarrow> None | Some t \<Rightarrow> Some (b64_bytes3 w x y z @ t))
      | (Some w, Some x, Some y, None) \<Rightarrow>
          (if padded e \<and> d = CHR ''='' \<and> r = [] then Some (b64_bytes2 w x y) else None)
      | (Some w, Some x, None, _) \<Rightarrow>
          (if padded e \<and> c = CHR ''='' \<and> d = CHR ''='' \<and> r = [] then Some (b64_bytes1 w x) else None)
      | _ \<Rightarrow> None)"

definition not_newline :: "char \<Rightarrow> bool" where
  "not_newline c \<longleftrightarrow> c \<noteq> LF \<and> c \<noteq> CR"

definition b64_decode :: "encoding \<Rightarrow> string \<Rightarrow> bytes option" where
  "b64_decode e s = b64_quanta e (filter not_newline s)"

section \<open>Decoding undoes encoding\<close>

lemma b64_val_char [simp]: "n < 64 \<Longrightarrow> b64_val e (b64_char e n) = Some n"
  unfolding b64_val_def b64_char_def is_upper_def is_lower_def is_digit_def char_code_def Let_def
  by (auto simp: linorder_not_less le_less_Suc_eq)

lemma b64_val_equals [simp]: "b64_val e CHR ''='' = None"
  by (simp add: b64_val_def is_upper_def is_lower_def is_digit_def char_code_def Let_def)

lemma b64_char_not_newline [simp]: "n < 64 \<Longrightarrow> not_newline (b64_char e n)"
proof -
  assume n: "n < 64"
  have "b64_val e LF = None" "b64_val e CR = None"
    by (simp_all add: b64_val_def is_upper_def is_lower_def is_digit_def char_code_def Let_def)
  with b64_val_char [OF n, of e] show ?thesis by (auto simp: not_newline_def)
qed

lemma sextet_bounds [simp]:
  "char_code a div 4 < 64" "char_code a mod 4 * 16 + char_code b div 16 < 64"
  "char_code b mod 16 * 4 + char_code c div 64 < 64" "char_code c mod 64 < 64"
  "char_code a mod 4 * 16 < 64" "char_code b mod 16 * 4 < 64"
  using char_code_bound [of a] char_code_bound [of b] char_code_bound [of c] by linarith+

lemma high_bits [simp]:
  "char_code b div 16 div 16 = 0" "char_code b div 16 mod 16 = char_code b div 16"
  "char_code c div 64 div 4 = 0" "char_code c div 64 mod 4 = char_code c div 64"
proof -
  have "char_code b div 16 < 16" "char_code c div 64 < 4"
    using char_code_bound [of b] char_code_bound [of c] by linarith+
  then show "char_code b div 16 div 16 = 0" "char_code b div 16 mod 16 = char_code b div 16"
    "char_code c div 64 div 4 = 0" "char_code c div 64 mod 4 = char_code c div 64" by simp_all
qed

lemma char_of_char_code [simp]: "char_of (char_code a) = a"
  by (simp add: char_code_def)

lemma b64_quanta_encode: "b64_quanta e (b64_encode e s) = Some s"
  by (induction e s rule: b64_encode.induct)
    (simp_all add: b64_bytes1_def b64_bytes2_def b64_bytes3_def)

lemma not_newline_equals [simp]: "not_newline CHR ''=''"
  by (simp add: not_newline_def)

lemma b64_encode_not_newline: "\<forall>c \<in> set (b64_encode e s). not_newline c"
  by (induction e s rule: b64_encode.induct) simp_all

lemma filter_b64_encode [simp]: "filter not_newline (b64_encode e s) = b64_encode e s"
  using b64_encode_not_newline [of e s] by (simp add: filter_id_conv)

lemma b64_decode_encode [simp]: "b64_decode e (b64_encode e s) = Some s"
  by (simp add: b64_decode_def b64_quanta_encode)

lemma b64_encode_inj: "b64_encode e s = b64_encode e t \<longleftrightarrow> s = t"
  by (metis b64_decode_encode option.inject)

lemma LF_notin_b64_encode [simp]: "LF \<notin> set (b64_encode e s)"
  using b64_encode_not_newline [of e s] by (auto simp: not_newline_def)

text \<open>The decoder is not injective: any line break may be added without changing the result.\<close>

lemma b64_decode_append_newline: "b64_decode e (s @ [LF]) = b64_decode e s"
  by (simp add: b64_decode_def not_newline_def)

lemma length_b64_quanta: "b64_quanta e s = Some t \<Longrightarrow> length t * 4 \<le> length s * 3"
  by (induction e s arbitrary: t rule: b64_quanta.induct)
    (auto simp: b64_bytes1_def b64_bytes2_def b64_bytes3_def split: if_splits option.splits)

end
