(* ===== verification/Hmac.thy ===== *)
theory Hmac
  imports Prelude "HOL-Library.Word"
begin

unbundle bit_operations_syntax

text \<open>
  HMAC-SHA-256, the message authentication code \<open>internal/auth\<close> computes through \<open>crypto/hmac\<close> and
  \<open>crypto/sha256\<close> (RFC 2104, FIPS 180-4), on 32-bit words, and the interface the authentication
  component relies on. The authentication theorems are proved for every code that meets the
  interface; SHA-256 is the instance the program uses.
\<close>

section \<open>SHA-256\<close>

type_synonym u32 = "32 word"

definition sha256_k :: "u32 list" where
  "sha256_k =
    [1116352408, 1899447441, 3049323471, 3921009573, 961987163, 1508970993, 2453635748, 2870763221,
     3624381080, 310598401, 607225278, 1426881987, 1925078388, 2162078206, 2614888103, 3248222580,
     3835390401, 4022224774, 264347078, 604807628, 770255983, 1249150122, 1555081692, 1996064986,
     2554220882, 2821834349, 2952996808, 3210313671, 3336571891, 3584528711, 113926993, 338241895,
     666307205, 773529912, 1294757372, 1396182291, 1695183700, 1986661051, 2177026350, 2456956037,
     2730485921, 2820302411, 3259730800, 3345764771, 3516065817, 3600352804, 4094571909, 275423344,
     430227734, 506948616, 659060556, 883997877, 958139571, 1322822218, 1537002063, 1747873779,
     1955562222, 2024104815, 2227730452, 2361852424, 2428436474, 2756734187, 3204031479, 3329325298]"

definition sha256_init :: "u32 list" where
  "sha256_init =
    [1779033703, 3144134277, 1013904242, 2773480762, 1359893119, 2600822924, 528734635, 1541459225]"

definition be32 :: "char \<Rightarrow> char \<Rightarrow> char \<Rightarrow> char \<Rightarrow> u32" where
  "be32 a b c d =
     of_nat (char_code a * 16777216 + char_code b * 65536 + char_code c * 256 + char_code d)"

definition put_be32 :: "u32 \<Rightarrow> bytes" where
  "put_be32 w =
     (let n = unat w in
      [char_of (n div 16777216), char_of (n div 65536 mod 256), char_of (n div 256 mod 256),
       char_of (n mod 256)])"

fun words_be :: "bytes \<Rightarrow> u32 list" where
  "words_be (a # b # c # d # r) = be32 a b c d # words_be r"
| "words_be _ = []"

definition sha256_pad :: "bytes \<Rightarrow> bytes" where
  "sha256_pad m =
     (let l = length m; z = (119 - l mod 64) mod 64
      in m @ CHR 0x80 # replicate z NUL
         @ put_be32 (of_nat (l * 8 div 4294967296)) @ put_be32 (of_nat (l * 8)))"

definition ssig0 :: "u32 \<Rightarrow> u32" where
  "ssig0 x = word_rotr 7 x XOR word_rotr 18 x XOR drop_bit 3 x"
definition ssig1 :: "u32 \<Rightarrow> u32" where
  "ssig1 x = word_rotr 17 x XOR word_rotr 19 x XOR drop_bit 10 x"
definition bsig0 :: "u32 \<Rightarrow> u32" where
  "bsig0 x = word_rotr 2 x XOR word_rotr 13 x XOR word_rotr 22 x"
definition bsig1 :: "u32 \<Rightarrow> u32" where
  "bsig1 x = word_rotr 6 x XOR word_rotr 11 x XOR word_rotr 25 x"

text \<open>The message schedule keeps the last sixteen words, newest first.\<close>

fun schedule :: "nat \<Rightarrow> u32 list \<Rightarrow> u32 list \<Rightarrow> u32 list" where
  "schedule 0 win acc = rev acc"
| "schedule (Suc n) win acc =
     (let w = ssig1 (win ! 1) + win ! 6 + ssig0 (win ! 14) + win ! 15
      in schedule n (w # take 15 win) (w # acc))"

type_synonym hstate = "u32 \<times> u32 \<times> u32 \<times> u32 \<times> u32 \<times> u32 \<times> u32 \<times> u32"

fun sha_round :: "hstate \<Rightarrow> u32 \<times> u32 \<Rightarrow> hstate" where
  "sha_round (a, b, c, d, e, f, g, h) (k, w) =
     (let t1 = h + bsig1 e + ((e AND f) XOR (NOT e AND g)) + k + w;
          t2 = bsig0 a + ((a AND b) XOR (a AND c) XOR (b AND c))
      in (t1 + t2, a, b, c, d + t1, e, f, g))"

fun hstate_add :: "hstate \<Rightarrow> hstate \<Rightarrow> hstate" where
  "hstate_add (a, b, c, d, e, f, g, h) (a', b', c', d', e', f', g', h') =
     (a + a', b + b', c + c', d + d', e + e', f + f', g + g', h + h')"

definition sha_block :: "hstate \<Rightarrow> u32 list \<Rightarrow> hstate" where
  "sha_block st ws =
     hstate_add st (foldl sha_round st (zip sha256_k (schedule 48 (rev ws) (rev ws))))"

fun sha_blocks :: "nat \<Rightarrow> hstate \<Rightarrow> u32 list \<Rightarrow> hstate" where
  "sha_blocks 0 st ws = st"
| "sha_blocks (Suc n) st ws = sha_blocks n (sha_block st (take 16 ws)) (drop 16 ws)"

fun hstate_bytes :: "hstate \<Rightarrow> bytes" where
  "hstate_bytes (a, b, c, d, e, f, g, h) =
     put_be32 a @ put_be32 b @ put_be32 c @ put_be32 d
     @ put_be32 e @ put_be32 f @ put_be32 g @ put_be32 h"

definition sha256_iv :: hstate where
  "sha256_iv =
     (sha256_init ! 0, sha256_init ! 1, sha256_init ! 2, sha256_init ! 3,
      sha256_init ! 4, sha256_init ! 5, sha256_init ! 6, sha256_init ! 7)"

definition sha256 :: "bytes \<Rightarrow> bytes" where
  "sha256 m =
     (let p = sha256_pad m in hstate_bytes (sha_blocks (length p div 64) sha256_iv (words_be p)))"

lemma length_put_be32 [simp]: "length (put_be32 w) = 4"
  by (simp add: put_be32_def Let_def)

lemma length_sha256 [simp]: "length (sha256 m) = 32"
proof -
  have "length (hstate_bytes st) = 32" for st by (induction st rule: hstate_bytes.induct) simp
  then show ?thesis by (simp add: sha256_def Let_def)
qed

section \<open>HMAC\<close>

definition xor_byte :: "nat \<Rightarrow> char \<Rightarrow> char" where
  "xor_byte n c = char_of (char_code c XOR n)"

definition hmac_key :: "bytes \<Rightarrow> bytes" where
  "hmac_key k = (let k' = if length k > 64 then sha256 k else k in k' @ replicate (64 - length k') NUL)"

definition hmac_sha256 :: "bytes \<Rightarrow> bytes \<Rightarrow> bytes" where
  "hmac_sha256 k m =
     sha256 (map (xor_byte 92) (hmac_key k) @ sha256 (map (xor_byte 54) (hmac_key k) @ m))"

section \<open>The interface of the code\<close>

locale mac_code =
  fixes mac :: "bytes \<Rightarrow> bytes \<Rightarrow> bytes" and mac_len :: nat
  assumes length_mac: "length (mac k m) = mac_len"
begin

text \<open>A tag of the wrong length never verifies.\<close>

lemma short_tag_rejected: "length t \<noteq> mac_len \<Longrightarrow> t \<noteq> mac k m"
  using length_mac by auto

end

interpretation sha: mac_code hmac_sha256 32
  by unfold_locales (simp add: hmac_sha256_def)

end
