(* ===== verification/Json.thy ===== *)
theory Json
  imports Prelude
begin

text \<open>
  \<open>json.Marshal\<close> on strings, string slices and string maps, the part of \<open>encoding/json\<close> whose exact
  output is signed by \<open>internal/auth\<close>: the escapes of \<open>appendString\<close> with HTML escaping on, invalid
  UTF-8 replaced by \<open>\ufffd\<close>. The lemmas say that no line break occurs in the output and that the
  output determines a valid UTF-8 input, whatever follows it.
\<close>

section \<open>UTF-8\<close>

definition in_range :: "nat \<Rightarrow> nat \<Rightarrow> char \<Rightarrow> bool" where
  "in_range a b c \<longleftrightarrow> a \<le> char_code c \<and> char_code c \<le> b"

abbreviation cont :: "char \<Rightarrow> bool" where "cont \<equiv> in_range 128 191"

text \<open>The size of the multi-byte rune a string starts with, \<open>None\<close> where \<open>utf8.DecodeRune\<close> fails.\<close>

fun rune_len :: "string \<Rightarrow> nat option" where
  "rune_len (a # b # r) =
     (if in_range 194 223 a then (if cont b then Some 2 else None)
      else case r of [] \<Rightarrow> None
      | c # r' \<Rightarrow>
        (if in_range 224 239 a then
           (if (if char_code a = 224 then in_range 160 191 b
                else if char_code a = 237 then in_range 128 159 b else cont b) \<and> cont c
            then Some 3 else None)
         else case r' of [] \<Rightarrow> None
         | d # _ \<Rightarrow>
           (if in_range 240 244 a \<and>
               (if char_code a = 240 then in_range 144 191 b
                else if char_code a = 244 then in_range 128 143 b else cont b) \<and> cont c \<and> cont d
            then Some 4 else None)))"
| "rune_len _ = None"

lemma rune_len_bounds: "rune_len s = Some n \<Longrightarrow> 2 \<le> n \<and> n \<le> length s \<and> n \<le> 4"
  by (induction s rule: rune_len.induct) (auto split: if_splits list.splits)

lemma rune_len_bytes: "rune_len s = Some n \<Longrightarrow> c \<in> set (take n s) \<Longrightarrow> 128 \<le> char_code c"
  by (induction s rule: rune_len.induct) (auto simp: in_range_def split: if_splits list.splits)

section \<open>Strings\<close>

definition hex_digit :: "nat \<Rightarrow> char" where
  "hex_digit n = (if n < 10 then char_of (48 + n) else char_of (87 + n))"

definition json_escape :: "char \<Rightarrow> string" where
  "json_escape c =
     (if c = DQUOTE \<or> c = BACKSLASH then [BACKSLASH, c]
      else if c = CHR 0x08 then [BACKSLASH, CHR ''b'']
      else if c = CHR 0x0C then [BACKSLASH, CHR ''f'']
      else if c = LF then [BACKSLASH, CHR ''n'']
      else if c = CR then [BACKSLASH, CHR ''r'']
      else if c = TAB then [BACKSLASH, CHR ''t'']
      else if char_code c < 32 \<or> c = CHR ''<'' \<or> c = CHR ''>'' \<or> c = CHR ''&''
        then [BACKSLASH, CHR ''u'', CHR ''0'', CHR ''0'', hex_digit (char_code c div 16),
              hex_digit (char_code c mod 16)]
      else [c])"

definition line_sep :: string where "line_sep = [CHR 0xE2, CHR 0x80, CHR 0xA8]"
definition para_sep :: string where "para_sep = [CHR 0xE2, CHR 0x80, CHR 0xA9]"

function json_body :: "string \<Rightarrow> string" where
  "json_body s =
     (if s = [] then []
      else if char_code (hd s) < 128 then json_escape (hd s) @ json_body (tl s)
      else case rune_len s of
        None \<Rightarrow> BACKSLASH # ''ufffd'' @ json_body (tl s)
      | Some n \<Rightarrow>
        (if take n s = line_sep then BACKSLASH # ''u2028''
         else if take n s = para_sep then BACKSLASH # ''u2029'' else take n s)
        @ json_body (drop n s))"
  by pat_completeness auto
termination
  by (relation "measure length") (auto dest: rune_len_bounds)

declare json_body.simps [simp del]

function utf8_valid :: "string \<Rightarrow> bool" where
  "utf8_valid s =
     (if s = [] then True
      else if char_code (hd s) < 128 then utf8_valid (tl s)
      else case rune_len s of None \<Rightarrow> False | Some n \<Rightarrow> utf8_valid (drop n s))"
  by pat_completeness auto
termination
  by (relation "measure length") (auto dest: rune_len_bounds)

declare utf8_valid.simps [simp del]

definition json_string :: "string \<Rightarrow> string" where
  "json_string s = DQUOTE # json_body s @ [DQUOTE]"

text \<open>\<open>json.Marshal\<close> of a \<open>[]string\<close>: the nil slice is \<open>null\<close>, not the empty array.\<close>

definition json_strings :: "string list option \<Rightarrow> string" where
  "json_strings xs =
     (case xs of None \<Rightarrow> ''null''
      | Some ys \<Rightarrow> CHR ''['' # join '','' (map json_string ys) @ '']'')"

section \<open>No line break in the output\<close>

lemma hex_digit_not_LF [simp]: "n < 16 \<Longrightarrow> hex_digit n \<noteq> LF"
  by (auto simp: hex_digit_def dest!: arg_cong [where f = "of_char :: char \<Rightarrow> nat"])

lemma LF_notin_json_escape: "LF \<notin> set (json_escape c)"
proof -
  have "char_code c div 16 < 16" using char_code_bound [of c] by linarith
  then have "LF \<noteq> hex_digit (char_code c div 16)" "LF \<noteq> hex_digit (char_code c mod 16)"
    using hex_digit_not_LF [of "char_code c div 16"] hex_digit_not_LF [of "char_code c mod 16"]
    by (simp_all only: not_sym mod_less_divisor) (metis mod_less_divisor zero_less_numeral)+
  then show ?thesis by (simp add: json_escape_def)
qed

lemma char_code_LF [simp]: "char_code LF = 10"
  by (simp add: char_code_def)

lemma LF_notin_json_body: "LF \<notin> set (json_body s)"
proof (induction s rule: json_body.induct)
  case (1 s)
  have "n \<noteq> 0 \<Longrightarrow> rune_len s = Some n \<Longrightarrow> LF \<notin> set (take n s)" for n
    using rune_len_bytes [of s n LF] by auto
  moreover have "rune_len s = Some n \<Longrightarrow> n \<noteq> 0" for n
    using rune_len_bounds [of s n] by auto
  ultimately show ?case
    using 1 LF_notin_json_escape
    by (subst json_body.simps) (auto split: option.splits)
qed

lemma LF_notin_json_string [simp]: "LF \<notin> set (json_string s)"
  by (simp add: json_string_def LF_notin_json_body)

lemma LF_notin_join: "LF \<notin> set sep \<Longrightarrow> \<forall>x \<in> set xs. LF \<notin> set x \<Longrightarrow> LF \<notin> set (join sep xs)"
  by (induction sep xs rule: join.induct) auto

lemma LF_notin_json_strings [simp]: "LF \<notin> set (json_strings xs)"
  by (auto simp: json_strings_def LF_notin_join split: option.splits)

section \<open>The output determines the input\<close>

text \<open>
  The reader of \<open>encoding/json\<close>, from behind the opening quote up to and including the closing one:
  all escapes, surrogate pairs, control characters refused, invalid UTF-8 replaced by U+FFFD.
\<close>

definition hex_val :: "char \<Rightarrow> nat option" where
  "hex_val c =
     (let n = char_code c
      in if 48 \<le> n \<and> n \<le> 57 then Some (n - 48) else if 97 \<le> n \<and> n \<le> 102 then Some (n - 87)
         else if 65 \<le> n \<and> n \<le> 70 then Some (n - 55) else None)"

fun hex4 :: "string \<Rightarrow> nat option" where
  "hex4 (a # b # c # d # r) =
     (case (hex_val a, hex_val b, hex_val c, hex_val d) of
        (Some w, Some x, Some y, Some z) \<Rightarrow> Some (((w * 16 + x) * 16 + y) * 16 + z)
      | _ \<Rightarrow> None)"
| "hex4 _ = None"

definition utf8_encode :: "nat \<Rightarrow> string" where
  "utf8_encode u =
     (if u < 128 then [char_of u]
      else if u < 2048 then [char_of (192 + u div 64), char_of (128 + u mod 64)]
      else if u < 65536 then [char_of (224 + u div 4096), char_of (128 + u div 64 mod 64), char_of (128 + u mod 64)]
      else [char_of (240 + u div 262144), char_of (128 + u div 4096 mod 64), char_of (128 + u div 64 mod 64),
            char_of (128 + u mod 64)])"

definition replacement :: string where "replacement = [CHR 0xEF, CHR 0xBF, CHR 0xBD]"

text \<open>The rune of \<open>\uXXXX\<close> with the digits at the head of \<open>r\<close>, and what is left behind it.\<close>

definition read_u :: "string \<Rightarrow> (string \<times> string) option" where
  "read_u r =
     (case hex4 r of
        None \<Rightarrow> None
      | Some u \<Rightarrow>
        (let r' = drop 4 r
         in if u < 55296 \<or> 57343 < u then Some (utf8_encode u, r')
            else case (if take 2 r' = [BACKSLASH, CHR ''u''] then hex4 (drop 2 r') else None) of
                   Some v \<Rightarrow>
                     (if u < 56320 \<and> 56320 \<le> v \<and> v \<le> 57343
                      then Some (utf8_encode (65536 + (u - 55296) * 1024 + (v - 56320)), drop 6 r')
                      else Some (replacement, r'))
                 | None \<Rightarrow> Some (replacement, r')))"

definition simple_escape :: "char \<Rightarrow> char option" where
  "simple_escape e =
     (if e = DQUOTE \<or> e = BACKSLASH \<or> e = CHR ''/'' then Some e
      else if e = CHR ''b'' then Some (CHR 0x08) else if e = CHR ''f'' then Some (CHR 0x0C)
      else if e = CHR ''n'' then Some LF else if e = CHR ''r'' then Some CR
      else if e = CHR ''t'' then Some TAB else None)"

text \<open>One item of a string literal: the bytes it stands for and the rest.\<close>

fun read_item :: "string \<Rightarrow> (string \<times> string) option" where
  "read_item [] = None"
| "read_item (c # r) =
     (if c = BACKSLASH then
        (case r of [] \<Rightarrow> None
         | e # r1 \<Rightarrow> if e = CHR ''u'' then read_u r1
                     else map_option (\<lambda>x. ([x], r1)) (simple_escape e))
      else if char_code c < 32 then None
      else if char_code c < 128 then Some ([c], r)
      else case rune_len (c # r) of None \<Rightarrow> Some (replacement, r)
           | Some n \<Rightarrow> Some (take n (c # r), drop n (c # r)))"

lemma read_u_shorter: "read_u r = Some (x, r') \<Longrightarrow> length r' < length r"
proof -
  assume h: "read_u r = Some (x, r')"
  have "4 \<le> length r" using h by (induction r rule: hex4.induct) (auto simp: read_u_def)
  then show ?thesis using h by (auto simp: read_u_def Let_def split: option.splits if_splits)
qed

lemma read_item_shorter: "read_item s = Some (x, s') \<Longrightarrow> length s' < length s"
proof (cases s)
  case (Cons c r)
  assume h: "read_item s = Some (x, s')"
  show ?thesis
  proof (cases "c = BACKSLASH")
    case True
    with h Cons show ?thesis by (auto split: list.splits if_splits dest: read_u_shorter)
  next
    case False
    with h Cons show ?thesis by (auto split: option.splits if_splits dest: rune_len_bounds)
  qed
qed simp

function read_str :: "string \<Rightarrow> (string \<times> string) option" where
  "read_str s =
     (if s \<noteq> [] \<and> hd s = DQUOTE then Some ([], tl s)
      else case read_item s of
        None \<Rightarrow> None
      | Some (x, s') \<Rightarrow> map_option (apfst (append x)) (read_str s'))"
  by pat_completeness auto
termination
  by (relation "measure length") (auto dest: read_item_shorter)

declare read_str.simps [simp del]

lemma read_str_item:
  "read_item s = Some (x, s') \<Longrightarrow> hd s \<noteq> DQUOTE \<Longrightarrow> read_str s = map_option (apfst (append x)) (read_str s')"
  by (simp add: read_str.simps [of s])

lemma hex_digit_inverse: "n < 16 \<Longrightarrow> hex_val (hex_digit n) = Some n"
  by (auto simp: hex_val_def hex_digit_def char_code_def Let_def)

lemma json_escape_item:
  assumes "char_code c < 128"
  shows "read_item (json_escape c @ t) = Some ([c], t)" "hd (json_escape c @ t) \<noteq> DQUOTE"
proof -
  have d: "char_code c div 16 < 16" using assms by simp
  have z: "hex_val CHR ''0'' = Some 0" by (simp add: hex_val_def char_code_def)
  have "utf8_encode (char_code c) = [c]" using assms by (simp add: utf8_encode_def char_code_def)
  then show "read_item (json_escape c @ t) = Some ([c], t)"
    using assms d by (auto simp: json_escape_def read_u_def simple_escape_def hex_digit_inverse z Let_def)
  show "hd (json_escape c @ t) \<noteq> DQUOTE" by (auto simp: json_escape_def)
qed

lemma read_item_rune:
  "rune_len (u @ t) = Some (length u) \<Longrightarrow> u \<noteq> [] \<Longrightarrow> 128 \<le> char_code (hd u) \<Longrightarrow> read_item (u @ t) = Some (u, t)"
  by (cases u) (auto simp: char_code_def)

lemma rune_len_take: "rune_len s = Some n \<Longrightarrow> rune_len (take n s @ t) = Some n"
  by (induction s rule: rune_len.induct) (auto split: if_splits list.splits)

lemma sep_chars:
  "char_of (226 :: nat) = CHR 0xE2" "char_of (128 :: nat) = CHR 0x80"
  "char_of (168 :: nat) = CHR 0xA8" "char_of (169 :: nat) = CHR 0xA9"
  by code_simp+

lemma sep_items:
  "read_item (BACKSLASH # ''u2028'' @ t) = Some (line_sep, t)"
  "read_item (BACKSLASH # ''u2029'' @ t) = Some (para_sep, t)"
  by (simp_all add: read_u_def hex_val_def char_code_def utf8_encode_def line_sep_def para_sep_def sep_chars)

lemma read_str_body:
  "utf8_valid s \<Longrightarrow> read_str (json_body s @ DQUOTE # t) = Some (s, t)"
proof (induction s rule: json_body.induct)
  case (1 s)
  consider "s = []" | "s \<noteq> []" "char_code (hd s) < 128" | "s \<noteq> []" "\<not> char_code (hd s) < 128" by blast
  then show ?case
  proof cases
    case 1
    then show ?thesis by (simp add: json_body.simps read_str.simps)
  next
    case 2
    note item = json_escape_item [OF 2(2), of "json_body (tl s) @ DQUOTE # t"]
    show ?thesis using "1.IH"(1) "1.prems" 2 read_str_item [OF item]
      by (simp add: json_body.simps [of s] utf8_valid.simps [of s])
  next
    case 3
    with "1.prems" obtain n where n: "rune_len s = Some n" and v: "utf8_valid (drop n s)"
      by (auto simp: utf8_valid.simps [of s] split: option.splits)
    have IH: "read_str (json_body (drop n s) @ DQUOTE # t) = Some (drop n s, t)"
      using "1.IH"(3) 3 n v by simp
    let ?r = "json_body (drop n s) @ DQUOTE # t"
    have b: "2 \<le> n" "n \<le> length s" using rune_len_bounds [OF n] by auto
    have "hd (take n s) \<in> set (take n s)" using b 3 by (intro hd_in_set) auto
    then have h: "128 \<le> char_code (hd (take n s))" using rune_len_bytes [OF n] by blast
    then have q: "hd (take n s @ ?r) \<noteq> DQUOTE" using b 3 by (cases s; cases n) (auto simp: char_code_def)
    have "read_item (take n s @ ?r) = Some (take n s, ?r)"
      using b 3 h rune_len_take [OF n, of ?r] by (intro read_item_rune) auto
    note plain = read_str_item [OF this q]
    have seps: "read_str (BACKSLASH # ''u2028'' @ ?r) = map_option (apfst (append line_sep)) (read_str ?r)"
      "read_str (BACKSLASH # ''u2029'' @ ?r) = map_option (apfst (append para_sep)) (read_str ?r)"
      using read_str_item [OF sep_items(1) [of ?r]] read_str_item [OF sep_items(2) [of ?r]] by simp_all
    have "json_body s @ DQUOTE # t =
        (if take n s = line_sep then BACKSLASH # ''u2028'' @ ?r
         else if take n s = para_sep then BACKSLASH # ''u2029'' @ ?r else take n s @ ?r)"
      using 3 n by (simp add: json_body.simps [of s])
    then show ?thesis using IH plain seps append_take_drop_id [of n s]
      by (auto simp del: append_take_drop_id append.simps append_Cons)
  qed
qed

lemma json_string_cancel:
  assumes "utf8_valid s" "utf8_valid s'" "json_string s @ t = json_string s' @ t'"
  shows "s = s' \<and> t = t'"
proof -
  have "json_body s @ DQUOTE # t = json_body s' @ DQUOTE # t'"
    using assms(3) by (simp add: json_string_def)
  with read_str_body [OF assms(1), of t] read_str_body [OF assms(2), of t']
  have "Some (s, t) = Some (s', t')" by (simp only:)
  then show ?thesis by simp
qed

section \<open>Lists of encoded items\<close>

text \<open>
  The contract of an item encoding: an encoded item starts with a quote and is recognised whatever
  follows it. A comma-separated list of such items is then recognised up to its closing bracket.
\<close>

locale item_code =
  fixes enc :: "'a \<Rightarrow> string" and ok :: "'a \<Rightarrow> bool"
  assumes cancel: "ok x \<Longrightarrow> ok y \<Longrightarrow> enc x @ t = enc y @ t' \<Longrightarrow> x = y \<and> t = t'"
    and starts: "\<exists>r. enc x = DQUOTE # r"
begin

lemma list_starts: "\<exists>r. join '','' (map enc (x # xs)) = DQUOTE # r"
  using starts [of x] by (cases xs) auto

lemma list_cancel:
  assumes "\<forall>x \<in> set xs. ok x" "\<forall>x \<in> set ys. ok x" and z: "z \<noteq> DQUOTE" "z \<noteq> CHR '',''"
    and "join '','' (map enc xs) @ z # t = join '','' (map enc ys) @ z # t'"
  shows "xs = ys \<and> t = t'"
  using assms(1,2,5)
proof (induction xs arbitrary: ys)
  case Nil
  show ?case
  proof (cases ys)
    case Nil
    with Nil.prems(3) show ?thesis by simp
  next
    case (Cons y zs)
    obtain r where "join '','' (map enc ys) = DQUOTE # r"
      using list_starts [of y zs] Cons by blast
    with Nil.prems(3) z show ?thesis by simp
  qed
next
  case (Cons x xs)
  obtain y ys' where ys: "ys = y # ys'"
    using Cons.prems(3) list_starts [of x xs] z by (cases ys) auto
  define u where "u = (if xs = [] then z # t else CHR '','' # join '','' (map enc xs) @ z # t)"
  define u' where "u' = (if ys' = [] then z # t' else CHR '','' # join '','' (map enc ys') @ z # t')"
  have "join '','' (map enc (x # xs)) @ z # t = enc x @ u"
    by (cases xs) (simp_all add: u_def)
  moreover have "join '','' (map enc ys) @ z # t' = enc y @ u'"
    unfolding ys by (cases ys') (simp_all add: u'_def)
  ultimately have "enc x @ u = enc y @ u'"
    using Cons.prems(3) by (simp only:)
  with Cons.prems(1,2) ys have xy: "x = y" and uu: "u = u'"
    using cancel [of x y u u'] by auto
  show ?case
  proof (cases "xs = [] \<or> ys' = []")
    case True
    with uu xy ys z show ?thesis by (auto simp: u_def u'_def split: if_splits)
  next
    case False
    with uu have "join '','' (map enc xs) @ z # t = join '','' (map enc ys') @ z # t'"
      by (simp add: u_def u'_def)
    with Cons.IH [of ys'] Cons.prems ys xy show ?thesis by simp
  qed
qed

end

interpretation js: item_code json_string utf8_valid
  by unfold_locales (erule (2) json_string_cancel, simp add: json_string_def)

definition args_valid :: "string list option \<Rightarrow> bool" where
  "args_valid xs \<longleftrightarrow> (case xs of None \<Rightarrow> True | Some ys \<Rightarrow> \<forall>y \<in> set ys. utf8_valid y)"

lemma json_strings_inj:
  assumes "args_valid xs" "args_valid ys" "json_strings xs = json_strings ys"
  shows "xs = ys"
  using assms js.list_cancel [where z = "CHR '']''" and t = "[]" and t' = "[]"]
  by (auto simp: args_valid_def json_strings_def split: option.splits)

section \<open>String maps\<close>

text \<open>One entry \<open>"key":"value"\<close> of a JSON object.\<close>

definition json_entry :: "string \<times> string \<Rightarrow> string" where
  "json_entry p = json_string (fst p) @ '':'' @ json_string (snd p)"

definition entry_valid :: "string \<times> string \<Rightarrow> bool" where
  "entry_valid p \<longleftrightarrow> utf8_valid (fst p) \<and> utf8_valid (snd p)"

lemma json_entry_cancel:
  assumes "entry_valid p" "entry_valid q" "json_entry p @ t = json_entry q @ t'"
  shows "p = q \<and> t = t'"
proof -
  have "fst p = fst q \<and> '':'' @ json_string (snd p) @ t = '':'' @ json_string (snd q) @ t'"
    using assms by (intro json_string_cancel) (auto simp: entry_valid_def json_entry_def)
  then have "fst p = fst q" "json_string (snd p) @ t = json_string (snd q) @ t'" by auto
  moreover from this assms have "snd p = snd q \<and> t = t'"
    by (intro json_string_cancel) (auto simp: entry_valid_def)
  ultimately show ?thesis by (simp add: prod_eq_iff)
qed

lemma LF_notin_json_entry [simp]: "LF \<notin> set (json_entry p)"
  by (simp add: json_entry_def)

interpretation je: item_code json_entry entry_valid
  by unfold_locales (erule (2) json_entry_cancel, simp add: json_entry_def json_string_def)

end
