(* ===== verification/Auth.thy ===== *)
theory Auth
  imports Base64 Hmac Json
begin

text \<open>
  \<open>internal/auth/auth.go\<close>: the signed message of a request, its HMAC, the freshness check on the
  timestamp and the verification the daemon runs on every request. The authentication code is a
  parameter \<open>mac\<close> of the definitions; the program's own is \<open>hmac_sha256\<close>.
\<close>

type_synonym mac_fun = "bytes \<Rightarrow> bytes \<Rightarrow> bytes"

definition MaxTimestampDrift :: duration where "MaxTimestampDrift = 5 * second"

definition SecretSize :: nat where "SecretSize = 32"
definition NonceSize :: nat where "NonceSize = 16"

datatype auth_error = ErrInvalidTimestamp | ErrInvalidSignature | ErrDecodeExpected

section \<open>The signed message\<close>

definition map_get :: "(string, string) gomap \<Rightarrow> string \<Rightarrow> string" where
  "map_get m k = (case map_of m k of None \<Rightarrow> [] | Some v \<Rightarrow> v)"

definition marshalEnvCanonical :: "(string, string) gomap \<Rightarrow> string" where
  "marshalEnvCanonical env =
     (if length env = 0 then ''{}''
      else let keys = sort (map fst env)
           in CHR ''{'' # join '','' (map (\<lambda>k. json_string k @ '':'' @ json_string (map_get env k)) keys) @ ''}'')"

definition hmac_message ::
  "string \<Rightarrow> string \<Rightarrow> string \<Rightarrow> string list option \<Rightarrow> (string, string) gomap \<Rightarrow> string \<Rightarrow> bool \<Rightarrow> string"
where
  "hmac_message timestamp tool cwd args env nonce usePTY =
     timestamp @ LF # tool @ LF # json_strings args @ LF # cwd @ LF # marshalEnvCanonical env
     @ LF # nonce @ LF # (if usePTY then ''1'' else ''0'')"

definition ComputeHMACWithPTY ::
  "mac_fun \<Rightarrow> bytes \<Rightarrow> string \<Rightarrow> string \<Rightarrow> string \<Rightarrow> string list option \<Rightarrow> (string, string) gomap
   \<Rightarrow> string \<Rightarrow> bool \<Rightarrow> string"
where
  "ComputeHMACWithPTY mac secret timestamp tool cwd args env nonce usePTY =
     b64_encode StdEncoding (mac secret (hmac_message timestamp tool cwd args env nonce usePTY))"

definition ComputeHMACWithEnv ::
  "mac_fun \<Rightarrow> bytes \<Rightarrow> string \<Rightarrow> string \<Rightarrow> string \<Rightarrow> string list option \<Rightarrow> (string, string) gomap
   \<Rightarrow> string \<Rightarrow> string"
where
  "ComputeHMACWithEnv mac secret timestamp tool cwd args env nonce =
     ComputeHMACWithPTY mac secret timestamp tool cwd args env nonce False"

definition ComputeHMAC ::
  "mac_fun \<Rightarrow> bytes \<Rightarrow> string \<Rightarrow> string \<Rightarrow> string \<Rightarrow> string list option \<Rightarrow> string \<Rightarrow> string"
where
  "ComputeHMAC mac secret timestamp tool cwd args nonce =
     ComputeHMACWithEnv mac secret timestamp tool cwd args [] nonce"

section \<open>Freshness\<close>

text \<open>
  \<open>time.Unix(s, 0)\<close> stores \<open>s\<close> plus the seconds from year 1 to 1970 in an \<open>int64\<close>; the sum wraps
  for the largest \<open>s\<close>.
\<close>

definition unix_time :: "int \<Rightarrow> time" where
  "unix_time s = (wrap64 (s + 62135596800) - 62135596800) * second"

definition ValidateTimestamp :: "string \<Rightarrow> time \<Rightarrow> auth_error option" where
  "ValidateTimestamp timestamp now =
     (case parse_int64 timestamp of
        None \<Rightarrow> Some ErrInvalidTimestamp
      | Some ts \<Rightarrow>
        (let drift = time_sub now (unix_time ts);
             drift = (if drift < 0 then wrap64 (- drift) else drift)
         in if drift > MaxTimestampDrift then Some ErrInvalidTimestamp else None))"

section \<open>Verification\<close>

definition VerifyHMACWithPTY ::
  "mac_fun \<Rightarrow> time \<Rightarrow> bytes \<Rightarrow> string \<Rightarrow> string \<Rightarrow> string \<Rightarrow> string list option \<Rightarrow> (string, string) gomap
   \<Rightarrow> string \<Rightarrow> bool \<Rightarrow> string \<Rightarrow> auth_error option"
where
  "VerifyHMACWithPTY mac now secret timestamp tool cwd args env nonce usePTY providedHMAC =
     (case ValidateTimestamp timestamp now of
        Some e \<Rightarrow> Some e
      | None \<Rightarrow>
        (let expectedHMAC = ComputeHMACWithPTY mac secret timestamp tool cwd args env nonce usePTY
         in case b64_decode StdEncoding providedHMAC of
              None \<Rightarrow> Some ErrInvalidSignature
            | Some provided \<Rightarrow>
              (case b64_decode StdEncoding expectedHMAC of
                 None \<Rightarrow> Some ErrDecodeExpected
               | Some expected \<Rightarrow>
                 if provided \<noteq> expected then Some ErrInvalidSignature else None)))"

definition VerifyHMACWithEnv ::
  "mac_fun \<Rightarrow> time \<Rightarrow> bytes \<Rightarrow> string \<Rightarrow> string \<Rightarrow> string \<Rightarrow> string list option \<Rightarrow> (string, string) gomap
   \<Rightarrow> string \<Rightarrow> string \<Rightarrow> auth_error option"
where
  "VerifyHMACWithEnv mac now secret timestamp tool cwd args env nonce providedHMAC =
     VerifyHMACWithPTY mac now secret timestamp tool cwd args env nonce False providedHMAC"

definition VerifyHMAC ::
  "mac_fun \<Rightarrow> time \<Rightarrow> bytes \<Rightarrow> string \<Rightarrow> string \<Rightarrow> string \<Rightarrow> string list option \<Rightarrow> string \<Rightarrow> string
   \<Rightarrow> auth_error option"
where
  "VerifyHMAC mac now secret timestamp tool cwd args nonce providedHMAC =
     VerifyHMACWithEnv mac now secret timestamp tool cwd args [] nonce providedHMAC"

lemmas auth_wrappers = ComputeHMACWithEnv_def ComputeHMAC_def VerifyHMACWithEnv_def VerifyHMAC_def

section \<open>Facts on the freshness check\<close>

lemma unix_time_id:
  "in_int64 (ts + 62135596800) \<Longrightarrow> unix_time ts = ts * second"
  by (simp add: unix_time_def wrap64_id)

lemma time_sub_exact: "in_int64 (t - u) \<Longrightarrow> time_sub t u = t - u"
  by (auto simp: time_sub_def in_int64_def)

text \<open>
  What the check accepts: times within the drift, and times so far ahead that the difference
  saturates at the least duration, whose negation is itself.
\<close>

lemma ValidateTimestamp_iff:
  assumes "parse_int64 s = Some ts"
  shows "ValidateTimestamp s now = None \<longleftrightarrow>
    \<bar>now - unix_time ts\<bar> \<le> MaxTimestampDrift \<or> now - unix_time ts \<le> min_int64"
proof -
  define d where "d = now - unix_time ts"
  consider "d \<le> min_int64" | "min_int64 < d" "d < 0" | "0 \<le> d" by linarith
  then show ?thesis
  proof cases
    case 1
    then have "time_sub now (unix_time ts) = min_int64"
      by (simp add: time_sub_def d_def min_int64_def max_int64_def)
    moreover have "wrap64 (- min_int64) = min_int64" by (simp add: wrap64_def min_int64_def)
    ultimately show ?thesis
      using 1 assms by (simp add: ValidateTimestamp_def MaxTimestampDrift_def min_int64_def d_def)
  next
    case 2
    then have "time_sub now (unix_time ts) = d" "wrap64 (- d) = - d"
      by (simp_all add: time_sub_def d_def wrap64_id in_int64_def min_int64_def max_int64_def)
    with 2 assms show ?thesis by (simp add: ValidateTimestamp_def d_def)
  next
    case 3
    then have "time_sub now (unix_time ts) = min max_int64 d"
      by (auto simp: time_sub_def d_def min_int64_def max_int64_def)
    with 3 assms show ?thesis
      by (auto simp: ValidateTimestamp_def d_def MaxTimestampDrift_def min_int64_def max_int64_def
          Let_def split: if_splits)
  qed
qed

section \<open>Facts on the signed message\<close>

lemma LF_notin_marshalEnvCanonical [simp]: "LF \<notin> set (marshalEnvCanonical env)"
  using LF_notin_json_entry
  by (auto simp: marshalEnvCanonical_def Let_def LF_notin_join)

definition env_entries :: "(string, string) gomap \<Rightarrow> (string \<times> string) list" where
  "env_entries env = map (\<lambda>k. (k, map_get env k)) (sort (map fst env))"

definition env_valid :: "(string, string) gomap \<Rightarrow> bool" where
  "env_valid env \<longleftrightarrow> gomap_ok env \<and> (\<forall>p \<in> set env. entry_valid p)"

lemma marshalEnvCanonical_entries:
  "marshalEnvCanonical env = CHR ''{'' # join '','' (map json_entry (env_entries env)) @ ''}''"
  by (auto simp: marshalEnvCanonical_def env_entries_def json_entry_def Let_def comp_def)

lemma map_of_env_entries: "map_of (env_entries env) = map_of env"
proof -
  have "map_of (map (\<lambda>k. (k, map_get env k)) ks) x = (if x \<in> set ks then Some (map_get env x) else None)" for ks x
    by (induction ks) auto
  note lookup = this
  show ?thesis
  proof
    fix x
    show "map_of (env_entries env) x = map_of env x"
      using lookup [of "sort (map fst env)" x] map_of_eq_None_iff [of env x]
      by (cases "map_of env x") (simp_all add: env_entries_def map_get_def)
  qed
qed

lemma env_entries_valid: "env_valid env \<Longrightarrow> \<forall>p \<in> set (env_entries env). entry_valid p"
proof
  fix p
  assume v: "env_valid env" and p: "p \<in> set (env_entries env)"
  then obtain k where k: "k \<in> set (map fst env)" "p = (k, map_get env k)" by (auto simp: env_entries_def)
  then obtain w where w: "map_of env k = Some w" by (metis map_of_eq_None_iff not_Some_eq set_map)
  then have "(k, w) \<in> set env" by (rule map_of_SomeD)
  with v k w show "entry_valid p" by (auto simp: env_valid_def map_get_def)
qed

lemma marshalEnvCanonical_inj:
  assumes "env_valid env" "env_valid env'" "marshalEnvCanonical env = marshalEnvCanonical env'"
  shows "map_of env = map_of env'"
proof -
  have "env_entries env = env_entries env' \<and> ([] :: string) = []"
    using assms(3) env_entries_valid [OF assms(1)] env_entries_valid [OF assms(2)]
    by (intro je.list_cancel [where z = "CHR ''}''"]) (simp_all add: marshalEnvCanonical_entries)
  then show ?thesis using map_of_env_entries by metis
qed

text \<open>The fields of a message, read back at the line breaks.\<close>

lemma hmac_message_fields:
  assumes "LF \<notin> set ts" "LF \<notin> set tool" "LF \<notin> set cwd" "LF \<notin> set nonce"
  shows "split_char LF (hmac_message ts tool cwd args env nonce pty) =
    [ts, tool, json_strings args, cwd, marshalEnvCanonical env, nonce, if pty then ''1'' else ''0'']"
  using assms by (simp add: hmac_message_def split_char_append)

text \<open>Verification succeeds exactly on a fresh timestamp and a text that decodes to the code.\<close>

lemma VerifyHMACWithPTY_iff:
  "VerifyHMACWithPTY mac now secret ts tool cwd args env nonce pty h = None \<longleftrightarrow>
     ValidateTimestamp ts now = None \<and>
     b64_decode StdEncoding h = Some (mac secret (hmac_message ts tool cwd args env nonce pty))"
  by (auto simp: VerifyHMACWithPTY_def ComputeHMACWithPTY_def Let_def split: option.splits)

lemma ValidateTimestamp_parses: "ValidateTimestamp s now = None \<Longrightarrow> \<exists>ts. parse_int64 s = Some ts"
  by (auto simp: ValidateTimestamp_def split: option.splits)

section \<open>Properties\<close>

text \<open>C3: A signature binds every field of a request. If one HMAC text verifies for two requests
  whose tool, working directory and nonce hold no line break and whose arguments and environment
  are valid UTF-8, and the authentication code does not collide on the two messages, then the
  requests agree in timestamp, tool, working directory, arguments, environment (as maps, in any
  iteration order), nonce and PTY flag.\<close>

theorem signature_binds_fields:
  assumes v: "VerifyHMACWithPTY mac now secret ts tool cwd args env nonce pty h = None"
    and v': "VerifyHMACWithPTY mac now' secret ts' tool' cwd' args' env' nonce' pty' h = None"
    and nl: "LF \<notin> set tool" "LF \<notin> set cwd" "LF \<notin> set nonce"
    and nl': "LF \<notin> set tool'" "LF \<notin> set cwd'" "LF \<notin> set nonce'"
    and valid: "args_valid args" "args_valid args'" "env_valid env" "env_valid env'"
    and no_collision:
      "mac secret (hmac_message ts tool cwd args env nonce pty) =
       mac secret (hmac_message ts' tool' cwd' args' env' nonce' pty') \<Longrightarrow>
       hmac_message ts tool cwd args env nonce pty = hmac_message ts' tool' cwd' args' env' nonce' pty'"
  shows "ts = ts' \<and> tool = tool' \<and> cwd = cwd' \<and> args = args' \<and> map_of env = map_of env' \<and>
    nonce = nonce' \<and> pty = pty'"
proof -
  from v v' have fresh: "LF \<notin> set ts" "LF \<notin> set ts'"
    by (auto simp: VerifyHMACWithPTY_iff dest!: ValidateTimestamp_parses dest: parse_int64_no_LF)
  from v v' have "hmac_message ts tool cwd args env nonce pty = hmac_message ts' tool' cwd' args' env' nonce' pty'"
    by (intro no_collision) (simp add: VerifyHMACWithPTY_iff)
  with hmac_message_fields [OF fresh(1) nl] hmac_message_fields [OF fresh(2) nl']
  have "[ts, tool, json_strings args, cwd, marshalEnvCanonical env, nonce, if pty then ''1'' else ''0'']
    = [ts', tool', json_strings args', cwd', marshalEnvCanonical env', nonce', if pty' then ''1'' else ''0'']"
    by metis
  then show ?thesis
    using json_strings_inj [OF valid(1,2)] marshalEnvCanonical_inj [OF valid(3,4)]
    by (auto split: if_splits)
qed

lemma fresh_100: "ValidateTimestamp ''100'' 100000000000 = None"
  by (simp add: ValidateTimestamp_def, code_simp)

theorem signature_binds_fields_witness:
  "map_of [(''A'', ''1''), (''B'', ''2'')] = map_of [(''B'', ''2''), (''A'', ''1'')] \<and>
   VerifyHMACWithPTY (\<lambda>k m. m) (100 * second) ''k'' ''100'' ''gh'' ''/w'' (Some [''x''])
     [(''A'', ''1''), (''B'', ''2'')] ''n'' True
     (ComputeHMACWithPTY (\<lambda>k m. m) ''k'' ''100'' ''gh'' ''/w'' (Some [''x''])
       [(''B'', ''2''), (''A'', ''1'')] ''n'' True) = None"
proof -
  let ?e = "[(''A'', ''1''), (''B'', ''2'')]" and ?e' = "[(''B'', ''2''), (''A'', ''1'')]"
  let ?h = "ComputeHMACWithPTY (\<lambda>k m. m) ''k'' ''100'' ''gh'' ''/w'' (Some [''x'']) ?e' ''n'' True"
  have m: "hmac_message ''100'' ''gh'' ''/w'' (Some [''x'']) ?e ''n'' True
      = hmac_message ''100'' ''gh'' ''/w'' (Some [''x'']) ?e' ''n'' True" by code_simp
  have v': "VerifyHMACWithPTY (\<lambda>k m. m) (100 * second) ''k'' ''100'' ''gh'' ''/w'' (Some [''x'']) ?e' ''n'' True ?h = None"
    by (simp add: VerifyHMACWithPTY_iff fresh_100 ComputeHMACWithPTY_def)
  have v: "VerifyHMACWithPTY (\<lambda>k m. m) (100 * second) ''k'' ''100'' ''gh'' ''/w'' (Some [''x'']) ?e ''n'' True ?h = None"
    by (simp add: VerifyHMACWithPTY_iff fresh_100 ComputeHMACWithPTY_def m)
  have ok: "args_valid (Some [''x''])" "env_valid ?e" "env_valid ?e'" by code_simp+
  have nl: "LF \<notin> set ''gh''" "LF \<notin> set ''/w''" "LF \<notin> set ''n''" by simp_all
  from signature_binds_fields [OF v v' nl nl ok(1) ok(1) ok(2) ok(3)] v show ?thesis by blast
qed

text \<open>Whatever the wrapper signs the daemon verifies: a signature computed over a request
  verifies for that request at every moment within five seconds of its timestamp (timestamps in the
  range a clock can show, up to the year 292277026596).\<close>

lemma verify_accepts_own_signature:
  assumes "min_int64 \<le> ts" "ts + 62135596800 \<le> max_int64" "\<bar>now - ts * second\<bar> \<le> MaxTimestampDrift"
  shows "VerifyHMACWithPTY mac now secret (format_int ts) tool cwd args env nonce pty
    (ComputeHMACWithPTY mac secret (format_int ts) tool cwd args env nonce pty) = None"
proof -
  from assms(1,2) have r: "in_int64 ts" "in_int64 (ts + 62135596800)" by (auto simp: in_int64_def)
  have "ValidateTimestamp (format_int ts) now = None"
    using assms(3) by (simp add: ValidateTimestamp_iff [OF parse_int64_format_int [OF r(1)]] unix_time_id [OF r(2)])
  then show ?thesis by (simp add: VerifyHMACWithPTY_iff ComputeHMACWithPTY_def)
qed

lemma verify_accepts_own_signature_witness:
  "VerifyHMACWithPTY hmac_sha256 (1700000003 * second) ''secret'' (format_int 1700000000) ''gh'' ''/w''
     (Some [''repo'', ''list'']) [(''TERM'', ''xterm'')] ''nonce'' True
     (ComputeHMACWithPTY hmac_sha256 ''secret'' (format_int 1700000000) ''gh'' ''/w''
       (Some [''repo'', ''list'']) [(''TERM'', ''xterm'')] ''nonce'' True) = None"
  by (rule verify_accepts_own_signature)
    (simp_all add: MaxTimestampDrift_def min_int64_def max_int64_def)

text \<open>The freshness window, exactly. A well-formed timestamp is accepted when it lies within five
  seconds of the clock, on either side, and also when it lies so far in the future (some 292 years
  or more) that \<open>now.Sub\<close> saturates at the least duration: negating that duration overflows, stays
  negative and passes the comparison. Every other timestamp is refused.\<close>

lemma timestamp_window:
  assumes "parse_int64 s = Some ts"
  shows "ValidateTimestamp s now = None \<longleftrightarrow>
    \<bar>now - unix_time ts\<bar> \<le> MaxTimestampDrift \<or> unix_time ts - now \<ge> - min_int64"
  unfolding ValidateTimestamp_iff [OF assms] by linarith

lemma timestamp_window_witness:
  "ValidateTimestamp ''99999999999'' (1700000000 * second) = None \<and>
   ValidateTimestamp ''1700000006'' (1700000000 * second) \<noteq> None"
proof -
  have p: "parse_int64 ''99999999999'' = Some 99999999999" "parse_int64 ''1700000006'' = Some 1700000006"
    by code_simp+
  show ?thesis
    unfolding timestamp_window [OF p(1)] timestamp_window [OF p(2)]
    by (simp add: unix_time_def wrap64_def MaxTimestampDrift_def min_int64_def)
qed

text \<open>The text of an HMAC is not unique. Appending a line break to a text that verifies gives a
  different text that verifies for the same request, because the base64 decoder skips line breaks.\<close>

lemma hmac_text_malleable:
  assumes "VerifyHMACWithPTY mac now secret ts tool cwd args env nonce pty h = None"
  shows "VerifyHMACWithPTY mac now secret ts tool cwd args env nonce pty (h @ [LF]) = None \<and> h @ [LF] \<noteq> h"
  using assms by (simp add: VerifyHMACWithPTY_iff b64_decode_append_newline)

lemma hmac_text_malleable_witness:
  "VerifyHMACWithPTY hmac_sha256 (100 * second) ''k'' ''100'' ''gh'' ''/w'' None [] ''n'' False
     (ComputeHMACWithPTY hmac_sha256 ''k'' ''100'' ''gh'' ''/w'' None [] ''n'' False @ [LF]) = None"
proof -
  have "VerifyHMACWithPTY hmac_sha256 (100 * second) ''k'' ''100'' ''gh'' ''/w'' None [] ''n'' False
     (ComputeHMACWithPTY hmac_sha256 ''k'' ''100'' ''gh'' ''/w'' None [] ''n'' False) = None"
    by (simp add: VerifyHMACWithPTY_iff ComputeHMACWithPTY_def fresh_100)
  from hmac_text_malleable [OF this] show ?thesis by blast
qed

end
