(* ===== verification/Replay.thy ===== *)
theory Replay
  imports Prelude "HOL-Library.Multiset"
begin

text \<open>
  \<open>internal/auth/replay.go\<close>: the cache of recently seen request signatures. The entries are a Go map
  in one of its iteration orders; a step of the cache may start from any reordering of them, so the
  results hold for every order in which Go may walk the map. The interface the request handlers
  rely on is the locale \<open>replay_guard\<close>.
\<close>

section \<open>The cache and its operations\<close>

record replay_cache =
  ttl :: duration
  maxEntries :: int
  entries :: "(string, time) gomap"

definition default_ttl :: "duration \<Rightarrow> duration" where
  "default_ttl d = (if d \<le> 0 then 2 * minute else d)"

definition default_max :: "int \<Rightarrow> int" where
  "default_max n = (if n \<le> 0 then 10000 else n)"

definition NewReplayCache :: "duration \<Rightarrow> int \<Rightarrow> replay_cache" where
  "NewReplayCache d n = \<lparr>ttl = default_ttl d, maxEntries = default_max n, entries = []\<rparr>"

definition evictExpiredLocked :: "time \<Rightarrow> replay_cache \<Rightarrow> replay_cache" where
  "evictExpiredLocked now c = c\<lparr>entries := filter (\<lambda>(k, exp). \<not> now > exp) (entries c)\<rparr>"

fun evict_scan :: "(string, time) gomap \<Rightarrow> string \<Rightarrow> time \<Rightarrow> string" where
  "evict_scan [] oldestKey oldestExpiry = oldestKey"
| "evict_scan ((k, exp) # m) oldestKey oldestExpiry =
     (if oldestKey = '''' \<or> exp < oldestExpiry then evict_scan m k exp
      else evict_scan m oldestKey oldestExpiry)"

definition evictOneLocked :: "replay_cache \<Rightarrow> replay_cache" where
  "evictOneLocked c =
     (let oldestKey = evict_scan (entries c) '''' zero_time
      in if oldestKey \<noteq> '''' then c\<lparr>entries := map_del oldestKey (entries c)\<rparr> else c)"

definition SeenOrStore :: "string \<Rightarrow> time \<Rightarrow> replay_cache \<Rightarrow> bool \<times> replay_cache" where
  "SeenOrStore key now c =
     (let c = evictExpiredLocked now c
      in if (case map_of (entries c) key of Some exp \<Rightarrow> now < exp | None \<Rightarrow> False) then (True, c)
         else let c = (if int (length (entries c)) \<ge> maxEntries c then evictOneLocked c else c)
              in (False, c\<lparr>entries := map_set key (now + ttl c) (entries c)\<rparr>))"

text \<open>The trimming loop of \<open>UpdateSettings\<close>; it stops only if every eviction removes an entry.\<close>

partial_function (option) trim_loop :: "replay_cache \<Rightarrow> replay_cache option" where
  "trim_loop c = (if int (length (entries c)) > maxEntries c then trim_loop (evictOneLocked c) else Some c)"

definition UpdateSettings :: "duration \<Rightarrow> int \<Rightarrow> replay_cache \<Rightarrow> replay_cache option" where
  "UpdateSettings d n c = trim_loop (c\<lparr>ttl := default_ttl d, maxEntries := default_max n\<rparr>)"

section \<open>Invariant\<close>

definition cache_ok :: "replay_cache \<Rightarrow> bool" where
  "cache_ok c \<longleftrightarrow> gomap_ok (entries c) \<and> '''' \<notin> fst ` set (entries c) \<and> 0 < maxEntries c \<and> 0 < ttl c \<and>
     int (length (entries c)) \<le> maxEntries c"

lemma default_ttl_pos [simp]: "0 < default_ttl d"
  by (simp add: default_ttl_def)

lemma default_max_pos [simp]: "0 < default_max n"
  by (simp add: default_max_def)

lemma cache_ok_new [simp]: "cache_ok (NewReplayCache d n)"
  by (simp add: cache_ok_def NewReplayCache_def less_imp_le)

lemma evictExpired_ok [simp]: "cache_ok c \<Longrightarrow> cache_ok (evictExpiredLocked now c)"
proof -
  assume c: "cache_ok c"
  then have "int (length (filter (\<lambda>(k, exp). \<not> now > exp) (entries c))) \<le> maxEntries c"
    using length_filter_le [of "\<lambda>(k, exp). \<not> now > exp" "entries c"] unfolding cache_ok_def by linarith
  with c show ?thesis by (auto simp: cache_ok_def evictExpiredLocked_def)
qed

lemma evict_scan_least:
  assumes "'''' \<notin> fst ` set m" "ok \<noteq> ''''"
  shows "\<exists>e. (evict_scan m ok oe, e) \<in> set ((ok, oe) # m) \<and> (\<forall>p \<in> set ((ok, oe) # m). e \<le> snd p)"
  using assms
proof (induction m arbitrary: ok oe)
  case (Cons x m)
  obtain k e where x: "x = (k, e)" by (cases x)
  with Cons.prems have k: "k \<noteq> ''''" "'''' \<notin> fst ` set m" by auto
  show ?case
  proof (cases "e < oe")
    case True
    obtain e' where "(evict_scan m k e, e') \<in> set ((k, e) # m)" "\<forall>p \<in> set ((k, e) # m). e' \<le> snd p"
      using Cons.IH [OF k(2) k(1)] by blast
    with True Cons.prems x show ?thesis by (intro exI [of _ e']) auto
  next
    case False
    obtain e' where "(evict_scan m ok oe, e') \<in> set ((ok, oe) # m)" "\<forall>p \<in> set ((ok, oe) # m). e' \<le> snd p"
      using Cons.IH [OF k(2) Cons.prems(2)] by blast
    with False Cons.prems x show ?thesis by (intro exI [of _ e']) auto
  qed
qed simp

lemma evict_scan_entry:
  assumes "'''' \<notin> fst ` set m" "m \<noteq> []"
  shows "\<exists>e. (evict_scan m '''' z, e) \<in> set m \<and> (\<forall>p \<in> set m. e \<le> snd p)"
proof -
  obtain k e r where m: "m = (k, e) # r" using assms(2) by (cases m) auto
  with assms(1) have "k \<noteq> ''''" "'''' \<notin> fst ` set r" by auto
  with evict_scan_least [of r k e] show ?thesis by (simp add: m)
qed

lemma length_map_del: "gomap_ok m \<Longrightarrow> (k, v) \<in> set m \<Longrightarrow> Suc (length (map_del k m)) = length m"
proof (induction m)
  case (Cons x m)
  show ?case
  proof (cases "fst x = k")
    case True
    with Cons.prems(1) have "k \<notin> fst ` set m" by (auto simp: gomap_ok_def)
    then have "filter (\<lambda>(k', _). k' \<noteq> k) m = m" by (force simp: filter_id_conv)
    with True show ?thesis by (simp add: map_del_def case_prod_unfold)
  next
    case False
    with Cons show ?thesis by (auto simp: map_del_def gomap_ok_def)
  qed
qed simp

text \<open>One eviction removes exactly one entry, one whose expiry is least.\<close>

lemma evictOne_removes:
  assumes "gomap_ok (entries c)" "'''' \<notin> fst ` set (entries c)" "entries c \<noteq> []"
  shows "\<exists>k e. map_of (entries c) k = Some e \<and> (\<forall>p \<in> set (entries c). e \<le> snd p) \<and>
    evictOneLocked c = c\<lparr>entries := map_del k (entries c)\<rparr> \<and>
    Suc (length (entries (evictOneLocked c))) = length (entries c)"
proof -
  define k where "k = evict_scan (entries c) '''' zero_time"
  obtain e where e: "(k, e) \<in> set (entries c)" "\<forall>p \<in> set (entries c). e \<le> snd p"
    using evict_scan_entry [OF assms(2,3)] unfolding k_def by blast
  then have "k \<noteq> ''''" using assms(2) by force
  then have ev: "evictOneLocked c = c\<lparr>entries := map_del k (entries c)\<rparr>"
    by (simp add: evictOneLocked_def k_def Let_def)
  moreover have "map_of (entries c) k = Some e"
    using e(1) assms(1) by (simp add: gomap_ok_def)
  ultimately show ?thesis
    using e length_map_del [OF assms(1) e(1)] by auto
qed

lemma map_del_keys: "fst ` set (map_del k m) \<subseteq> fst ` set m"
  by (auto simp: map_del_def)

lemma map_set_keys: "fst ` set (map_set k v m) \<subseteq> insert k (fst ` set m)"
  by (auto simp: map_set_def)

text \<open>Making room: the state \<open>SeenOrStore\<close> inserts into.\<close>

definition make_room :: "replay_cache \<Rightarrow> replay_cache" where
  "make_room c = (if int (length (entries c)) \<ge> maxEntries c then evictOneLocked c else c)"

lemma make_room_ok:
  assumes "cache_ok c"
  shows "cache_ok (make_room c) \<and> maxEntries (make_room c) = maxEntries c \<and> ttl (make_room c) = ttl c \<and>
    int (length (entries (make_room c))) < maxEntries c"
proof (cases "int (length (entries c)) \<ge> maxEntries c")
  case True
  then have "entries c \<noteq> []" using assms by (auto simp: cache_ok_def)
  with assms obtain k where "evictOneLocked c = c\<lparr>entries := map_del k (entries c)\<rparr>"
    "Suc (length (entries (evictOneLocked c))) = length (entries c)"
    using evictOne_removes [of c] by (auto simp: cache_ok_def)
  with assms True map_del_keys [of k "entries c"] show ?thesis
    by (auto simp: make_room_def cache_ok_def)
next
  case False
  with assms show ?thesis by (auto simp: make_room_def cache_ok_def)
qed

lemma SeenOrStore_alt:
  "SeenOrStore key now c =
     (let c = evictExpiredLocked now c
      in if (\<exists>exp. map_of (entries c) key = Some exp \<and> now < exp) then (True, c)
         else (False, (make_room c)\<lparr>entries := map_set key (now + ttl (make_room c)) (entries (make_room c))\<rparr>))"
  by (auto simp: SeenOrStore_def make_room_def Let_def split: option.splits)

lemma SeenOrStore_ok:
  assumes "cache_ok c" "key \<noteq> ''''"
  shows "cache_ok (snd (SeenOrStore key now c))"
proof -
  define c2 where "c2 = make_room (evictExpiredLocked now c)"
  have c2: "cache_ok c2" "int (length (entries c2)) < maxEntries c2"
    using make_room_ok [of "evictExpiredLocked now c"] assms(1) by (simp_all add: c2_def)
  then have "cache_ok (c2\<lparr>entries := map_set key (now + ttl c2) (entries c2)\<rparr>)"
    using assms(2) map_set_keys [of key "now + ttl c2" "entries c2"]
    by (auto simp: cache_ok_def length_map_set)
  with assms(1) show ?thesis by (simp add: SeenOrStore_alt c2_def [symmetric] Let_def)
qed

section \<open>What one call does\<close>

definition has_room :: "replay_cache \<Rightarrow> time \<Rightarrow> bool" where
  "has_room c now \<longleftrightarrow> int (length (entries (evictExpiredLocked now c))) < maxEntries c"

lemma ttl_SeenOrStore [simp]: "ttl (snd (SeenOrStore key now c)) = ttl c"
  by (simp add: SeenOrStore_def evictExpiredLocked_def evictOneLocked_def Let_def split: option.splits)

lemma maxEntries_SeenOrStore [simp]: "maxEntries (snd (SeenOrStore key now c)) = maxEntries c"
  by (simp add: SeenOrStore_def evictExpiredLocked_def evictOneLocked_def Let_def split: option.splits)

lemma map_of_evictExpired:
  "gomap_ok (entries c) \<Longrightarrow> map_of (entries (evictExpiredLocked now c)) k =
     (case map_of (entries c) k of None \<Rightarrow> None | Some e \<Rightarrow> if now \<le> e then Some e else None)"
  by (simp add: evictExpiredLocked_def map_of_filter_value not_less)

lemma SeenOrStore_seen_iff:
  "gomap_ok (entries c) \<Longrightarrow>
     fst (SeenOrStore key now c) \<longleftrightarrow> (\<exists>e. map_of (entries c) key = Some e \<and> now < e)"
  by (auto simp: SeenOrStore_alt Let_def map_of_evictExpired split: option.splits if_splits)

lemma SeenOrStore_stored:
  "\<not> fst (SeenOrStore key now c) \<Longrightarrow>
     map_of (entries (snd (SeenOrStore key now c))) key = Some (now + ttl c)"
  by (auto simp: SeenOrStore_def evictExpiredLocked_def evictOneLocked_def Let_def
      split: option.splits if_splits)

lemma SeenOrStore_kept:
  assumes "gomap_ok (entries c)" "has_room c now" "map_of (entries c) k = Some e" "now \<le> e"
    and "k \<noteq> key \<or> fst (SeenOrStore key now c)"
  shows "map_of (entries (snd (SeenOrStore key now c))) k = Some e"
proof -
  have "make_room (evictExpiredLocked now c) = evictExpiredLocked now c"
    using assms(2) by (simp add: make_room_def has_room_def evictExpiredLocked_def)
  with assms show ?thesis
    by (auto simp: SeenOrStore_alt Let_def map_of_evictExpired split: if_splits)
qed

text \<open>A full cache gives up its oldest entry and no other: when no expired entry frees a place, a new
  key replaces one entry whose expiry is least, and every other entry survives unchanged.\<close>

lemma full_cache_displaces_oldest:
  assumes "cache_ok c" "\<not> has_room c now" "\<not> fst (SeenOrStore key now c)"
  shows "\<exists>k e. map_of (entries (evictExpiredLocked now c)) k = Some e \<and>
    (\<forall>p \<in> set (entries (evictExpiredLocked now c)). e \<le> snd p) \<and>
    map_of (entries (snd (SeenOrStore key now c))) =
      (map_of (entries (evictExpiredLocked now c)))(k := None, key \<mapsto> now + ttl c)"
proof -
  let ?c = "evictExpiredLocked now c"
  have c: "cache_ok ?c" "maxEntries ?c = maxEntries c" "ttl ?c = ttl c"
    using assms(1) by (rule evictExpired_ok) (simp_all add: evictExpiredLocked_def)
  then have full: "int (length (entries ?c)) \<ge> maxEntries ?c" and ne: "entries ?c \<noteq> []"
    using assms(2) by (auto simp: has_room_def cache_ok_def)
  then obtain k e where k: "map_of (entries ?c) k = Some e" "\<forall>p \<in> set (entries ?c). e \<le> snd p"
    "evictOneLocked ?c = ?c\<lparr>entries := map_del k (entries ?c)\<rparr>"
    using evictOne_removes [of ?c] c(1) by (auto simp: cache_ok_def)
  moreover have "snd (SeenOrStore key now c) =
      (evictOneLocked ?c)\<lparr>entries := map_set key (now + ttl c) (entries (evictOneLocked ?c))\<rparr>"
    using assms(3) full c k(3) by (auto simp: SeenOrStore_def Let_def split: option.splits if_splits)
  ultimately show ?thesis by (intro exI [of _ k] exI [of _ e]) simp
qed

text \<open>So an entry that is still valid goes only when the cache is full of entries that live at least as long.\<close>

lemma SeenOrStore_kept_or_full:
  assumes "cache_ok c" "map_of (entries c) k = Some e" "now < e" "k \<noteq> key \<or> fst (SeenOrStore key now c)"
  shows "map_of (entries (snd (SeenOrStore key now c))) k = Some e \<or>
    (k \<noteq> key \<and> maxEntries c \<le> int (card (insert key {k'. k' \<noteq> k \<and> (\<exists>x. map_of (entries c) k' = Some x \<and> e \<le> x)})))"
proof (cases "has_room c now \<or> fst (SeenOrStore key now c)")
  case True
  then show ?thesis
  proof
    assume "has_room c now"
    then show ?thesis using SeenOrStore_kept [of c now k e key] assms by (auto simp: cache_ok_def)
  next
    assume "fst (SeenOrStore key now c)"
    then have "snd (SeenOrStore key now c) = evictExpiredLocked now c" by (auto simp: SeenOrStore_alt Let_def split: if_splits)
    then show ?thesis using assms map_of_evictExpired [of c now k] by (simp add: cache_ok_def)
  qed
next
  case False
  then have new: "\<not> has_room c now" "\<not> fst (SeenOrStore key now c)" and kk: "k \<noteq> key" using assms(4) by simp_all
  let ?c = "evictExpiredLocked now c"
  have g: "gomap_ok (entries c)" "gomap_ok (entries ?c)" using assms(1) evictExpired_ok [OF assms(1)] by (simp_all add: cache_ok_def)
  have ke: "map_of (entries ?c) k = Some e" using assms(2,3) map_of_evictExpired [OF g(1), of now k] by simp
  obtain k0 e0 where d: "map_of (entries ?c) k0 = Some e0" "\<forall>p \<in> set (entries ?c). e0 \<le> snd p"
    "map_of (entries (snd (SeenOrStore key now c))) = (map_of (entries ?c))(k0 := None, key \<mapsto> now + ttl c)"
    using full_cache_displaces_oldest [OF assms(1) new] by blast
  show ?thesis
  proof (cases "k0 = k")
    case False
    then show ?thesis using d(3) ke kk by simp
  next
    case True
    then have e0: "e0 = e" using d(1) ke by simp
    let ?K = "fst ` set (entries ?c)" and ?R = "{k'. k' \<noteq> k \<and> (\<exists>x. map_of (entries c) k' = Some x \<and> e \<le> x)}"
    have key: "key \<notin> ?K"
    proof
      assume "key \<in> ?K"
      then obtain x where x: "(key, x) \<in> set (entries ?c)" by auto
      then have "map_of (entries ?c) key = Some x" using g(2) by (simp add: gomap_ok_def)
      then have "\<not> now < x" using new(2) map_of_evictExpired [OF g(1), of now key] SeenOrStore_seen_iff [OF g(1), of key now]
        by (auto split: option.splits if_splits)
      then show False using d(2) x e0 assms(3) by force
    qed
    have "?K - {k} \<subseteq> ?R"
    proof
      fix k' assume "k' \<in> ?K - {k}"
      then obtain x where x: "(k', x) \<in> set (entries ?c)" "k' \<noteq> k" by auto
      then have "map_of (entries ?c) k' = Some x" using g(2) by (simp add: gomap_ok_def)
      then have "map_of (entries c) k' = Some x" using map_of_evictExpired [OF g(1), of now k'] by (auto split: option.splits if_splits)
      then show "k' \<in> ?R" using x d(2) e0 by auto
    qed
    then have "insert key (?K - {k}) \<subseteq> insert key ?R" by blast
    moreover have "finite ?R" by (rule finite_subset [of _ "dom (map_of (entries c))"]) (auto simp: finite_dom_map_of)
    ultimately have "card (insert key (?K - {k})) \<le> card (insert key ?R)" by (intro card_mono) simp_all
    moreover have "card (insert key (?K - {k})) = length (entries ?c)"
    proof -
      have "k \<in> ?K" using map_of_SomeD [OF ke] by force
      moreover have "card ?K = length (entries ?c)" using g(2) distinct_card [of "map fst (entries ?c)"] by (simp add: gomap_ok_def)
      moreover have "0 < length (entries ?c)" using map_of_SomeD [OF ke] by (cases "entries ?c") auto
      ultimately show ?thesis using key by simp
    qed
    moreover have "maxEntries c \<le> int (length (entries ?c))" using new(1) by (simp add: has_room_def)
    ultimately show ?thesis using kk by linarith
  qed
qed

lemma SeenOrStore_frame:
  assumes "cache_ok c" "map_of (entries (snd (SeenOrStore key now c))) k = Some x"
  shows "k = key \<or> map_of (entries c) k = Some x"
proof -
  let ?c = "evictExpiredLocked now c"
  have g: "gomap_ok (entries c)" using assms(1) by (simp add: cache_ok_def)
  have sub: "map_of (entries ?c) k = Some x \<Longrightarrow> map_of (entries c) k = Some x"
    using map_of_evictExpired [OF g, of now k] by (auto split: option.splits if_splits)
  have "map_of (entries ?c) k = Some x \<or> k = key"
    using assms(2) by (auto simp: SeenOrStore_def evictOneLocked_def Let_def split: option.splits if_splits)
  then show ?thesis using sub by blast
qed

section \<open>The interface of the cache\<close>

text \<open>
  A call is a step of the guard: it answers whether the key was already known and moves to a new
  state. \<open>expiry\<close> is what the guard remembers of a key. A key can be forgotten before its time only in
  favour of a new one, and only when \<open>capacity\<close> other keys, the new one included, live at least as long.
\<close>

inductive guard_run ::
  "('s \<Rightarrow> string \<Rightarrow> time \<Rightarrow> bool \<Rightarrow> 's \<Rightarrow> bool) \<Rightarrow> 's \<Rightarrow> (string \<times> time) list \<Rightarrow> 's \<Rightarrow> bool"
  for step where
  run_Nil: "guard_run step s [] s"
| run_Cons: "step s key now b s' \<Longrightarrow> key \<noteq> '''' \<Longrightarrow> guard_run step s' rs s'' \<Longrightarrow> guard_run step s ((key, now) # rs) s''"

definition rivals :: "(string \<Rightarrow> time option) \<Rightarrow> string \<Rightarrow> time \<Rightarrow> string set" where
  "rivals m k e = {k'. k' \<noteq> k \<and> (\<exists>x. m k' = Some x \<and> e \<le> x)}"

locale replay_guard =
  fixes step :: "'s \<Rightarrow> string \<Rightarrow> time \<Rightarrow> bool \<Rightarrow> 's \<Rightarrow> bool"
    and expiry :: "'s \<Rightarrow> string \<Rightarrow> time option" and lifetime :: "'s \<Rightarrow> duration"
    and inv :: "'s \<Rightarrow> bool" and capacity :: "'s \<Rightarrow> int"
  assumes inv_step: "inv s \<Longrightarrow> key \<noteq> '''' \<Longrightarrow> step s key now b s' \<Longrightarrow> inv s'"
    and seen_iff: "inv s \<Longrightarrow> step s key now b s' \<Longrightarrow> b \<longleftrightarrow> (\<exists>e. expiry s key = Some e \<and> now < e)"
    and stored: "inv s \<Longrightarrow> step s key now False s' \<Longrightarrow> expiry s' key = Some (now + lifetime s)"
    and kept: "inv s \<Longrightarrow> step s key now b s' \<Longrightarrow> expiry s k = Some e \<Longrightarrow> now < e \<Longrightarrow> k \<noteq> key \<or> b \<Longrightarrow>
      expiry s' k = Some e \<or> (k \<noteq> key \<and> capacity s \<le> int (card (insert key (rivals (expiry s) k e))))"
    and frame: "inv s \<Longrightarrow> step s key now b s' \<Longrightarrow> expiry s' k = Some x \<Longrightarrow> k = key \<or> expiry s k = Some x"
    and capacity: "step s key now b s' \<Longrightarrow> capacity s' = capacity s"
    and finite: "inv s \<Longrightarrow> finite (dom (expiry s))"
begin

lemma rivals_step: "inv s \<Longrightarrow> step s key now b s' \<Longrightarrow> rivals (expiry s') k e \<subseteq> rivals (expiry s) k e \<union> ({key} - {k})"
  using frame by (force simp: rivals_def)

lemma run_keeps:
  "guard_run step s rs s' \<Longrightarrow> inv s \<Longrightarrow> expiry s k = Some e \<Longrightarrow> \<forall>r \<in> set rs. snd r < e \<Longrightarrow>
     rivals (expiry s) k e \<union> (fst ` set rs - {k}) \<subseteq> R \<Longrightarrow> finite R \<Longrightarrow> int (card R) < capacity s \<Longrightarrow>
     inv s' \<and> expiry s' k = Some e"
proof (induction rule: guard_run.induct)
  case (run_Cons s key now b s' rs s'')
  from run_Cons.prems have now: "now < e" by simp
  have k: "k \<noteq> key \<or> b" using seen_iff [OF run_Cons.prems(1) run_Cons.hyps(1)] run_Cons.prems(2) now by blast
  have R: "rivals (expiry s) k e \<subseteq> R" "{key} - {k} \<subseteq> R" using run_Cons.prems(4) by auto
  have "expiry s' k = Some e"
  proof (rule ccontr)
    assume "expiry s' k \<noteq> Some e"
    then have d: "k \<noteq> key" "capacity s \<le> int (card (insert key (rivals (expiry s) k e)))"
      using kept [OF run_Cons.prems(1) run_Cons.hyps(1) run_Cons.prems(2) now k] by simp_all
    have "card (insert key (rivals (expiry s) k e)) \<le> card R"
      using R d(1) run_Cons.prems(5) by (intro card_mono) auto
    with d(2) run_Cons.prems(6) show False by simp
  qed
  moreover have "inv s'" using inv_step run_Cons.prems(1) run_Cons.hyps(1,2) by blast
  moreover have "rivals (expiry s') k e \<union> (fst ` set rs - {k}) \<subseteq> R"
    using rivals_step [OF run_Cons.prems(1) run_Cons.hyps(1), of k e] R run_Cons.prems(4) by auto
  ultimately show ?case using run_Cons.IH run_Cons.prems capacity [OF run_Cons.hyps(1)] by simp
qed simp

text \<open>A key accepted once is refused for its whole lifetime, as long as fewer other keys than the guard
  has room for were asked since or were already remembered for as long.\<close>

lemma refused_in_lifetime:
  assumes "inv s" "key \<noteq> ''''" "step s key t0 False s1" "guard_run step s1 rs s2"
    and "\<forall>r \<in> set rs. snd r < t0 + lifetime s" "step s2 key t1 b s3" "t1 < t0 + lifetime s"
    and "int (card (rivals (expiry s) key (t0 + lifetime s) \<union> (fst ` set rs - {key}))) < capacity s"
  shows "b"
proof -
  let ?R = "rivals (expiry s) key (t0 + lifetime s) \<union> (fst ` set rs - {key})"
  have 1: "inv s1" "expiry s1 key = Some (t0 + lifetime s)" using assms inv_step stored by blast+
  have "finite ?R" using finite [OF assms(1)] by (rule_tac finite_subset [of _ "dom (expiry s) \<union> fst ` set rs"]) (auto simp: rivals_def)
  moreover have "rivals (expiry s1) key (t0 + lifetime s) \<union> (fst ` set rs - {key}) \<subseteq> ?R"
    using rivals_step [OF assms(1,3), of key "t0 + lifetime s"] by auto
  ultimately have "inv s2 \<and> expiry s2 key = Some (t0 + lifetime s)"
    using run_keeps [OF assms(4) 1 assms(5), of ?R] assms(8) capacity [OF assms(3)] by metis
  then show ?thesis using seen_iff assms(6,7) by blast
qed

end

text \<open>A step of the cache: the entries may first be met in another order.\<close>

inductive replay_step :: "replay_cache \<Rightarrow> string \<Rightarrow> time \<Rightarrow> bool \<Rightarrow> replay_cache \<Rightarrow> bool" where
  "mset m = mset (entries c) \<Longrightarrow> SeenOrStore key now (c\<lparr>entries := m\<rparr>) = (b, c') \<Longrightarrow>
   replay_step c key now b c'"

inductive_simps replay_step_iff: "replay_step c key now b c'"

lemma reorder_ok:
  assumes "mset m = mset (entries c)"
  shows "cache_ok (c\<lparr>entries := m\<rparr>) \<longleftrightarrow> cache_ok c"
    and "gomap_ok m \<longleftrightarrow> gomap_ok (entries c)"
    and "has_room (c\<lparr>entries := m\<rparr>) now \<longleftrightarrow> has_room c now"
    and "gomap_ok m \<Longrightarrow> map_of m = map_of (entries c)"
proof -
  have s: "set m = set (entries c)" using assms by (rule mset_eq_setD)
  have l: "length m = length (entries c)" using assms by (rule mset_eq_length)
  have "mset (map fst m) = mset (map fst (entries c))" using assms by simp
  then have "distinct (map fst m) = distinct (map fst (entries c))" by (rule mset_eq_imp_distinct_iff)
  then show g: "gomap_ok m \<longleftrightarrow> gomap_ok (entries c)" by (simp add: gomap_ok_def)
  then show "cache_ok (c\<lparr>entries := m\<rparr>) \<longleftrightarrow> cache_ok c" by (simp add: cache_ok_def s l)
  have "mset (filter P m) = mset (filter P (entries c))" for P
    using assms by (simp add: mset_filter)
  then have "length (filter P m) = length (filter P (entries c))" for P by (metis size_mset)
  then show "has_room (c\<lparr>entries := m\<rparr>) now \<longleftrightarrow> has_room c now"
    by (simp add: has_room_def evictExpiredLocked_def)
  show "map_of m = map_of (entries c)" if "gomap_ok m"
  proof
    fix k
    show "map_of m k = map_of (entries c) k"
      using that g s by (cases "map_of m k")
        (auto simp: gomap_ok_def map_of_eq_None_iff dest!: map_of_SomeD, metis image_eqI map_of_eq_None_iff)
  qed
qed

lemma step_reorder:
  assumes "replay_step c key now b c'" "cache_ok c"
  obtains m where "cache_ok (c\<lparr>entries := m\<rparr>)" "map_of m = map_of (entries c)" "SeenOrStore key now (c\<lparr>entries := m\<rparr>) = (b, c')"
proof -
  from assms(1) obtain m where m: "mset m = mset (entries c)" "SeenOrStore key now (c\<lparr>entries := m\<rparr>) = (b, c')"
    by (auto simp: replay_step_iff)
  have ok: "cache_ok (c\<lparr>entries := m\<rparr>)" using assms(2) reorder_ok(1) [OF m(1)] by simp
  then have "map_of m = map_of (entries c)" using reorder_ok(4) [OF m(1)] by (simp add: cache_ok_def)
  from that [OF ok this m(2)] show ?thesis .
qed

interpretation rc: replay_guard replay_step "\<lambda>c. map_of (entries c)" ttl cache_ok maxEntries
proof (unfold_locales, goal_cases)
  case (1 s key now b s')
  then obtain m where m: "cache_ok (s\<lparr>entries := m\<rparr>)" "SeenOrStore key now (s\<lparr>entries := m\<rparr>) = (b, s')" by (blast elim: step_reorder)
  with 1 SeenOrStore_ok [of "s\<lparr>entries := m\<rparr>" key now] show ?case by simp
next
  case (2 s key now b s')
  then obtain m where m: "cache_ok (s\<lparr>entries := m\<rparr>)" "map_of m = map_of (entries s)" "SeenOrStore key now (s\<lparr>entries := m\<rparr>) = (b, s')"
    by (blast elim: step_reorder)
  with SeenOrStore_seen_iff [of "s\<lparr>entries := m\<rparr>" key now] show ?case by (simp add: cache_ok_def)
next
  case (3 s key now s')
  then obtain m where m: "SeenOrStore key now (s\<lparr>entries := m\<rparr>) = (False, s')" by (blast elim: step_reorder)
  with SeenOrStore_stored [of key now "s\<lparr>entries := m\<rparr>"] show ?case by simp
next
  case (4 s key now b s' k e)
  then obtain m where m: "cache_ok (s\<lparr>entries := m\<rparr>)" "map_of m = map_of (entries s)" "SeenOrStore key now (s\<lparr>entries := m\<rparr>) = (b, s')"
    by (blast elim: step_reorder)
  with 4 SeenOrStore_kept_or_full [OF m(1), of k e now key] show ?case by (simp add: rivals_def)
next
  case (5 s key now b s' k x)
  then obtain m where m: "cache_ok (s\<lparr>entries := m\<rparr>)" "map_of m = map_of (entries s)" "SeenOrStore key now (s\<lparr>entries := m\<rparr>) = (b, s')"
    by (blast elim: step_reorder)
  with 5 SeenOrStore_frame [OF m(1), of key now k x] show ?case by simp
next
  case (6 s key now b s')
  then obtain m where "SeenOrStore key now (s\<lparr>entries := m\<rparr>) = (b, s')" by (auto simp: replay_step_iff)
  with maxEntries_SeenOrStore [of key now "s\<lparr>entries := m\<rparr>"] show ?case by simp
next
  case (7 s)
  then show ?case by (simp add: finite_dom_map_of)
qed

section \<open>Changing the settings\<close>

text \<open>
  As many entries as fit are kept, all of them when they fit, and what is dropped expires no later than
  what is kept.
\<close>

definition oldest_dropped :: "int \<Rightarrow> (string, time) gomap \<Rightarrow> (string, time) gomap \<Rightarrow> bool" where
  "oldest_dropped n m m' \<longleftrightarrow> set m' \<subseteq> set m \<and> int (length m') = min (int (length m)) n \<and>
     (\<forall>p \<in> set m - set m'. \<forall>q \<in> set m'. snd p \<le> snd q)"

lemma oldest_dropped_refl: "int (length m) \<le> n \<Longrightarrow> oldest_dropped n m m"
  by (simp add: oldest_dropped_def)

lemma oldest_dropped_del:
  assumes "\<forall>p \<in> set m. e \<le> snd p" "map_of m k = Some e" "gomap_ok m" "n < int (length m)" "oldest_dropped n (map_del k m) m'"
  shows "oldest_dropped n m m'"
proof -
  have "snd p = e" if p: "p \<in> set m" "p \<notin> set (map_del k m)" for p
  proof -
    from p have "fst p = k" by (auto simp: map_del_def)
    with p(1) assms(3) have "map_of m k = Some (snd p)"
      by (metis gomap_ok_def map_of_eq_Some_iff prod.collapse)
    with assms(2) show ?thesis by simp
  qed
  moreover have sub: "set (map_del k m) \<subseteq> set m" by (auto simp: map_del_def)
  ultimately have "\<forall>p \<in> set m - set m'. \<forall>q \<in> set m'. snd p \<le> snd q" "set m' \<subseteq> set m"
    using assms(1,5) unfolding oldest_dropped_def by blast+
  moreover have "Suc (length (map_del k m)) = length m" using length_map_del [OF assms(3) map_of_SomeD [OF assms(2)]] .
  ultimately show ?thesis using assms(4,5) unfolding oldest_dropped_def by auto
qed

lemma trim_loop_returns:
  assumes "gomap_ok (entries c)" "'''' \<notin> fst ` set (entries c)" "0 < maxEntries c" "0 < ttl c"
  shows "\<exists>c'. trim_loop c = Some c' \<and> cache_ok c' \<and> ttl c' = ttl c \<and> maxEntries c' = maxEntries c \<and>
    oldest_dropped (maxEntries c) (entries c) (entries c')"
  using assms
proof (induction "length (entries c)" arbitrary: c rule: less_induct)
  case less
  show ?case
  proof (cases "int (length (entries c)) > maxEntries c")
    case True
    then have ne: "entries c \<noteq> []" using less.prems(3) by auto
    obtain k e where k: "map_of (entries c) k = Some e" "\<forall>p \<in> set (entries c). e \<le> snd p"
      "evictOneLocked c = c\<lparr>entries := map_del k (entries c)\<rparr>"
      "Suc (length (entries (evictOneLocked c))) = length (entries c)"
      using evictOne_removes [OF less.prems(1,2) ne] by (elim exE conjE) (rule that)
    have "'''' \<notin> fst ` set (map_del k (entries c))" using map_del_keys [of k "entries c"] less.prems(2) by (meson subsetD)
    then have "\<exists>c'. trim_loop (evictOneLocked c) = Some c' \<and> cache_ok c' \<and> ttl c' = ttl (evictOneLocked c) \<and>
        maxEntries c' = maxEntries (evictOneLocked c) \<and>
        oldest_dropped (maxEntries (evictOneLocked c)) (entries (evictOneLocked c)) (entries c')"
      using k(3,4) less.prems by (intro less.hyps) simp_all
    then obtain c' where
      "trim_loop (evictOneLocked c) = Some c'" "cache_ok c'" "ttl c' = ttl c" "maxEntries c' = maxEntries c"
      "oldest_dropped (maxEntries c) (map_del k (entries c)) (entries c')" by (auto simp: k(3))
    with True oldest_dropped_del [OF k(2,1) less.prems(1), of "maxEntries c"] show ?thesis
      by (intro exI [of _ c']) (simp add: trim_loop.simps [of c])
  next
    case False
    with less.prems show ?thesis
      by (simp add: trim_loop.simps [of c] cache_ok_def oldest_dropped_refl)
  qed
qed

text \<open>Every state the daemon can bring the cache into: created once, asked, reconfigured.\<close>

inductive replay_reachable :: "replay_cache \<Rightarrow> bool" where
  reach_new: "replay_reachable (NewReplayCache d n)"
| reach_ask: "replay_reachable c \<Longrightarrow> key \<noteq> '''' \<Longrightarrow> replay_step c key now b c' \<Longrightarrow> replay_reachable c'"
| reach_set: "replay_reachable c \<Longrightarrow> UpdateSettings d n c = Some c' \<Longrightarrow> replay_reachable c'"

lemma UpdateSettings_total:
  assumes "cache_ok c"
  shows "\<exists>c'. UpdateSettings d n c = Some c' \<and> cache_ok c' \<and> ttl c' = default_ttl d \<and>
    maxEntries c' = default_max n \<and> oldest_dropped (default_max n) (entries c) (entries c')"
  using trim_loop_returns [of "c\<lparr>ttl := default_ttl d, maxEntries := default_max n\<rparr>"] assms
  by (simp add: UpdateSettings_def cache_ok_def)

lemma replay_reachable_ok: "replay_reachable c \<Longrightarrow> cache_ok c"
proof (induction rule: replay_reachable.induct)
  case (reach_ask c key now b c')
  then show ?case using rc.inv_step by blast
next
  case (reach_set c d n c')
  then show ?case using UpdateSettings_total [of c d n] by auto
qed simp

section \<open>Properties\<close>

text \<open>C8: A signature that was let in once is refused on every later call within its lifetime, unless the
  cache is filled up. From any well-formed cache: if a key is accepted at \<open>t0\<close> and calls follow at times
  before \<open>t0 + ttl\<close>, then a call with the same key at any \<open>t1 < t0 + ttl\<close> answers that it was seen, provided
  that the other keys asked since, together with those that were remembered for as long already, are
  fewer than \<open>maxEntries\<close>. The map may be walked in any order at each call. (With more keys the oldest entry
  is displaced, and the signature is accepted again.)\<close>

theorem replay_refused:
  assumes "cache_ok c" "key \<noteq> ''''" "replay_step c key t0 False c1"
    and "guard_run replay_step c1 rs c2" "\<forall>r \<in> set rs. snd r < t0 + ttl c"
    and "replay_step c2 key t1 b c3" "t1 < t0 + ttl c"
    and "int (card (rivals (map_of (entries c)) key (t0 + ttl c) \<union> (fst ` set rs - {key}))) < maxEntries c"
  shows "b"
  using assms by (rule rc.refused_in_lifetime)

text \<open>A small cache with two entries, for the examples.\<close>

definition one_seen :: replay_cache where "one_seen = \<lparr>ttl = 10 * second, maxEntries = 2, entries = [(''a'', 10 * second)]\<rparr>"
definition two_seen :: replay_cache where
  "two_seen = \<lparr>ttl = 10 * second, maxEntries = 2, entries = [(''b'', 13 * second), (''a'', 10 * second)]\<rparr>"

lemma sample_steps:
  "replay_step (NewReplayCache (10 * second) 2) ''a'' 0 False one_seen" "replay_step one_seen ''b'' (3 * second) False two_seen"
proof -
  show "replay_step (NewReplayCache (10 * second) 2) ''a'' 0 False one_seen"
    by (rule replay_step.intros [of "[]"]) (simp_all add: NewReplayCache_def default_ttl_def
        default_max_def SeenOrStore_def evictExpiredLocked_def map_set_def one_seen_def)
  show "replay_step one_seen ''b'' (3 * second) False two_seen"
    by (rule replay_step.intros [of "[(''a'', 10 * second)]"])
      (simp_all add: SeenOrStore_def evictExpiredLocked_def map_set_def one_seen_def two_seen_def)
qed

theorem replay_refused_witness:
  "\<exists>c1 c2. replay_step (NewReplayCache (10 * second) 2) ''a'' 0 False c1 \<and>
     replay_step c1 ''b'' (3 * second) False c2 \<and>
     (\<forall>b c3. replay_step c2 ''a'' (9 * second) b c3 \<longrightarrow> b)"
proof -
  let ?c = "NewReplayCache (10 * second) 2"
  have run: "guard_run replay_step one_seen [(''b'', 3 * second)] two_seen"
    by (rule guard_run.run_Cons [where b = False and s' = two_seen]) (rule sample_steps, simp, rule guard_run.run_Nil)
  have "rivals (map_of (entries ?c)) ''a'' (0 + ttl ?c) = {}" by (simp add: rivals_def NewReplayCache_def)
  then have few: "int (card (rivals (map_of (entries ?c)) ''a'' (0 + ttl ?c) \<union> (fst ` set [(''b'', 3 * second)] - {''a''}))) < maxEntries ?c"
    by (simp only:) (simp add: NewReplayCache_def default_max_def)
  have "b" if "replay_step two_seen ''a'' (9 * second) b c3" for b c3
    using replay_refused [OF cache_ok_new _ sample_steps(1) run _ that _ few]
    by (simp add: NewReplayCache_def default_ttl_def)
  with sample_steps show ?thesis by blast
qed

text \<open>The bound is sharp: one more key, and the first is accepted again within its lifetime.\<close>

lemma replay_accepted_when_displaced:
  "\<exists>c3 c4. replay_step two_seen ''c'' (4 * second) False c3 \<and> replay_step c3 ''a'' (5 * second) False c4"
proof -
  let ?c3 = "\<lparr>ttl = 10 * second, maxEntries = 2, entries = [(''c'', 14 * second), (''b'', 13 * second)]\<rparr>"
  have "SeenOrStore ''c'' (4 * second) two_seen = (False, ?c3)" "\<not> fst (SeenOrStore ''a'' (5 * second) ?c3)"
    by (simp_all add: two_seen_def SeenOrStore_def evictExpiredLocked_def evictOneLocked_def map_set_def map_del_def Let_def)
  then have "replay_step two_seen ''c'' (4 * second) False ?c3"
    "replay_step ?c3 ''a'' (5 * second) False (snd (SeenOrStore ''a'' (5 * second) ?c3))"
    by (auto intro!: replay_step.intros [OF refl] simp: prod_eq_iff)
  then show ?thesis by blast
qed

text \<open>In every reachable state of the cache the keys are distinct and non-empty and there are at
  most \<open>maxEntries\<close> of them, across stores, evictions and changes of the settings.\<close>

lemma replay_cache_bounded:
  "replay_reachable c \<Longrightarrow> gomap_ok (entries c) \<and> '''' \<notin> fst ` set (entries c) \<and>
     int (length (entries c)) \<le> maxEntries c \<and> 0 < ttl c"
  using replay_reachable_ok [of c] by (auto simp: cache_ok_def)

lemma replay_cache_bounded_witness:
  "int (length (entries (NewReplayCache 0 0))) \<le> maxEntries (NewReplayCache 0 0)"
  using replay_cache_bounded [OF replay_reachable.reach_new [of 0 0]] by blast

text \<open>C36: Reconfiguring the cache returns and keeps what fits: from every reachable state \<open>UpdateSettings\<close>
  ends, installs the defaulted lifetime and bound, keeps the invariant and the expiry of every entry it
  keeps; it keeps all entries when they fit the new bound and exactly as many as fit otherwise, and what
  it drops expires no later than anything it keeps.\<close>

theorem update_settings_returns:
  assumes "replay_reachable c"
  shows "\<exists>c'. UpdateSettings d n c = Some c' \<and> cache_ok c' \<and> ttl c' = default_ttl d \<and>
    maxEntries c' = default_max n \<and> oldest_dropped (default_max n) (entries c) (entries c')"
  by (rule UpdateSettings_total [OF replay_reachable_ok [OF assms]])

theorem update_settings_returns_witness:
  "\<exists>c'. UpdateSettings (30 * second) 1 two_seen = Some c' \<and> entries c' = [(''b'', 13 * second)]"
proof -
  have "replay_reachable two_seen"
    by (rule replay_reachable.intros(2) [OF replay_reachable.intros(2) [OF replay_reachable.intros(1)] _ sample_steps(2)])
      (use sample_steps(1) in simp_all)
  from update_settings_returns [OF this, of "30 * second" 1] obtain c' where
    u: "UpdateSettings (30 * second) 1 two_seen = Some c'" "oldest_dropped 1 (entries two_seen) (entries c')"
    by (auto simp: default_max_def)
  then have l: "length (entries c') = 1" and sub: "set (entries c') \<subseteq> {(''b'', 13 * second), (''a'', 10 * second)}"
    by (simp_all add: oldest_dropped_def two_seen_def)
  then obtain x where x: "entries c' = [x]" by (auto simp: length_Suc_conv)
  have "x \<noteq> (''a'', 10 * second)"
  proof
    assume "x = (''a'', 10 * second)"
    then have "(''b'', 13 * second) \<in> set (entries two_seen) - set (entries c')" "(''a'', 10 * second) \<in> set (entries c')"
      using x by (simp_all add: two_seen_def)
    then have "snd (''b'', 13 * second) \<le> snd (''a'', 10 * second)" using u(2) unfolding oldest_dropped_def by blast
    then show False by simp
  qed
  with sub x have "entries c' = [(''b'', 13 * second)]" by simp
  with u(1) show ?thesis by blast
qed

lemma full_cache_displaces_oldest_witness:
  "\<exists>k e. map_of (entries (snd (SeenOrStore ''c'' 1
     \<lparr>ttl = 10, maxEntries = 2, entries = [(''a'', 7), (''b'', 5)]\<rparr>))) =
     (map_of [(''a'', 7), (''b'', 5)])(k := None, ''c'' \<mapsto> 11)"
proof -
  let ?c = "\<lparr>ttl = 10, maxEntries = 2, entries = [(''a'', 7), (''b'', 5)]\<rparr>"
  have "cache_ok ?c" "\<not> has_room ?c 1" "\<not> fst (SeenOrStore ''c'' 1 ?c)"
    by (simp_all add: cache_ok_def gomap_ok_def has_room_def evictExpiredLocked_def SeenOrStore_def
        evictOneLocked_def Let_def)
  from full_cache_displaces_oldest [OF this] show ?thesis by (auto simp: evictExpiredLocked_def)
qed

end
