(* ===== verification/Regexp.thy ===== *)
theory Regexp
  imports Prelude
begin

text \<open>
  Go's \<open>regexp\<close> package on compiled expressions: the syntax tree, a leftmost-first backtracking
  matcher that lists the ends of the matches from a position in order of preference together with
  the captured groups, \<open>MatchString\<close>, \<open>FindAllStringSubmatch\<close>, \<open>ReplaceAll\<close> and its \<open>$1\<close> templates.
  A character class is a predicate on bytes. The fixed expressions of the sources are written as
  trees where they are used; the parser of user-supplied expressions (\<open>regexp.Compile\<close>) is a
  parameter of the definitions that call it.
\<close>

datatype regex =
    Eps
  | Bol
  | Eol
  | Chr "char \<Rightarrow> bool"
  | Cat regex regex
  | Alt regex regex
  | Star regex
  | Cap nat regex

type_synonym caps = "nat \<Rightarrow> (nat \<times> nat) option"

fun star_iter :: "(nat \<Rightarrow> caps \<Rightarrow> (nat \<times> caps) list) \<Rightarrow> nat \<Rightarrow> nat \<Rightarrow> caps \<Rightarrow> (nat \<times> caps) list" where
  "star_iter f 0 i c = [(i, c)]"
| "star_iter f (Suc n) i c =
     concat (map (\<lambda>(j, d). if i < j then star_iter f n j d else []) (f i c)) @ [(i, c)]"

primrec ends :: "regex \<Rightarrow> string \<Rightarrow> nat \<Rightarrow> caps \<Rightarrow> (nat \<times> caps) list" where
  "ends Eps s i c = [(i, c)]"
| "ends Bol s i c = (if i = 0 then [(i, c)] else [])"
| "ends Eol s i c = (if i = length s then [(i, c)] else [])"
| "ends (Chr P) s i c = (if i < length s \<and> P (s ! i) then [(Suc i, c)] else [])"
| "ends (Cat a b) s i c = concat (map (\<lambda>(j, d). ends b s j d) (ends a s i c))"
| "ends (Alt a b) s i c = ends a s i c @ ends b s i c"
| "ends (Star a) s i c = star_iter (\<lambda>j d. ends a s j d) (length s) i c"
| "ends (Cap n a) s i c = map (\<lambda>(j, d). (j, d(n \<mapsto> (i, j)))) (ends a s i c)"

definition Plus :: "regex \<Rightarrow> regex" where "Plus r = Cat r (Star r)"
definition Opt :: "regex \<Rightarrow> regex" where "Opt r = Alt r Eps"

primrec Lit :: "string \<Rightarrow> regex" where
  "Lit [] = Eps"
| "Lit (c # s) = Cat (Chr (\<lambda>x. x = c)) (Lit s)"

text \<open>\<open>MatchString\<close>: a match that starts anywhere.\<close>

definition match_string :: "regex \<Rightarrow> string \<Rightarrow> bool" where
  "match_string r s \<longleftrightarrow> list_ex (\<lambda>i. ends r s i (\<lambda>_. None) \<noteq> []) [0..<Suc (length s)]"

text \<open>The leftmost match at or after a position: its start, its end, its groups.\<close>

function find_from :: "regex \<Rightarrow> string \<Rightarrow> nat \<Rightarrow> (nat \<times> nat \<times> caps) option" where
  "find_from r s i =
     (if i > length s then None
      else case ends r s i (\<lambda>_. None) of (j, c) # _ \<Rightarrow> Some (i, j, c) | [] \<Rightarrow> find_from r s (Suc i))"
  by pat_completeness auto
termination
  by (relation "measure (\<lambda>(r, s, i). Suc (length s) - i)") auto

declare find_from.simps [simp del]

definition sub :: "string \<Rightarrow> nat \<Rightarrow> nat \<Rightarrow> string" where
  "sub s i j = take (j - i) (drop i s)"

definition group :: "string \<Rightarrow> caps \<Rightarrow> nat \<Rightarrow> string" where
  "group s c n = (case c n of None \<Rightarrow> [] | Some (i, j) \<Rightarrow> sub s i j)"

text \<open>
  The scanning loop of \<open>allMatches\<close> and \<open>replaceAll\<close>: matches from left to right, an empty match
  directly after a match is dropped. \<open>lastEnd\<close> is the end of the match before.
\<close>

function all_matches :: "regex \<Rightarrow> string \<Rightarrow> nat \<Rightarrow> nat \<Rightarrow> (nat \<times> nat \<times> caps) list" where
  "all_matches r s pos lastEnd =
     (if pos > length s then []
      else case find_from r s pos of
        None \<Rightarrow> []
      | Some (i, j, c) \<Rightarrow>
        (if j > lastEnd \<or> i = 0 then [(i, j, c)] else []) @ all_matches r s (max (Suc pos) j) j)"
  by pat_completeness auto
termination
  by (relation "measure (\<lambda>(r, s, pos, lastEnd). Suc (length s) - pos)") auto

declare all_matches.simps [simp del]

definition find_all :: "regex \<Rightarrow> string \<Rightarrow> (nat \<times> nat \<times> caps) list" where
  "find_all r s = all_matches r s 0 0"

fun splice :: "string \<Rightarrow> nat \<Rightarrow> (nat \<times> nat \<times> caps) list \<Rightarrow> (nat \<times> nat \<times> caps \<Rightarrow> string) \<Rightarrow> string" where
  "splice s pos [] f = drop pos s"
| "splice s pos ((i, j, c) # ms) f = sub s pos i @ f (i, j, c) @ splice s j ms f"

text \<open>\<open>ReplaceAllStringFunc\<close>: each match is replaced by a function of its text.\<close>

definition replace_func :: "regex \<Rightarrow> string \<Rightarrow> (string \<Rightarrow> string) \<Rightarrow> string" where
  "replace_func r s f = splice s 0 (find_all r s) (\<lambda>(i, j, c). f (sub s i j))"

text \<open>Templates: \<open>$n\<close> is a group, \<open>$$\<close> a dollar sign, an unknown name is empty.\<close>

definition is_word :: "char \<Rightarrow> bool" where
  "is_word c \<longleftrightarrow> is_upper c \<or> is_lower c \<or> is_digit c \<or> c = CHR ''_''"

definition group_ref :: "string \<Rightarrow> caps \<Rightarrow> string \<Rightarrow> string" where
  "group_ref s c name = (case parse_digits 10 name of None \<Rightarrow> [] | Some n \<Rightarrow> group s c (nat n))"

function expand :: "string \<Rightarrow> caps \<Rightarrow> string \<Rightarrow> string" where
  "expand s c t =
     (case t of [] \<Rightarrow> []
      | x # r \<Rightarrow>
        (if x \<noteq> CHR ''$'' then x # expand s c r
         else case r of [] \<Rightarrow> ''$''
         | y # r' \<Rightarrow>
           (if y = CHR ''$'' then CHR ''$'' # expand s c r'
            else if y = CHR ''{'' then
              (case cut_char CHR ''}'' r' of
                 Some (name, rest) \<Rightarrow>
                   (if name \<noteq> [] \<and> list_all is_word name
                    then group_ref s c name @ expand s c (drop (length name + 3) t)
                    else CHR ''$'' # expand s c r)
               | None \<Rightarrow> CHR ''$'' # expand s c r)
            else let name = takeWhile is_word r
                 in if name = [] then CHR ''$'' # expand s c r
                    else group_ref s c name @ expand s c (drop (length name) r))))"
  by pat_completeness auto
termination
  by (relation "measure (\<lambda>(s, c, t). length t)") auto

declare expand.simps [simp del]

definition replace_template :: "regex \<Rightarrow> string \<Rightarrow> string \<Rightarrow> string" where
  "replace_template r s t = splice s 0 (find_all r s) (\<lambda>(i, j, c). expand s c t)"

section \<open>Facts on the matcher\<close>

lemma star_iter_bounds:
  assumes "\<And>i c j d. (j, d) \<in> set (f i c) \<Longrightarrow> i \<le> j \<and> j \<le> max i n"
  shows "(j, d) \<in> set (star_iter f k i c) \<Longrightarrow> i \<le> j \<and> j \<le> max i n"
proof (induction k arbitrary: i c)
  case (Suc k)
  then consider "j = i" | j' d' where "(j', d') \<in> set (f i c)" "(j, d) \<in> set (star_iter f k j' d')"
    by (auto split: if_splits)
  then show ?case
  proof cases
    case 2
    with assms [OF 2(1)] Suc.IH [OF 2(2)] show ?thesis by linarith
  qed simp
qed simp

lemma ends_bounds: "(j, d) \<in> set (ends r s i c) \<Longrightarrow> i \<le> j \<and> j \<le> max i (length s)"
proof (induction r arbitrary: i c j d)
  case (Cat a b)
  then obtain j' d' where "(j', d') \<in> set (ends a s i c)" "(j, d) \<in> set (ends b s j' d')" by auto
  with Cat.IH(1) [of j' d' i c] Cat.IH(2) [of j d j' d'] show ?case by linarith
next
  case (Star r)
  then show ?case using star_iter_bounds [of "\<lambda>j d. ends r s j d" "length s" j d "length s" i c] by simp
qed (auto split: if_splits)

lemma ends_Cat_iff:
  "(j, d) \<in> set (ends (Cat a b) s i c) \<longleftrightarrow> (\<exists>k e. (k, e) \<in> set (ends a s i c) \<and> (j, d) \<in> set (ends b s k e))"
  by auto

lemma ends_Cap_iff:
  "(j, d) \<in> set (ends (Cap n a) s i c) \<longleftrightarrow> (\<exists>e. (j, e) \<in> set (ends a s i c) \<and> d = e(n \<mapsto> (i, j)))"
  by auto

lemma ends_Lit: "i \<le> length s \<Longrightarrow>
  ends (Lit w) s i c = (if has_prefix (drop i s) w then [(i + length w, c)] else [])"
proof (induction w arbitrary: i)
  case (Cons x w)
  show ?case
  proof (cases "i < length s")
    case True
    then have "drop i s = s ! i # drop (Suc i) s" by (simp add: Cons_nth_drop_Suc)
    with True Cons.IH [of "Suc i"] show ?thesis by auto
  next
    case False
    with Cons.prems show ?thesis by simp
  qed
qed simp

lemma star_iter_class:
  "length s \<le> i + n \<Longrightarrow> i \<le> length s \<Longrightarrow>
   (j, d) \<in> set (star_iter (\<lambda>i c. ends (Chr P) s i c) n i c) \<longleftrightarrow>
     d = c \<and> i \<le> j \<and> j \<le> length s \<and> (\<forall>k. i \<le> k \<and> k < j \<longrightarrow> P (s ! k))"
proof (induction n arbitrary: i)
  case 0
  then show ?case by (auto dest: le_antisym)
next
  case (Suc n)
  show ?case
  proof (cases "i < length s \<and> P (s ! i)")
    case True
    then have "(j, d) \<in> set (star_iter (\<lambda>i c. ends (Chr P) s i c) (Suc n) i c) \<longleftrightarrow>
        (j, d) = (i, c) \<or> (d = c \<and> Suc i \<le> j \<and> j \<le> length s \<and> (\<forall>k. Suc i \<le> k \<and> k < j \<longrightarrow> P (s ! k)))"
      using Suc.IH [of "Suc i"] Suc.prems by auto
    also have "\<dots> \<longleftrightarrow> d = c \<and> i \<le> j \<and> j \<le> length s \<and> (\<forall>k. i \<le> k \<and> k < j \<longrightarrow> P (s ! k))"
    proof -
      have "(\<forall>k. i \<le> k \<and> k < j \<longrightarrow> P (s ! k)) \<longleftrightarrow>
          (i < j \<longrightarrow> P (s ! i)) \<and> (\<forall>k. Suc i \<le> k \<and> k < j \<longrightarrow> P (s ! k))"
        by (metis Suc_le_eq le_eq_less_or_eq)
      with True show ?thesis by (auto simp: Suc_le_eq)
    qed
    finally show ?thesis .
  next
    case False
    with Suc.prems show ?thesis by (auto simp: le_less)
  qed
qed

lemma ends_Star_Chr:
  "i \<le> length s \<Longrightarrow> (j, d) \<in> set (ends (Star (Chr P)) s i c) \<longleftrightarrow>
     d = c \<and> i \<le> j \<and> j \<le> length s \<and> (\<forall>k. i \<le> k \<and> k < j \<longrightarrow> P (s ! k))"
  using star_iter_class [of s i "length s" j d P c] by simp

text \<open>An expression anchored at both ends matches a string when it consumes all of it.\<close>

definition full_match :: "regex \<Rightarrow> string \<Rightarrow> bool" where
  "full_match r s \<longleftrightarrow> length s \<in> fst ` set (ends r s 0 (\<lambda>_. None))"

lemma match_string_iff: "match_string r s \<longleftrightarrow> (\<exists>i \<le> length s. ends r s i (\<lambda>_. None) \<noteq> [])"
  by (simp add: match_string_def list_ex_iff Bex_def less_Suc_eq_le del: upt_Suc)

lemma match_string_anchored: "match_string (Cat Bol (Cat r Eol)) s \<longleftrightarrow> full_match r s"
proof -
  have "ends (Cat r Eol) s 0 (\<lambda>_. None) \<noteq> [] \<longleftrightarrow> full_match r s"
  proof
    assume "ends (Cat r Eol) s 0 (\<lambda>_. None) \<noteq> []"
    then obtain p where "p \<in> set (ends (Cat r Eol) s 0 (\<lambda>_. None))" by (meson last_in_set)
    then show "full_match r s" by (force simp: full_match_def split: if_splits)
  next
    assume "full_match r s"
    then obtain d where d: "(length s, d) \<in> set (ends r s 0 (\<lambda>_. None))" by (auto simp: full_match_def)
    then have "(length s, d) \<in> set (ends (Cat r Eol) s 0 (\<lambda>_. None))"
      by (simp add: bexI [where x = "(length s, d)"])
    then show "ends (Cat r Eol) s 0 (\<lambda>_. None) \<noteq> []" by (metis empty_iff list.set(1))
  qed
  moreover have "ends (Cat Bol (Cat r Eol)) s i c = (if i = 0 then ends (Cat r Eol) s 0 c else [])" for i c
    by simp
  ultimately show ?thesis by (simp only: match_string_iff) auto
qed

lemma full_match_Lit: "full_match (Lit w) s \<longleftrightarrow> s = w"
  by (auto simp: full_match_def ends_Lit has_prefix_def)

text \<open>A class repeated over a whole string.\<close>

lemma full_match_Plus_Chr: "full_match (Plus (Chr P)) s \<longleftrightarrow> s \<noteq> [] \<and> (\<forall>x \<in> set s. P x)"
proof (cases s)
  case (Cons x xs)
  have "full_match (Plus (Chr P)) s \<longleftrightarrow> P x \<and> (\<exists>d. (length s, d) \<in> set (ends (Star (Chr P)) s 1 (\<lambda>_. None)))"
    by (force simp: full_match_def Plus_def Cons)
  also have "\<dots> \<longleftrightarrow> P x \<and> (\<forall>k. 1 \<le> k \<and> k < length s \<longrightarrow> P (s ! k))"
    using ends_Star_Chr [of 1 s "length s" _ P "\<lambda>_. None"] by (auto simp: Cons)
  also have "\<dots> \<longleftrightarrow> (\<forall>y \<in> set s. P y)"
    by (auto simp: Cons all_set_conv_all_nth nth_Cons split: nat.splits)
  finally show ?thesis by (simp add: Cons)
qed (simp add: full_match_def Plus_def)

end
