(* ===== verification/Types.thy ===== *)
theory Types
  imports Regexp
begin

text \<open>
  The data of the program: the wire messages of \<open>internal/protocol/protocol.go\<close> and the configuration
  of \<open>internal/config/config.go\<close> with its accessors that only default a field. A pointer is an
  \<open>option\<close>, a slice whose nil value the code distinguishes is an optional list, a map is a list of
  its entries. Fields carry their struct's initials so that no two records share a selector.
\<close>

section \<open>Wire protocol\<close>

definition ProtocolVersion :: int where "ProtocolVersion = 4"

record WinSize =
  ws_rows :: int
  ws_cols :: int

record ProxyRequest =
  pr_version :: int
  pr_tool :: string
  pr_args :: "string list option"
  pr_cwd :: string
  pr_timestamp :: string
  pr_nonce :: string
  pr_hmac :: string
  pr_env :: "(string, string) gomap"
  pr_use_pty :: bool
  pr_window_size :: "WinSize option"

record ResponseMessage =
  rm_type :: string
  rm_data :: string
  rm_exit_code :: int
  rm_timeout :: bool
  rm_message :: string
  rm_stream :: string
  rm_path :: string

record WrapperMessage =
  wm_type :: string
  wm_data :: string
  wm_eof :: bool
  wm_signal :: string
  wm_files :: "string list"
  wm_rows :: int
  wm_cols :: int

definition MsgTypeStdout :: string where "MsgTypeStdout = ''stdout''"
definition MsgTypeStderr :: string where "MsgTypeStderr = ''stderr''"
definition MsgTypeDone :: string where "MsgTypeDone = ''done''"
definition MsgTypeError :: string where "MsgTypeError = ''error''"
definition MsgTypeFile :: string where "MsgTypeFile = ''file''"
definition MsgTypeStdin :: string where "MsgTypeStdin = ''stdin''"
definition MsgTypeSignal :: string where "MsgTypeSignal = ''signal''"
definition MsgTypeCleanup :: string where "MsgTypeCleanup = ''cleanup''"
definition MsgTypeWinSize :: string where "MsgTypeWinSize = ''winsize''"

lemmas msg_types = MsgTypeStdout_def MsgTypeStderr_def MsgTypeDone_def MsgTypeError_def
  MsgTypeFile_def MsgTypeStdin_def MsgTypeSignal_def MsgTypeCleanup_def MsgTypeWinSize_def

definition ValidSignals :: "string list" where
  "ValidSignals = [''SIGINT'', ''SIGTERM'', ''SIGHUP'']"

record AdminRequest =
  ar_version :: int
  ar_admin :: string
  ar_timestamp :: string
  ar_nonce :: string
  ar_hmac :: string

record ToolInfo =
  ti_binary :: string
  ti_mode :: string

record AdminListResponse =
  al_tools :: "(string, ToolInfo) gomap"
  al_version :: string

record CredentialInfo =
  ci_status :: string
  ci_preview :: string

record HTTPProxyInfo =
  hi_enabled :: bool
  hi_listen :: string
  hi_ca_cert_path :: string
  hi_auth_token_path :: string

record AdminCheckResponse =
  ac_credentials :: "(string, CredentialInfo) gomap"
  ac_http_proxy :: "HTTPProxyInfo option"
  ac_version :: string

definition empty_response :: ResponseMessage where
  "empty_response = \<lparr>rm_type = [], rm_data = [], rm_exit_code = 0, rm_timeout = False,
     rm_message = [], rm_stream = [], rm_path = []\<rparr>"

definition nil_slice :: "'a list option \<Rightarrow> 'a list" where
  "nil_slice xs = (case xs of None \<Rightarrow> [] | Some ys \<Rightarrow> ys)"

section \<open>Configuration\<close>

record ProxyConfig =
  pc_timeout :: string
  pc_inline_threshold :: string
  pc_hmac_secret_file :: string
  pc_pass_binary :: string
  pc_op_binary :: string
  pc_op_token_file :: string
  pc_bw_binary :: string
  pc_age_identity_file :: string
  pc_max_connections :: int
  pc_read_header_timeout :: string
  pc_read_message_timeout :: string
  pc_max_stdin_message_size :: string
  pc_max_output_size :: string
  pc_write_timeout :: string
  pc_max_connection_lifetime :: string
  pc_replay_cache_ttl :: string
  pc_replay_cache_max :: int
  pc_credential_cache_ttl :: string
  pc_vault_binary :: string
  pc_vault_addr :: string
  pc_vault_skip_verify :: "bool option"
  pc_vault_cacert :: string
  pc_vault_namespace :: string
  pc_vault_token_file :: string

record SecurityConfig =
  sc_deny_unverified :: bool

record InjectSpec =
  is_header :: string
  is_value :: string

record PathRule =
  rule_method :: string
  rule_pattern :: regex

record ProxyRoute =
  rt_host :: string
  rt_inject :: InjectSpec
  rt_allow :: "string list"
  rt_deny :: "string list"
  rt_host_regex :: "regex option"
  rt_allow_rules :: "PathRule list"
  rt_deny_rules :: "PathRule list"

record CAConfig =
  ca_path :: string
  ca_cert_file :: string
  ca_key_file :: string
  ca_external :: bool
  ca_validity_days :: int
  ca_organization :: string

record HTTPProxyConfig =
  hp_enabled :: bool
  hp_listen :: string
  hp_require_auth :: "bool option"
  hp_log_level :: string
  hp_ca :: CAConfig
  hp_strip_response_headers :: "string list"
  hp_routes :: "ProxyRoute list"

record AuditConfig =
  au_enabled :: bool
  au_file :: string
  au_stdout :: bool
  au_include_args :: "bool option"
  au_include_output_hash :: "bool option"
  au_include_duration :: "bool option"
  au_syslog :: bool
  au_syslog_facility :: string

record CredentialDef =
  cd_source :: string
  cd_type :: string
  cd_app_id :: int
  cd_installation_id :: int
  cd_private_key :: string
  cd_api_url :: string
  cd_permissions :: "(string, string) gomap"
  cd_repositories :: "string list"

record ToolRedactRule =
  rr_pattern :: string
  rr_replace :: string
  rr_compiled :: "regex option"

record BlockedArg =
  ba_pattern :: string
  ba_message :: string
  ba_match :: string
  ba_argv :: "string list"
  ba_compiled :: "regex option"
  ba_compiled_argv :: "regex list"

record ConfigFileDef =
  cf_xdg_subdir :: string
  cf_filename :: string
  cf_template :: string
  cf_credentials :: "string list"

record ToolDef =
  td_binary :: string
  td_timeout :: string
  td_env :: "(string, string) gomap"
  td_forced_env :: "(string, string) gomap"
  td_mode :: string
  td_blocked_args :: "BlockedArg list"
  td_allowed_args :: "BlockedArg list"
  td_redact_output :: "ToolRedactRule list"
  td_config_file :: "ConfigFileDef option"
  td_use_proxy :: bool
  td_use_pty :: "bool option"
  td_use_stdin :: "bool option"
  td_working_dir :: string
  td_request_env :: "string list option"

record Config =
  c_proxy :: "ProxyConfig option"
  c_security :: "SecurityConfig option"
  c_http_proxy :: "HTTPProxyConfig option"
  c_audit :: "AuditConfig option"
  c_credentials :: "(string, CredentialDef) gomap"
  c_tools :: "(string, ToolDef) gomap"

section \<open>Constants\<close>

definition BlockedArgMatchArg :: string where "BlockedArgMatchArg = ''arg''"
definition BlockedArgMatchCommand :: string where "BlockedArgMatchCommand = ''command''"
definition BlockedArgMatchArgv :: string where "BlockedArgMatchArgv = ''argv''"
definition ToolModeBlocklist :: string where "ToolModeBlocklist = ''blocklist''"
definition ToolModeAllowlist :: string where "ToolModeAllowlist = ''allowlist''"
definition DefaultRedactReplacement :: string where "DefaultRedactReplacement = ''[REDACTED]''"
definition maxRedactOutputRulesPerTool :: nat where "maxRedactOutputRulesPerTool = 64"
definition maxRedactPatternLength :: nat where "maxRedactPatternLength = 1024"
definition maxRedactReplaceLength :: nat where "maxRedactReplaceLength = 256"

lemmas match_modes = BlockedArgMatchArg_def BlockedArgMatchCommand_def BlockedArgMatchArgv_def
lemmas tool_modes = ToolModeBlocklist_def ToolModeAllowlist_def

section \<open>Defaulting accessors\<close>

definition default_true :: "bool option \<Rightarrow> bool" where
  "default_true b = (case b of None \<Rightarrow> True | Some v \<Rightarrow> v)"

definition GetRequireAuth :: "HTTPProxyConfig \<Rightarrow> bool" where
  "GetRequireAuth c = (case hp_require_auth c of None \<Rightarrow> True | Some v \<Rightarrow> v)"

definition GetIncludeArgs :: "AuditConfig \<Rightarrow> bool" where
  "GetIncludeArgs a = (case au_include_args a of None \<Rightarrow> True | Some v \<Rightarrow> v)"

definition GetIncludeOutputHash :: "AuditConfig \<Rightarrow> bool" where
  "GetIncludeOutputHash a = (case au_include_output_hash a of None \<Rightarrow> True | Some v \<Rightarrow> v)"

definition GetIncludeDuration :: "AuditConfig \<Rightarrow> bool" where
  "GetIncludeDuration a = (case au_include_duration a of None \<Rightarrow> True | Some v \<Rightarrow> v)"

definition GetUseStdin :: "ToolDef \<Rightarrow> bool" where
  "GetUseStdin t = (case td_use_stdin t of None \<Rightarrow> True | Some v \<Rightarrow> v)"

definition GetUsePTY :: "ToolDef \<Rightarrow> bool" where
  "GetUsePTY t = (case td_use_pty t of None \<Rightarrow> GetUseStdin t | Some v \<Rightarrow> v)"

definition GetHTTPProxyConfig :: "Config \<Rightarrow> HTTPProxyConfig option" where
  "GetHTTPProxyConfig c = c_http_proxy c"

definition GetHTTPProxyEnabled :: "Config \<Rightarrow> bool" where
  "GetHTTPProxyEnabled c = (case c_http_proxy c of None \<Rightarrow> False | Some h \<Rightarrow> hp_enabled h)"

definition GetHTTPProxyListen :: "Config \<Rightarrow> string" where
  "GetHTTPProxyListen c =
     (case c_http_proxy c of None \<Rightarrow> ''127.0.0.1:8080''
      | Some h \<Rightarrow> if hp_listen h = [] then ''127.0.0.1:8080'' else hp_listen h)"

definition GetHTTPProxyCAPath :: "Config \<Rightarrow> string" where
  "GetHTTPProxyCAPath c = (case c_http_proxy c of None \<Rightarrow> [] | Some h \<Rightarrow> ca_path (hp_ca h))"

definition GetHTTPProxyRequireAuth :: "Config \<Rightarrow> bool" where
  "GetHTTPProxyRequireAuth c = (case c_http_proxy c of None \<Rightarrow> True | Some h \<Rightarrow> GetRequireAuth h)"

definition GetHTTPProxyCACertFile :: "Config \<Rightarrow> string" where
  "GetHTTPProxyCACertFile c =
     (case c_http_proxy c of None \<Rightarrow> ''ca.crt''
      | Some h \<Rightarrow> if ca_cert_file (hp_ca h) = [] then ''ca.crt'' else ca_cert_file (hp_ca h))"

definition GetHTTPProxyCAKeyFile :: "Config \<Rightarrow> string" where
  "GetHTTPProxyCAKeyFile c =
     (case c_http_proxy c of None \<Rightarrow> ''ca.key''
      | Some h \<Rightarrow> if ca_key_file (hp_ca h) = [] then ''ca.key'' else ca_key_file (hp_ca h))"

definition GetHTTPProxyCAExternal :: "Config \<Rightarrow> bool" where
  "GetHTTPProxyCAExternal c = (case c_http_proxy c of None \<Rightarrow> False | Some h \<Rightarrow> ca_external (hp_ca h))"

definition GetAuditConfig :: "Config option \<Rightarrow> AuditConfig option" where
  "GetAuditConfig c = (case c of None \<Rightarrow> None | Some c' \<Rightarrow> c_audit c')"

definition GetAuditEnabled :: "Config \<Rightarrow> bool" where
  "GetAuditEnabled c = (case c_audit c of None \<Rightarrow> False | Some a \<Rightarrow> au_enabled a)"

definition DenyUnverifiedCallerExe :: "Config \<Rightarrow> bool" where
  "DenyUnverifiedCallerExe c = (case c_security c of None \<Rightarrow> False | Some s \<Rightarrow> sc_deny_unverified s)"

section \<open>Empty values\<close>

text \<open>The zero values of the structs, from which examples are built.\<close>

definition zero_tool :: ToolDef where
  "zero_tool = \<lparr>td_binary = [], td_timeout = [], td_env = [], td_forced_env = [], td_mode = [],
     td_blocked_args = [], td_allowed_args = [], td_redact_output = [], td_config_file = None,
     td_use_proxy = False, td_use_pty = None, td_use_stdin = None, td_working_dir = [],
     td_request_env = None\<rparr>"

definition zero_arg :: BlockedArg where
  "zero_arg = \<lparr>ba_pattern = [], ba_message = [], ba_match = [], ba_argv = [], ba_compiled = None,
     ba_compiled_argv = []\<rparr>"

definition zero_config :: Config where
  "zero_config = \<lparr>c_proxy = None, c_security = None, c_http_proxy = None, c_audit = None,
     c_credentials = [], c_tools = []\<rparr>"

definition zero_cred :: CredentialDef where
  "zero_cred = \<lparr>cd_source = [], cd_type = [], cd_app_id = 0, cd_installation_id = 0, cd_private_key = [],
     cd_api_url = [], cd_permissions = [], cd_repositories = []\<rparr>"

end
