(* ===== verification/Redactor.thy ===== *)
theory Redactor
  imports Types
begin

text \<open>
  \<open>internal/daemon/output_redactor.go\<close>: the streaming redactor between a tool's output and the
  caller. Stage 1 replaces literal secrets and holds back only a tail that may still become one;
  stage 2 applies the configured expressions with a bounded overlap. The locale \<open>stream_filter\<close>
  states what a chunked filter owes its caller, whatever the chunking, and stage 1 is an
  interpretation of it.
\<close>

section \<open>A filter fed chunk by chunk\<close>

text \<open>
  \<open>step\<close> consumes one chunk, \<open>finish\<close> the last one; \<open>pending\<close> is what the state holds back and
  \<open>whole\<close> the filter on the complete input.
\<close>

locale stream_filter =
  fixes step :: "'st \<Rightarrow> bytes \<Rightarrow> bytes \<times> 'st"
    and finish :: "'st \<Rightarrow> bytes \<Rightarrow> bytes"
    and pending :: "'st \<Rightarrow> bytes"
    and whole :: "'st \<Rightarrow> bytes \<Rightarrow> bytes"
  assumes step_whole: "step st d = (out, st') \<Longrightarrow>
      whole st (pending st @ d @ rest) = out @ whole st' (pending st' @ rest)"
    and finish_whole: "finish st d = whole st (pending st @ d)"
begin

fun feed :: "'st \<Rightarrow> bytes list \<Rightarrow> bytes \<times> 'st" where
  "feed st [] = ([], st)"
| "feed st (d # ds) = (let (out, st') = step st d; (out', st'') = feed st' ds in (out @ out', st''))"

lemma feed_whole:
  "feed st ds = (out, st') \<Longrightarrow>
     whole st (pending st @ concat ds @ rest) = out @ whole st' (pending st' @ rest)"
proof (induction ds arbitrary: st out)
  case (Cons d ds)
  obtain o1 st1 where s: "step st d = (o1, st1)" by (cases "step st d")
  obtain o2 where f: "feed st1 ds = (o2, st')" and out: "out = o1 @ o2"
    using Cons.prems s by (auto split: prod.splits)
  show ?case
    using step_whole [OF s, of "concat ds @ rest"] Cons.IH [OF f] by (simp add: out)
qed simp

text \<open>Chunking is invisible: the pieces released add up to the filter on the whole input.\<close>

lemma chunking_invisible:
  "feed st ds = (out, st') \<Longrightarrow> out @ finish st' d = whole st (pending st @ concat ds @ d)"
  using feed_whole [of st ds out st' d] by (simp add: finish_whole)

end

section \<open>State and construction\<close>

definition defaultRedactionOverlapBytes :: nat where "defaultRedactionOverlapBytes = 128"
definition minSecretRedactLength :: nat where "minSecretRedactLength = 8"

record outputRedactionRule =
  orr_replace :: bytes
  orr_re :: regex

record OutputRedactor =
  or_secrets :: "bytes list"
  or_secretCarry :: bytes
  or_rules :: "outputRedactionRule list"
  or_carry :: bytes
  or_overlap :: nat

fun compiled_rules :: "ToolRedactRule list \<Rightarrow> outputRedactionRule list" where
  "compiled_rules [] = []"
| "compiled_rules (r # rs) =
     (case rr_compiled r of
        None \<Rightarrow> compiled_rules rs
      | Some re \<Rightarrow> \<lparr>orr_replace = rr_replace r, orr_re = re\<rparr> # compiled_rules rs)"

definition NewOutputRedactor :: "ToolRedactRule list \<Rightarrow> OutputRedactor option" where
  "NewOutputRedactor rules =
     (if rules = [] then None
      else let compiled = compiled_rules rules
           in if compiled = [] then None
              else Some \<lparr>or_secrets = [], or_secretCarry = [], or_rules = compiled, or_carry = [],
                         or_overlap = defaultRedactionOverlapBytes\<rparr>)"

text \<open>The loop that drops short and repeated values; \<open>seen\<close> is the map of those taken.\<close>

fun secret_literals :: "string list \<Rightarrow> string list \<Rightarrow> string list" where
  "secret_literals seen [] = []"
| "secret_literals seen (s # ss) =
     (if length s < minSecretRedactLength \<or> s \<in> set seen then secret_literals seen ss
      else s # secret_literals (s # seen) ss)"

definition longest_first :: "string list \<Rightarrow> string list" where
  "longest_first ls = sort_key (\<lambda>s. - int (length s)) ls"

definition NewOutputRedactorWithSecrets :: "ToolRedactRule list \<Rightarrow> string list \<Rightarrow> OutputRedactor option" where
  "NewOutputRedactorWithSecrets rules secs =
     (let r = NewOutputRedactor rules; literals = secret_literals [] secs
      in if literals = [] then r
         else let r' = (case r of Some x \<Rightarrow> x
                        | None \<Rightarrow> \<lparr>or_secrets = [], or_secretCarry = [], or_rules = [], or_carry = [],
                                   or_overlap = 0\<rparr>)
              in Some (r'\<lparr>or_secrets := or_secrets r' @ longest_first literals\<rparr>))"

section \<open>Stage 1: literal secrets\<close>

definition isSecretPrefix :: "bytes list \<Rightarrow> bytes \<Rightarrow> bool" where
  "isSecretPrefix secs b \<longleftrightarrow> list_ex (\<lambda>s. length b < length s \<and> has_prefix s b) secs"

fun matchSecret :: "bytes list \<Rightarrow> bytes \<Rightarrow> nat" where
  "matchSecret [] b = 0"
| "matchSecret (s # ss) b = (if has_prefix b s then length s else matchSecret ss b)"

text \<open>The loop over \<open>buf[i:]\<close>: the bytes released and the new carry.\<close>

function redact_loop :: "bytes list \<Rightarrow> bool \<Rightarrow> bytes \<Rightarrow> bytes \<times> bytes" where
  "redact_loop secs fin rest =
     (if rest = [] then ([], [])
      else if \<not> fin \<and> isSecretPrefix secs rest then ([], rest)
      else let n = matchSecret secs rest
           in if n > 0
              then let (out, c) = redact_loop secs fin (drop n rest) in (DefaultRedactReplacement @ out, c)
              else let (out, c) = redact_loop secs fin (tl rest) in (hd rest # out, c))"
  by pat_completeness auto
termination
  by (relation "measure (\<lambda>(secs, fin, rest). length rest)") auto

declare redact_loop.simps [simp del]

definition redactSecrets :: "OutputRedactor \<Rightarrow> bytes \<Rightarrow> bool \<Rightarrow> bytes \<times> OutputRedactor" where
  "redactSecrets r data fin =
     (let buf = or_secretCarry r @ data
      in if buf = [] then ([], r\<lparr>or_secretCarry := []\<rparr>)
         else let (out, c) = redact_loop (or_secrets r) fin buf
              in (out, r\<lparr>or_secretCarry := c\<rparr>))"

section \<open>Stage 2: configured expressions\<close>

fun apply_rules :: "outputRedactionRule list \<Rightarrow> bytes \<Rightarrow> bytes" where
  "apply_rules [] redacted = redacted"
| "apply_rules (rule # rs) redacted =
     (if redacted = [] then redacted
      else if \<not> match_string (orr_re rule) redacted then apply_rules rs redacted
      else apply_rules rs (replace_template (orr_re rule) redacted (orr_replace rule)))"

definition redactRules :: "OutputRedactor \<Rightarrow> bytes \<Rightarrow> bool \<Rightarrow> bytes \<times> OutputRedactor" where
  "redactRules r data fin =
     (if data = [] \<and> \<not> fin then ([], r)
      else if length (or_carry r) + length data = 0 then ([], r)
      else let redacted = apply_rules (or_rules r) (or_carry r @ data)
           in if fin then (redacted, r\<lparr>or_carry := []\<rparr>)
              else if length redacted \<le> or_overlap r then ([], r\<lparr>or_carry := redacted\<rparr>)
              else let emitLen = length redacted - or_overlap r
                   in (take emitLen redacted, r\<lparr>or_carry := drop emitLen redacted\<rparr>))"

definition RedactChunk :: "OutputRedactor option \<Rightarrow> bytes \<Rightarrow> bool \<Rightarrow> bytes \<times> OutputRedactor option" where
  "RedactChunk ro data fin =
     (case ro of
        None \<Rightarrow> (data, None)
      | Some r \<Rightarrow>
        let (data1, r1) = (if or_secrets r \<noteq> [] then redactSecrets r data fin else (data, r))
        in if or_rules r1 = [] then (data1, Some r1)
           else let (data2, r2) = redactRules r1 data1 fin in (data2, Some r2))"

text \<open>
  What the caller of the tool receives: every chunk read is passed on with \<open>finalize\<close> false, and
  at the end of the stream the rest is flushed.
\<close>

fun redact_stream :: "OutputRedactor option \<Rightarrow> bytes list \<Rightarrow> bytes" where
  "redact_stream ro [] = fst (RedactChunk ro [] True)"
| "redact_stream ro (d # ds) = (let (out, ro') = RedactChunk ro d False in out @ redact_stream ro' ds)"

section \<open>Stage 1 is independent of the chunking\<close>

abbreviation redact_whole :: "bytes list \<Rightarrow> bytes \<Rightarrow> bytes" where
  "redact_whole secs b \<equiv> fst (redact_loop secs True b)"

lemma matchSecret_prefix: "matchSecret secs b > 0 \<Longrightarrow> \<exists>s \<in> set secs. has_prefix b s \<and> matchSecret secs b = length s"
  by (induction secs) (auto split: if_splits)

lemma matchSecret_pos: "s \<in> set secs \<Longrightarrow> has_prefix b s \<Longrightarrow> [] \<notin> set secs \<Longrightarrow> matchSecret secs b > 0"
  by (induction secs) auto

text \<open>A tail that is no proper prefix of a secret is matched the same way whatever follows it.\<close>

lemma matchSecret_append:
  "\<not> isSecretPrefix secs b \<Longrightarrow> matchSecret secs (b @ t) = matchSecret secs b"
proof (induction secs)
  case (Cons s ss)
  have "has_prefix (b @ t) s \<longleftrightarrow> has_prefix b s"
  proof (cases "length s \<le> length b")
    case False
    with Cons.prems have "\<not> has_prefix s b" by (auto simp: isSecretPrefix_def)
    moreover have "has_prefix (b @ t) s \<Longrightarrow> has_prefix s b"
      using has_prefix_total [of "b @ t" b s] False by simp
    ultimately show ?thesis using False has_prefix_length by blast
  qed (rule has_prefix_append_short)
  with Cons show ?case by (simp add: isSecretPrefix_def)
qed simp

lemma isSecretPrefix_append: "isSecretPrefix secs (b @ t) \<Longrightarrow> isSecretPrefix secs b"
proof -
  assume "isSecretPrefix secs (b @ t)"
  then obtain s where "s \<in> set secs" "length (b @ t) < length s" "has_prefix s (b @ t)"
    by (auto simp: isSecretPrefix_def list_ex_iff)
  moreover from this(3) have "has_prefix s b"
    using has_prefix_iff has_prefix_append [of b] append.assoc by metis
  ultimately show ?thesis by (auto simp: isSecretPrefix_def list_ex_iff intro!: bexI [of _ s])
qed

lemma matchSecret_le: "matchSecret secs b \<le> length b"
  by (induction secs) (auto dest: has_prefix_length)

text \<open>One turn of the loop: how far it advances and what it releases.\<close>

definition turn_len :: "bytes list \<Rightarrow> bytes \<Rightarrow> nat" where
  "turn_len secs b = (if matchSecret secs b > 0 then matchSecret secs b else 1)"

definition turn_out :: "bytes list \<Rightarrow> bytes \<Rightarrow> bytes" where
  "turn_out secs b = (if matchSecret secs b > 0 then DefaultRedactReplacement else [hd b])"

lemma redact_loop_turn:
  "b \<noteq> [] \<Longrightarrow> fin \<or> \<not> isSecretPrefix secs b \<Longrightarrow> redact_loop secs fin b =
     (let (out, c) = redact_loop secs fin (drop (turn_len secs b) b) in (turn_out secs b @ out, c))"
  by (subst redact_loop.simps) (auto simp: turn_len_def turn_out_def drop_Suc split: prod.splits)

lemma turn_len_bounds: "b \<noteq> [] \<Longrightarrow> 0 < turn_len secs b \<and> turn_len secs b \<le> length b \<and> matchSecret secs b \<le> turn_len secs b"
  using matchSecret_le [of secs b] by (auto simp: turn_len_def Suc_le_eq)

lemma redact_loop_append:
  "redact_loop secs False b = (out, c) \<Longrightarrow>
     redact_loop secs fin (b @ t) = (let (o2, c2) = redact_loop secs fin (c @ t) in (out @ o2, c2))"
proof (induction b arbitrary: out rule: length_induct)
  case (1 b)
  show ?case
  proof (cases "b = [] \<or> isSecretPrefix secs b")
    case True
    then have "redact_loop secs False b = ([], b)" by (auto simp: redact_loop.simps [of secs False b])
    with "1.prems" show ?thesis by (simp split: prod.splits)
  next
    case False
    then have b: "b \<noteq> []" and np: "\<not> isSecretPrefix secs b" by auto
    define n where "n = turn_len secs b"
    define w where "w = turn_out secs b"
    have n: "0 < n" "n \<le> length b" using turn_len_bounds [OF b, of secs] by (simp_all add: n_def)
    have fold: "redact_loop secs False b = (let (o1, c1) = redact_loop secs False (drop n b) in (w @ o1, c1))"
      using b np by (simp add: redact_loop_turn n_def w_def)
    have "turn_len secs (b @ t) = n" "turn_out secs (b @ t) = w"
      using matchSecret_append [OF np, of t] b by (simp_all add: n_def w_def turn_len_def turn_out_def)
    moreover have "\<not> isSecretPrefix secs (b @ t)" using np isSecretPrefix_append by blast
    ultimately have "redact_loop secs fin (b @ t) = (let (o1, c1) = redact_loop secs fin (drop n b @ t) in (w @ o1, c1))"
      using b n by (simp add: redact_loop_turn [of "b @ t"])
    moreover obtain o1 where "redact_loop secs False (drop n b) = (o1, c)" and "out = w @ o1"
      using fold "1.prems" by (auto split: prod.splits)
    moreover have "length (drop n b) < length b" using n by simp
    ultimately show ?thesis using "1.IH" by (auto split: prod.splits)
  qed
qed

interpretation st1: stream_filter
  "\<lambda>r d. redactSecrets r d False" "\<lambda>r d. fst (redactSecrets r d True)" or_secretCarry
  "\<lambda>r. redact_whole (or_secrets r)"
proof
  fix st d out st' rest
  assume s: "redactSecrets st d False = (out, st')"
  show "redact_whole (or_secrets st) (or_secretCarry st @ d @ rest) =
      out @ redact_whole (or_secrets st') (or_secretCarry st' @ rest)"
  proof (cases "or_secretCarry st @ d = []")
    case True
    with s show ?thesis by (auto simp: redactSecrets_def)
  next
    case False
    obtain c where "redact_loop (or_secrets st) False (or_secretCarry st @ d) = (out, c)"
      and "st' = st\<lparr>or_secretCarry := c\<rparr>"
      using s False by (auto simp: redactSecrets_def split: prod.splits)
    with redact_loop_append [OF this(1), of True rest] show ?thesis by (simp split: prod.splits)
  qed
next
  fix st d
  show "fst (redactSecrets st d True) = redact_whole (or_secrets st) (or_secretCarry st @ d)"
    by (auto simp: redactSecrets_def redact_loop.simps [of _ _ "[]"] split: prod.splits)
qed

lemma RedactChunk_literals:
  "or_rules r = [] \<Longrightarrow> or_secrets r \<noteq> [] \<Longrightarrow>
   RedactChunk (Some r) d fin = (let (out, r') = redactSecrets r d fin in (out, Some r'))"
  by (auto simp: RedactChunk_def redactSecrets_def split: prod.splits)

lemma redactSecrets_frame:
  "redactSecrets r d fin = (out, r') \<Longrightarrow> or_rules r' = or_rules r \<and> or_secrets r' = or_secrets r"
  by (auto simp: redactSecrets_def split: prod.splits if_splits)

lemma redact_stream_literals:
  "or_rules r = [] \<Longrightarrow> or_secrets r \<noteq> [] \<Longrightarrow>
   redact_stream (Some r) ds = (let (out, r') = st1.feed r ds in out @ fst (redactSecrets r' [] True))"
proof (induction ds arbitrary: r)
  case Nil
  then show ?case by (simp add: RedactChunk_literals split: prod.splits)
next
  case (Cons d ds)
  obtain o1 r1 where s: "redactSecrets r d False = (o1, r1)" by (cases "redactSecrets r d False")
  from redactSecrets_frame [OF s] Cons have
    "redact_stream (Some r1) ds = (let (out, r') = st1.feed r1 ds in out @ fst (redactSecrets r' [] True))"
    by simp
  then show ?case using Cons.prems s by (auto simp: RedactChunk_literals split: prod.splits)
qed

lemma redact_stream_whole:
  assumes "or_rules r = []" "or_secrets r \<noteq> []" "or_secretCarry r = []"
  shows "redact_stream (Some r) ds = redact_whole (or_secrets r) (concat ds)"
proof -
  obtain out r' where f: "st1.feed r ds = (out, r')" by (cases "st1.feed r ds")
  show ?thesis
    using st1.chunking_invisible [OF f, of "[]"] assms
    by (simp add: redact_stream_literals f)
qed

section \<open>Stage 1 hides the secrets\<close>

text \<open>Released bytes that hold no opening bracket were read as they are.\<close>

lemma redact_whole_prefix:
  "has_prefix (redact_whole secs b) w \<Longrightarrow> CHR ''['' \<notin> set w \<Longrightarrow> has_prefix b w"
proof (induction w arbitrary: b)
  case (Cons x w)
  then have b: "b \<noteq> []" by (auto simp: redact_loop.simps [of _ _ "[]"])
  show ?case
  proof (cases "matchSecret secs b > 0")
    case True
    with b have "hd (redact_whole secs b) = CHR ''[''" "redact_whole secs b \<noteq> []"
      by (subst redact_loop.simps; simp add: DefaultRedactReplacement_def split: prod.splits)+
    with Cons.prems show ?thesis by (cases "redact_whole secs b") auto
  next
    case False
    with b have "redact_whole secs b = hd b # redact_whole secs (tl b)"
      by (subst redact_loop.simps) (simp split: prod.splits)
    with Cons b show ?thesis by (cases b) auto
  qed
qed simp

lemma has_prefix_stop:
  "has_prefix (u @ c # v) w \<Longrightarrow> c \<notin> set w \<Longrightarrow> has_prefix u w"
proof (induction u arbitrary: w)
  case Nil
  then show ?case by (cases w) auto
next
  case (Cons x u)
  then show ?case by (cases w) auto
qed

lemma contains_str_simps:
  "contains_str [] p \<longleftrightarrow> p = []"
  "contains_str (c # s) p \<longleftrightarrow> has_prefix (c # s) p \<or> contains_str s p"
  by (auto simp: contains_str_def)

text \<open>An occurrence that starts inside the replacement can only be the word it brackets.\<close>

lemma contains_replacement:
  assumes "contains_str (DefaultRedactReplacement @ v) s" "8 \<le> length s"
    "CHR ''['' \<notin> set s" "CHR '']'' \<notin> set s" "s \<noteq> ''REDACTED''"
  shows "contains_str v s"
proof -
  have inner: "\<not> has_prefix (u @ CHR '']'' # v) s" if "length u < 8 \<or> u = ''REDACTED''" for u
  proof
    assume "has_prefix (u @ CHR '']'' # v) s"
    from has_prefix_stop [OF this assms(4)] have p: "has_prefix u s" .
    from has_prefix_length [OF this] assms(2) that have "u = ''REDACTED''" by auto
    with p assms(2,5) show False by (auto simp: has_prefix_def)
  qed
  have "s \<noteq> []" using assms(2) by auto
  with assms(3,4) have "\<not> has_prefix (CHR ''['' # t) s" "\<not> has_prefix (CHR '']'' # t) s" for t
    by (cases s; auto)+
  with assms(1) inner [of "''REDACTED''"] inner [of "''EDACTED''"] inner [of "''DACTED''"]
    inner [of "''ACTED''"] inner [of "''CTED''"] inner [of "''TED''"] inner [of "''ED''"] inner [of "''D''"]
  show ?thesis by (simp add: DefaultRedactReplacement_def contains_str_simps)
qed

lemma redact_whole_hides:
  assumes "s \<in> set secs" "[] \<notin> set secs" "8 \<le> length s"
    "CHR ''['' \<notin> set s" "CHR '']'' \<notin> set s" "s \<noteq> ''REDACTED''"
  shows "\<not> contains_str (redact_whole secs b) s"
proof (induction b rule: length_induct)
  case (1 b)
  show ?case
  proof (cases "b = []")
    case True
    with assms(3) show ?thesis by (auto simp: redact_loop.simps [of _ _ "[]"] contains_str_simps)
  next
    case b: False
    show ?thesis
    proof (cases "matchSecret secs b > 0")
      case True
      with b have "redact_whole secs b = DefaultRedactReplacement @ redact_whole secs (drop (matchSecret secs b) b)"
        by (subst redact_loop.simps) (simp split: prod.splits)
      moreover have "\<not> contains_str (redact_whole secs (drop (matchSecret secs b) b)) s"
        using 1 b True by simp
      ultimately show ?thesis using contains_replacement assms(3-6) by metis
    next
      case False
      with b have r: "redact_whole secs b = hd b # redact_whole secs (tl b)"
        by (subst redact_loop.simps) (simp split: prod.splits)
      have "\<not> has_prefix b s" using matchSecret_pos [OF assms(1) _ assms(2), of b] False by auto
      then have "\<not> has_prefix (redact_whole secs b) s" using redact_whole_prefix assms(4) by blast
      moreover have "\<not> contains_str (redact_whole secs (tl b)) s" using 1 b by simp
      ultimately show ?thesis by (simp add: r contains_str_simps)
    qed
  qed
qed

section \<open>The constructor\<close>

lemma set_secret_literals:
  "set (secret_literals seen ss) = {s \<in> set ss. 8 \<le> length s} - set seen"
  by (induction ss arbitrary: seen) (auto simp: minSecretRedactLength_def)

lemma set_longest_first [simp]: "set (longest_first ls) = set ls"
  by (simp add: longest_first_def)

lemma longest_first_Nil [simp]: "longest_first ls = [] \<longleftrightarrow> ls = []"
  by (metis set_empty set_longest_first)

section \<open>What is held back\<close>

lemma matchSecret_cut:
  "has_prefix b x \<Longrightarrow> matchSecret secs b \<le> length x \<Longrightarrow> matchSecret secs x = matchSecret secs b"
proof (induction secs)
  case (Cons s ss)
  show ?case
  proof (cases "has_prefix b s")
    case True
    with Cons.prems show ?thesis using has_prefix_total [of b s x] by simp
  next
    case False
    with Cons.prems have "\<not> has_prefix x s" by (auto simp: has_prefix_iff)
    with False Cons show ?thesis by simp
  qed
qed simp

lemma redact_loop_held:
  "redact_loop secs False b = (out, c) \<Longrightarrow>
     \<exists>u. b = u @ c \<and> out = redact_whole secs u \<and> (c = [] \<or> isSecretPrefix secs c)"
proof (induction b arbitrary: out rule: length_induct)
  case (1 b)
  show ?case
  proof (cases "b = [] \<or> isSecretPrefix secs b")
    case True
    then have "redact_loop secs False b = ([], b)" by (auto simp: redact_loop.simps [of secs False b])
    with "1.prems" True show ?thesis by (intro exI [of _ "[]"]) (auto simp: redact_loop.simps [of _ _ "[]"])
  next
    case False
    then have b: "b \<noteq> []" and np: "\<not> isSecretPrefix secs b" by auto
    define n where "n = turn_len secs b"
    define w where "w = turn_out secs b"
    have n: "0 < n" "n \<le> length b" "matchSecret secs b \<le> n"
      using turn_len_bounds [OF b, of secs] by (simp_all add: n_def)
    have "redact_loop secs False b = (let (o1, c1) = redact_loop secs False (drop n b) in (w @ o1, c1))"
      using b np by (simp add: redact_loop_turn n_def w_def)
    with "1.prems" obtain o1 where o1: "redact_loop secs False (drop n b) = (o1, c)" and out: "out = w @ o1"
      by (auto split: prod.splits)
    have "length (drop n b) < length b" using n by simp
    with "1.IH" o1 obtain u where u: "drop n b = u @ c" "o1 = redact_whole secs u" "c = [] \<or> isSecretPrefix secs c"
      by blast
    define v where "v = take n b @ u"
    have v: "b = v @ c" unfolding v_def by (metis append.assoc append_take_drop_id u(1))
    have "has_prefix b v" by (subst v) simp
    moreover have "matchSecret secs b \<le> length v" using n by (simp add: v_def)
    ultimately have "matchSecret secs v = matchSecret secs b" by (rule matchSecret_cut)
    moreover have "v \<noteq> []" "hd v = hd b" using n b by (auto simp: v_def)
    ultimately have "turn_len secs v = n" "turn_out secs v = w" "v \<noteq> []"
      by (simp_all add: n_def w_def turn_len_def turn_out_def)
    moreover have "drop n v = u" using n by (simp add: v_def)
    ultimately have "redact_whole secs v = w @ redact_whole secs u"
      by (simp add: redact_loop_turn [of v] split: prod.splits)
    then have "out = redact_whole secs v" by (simp only: out u(2))
    with v u(3) show ?thesis by (intro exI [of _ v] conjI)
  qed
qed

lemma redactRules_carry_bounded:
  "redactRules r d fin = (out, r') \<Longrightarrow> length (or_carry r) \<le> or_overlap r \<Longrightarrow>
     length (or_carry r') \<le> or_overlap r' \<and> (fin \<longrightarrow> or_carry r' = [])"
  by (auto simp: redactRules_def Let_def split: if_splits)

section \<open>What the caller sees\<close>

text \<open>
  The two stages in sequence: what stage 1 passes on for each chunk and at the end of the stream, and
  what a redactor without literal secrets makes of such pieces.
\<close>

fun secret_pieces :: "OutputRedactor \<Rightarrow> bytes list \<Rightarrow> bytes list \<times> bytes" where
  "secret_pieces r [] = ([], fst (redactSecrets r [] True))"
| "secret_pieces r (d # ds) =
     (let (out, r') = redactSecrets r d False; (outs, rest) = secret_pieces r' ds in (out # outs, rest))"

fun rule_stream :: "OutputRedactor option \<Rightarrow> bytes list \<Rightarrow> bytes \<Rightarrow> bytes" where
  "rule_stream ro [] rest = fst (RedactChunk ro rest True)"
| "rule_stream ro (d # ds) rest = (let (out, ro') = RedactChunk ro d False in out @ rule_stream ro' ds rest)"

definition strip_secrets :: "OutputRedactor \<Rightarrow> OutputRedactor" where
  "strip_secrets r = r\<lparr>or_secrets := [], or_secretCarry := []\<rparr>"

lemma rule_stream_None: "rule_stream None ds rest = concat ds @ rest"
  by (induction ds) (simp_all add: RedactChunk_def)

lemma strip_redactRules: "redactRules (strip_secrets r) d fin = map_prod id strip_secrets (redactRules r d fin)"
  by (simp add: redactRules_def strip_secrets_def Let_def)

lemma strip_redactSecrets: "redactSecrets r d fin = (out, r') \<Longrightarrow>
  strip_secrets r' = strip_secrets r \<and> or_rules r' = or_rules r \<and> or_secrets r' = or_secrets r"
  by (auto simp: redactSecrets_def strip_secrets_def Let_def split: if_splits prod.splits)

lemma two_stage_chunk:
  assumes "or_secrets r \<noteq> []" "or_rules r \<noteq> []" "redactSecrets r d fin = (out, r1)" "redactRules r1 out fin = (out2, r2)"
  shows "RedactChunk (Some r) d fin = (out2, Some r2)" "RedactChunk (Some (strip_secrets r)) out fin = (out2, Some (strip_secrets r2))"
    "or_secrets r2 = or_secrets r" "or_rules r2 = or_rules r"
proof -
  note s = strip_redactSecrets [OF assms(3)]
  show "RedactChunk (Some r) d fin = (out2, Some r2)" using assms s by (simp add: RedactChunk_def)
  have "redactRules (strip_secrets r) out fin = (out2, strip_secrets r2)"
    using assms(4) s strip_redactRules [of r1 out fin] by simp
  then show "RedactChunk (Some (strip_secrets r)) out fin = (out2, Some (strip_secrets r2))"
    using assms(2) by (simp add: RedactChunk_def strip_secrets_def)
  show "or_secrets r2 = or_secrets r" "or_rules r2 = or_rules r"
    using assms(4) s by (auto simp: redactRules_def Let_def split: if_splits)
qed

lemma secret_pieces_cong:
  "or_secrets a = or_secrets b \<Longrightarrow> or_secretCarry a = or_secretCarry b \<Longrightarrow> secret_pieces a ds = secret_pieces b ds"
proof (induction ds arbitrary: a b)
  case (Cons d ds)
  obtain o1 a1 where a: "redactSecrets a d False = (o1, a1)" by (metis surj_pair)
  obtain o2 b1 where b: "redactSecrets b d False = (o2, b1)" by (metis surj_pair)
  have "o1 = o2 \<and> or_secrets a1 = or_secrets b1 \<and> or_secretCarry a1 = or_secretCarry b1"
    using a b Cons.prems by (auto simp: redactSecrets_def Let_def split: prod.splits if_splits)
  then show ?case using Cons.IH [of a1 b1] a b by simp
qed (auto simp: redactSecrets_def Let_def split: prod.splits)

lemma redactRules_pieces: "redactRules r d fin = (out, r') \<Longrightarrow> secret_pieces r' ds = secret_pieces r ds"
  by (rule secret_pieces_cong) (auto simp: redactRules_def Let_def split: if_splits)

lemma redact_stream_two_stages:
  "or_secrets r \<noteq> [] \<Longrightarrow> or_rules r \<noteq> [] \<Longrightarrow>
   redact_stream (Some r) ds = rule_stream (Some (strip_secrets r)) (fst (secret_pieces r ds)) (snd (secret_pieces r ds))"
proof (induction ds arbitrary: r)
  case Nil
  obtain out r1 where s: "redactSecrets r [] True = (out, r1)" by (metis surj_pair)
  obtain out2 r2 where t: "redactRules r1 out True = (out2, r2)" by (metis surj_pair)
  from two_stage_chunk(1,2) [OF Nil s t] s show ?case by simp
next
  case (Cons d ds)
  obtain out r1 where s: "redactSecrets r d False = (out, r1)" by (metis surj_pair)
  obtain out2 r2 where t: "redactRules r1 out False = (out2, r2)" by (metis surj_pair)
  note c = two_stage_chunk [OF Cons.prems s t]
  have "redact_stream (Some r2) ds = rule_stream (Some (strip_secrets r2)) (fst (secret_pieces r1 ds)) (snd (secret_pieces r1 ds))"
    using Cons.IH [of r2] Cons.prems c(3,4) redactRules_pieces [OF t] by simp
  with c(1,2) s show ?case by (simp split: prod.splits)
qed

lemma secret_pieces_whole:
  assumes "or_secrets r \<noteq> []" "or_secretCarry r = []"
  shows "concat (fst (secret_pieces r ds)) @ snd (secret_pieces r ds) = redact_whole (or_secrets r) (concat ds)"
proof -
  have "redact_stream (Some a) ds = concat (fst (secret_pieces a ds)) @ snd (secret_pieces a ds)"
    if "or_rules a = []" "or_secrets a \<noteq> []" for a
    using that
  proof (induction ds arbitrary: a)
    case (Cons d ds)
    obtain out a1 where s: "redactSecrets a d False = (out, a1)" by (metis surj_pair)
    note k = strip_redactSecrets [OF s]
    from s Cons.prems have "RedactChunk (Some a) d False = (out, Some a1)" by (simp add: RedactChunk_literals)
    moreover have "redact_stream (Some a1) ds = concat (fst (secret_pieces a1 ds)) @ snd (secret_pieces a1 ds)"
      using Cons.IH [of a1] Cons.prems k by simp
    ultimately show ?case using s by (simp split: prod.splits)
  qed (auto simp: RedactChunk_literals split: prod.splits)
  note w = this [of "r\<lparr>or_rules := []\<rparr>"]
  have p: "secret_pieces (r\<lparr>or_rules := []\<rparr>) ds = secret_pieces r ds" by (rule secret_pieces_cong) simp_all
  have "redact_stream (Some (r\<lparr>or_rules := []\<rparr>)) ds = redact_whole (or_secrets r) (concat ds)"
    using redact_stream_whole [of "r\<lparr>or_rules := []\<rparr>" ds] assms by simp
  with w p assms(1) show ?thesis by simp
qed
text \<open>The redactor of a tool is stage 1 on its secrets followed by the redactor of its expressions.\<close>

lemma redactor_stages:
  "\<exists>ds' rest. redact_stream (NewOutputRedactorWithSecrets rules secs) ds = rule_stream (NewOutputRedactor rules) ds' rest \<and>
     concat ds' @ rest = redact_whole (longest_first (secret_literals [] secs)) (concat ds)"
proof (cases "secret_literals [] secs = []")
  case True
  have "redact_stream ro ds = rule_stream ro ds []" for ro by (induction ds arbitrary: ro) (simp_all split: prod.splits)
  moreover have "redact_whole [] b = b" for b
  proof (induction b)
    case Nil
    then show ?case using redact_loop.simps [of "[]" True "[]"] by simp
  next
    case (Cons x b)
    then show ?case using redact_loop.simps [of "[]" True "x # b"] by (cases "redact_loop [] True b") simp
  qed
  moreover have "NewOutputRedactorWithSecrets rules secs = NewOutputRedactor rules" "longest_first (secret_literals [] secs) = []"
    using True by (simp_all add: NewOutputRedactorWithSecrets_def)
  ultimately show ?thesis by (intro exI [of _ ds] exI [of _ "[]"]) (simp only: append_Nil2 simp_thms)
next
  case False
  let ?l = "longest_first (secret_literals [] secs)"
  have l: "?l \<noteq> []" using False by simp
  show ?thesis
  proof (cases "NewOutputRedactor rules")
    case None
    let ?r = "\<lparr>or_secrets = ?l, or_secretCarry = [], or_rules = [], or_carry = [], or_overlap = 0\<rparr>"
    have "NewOutputRedactorWithSecrets rules secs = Some ?r" using None False by (simp add: NewOutputRedactorWithSecrets_def)
    moreover have "redact_stream (Some ?r) ds = redact_whole ?l (concat ds)" using redact_stream_whole [of ?r ds] l by simp
    ultimately show ?thesis
      by (intro exI [of _ "[]"] exI [of _ "redact_whole ?l (concat ds)"]) (simp add: None RedactChunk_def)
  next
    case (Some x)
    then have x: "or_secrets x = []" "or_secretCarry x = []" "or_rules x \<noteq> []" by (auto simp: NewOutputRedactor_def Let_def split: if_splits)
    let ?r = "x\<lparr>or_secrets := ?l\<rparr>"
    have n: "NewOutputRedactorWithSecrets rules secs = Some ?r" using Some False x by (simp add: NewOutputRedactorWithSecrets_def)
    have "strip_secrets ?r = x" using x by (simp add: strip_secrets_def)
    then have "redact_stream (Some ?r) ds = rule_stream (Some x) (fst (secret_pieces ?r ds)) (snd (secret_pieces ?r ds))"
      using redact_stream_two_stages [of ?r ds] l x(3) by simp
    moreover have "concat (fst (secret_pieces ?r ds)) @ snd (secret_pieces ?r ds) = redact_whole ?l (concat ds)"
      using secret_pieces_whole [of ?r ds] l x(2) by simp
    ultimately show ?thesis unfolding n Some by blast
  qed
qed

lemma no_rules_stream: "compiled_rules rules = [] \<Longrightarrow> rule_stream (NewOutputRedactor rules) ds rest = concat ds @ rest"
  by (simp add: NewOutputRedactor_def rule_stream_None)

text \<open>C9: however a tool's output is cut into chunks, what the literal stage passes on adds up to exactly
  what one pass over the complete output yields, so a secret that spans chunks is found. It is passed
  to the redactor of the configured expressions, of which the output is what the caller receives; without
  expressions it goes to the caller as it is, and the caller's text does not depend on the chunking. (The
  expressions see, beside a chunk, only 128 bytes held back, so with them the result may depend on it.)\<close>
theorem redaction_ignores_chunking:
  "\<exists>ds' rest. redact_stream (NewOutputRedactorWithSecrets rules secs) ds = rule_stream (NewOutputRedactor rules) ds' rest \<and>
     concat ds' @ rest = fst (redact_loop (longest_first (secret_literals [] secs)) True (concat ds)) \<and>
     (compiled_rules rules = [] \<longrightarrow>
        redact_stream (NewOutputRedactorWithSecrets rules secs) ds = fst (redact_loop (longest_first (secret_literals [] secs)) True (concat ds)))"
proof -
  obtain ds' rest where s: "redact_stream (NewOutputRedactorWithSecrets rules secs) ds = rule_stream (NewOutputRedactor rules) ds' rest"
    "concat ds' @ rest = redact_whole (longest_first (secret_literals [] secs)) (concat ds)"
    using redactor_stages by blast
  then show ?thesis using no_rules_stream by (intro exI [of _ ds'] exI [of _ rest]) simp
qed

theorem redaction_ignores_chunking_witness:
  "redact_stream (NewOutputRedactorWithSecrets [] [''hunter2hunter2'', ''short'']) [''pw: hunter2h'', ''unt'', ''er2!'']
     = ''pw: [REDACTED]!''"
proof -
  have "fst (redact_loop [''hunter2hunter2''] True ''pw: hunter2hunter2!'') = ''pw: [REDACTED]!''" by code_simp
  moreover have "longest_first (secret_literals [] [''hunter2hunter2'', ''short'']) = [''hunter2hunter2'']"
    by (simp add: minSecretRedactLength_def longest_first_def)
  ultimately show ?thesis
    using redaction_ignores_chunking [of "[]" "[''hunter2hunter2'', ''short'']" "[''pw: hunter2h'', ''unt'', ''er2!'']"]
    by (elim exE conjE) simp
qed

text \<open>C4: an injected secret of at least eight bytes is gone before the configured expressions run: the
  text they are applied to never contains it, however it was spread over chunks, and without expressions
  what the caller receives never contains it. Excluded are a secret with a bracket in it and the word
  REDACTED: the replacement text [REDACTED] can complete them. (An expression whose replacement joins the
  pieces around it could spell a secret; what it is given has none.)\<close>
theorem secret_never_released:
  assumes "s \<in> set secs" "8 \<le> length s"
    "CHR ''['' \<notin> set s" "CHR '']'' \<notin> set s" "s \<noteq> ''REDACTED''"
  shows "\<exists>ds' rest. redact_stream (NewOutputRedactorWithSecrets rules secs) ds = rule_stream (NewOutputRedactor rules) ds' rest \<and>
    \<not> contains_str (concat ds' @ rest) s \<and>
    (compiled_rules rules = [] \<longrightarrow> \<not> contains_str (redact_stream (NewOutputRedactorWithSecrets rules secs) ds) s)"
proof -
  obtain ds' rest where st: "redact_stream (NewOutputRedactorWithSecrets rules secs) ds = rule_stream (NewOutputRedactor rules) ds' rest"
    "concat ds' @ rest = redact_whole (longest_first (secret_literals [] secs)) (concat ds)"
    using redactor_stages by blast
  have "s \<in> set (longest_first (secret_literals [] secs))" "[] \<notin> set (longest_first (secret_literals [] secs))"
    using assms(1,2) by (simp_all add: set_secret_literals)
  from redact_whole_hides [OF this assms(2-5)] have "\<not> contains_str (concat ds' @ rest) s" using st(2) by simp
  then show ?thesis using st(1) no_rules_stream by (intro exI [of _ ds'] exI [of _ rest]) simp
qed

theorem secret_never_released_witness:
  "\<not> contains_str (redact_stream (NewOutputRedactorWithSecrets [] [''hunter2hunter2'']) [''a hunter2'', ''hunter2 b'']) ''hunter2hunter2''"
  using secret_never_released [of "''hunter2hunter2''" "[''hunter2hunter2'']" "[]" "[''a hunter2'', ''hunter2 b'']"] by auto

text \<open>A chunk that is not the last holds back only a tail that is a proper prefix of a secret;
  all bytes before that tail are released at once, redacted, so a prompt without a newline is
  visible immediately.\<close>

lemma only_partial_secret_held:
  assumes "or_rules r = []" "or_secrets r \<noteq> []" "RedactChunk (Some r) d False = (out, Some r')"
  shows "\<exists>u. or_secretCarry r @ d = u @ or_secretCarry r' \<and> out = fst (redact_loop (or_secrets r) True u) \<and>
     (or_secretCarry r' = [] \<or> isSecretPrefix (or_secrets r) (or_secretCarry r'))"
proof (cases "or_secretCarry r @ d = []")
  case True
  with assms show ?thesis
    by (auto simp: RedactChunk_literals redactSecrets_def redact_loop.simps [of _ _ "[]"])
next
  case False
  obtain c where l: "redact_loop (or_secrets r) False (or_secretCarry r @ d) = (out, c)"
    and "r' = r\<lparr>or_secretCarry := c\<rparr>"
    using assms False by (auto simp: RedactChunk_literals redactSecrets_def split: prod.splits)
  with redact_loop_held [OF l] show ?thesis by simp
qed

lemma only_partial_secret_held_witness:
  "\<exists>u. [] @ ''Password: hunt'' = u @ ''hunt'' \<and> ''Password: '' = fst (redact_loop [''hunter2hunter2''] True u) \<and>
     (''hunt'' = [] \<or> isSecretPrefix [''hunter2hunter2''] ''hunt'')"
proof -
  let ?r = "\<lparr>or_secrets = [''hunter2hunter2''], or_secretCarry = [], or_rules = [], or_carry = [], or_overlap = 0\<rparr>"
  have "RedactChunk (Some ?r) ''Password: hunt'' False = (''Password: '', Some (?r\<lparr>or_secretCarry := ''hunt''\<rparr>))"
    by code_simp
  from only_partial_secret_held [OF _ _ this] show ?thesis by simp
qed

end
