(* ===== verification/OutputBuf.thy ===== *)
theory OutputBuf
  imports Redactor Base64
begin

text \<open>
  \<open>internal/daemon/outputbuf.go\<close>: the buffer between one output stream of a tool and the caller.
  It sends base64 chunks until a threshold, then a temporary file takes the rest; a copy of all
  accepted bytes goes to the hash of the audit log; a size limit refuses the excess. The outcome
  of every system call the code makes is an argument (\<open>write_env\<close>), so each error path is a branch.
\<close>

section \<open>State\<close>

text \<open>What the calls change outside the buffer: messages sent, temporary files.\<close>

record out_world =
  ow_sent :: "ResponseMessage list"
  ow_files :: "(string, bytes) gomap"

text \<open>\<open>ob_tempFile\<close> is the path behind the open handle, \<open>ob_tee\<close> the bytes the hasher has taken.\<close>

record OutputBuffer =
  ob_stream :: string
  ob_threshold :: int
  ob_maxOutputSize :: int
  ob_accumulated :: int
  ob_inlineMode :: bool
  ob_tempFile :: "string option"
  ob_tempPath :: string
  ob_tee :: "bytes option"
  ob_redactor :: "OutputRedactor option"

text \<open>
  The outcomes of the calls one write may make. \<open>we_create\<close> is the name \<open>os.CreateTemp\<close> returns;
  a failed file write has stored the first \<open>n\<close> bytes.
\<close>

record write_env =
  we_tee_ok :: bool
  we_create :: "string option"
  we_chmod_ok :: bool
  we_send_ok :: bool
  we_short_write :: "nat option"

datatype ob_error =
    ErrOutputLimitExceeded
  | TeeWrite
  | CreateTempFile
  | ChmodTempFile
  | SendChunk
  | WriteTempFile
  | CloseTempFile
  | FlushRedactor ob_error

definition NewOutputBuffer :: "string \<Rightarrow> int \<Rightarrow> int \<Rightarrow> OutputBuffer" where
  "NewOutputBuffer stream threshold maxOutputSize =
     \<lparr>ob_stream = stream, ob_threshold = threshold, ob_maxOutputSize = maxOutputSize, ob_accumulated = 0,
      ob_inlineMode = True, ob_tempFile = None, ob_tempPath = [], ob_tee = None, ob_redactor = None\<rparr>"

definition SetTee :: "OutputBuffer \<Rightarrow> bytes \<Rightarrow> OutputBuffer" where
  "SetTee b w = b\<lparr>ob_tee := Some w\<rparr>"

definition SetRedactor :: "OutputBuffer \<Rightarrow> OutputRedactor option \<Rightarrow> OutputBuffer" where
  "SetRedactor b r = b\<lparr>ob_redactor := r\<rparr>"

definition Accumulated :: "OutputBuffer \<Rightarrow> int" where
  "Accumulated b = ob_accumulated b"

section \<open>Operations\<close>

definition switchToFileMode ::
  "write_env \<Rightarrow> OutputBuffer \<Rightarrow> out_world \<Rightarrow> ob_error option \<times> OutputBuffer \<times> out_world" where
  "switchToFileMode e b w =
     (case we_create e of
        None \<Rightarrow> (Some CreateTempFile, b, w)
      | Some f \<Rightarrow>
        if \<not> we_chmod_ok e then (Some ChmodTempFile, b, w\<lparr>ow_files := map_del f (ow_files w)\<rparr>)
        else (None, b\<lparr>ob_tempFile := Some f, ob_tempPath := f, ob_inlineMode := False\<rparr>,
              w\<lparr>ow_files := map_set f [] (ow_files w)\<rparr>))"

text \<open>Bytes appended through an open handle; a file that was unlinked keeps no name to find them by.\<close>

definition append_file :: "string \<Rightarrow> bytes \<Rightarrow> out_world \<Rightarrow> out_world" where
  "append_file f d w =
     (case map_of (ow_files w) f of None \<Rightarrow> w
      | Some c \<Rightarrow> w\<lparr>ow_files := map_set f (c @ d) (ow_files w)\<rparr>)"

text \<open>The branch after the size checks: a chunk or the file.\<close>

definition emit_data ::
  "write_env \<Rightarrow> OutputBuffer \<Rightarrow> out_world \<Rightarrow> bytes \<Rightarrow> ob_error option \<times> OutputBuffer \<times> out_world" where
  "emit_data e b w d =
     (if ob_inlineMode b then
        if \<not> we_send_ok e then (Some SendChunk, b, w)
        else (None, b\<lparr>ob_accumulated := wrap64 (ob_accumulated b + int (length d))\<rparr>,
              w\<lparr>ow_sent := ow_sent w @ [empty_response\<lparr>rm_type := ob_stream b, rm_data := b64_encode StdEncoding d\<rparr>]\<rparr>)
      else case ob_tempFile b of
        None \<Rightarrow> (Some WriteTempFile, b, w)
      | Some f \<Rightarrow>
        (case we_short_write e of
           Some n \<Rightarrow> (Some WriteTempFile, b, append_file f (take n d) w)
         | None \<Rightarrow> (None, b\<lparr>ob_accumulated := wrap64 (ob_accumulated b + int (length d))\<rparr>, append_file f d w)))"

definition place_data ::
  "write_env \<Rightarrow> OutputBuffer \<Rightarrow> out_world \<Rightarrow> bytes \<Rightarrow> ob_error option \<times> OutputBuffer \<times> out_world" where
  "place_data e b w d =
     (let (err, b2, w2) =
        (if ob_inlineMode b \<and> ob_threshold b > 0 \<and>
            wrap64 (ob_accumulated b + int (length d)) > ob_threshold b
         then switchToFileMode e b w else (None, b, w))
      in if err \<noteq> None then (err, b2, w2) else emit_data e b2 w2 d)"

definition writeLocked ::
  "write_env \<Rightarrow> OutputBuffer \<Rightarrow> out_world \<Rightarrow> bytes \<Rightarrow> ob_error option \<times> OutputBuffer \<times> out_world" where
  "writeLocked e b w d =
     (if d = [] then (None, b, w)
      else if ob_maxOutputSize b > 0 \<and> wrap64 (ob_accumulated b + int (length d)) > ob_maxOutputSize b
        then (Some ErrOutputLimitExceeded, b, w)
      else if ob_tee b \<noteq> None \<and> \<not> we_tee_ok e then (Some TeeWrite, b, w)
      else place_data e (b\<lparr>ob_tee := map_option (\<lambda>t. t @ d) (ob_tee b)\<rparr>) w d)"

definition OB_Write ::
  "write_env \<Rightarrow> OutputBuffer \<Rightarrow> out_world \<Rightarrow> bytes \<Rightarrow> ob_error option \<times> OutputBuffer \<times> out_world" where
  "OB_Write e b w d =
     (if d = [] then (None, b, w)
      else case ob_redactor b of
        None \<Rightarrow> writeLocked e b w d
      | Some r \<Rightarrow>
        let (d', r') = RedactChunk (Some r) d False; b' = b\<lparr>ob_redactor := r'\<rparr>
        in if d' = [] then (None, b', w) else writeLocked e b' w d')"

definition Finalize ::
  "write_env \<Rightarrow> bool \<Rightarrow> OutputBuffer \<Rightarrow> out_world \<Rightarrow> (ob_error + string) \<times> OutputBuffer \<times> out_world" where
  "Finalize e close_ok b w =
     (let (err, b1, w1) =
        (case ob_redactor b of
           None \<Rightarrow> (None, b, w)
         | Some r \<Rightarrow>
           let (tl, r') = RedactChunk (Some r) [] True in writeLocked e (b\<lparr>ob_redactor := r'\<rparr>) w tl)
      in case err of
           Some x \<Rightarrow> (Inl (FlushRedactor x), b1, w1)
         | None \<Rightarrow>
           if ob_inlineMode b1 then (Inr [], b1, w1)
           else case ob_tempFile b1 of
             None \<Rightarrow> (Inr (ob_tempPath b1), b1, w1)
           | Some f \<Rightarrow> if \<not> close_ok then (Inl CloseTempFile, b1, w1)
                      else (Inr (ob_tempPath b1), b1\<lparr>ob_tempFile := None\<rparr>, w1))"

text \<open>\<open>os.Remove\<close> of a path fails for the paths of the first argument; the error is dropped and the path forgotten.\<close>

definition OB_Cleanup :: "string list \<Rightarrow> OutputBuffer \<Rightarrow> out_world \<Rightarrow> OutputBuffer \<times> out_world" where
  "OB_Cleanup stuck b w =
     (let b1 = b\<lparr>ob_tempFile := None\<rparr>
      in if ob_tempPath b1 \<noteq> []
         then (b1\<lparr>ob_tempPath := []\<rparr>,
               if ob_tempPath b1 \<in> set stuck then w else w\<lparr>ow_files := map_del (ob_tempPath b1) (ow_files w)\<rparr>)
         else (b1, w))"

text \<open>A pumper: writes chunk after chunk and stops at the first error.\<close>

fun ob_pump ::
  "OutputBuffer \<Rightarrow> out_world \<Rightarrow> (write_env \<times> bytes) list \<Rightarrow> ob_error option \<times> OutputBuffer \<times> out_world" where
  "ob_pump b w [] = (None, b, w)"
| "ob_pump b w ((e, d) # ds) =
     (let (err, b', w') = OB_Write e b w d in if err \<noteq> None then (err, b', w') else ob_pump b' w' ds)"

section \<open>What the caller has received\<close>

text \<open>The caller decodes the chunks; the file, once announced, holds the rest.\<close>

definition chunk_bytes :: "ResponseMessage \<Rightarrow> bytes" where
  "chunk_bytes m = (case b64_decode StdEncoding (rm_data m) of None \<Rightarrow> [] | Some d \<Rightarrow> d)"

definition inline_bytes :: "out_world \<Rightarrow> bytes" where
  "inline_bytes w = concat (map chunk_bytes (ow_sent w))"

definition file_bytes :: "OutputBuffer \<Rightarrow> out_world \<Rightarrow> bytes" where
  "file_bytes b w =
     (if ob_tempPath b = [] then [] else case map_of (ow_files w) (ob_tempPath b) of None \<Rightarrow> [] | Some c \<Rightarrow> c)"

definition delivered :: "OutputBuffer \<Rightarrow> out_world \<Rightarrow> bytes" where
  "delivered b w = inline_bytes w @ file_bytes b w"

text \<open>
  The invariant of a buffer while the tool runs: the counter is the number of bytes delivered, the
  hasher has seen exactly these, the chunks stay within the threshold and the total within the
  limit, and file mode goes with an open temporary file.
\<close>

definition mode_ok :: "OutputBuffer \<Rightarrow> out_world \<Rightarrow> bool" where
  "mode_ok b w \<longleftrightarrow>
     (if ob_inlineMode b then ob_tempFile b = None \<and> ob_tempPath b = []
      else ob_tempPath b \<noteq> [] \<and> ob_tempFile b = Some (ob_tempPath b) \<and> map_of (ow_files w) (ob_tempPath b) \<noteq> None)"

definition buffer_ok :: "OutputBuffer \<Rightarrow> out_world \<Rightarrow> bool" where
  "buffer_ok b w \<longleftrightarrow>
     mode_ok b w \<and> ob_accumulated b = int (length (delivered b w)) \<and>
     (\<forall>t. ob_tee b = Some t \<longrightarrow> t = delivered b w) \<and>
     (ob_threshold b > 0 \<longrightarrow> int (length (inline_bytes w)) \<le> ob_threshold b) \<and>
     (ob_maxOutputSize b > 0 \<longrightarrow> ob_accumulated b \<le> ob_maxOutputSize b)"

text \<open>The system calls succeed, and \<open>os.CreateTemp\<close>, if it is still to be called, returns a new name.\<close>

definition env_good :: "write_env \<Rightarrow> OutputBuffer \<Rightarrow> out_world \<Rightarrow> bool" where
  "env_good e b w \<longleftrightarrow> we_tee_ok e \<and> we_chmod_ok e \<and> we_send_ok e \<and> we_short_write e = None \<and>
     (ob_inlineMode b \<longrightarrow> (\<exists>f. we_create e = Some f \<and> f \<noteq> [] \<and> map_of (ow_files w) f = None))"

section \<open>Lemmas\<close>

lemma map_del_absent [simp]: "map_of m k = None \<Longrightarrow> map_del k m = m"
  by (auto simp: map_del_def filter_id_conv map_of_eq_None_iff rev_image_eqI)

lemma inline_bytes_send [simp]:
  "inline_bytes (w\<lparr>ow_sent := ow_sent w @ [empty_response\<lparr>rm_type := t, rm_data := b64_encode StdEncoding d\<rparr>]\<rparr>) =
     inline_bytes w @ d"
  by (simp add: inline_bytes_def chunk_bytes_def)

lemma inline_bytes_files [simp]: "inline_bytes (w\<lparr>ow_files := x\<rparr>) = inline_bytes w"
  by (simp add: inline_bytes_def)

lemma inline_bytes_append_file [simp]: "inline_bytes (append_file f d w) = inline_bytes w"
  by (simp add: append_file_def split: option.splits)

text \<open>What an accepted write of \<open>d\<close> changes of the bookkeeping.\<close>

definition counted :: "OutputBuffer \<Rightarrow> OutputBuffer \<Rightarrow> bytes \<Rightarrow> bool" where
  "counted b b' d \<longleftrightarrow>
     ob_accumulated b' = wrap64 (ob_accumulated b + int (length d)) \<and> ob_tee b' = ob_tee b \<and>
     ob_threshold b' = ob_threshold b \<and> ob_maxOutputSize b' = ob_maxOutputSize b \<and> ob_redactor b' = ob_redactor b"

text \<open>The inline branch, the file branch and the switch, each on its own.\<close>

lemma emit_inline:
  assumes "mode_ok b w" "ob_inlineMode b" "we_send_ok e"
  shows "\<exists>b' w'. emit_data e b w d = (None, b', w') \<and> mode_ok b' w' \<and> counted b b' d \<and>
     inline_bytes w' = inline_bytes w @ d \<and> file_bytes b' w' = [] \<and> file_bytes b w = []"
  using assms by (auto simp: emit_data_def mode_ok_def file_bytes_def counted_def)

lemma emit_file:
  assumes "mode_ok b w" "\<not> ob_inlineMode b" "we_short_write e = None"
  shows "\<exists>b' w'. emit_data e b w d = (None, b', w') \<and> mode_ok b' w' \<and> counted b b' d \<and>
     inline_bytes w' = inline_bytes w \<and> file_bytes b' w' = file_bytes b w @ d"
  using assms by (auto simp: emit_data_def mode_ok_def file_bytes_def append_file_def counted_def)

lemma switch_good:
  assumes "mode_ok b w" "ob_inlineMode b" "env_good e b w"
  shows "\<exists>b' w'. switchToFileMode e b w = (None, b', w') \<and> mode_ok b' w' \<and> \<not> ob_inlineMode b' \<and>
     ob_accumulated b' = ob_accumulated b \<and> ob_tee b' = ob_tee b \<and> ob_threshold b' = ob_threshold b \<and>
     ob_maxOutputSize b' = ob_maxOutputSize b \<and> ob_redactor b' = ob_redactor b \<and>
     inline_bytes w' = inline_bytes w \<and> file_bytes b' w' = [] \<and> file_bytes b w = []"
proof -
  obtain f where "we_create e = Some f" "f \<noteq> []" "map_of (ow_files w) f = None" "we_chmod_ok e"
    using assms by (auto simp: env_good_def)
  with assms show ?thesis
    by (intro exI [of _ "b\<lparr>ob_tempFile := Some f, ob_tempPath := f, ob_inlineMode := False\<rparr>"]
        exI [of _ "w\<lparr>ow_files := map_set f [] (ow_files w)\<rparr>"])
      (simp add: switchToFileMode_def mode_ok_def file_bytes_def)
qed

lemma place_good:
  assumes mode: "mode_ok b w" and e: "env_good e b w"
    and fits: "ob_accumulated b = int (length (delivered b w))" "ob_accumulated b + int (length d) \<le> max_int64"
  shows "\<exists>b' w'. place_data e b w d = (None, b', w') \<and> mode_ok b' w' \<and> counted b b' d \<and>
     delivered b' w' = delivered b w @ d \<and>
     (ob_threshold b > 0 \<and> int (length (inline_bytes w)) \<le> ob_threshold b \<longrightarrow>
        int (length (inline_bytes w')) \<le> ob_threshold b)"
proof (cases "ob_inlineMode b \<and> ob_threshold b > 0 \<and> wrap64 (ob_accumulated b + int (length d)) > ob_threshold b")
  case True
  then obtain b1 w1 where sw: "switchToFileMode e b w = (None, b1, w1)" "mode_ok b1 w1" "\<not> ob_inlineMode b1"
    "ob_accumulated b1 = ob_accumulated b" "ob_tee b1 = ob_tee b" "ob_threshold b1 = ob_threshold b"
    "ob_maxOutputSize b1 = ob_maxOutputSize b" "ob_redactor b1 = ob_redactor b"
    "inline_bytes w1 = inline_bytes w" "file_bytes b1 w1 = []" "file_bytes b w = []"
    using switch_good [OF mode _ e] by blast
  have "we_short_write e = None" using e by (simp add: env_good_def)
  from emit_file [OF sw(2,3) this] obtain b' w' where
    em: "emit_data e b1 w1 d = (None, b', w')" "mode_ok b' w'" "counted b1 b' d"
      "inline_bytes w' = inline_bytes w1" "file_bytes b' w' = file_bytes b1 w1 @ d" by blast
  have "place_data e b w d = (None, b', w')" using True sw(1) em(1) by (simp add: place_data_def)
  moreover have "counted b b' d" using em(3) sw by (simp add: counted_def)
  moreover have "delivered b' w' = delivered b w @ d" using em sw by (simp add: delivered_def)
  ultimately show ?thesis using em sw by simp
next
  case stay: False
  then have pl: "place_data e b w d = emit_data e b w d" by (auto simp: place_data_def)
  show ?thesis
  proof (cases "ob_inlineMode b")
    case True
    have "we_send_ok e" using e by (simp add: env_good_def)
    from emit_inline [OF mode True this] obtain b' w' where
      em: "emit_data e b w d = (None, b', w')" "mode_ok b' w'" "counted b b' d"
        "inline_bytes w' = inline_bytes w @ d" "file_bytes b' w' = []" "file_bytes b w = []" by blast
    moreover have "wrap64 (ob_accumulated b + int (length d)) = ob_accumulated b + int (length d)"
      using fits by (intro wrap64_id) (simp add: in_int64_def min_int64_def)
    ultimately show ?thesis using stay True fits pl by (auto simp: delivered_def)
  next
    case False
    have "we_short_write e = None" using e by (simp add: env_good_def)
    from emit_file [OF mode False this] show ?thesis using pl by (fastforce simp: delivered_def)
  qed
qed

lemma writeLocked_good:
  assumes ok: "buffer_ok b w" and e: "env_good e b w"
    and fits: "ob_accumulated b + int (length d) \<le> max_int64"
  shows "(\<exists>b' w'. writeLocked e b w d = (None, b', w') \<and> buffer_ok b' w' \<and>
            delivered b' w' = delivered b w @ d \<and> ob_redactor b' = ob_redactor b) \<or>
         (writeLocked e b w d = (Some ErrOutputLimitExceeded, b, w) \<and> 0 < ob_maxOutputSize b \<and>
            ob_maxOutputSize b < int (length (delivered b w @ d)))"
proof -
  have acc: "ob_accumulated b = int (length (delivered b w))" and mode: "mode_ok b w"
    using ok by (simp_all add: buffer_ok_def)
  have wr: "wrap64 (ob_accumulated b + int (length d)) = ob_accumulated b + int (length d)"
    using fits acc by (intro wrap64_id) (simp add: in_int64_def min_int64_def)
  consider "d = []" | "d \<noteq> []" "0 < ob_maxOutputSize b" "ob_maxOutputSize b < ob_accumulated b + int (length d)"
    | "d \<noteq> []" "ob_maxOutputSize b > 0 \<longrightarrow> ob_accumulated b + int (length d) \<le> ob_maxOutputSize b"
    by linarith
  then show ?thesis
  proof cases
    case 1
    with ok show ?thesis by (simp add: writeLocked_def)
  next
    case 2
    with wr acc show ?thesis by (simp add: writeLocked_def)
  next
    case 3
    define b1 where "b1 = b\<lparr>ob_tee := map_option (\<lambda>t. t @ d) (ob_tee b)\<rparr>"
    have b1: "mode_ok b1 w" "env_good e b1 w" "delivered b1 w = delivered b w" "ob_accumulated b1 = ob_accumulated b"
      using mode e by (simp_all add: b1_def mode_ok_def env_good_def delivered_def file_bytes_def)
    have "writeLocked e b w d = place_data e b1 w d"
      using 3 wr e by (auto simp: writeLocked_def env_good_def b1_def)
    moreover obtain b' w' where pl: "place_data e b1 w d = (None, b', w')" "mode_ok b' w'" "counted b1 b' d"
      "delivered b' w' = delivered b w @ d"
      "ob_threshold b1 > 0 \<and> int (length (inline_bytes w)) \<le> ob_threshold b1 \<longrightarrow>
         int (length (inline_bytes w')) \<le> ob_threshold b1"
      using place_good [OF b1(1,2), of d] acc fits b1 by auto
    moreover have "buffer_ok b' w'"
      using pl ok 3 wr acc by (auto simp: buffer_ok_def counted_def b1_def)
    ultimately show ?thesis using pl(3) by (auto simp: counted_def b1_def)
  qed
qed

text \<open>A write that stays inline touches no file, so a good environment stays good.\<close>

lemma writeLocked_env:
  "writeLocked e b w d = (None, b', w') \<Longrightarrow> env_good e' b w \<Longrightarrow> env_good e' b' w'"
  by (auto simp: writeLocked_def place_data_def emit_data_def switchToFileMode_def env_good_def
      split: if_splits option.splits prod.splits)

abbreviation redacted :: "OutputBuffer \<Rightarrow> bytes \<Rightarrow> bytes" where
  "redacted b d \<equiv> fst (RedactChunk (ob_redactor b) d False)"

lemma RedactChunk_None [simp]: "RedactChunk None d fin = (d, None)"
  by (simp add: RedactChunk_def)

lemma buffer_ok_redactor [simp]:
  "buffer_ok (b\<lparr>ob_redactor := r\<rparr>) w = buffer_ok b w" "delivered (b\<lparr>ob_redactor := r\<rparr>) w = delivered b w"
  "env_good e (b\<lparr>ob_redactor := r\<rparr>) w = env_good e b w"
  by (simp_all add: buffer_ok_def mode_ok_def delivered_def file_bytes_def env_good_def)

lemma OB_Write_as_writeLocked:
  "d \<noteq> [] \<Longrightarrow> OB_Write e b w d =
     writeLocked e (b\<lparr>ob_redactor := snd (RedactChunk (ob_redactor b) d False)\<rparr>) w (redacted b d)"
proof (cases "ob_redactor b")
  case None
  then have "b\<lparr>ob_redactor := None\<rparr> = b" by (cases b) simp
  moreover assume "d \<noteq> []"
  ultimately show ?thesis
    by (simp only: OB_Write_def None if_False option.case RedactChunk_None fst_conv snd_conv)
qed (auto simp: OB_Write_def writeLocked_def split: prod.splits)

lemma OB_Write_good:
  assumes "buffer_ok b w" "env_good e b w" "d \<noteq> []"
    and "int (length (delivered b w @ redacted b d)) \<le> max_int64"
  shows "(\<exists>b' w'. OB_Write e b w d = (None, b', w') \<and> buffer_ok b' w' \<and>
            delivered b' w' = delivered b w @ redacted b d \<and>
            ob_redactor b' = snd (RedactChunk (ob_redactor b) d False) \<and>
            (\<forall>e'. env_good e' b w \<longrightarrow> env_good e' b' w')) \<or>
         (\<exists>b'. OB_Write e b w d = (Some ErrOutputLimitExceeded, b', w) \<and> buffer_ok b' w \<and>
            delivered b' w = delivered b w \<and> 0 < ob_maxOutputSize b \<and>
            ob_maxOutputSize b < int (length (delivered b w @ redacted b d)))"
proof -
  define b1 where "b1 = b\<lparr>ob_redactor := snd (RedactChunk (ob_redactor b) d False)\<rparr>"
  have ok: "buffer_ok b1 w" "env_good e b1 w" "delivered b1 w = delivered b w"
    using assms(1,2) by (simp_all add: b1_def)
  then have "ob_accumulated b1 + int (length (redacted b d)) \<le> max_int64"
    using assms(4) by (simp add: buffer_ok_def)
  note cases = writeLocked_good [OF ok(1,2) this, unfolded ok(3)]
  have W: "OB_Write e b w d = writeLocked e b1 w (redacted b d)"
    unfolding b1_def by (rule OB_Write_as_writeLocked [OF assms(3)])
  have "env_good e' b' w'" if "writeLocked e b1 w (redacted b d) = (None, b', w')" "env_good e' b w" for e' b' w'
    using writeLocked_env [OF that(1), of e'] that(2) by (simp add: b1_def)
  moreover have "ob_redactor b1 = snd (RedactChunk (ob_redactor b) d False)" "ob_maxOutputSize b1 = ob_maxOutputSize b"
    by (simp_all add: b1_def)
  ultimately show ?thesis using cases ok(1,3) unfolding W by metis
qed

lemma ob_max_write: "OB_Write e b w d = (err, b', w') \<Longrightarrow> ob_maxOutputSize b' = ob_maxOutputSize b"
  by (auto simp: OB_Write_def writeLocked_def place_data_def emit_data_def switchToFileMode_def Let_def
      split: if_splits option.splits prod.splits)

abbreviation chunks :: "(write_env \<times> bytes) list \<Rightarrow> bytes list" where
  "chunks eds \<equiv> filter (\<lambda>d. d \<noteq> []) (map snd eds)"

abbreviation total :: "OutputBuffer \<Rightarrow> out_world \<Rightarrow> (write_env \<times> bytes) list \<Rightarrow> bytes" where
  "total b w eds \<equiv> delivered b w @ redact_stream (ob_redactor b) (chunks eds)"

lemma redact_stream_step:
  "redact_stream ro (d # ds) = fst (RedactChunk ro d False) @ redact_stream (snd (RedactChunk ro d False)) ds"
  by (simp split: prod.splits)

text \<open>The pumper delivers the redacted stream, or it stops at the limit with a part of it delivered.\<close>

lemma pump_good:
  "buffer_ok b w \<Longrightarrow> \<forall>(e, d) \<in> set eds. env_good e b w \<Longrightarrow> int (length (total b w eds)) \<le> max_int64 \<Longrightarrow>
   (\<exists>b' w'. ob_pump b w eds = (None, b', w') \<and> buffer_ok b' w' \<and> total b' w' [] = total b w eds \<and>
      ob_maxOutputSize b' = ob_maxOutputSize b \<and> (\<forall>e'. env_good e' b w \<longrightarrow> env_good e' b' w')) \<or>
   (\<exists>b' w'. ob_pump b w eds = (Some ErrOutputLimitExceeded, b', w') \<and> buffer_ok b' w' \<and>
      prefix (delivered b' w') (total b w eds) \<and> 0 < ob_maxOutputSize b \<and> ob_maxOutputSize b' = ob_maxOutputSize b \<and>
      ob_maxOutputSize b < int (length (total b w eds)))"
proof (induction eds arbitrary: b w)
  case (Cons ed eds)
  obtain e d where ed: "ed = (e, d)" by (cases ed)
  show ?case
  proof (cases "d = []")
    case True
    with Cons ed show ?thesis by (simp add: OB_Write_def)
  next
    case d: False
    have tot: "total b w (ed # eds) = (delivered b w @ redacted b d) @
        redact_stream (snd (RedactChunk (ob_redactor b) d False)) (chunks eds)"
      using d by (simp add: ed redact_stream_step del: redact_stream.simps)
    with Cons.prems(3) have fit: "int (length (delivered b w @ redacted b d)) \<le> max_int64" by simp
    have e: "env_good e b w" using Cons.prems(2) ed by simp
    from OB_Write_good [OF Cons.prems(1) e d fit] show ?thesis
    proof (elim disjE exE conjE)
      fix b1 w1
      assume w1: "OB_Write e b w d = (None, b1, w1)" and "buffer_ok b1 w1"
        and "delivered b1 w1 = delivered b w @ redacted b d"
        and "ob_redactor b1 = snd (RedactChunk (ob_redactor b) d False)"
        and env: "\<forall>e'. env_good e' b w \<longrightarrow> env_good e' b1 w1"
      moreover from this have t1: "total b w (ed # eds) = total b1 w1 eds" by (simp only: tot append.assoc)
      moreover have "\<forall>(e, d) \<in> set eds. env_good e b1 w1" using Cons.prems(2) env by auto
      moreover have "ob_maxOutputSize b1 = ob_maxOutputSize b" by (rule ob_max_write [OF w1])
      ultimately show ?thesis using Cons.IH [of b1 w1] Cons.prems(3) unfolding t1 by (simp add: ed) metis
    next
      fix b1
      assume "OB_Write e b w d = (Some ErrOutputLimitExceeded, b1, w)" "buffer_ok b1 w"
        "delivered b1 w = delivered b w" "0 < ob_maxOutputSize b"
        "ob_maxOutputSize b < int (length (delivered b w @ redacted b d))"
      moreover from this(1) have "ob_maxOutputSize b1 = ob_maxOutputSize b" by (rule ob_max_write)
      ultimately show ?thesis unfolding tot by (simp add: ed)
    qed
  qed
qed simp

section \<open>A complete run\<close>

text \<open>The state a stream starts in: nothing sent, the hasher empty.\<close>

definition fresh_buffer :: "string \<Rightarrow> int \<Rightarrow> int \<Rightarrow> OutputRedactor option \<Rightarrow> OutputBuffer" where
  "fresh_buffer stream threshold maxOut r = SetRedactor (SetTee (NewOutputBuffer stream threshold maxOut) []) r"

lemma fresh_buffer_ok:
  "ow_sent w = [] \<Longrightarrow> buffer_ok (fresh_buffer st thr mx r) w"
  "ow_sent w = [] \<Longrightarrow> delivered (fresh_buffer st thr mx r) w = []"
  "ob_redactor (fresh_buffer st thr mx r) = r" "ob_maxOutputSize (fresh_buffer st thr mx r) = mx"
  by (simp_all add: fresh_buffer_def SetRedactor_def SetTee_def NewOutputBuffer_def buffer_ok_def mode_ok_def
      delivered_def inline_bytes_def file_bytes_def)

lemma writeLocked_max: "writeLocked e b w d = (err, b', w') \<Longrightarrow> ob_maxOutputSize b' = ob_maxOutputSize b"
  by (auto simp: writeLocked_def place_data_def emit_data_def switchToFileMode_def Let_def
      split: if_splits option.splits prod.splits)

lemma Finalize_good:
  assumes ok: "buffer_ok b w" "env_good e b w" and fit: "int (length (total b w [])) \<le> max_int64"
  shows "(\<exists>path b' w'. Finalize e True b w = (Inr path, b', w') \<and> delivered b' w' = total b w [] \<and>
      ob_accumulated b' = int (length (total b w [])) \<and> (\<forall>t. ob_tee b' = Some t \<longrightarrow> t = total b w []) \<and>
      ob_tempFile b' = None \<and> path = ob_tempPath b' \<and>
      (0 < ob_maxOutputSize b \<longrightarrow> ob_accumulated b' \<le> ob_maxOutputSize b)) \<or>
    (\<exists>b'. Finalize e True b w = (Inl (FlushRedactor ErrOutputLimitExceeded), b', w) \<and> buffer_ok b' w \<and>
      delivered b' w = delivered b w \<and> 0 < ob_maxOutputSize b \<and> ob_maxOutputSize b < int (length (total b w [])))"
proof -
  define b1 where "b1 = b\<lparr>ob_redactor := snd (RedactChunk (ob_redactor b) [] True)\<rparr>"
  define tail where "tail = fst (RedactChunk (ob_redactor b) [] True)"
  have tot: "total b w [] = delivered b w @ tail" by (simp add: tail_def)
  have b1: "buffer_ok b1 w" "env_good e b1 w" "delivered b1 w = delivered b w" "ob_maxOutputSize b1 = ob_maxOutputSize b"
    using ok by (simp_all add: b1_def)
  have flush: "(case ob_redactor b of None \<Rightarrow> (None, b, w)
      | Some r \<Rightarrow> let (tl, r') = RedactChunk (Some r) [] True in writeLocked e (b\<lparr>ob_redactor := r'\<rparr>) w tl) =
      writeLocked e b1 w tail"
  proof (cases "ob_redactor b")
    case None
    then have "b1 = b" "tail = []" by (cases b; simp add: b1_def tail_def)+
    with None show ?thesis by (simp add: writeLocked_def)
  next
    case (Some r)
    then show ?thesis by (simp add: b1_def tail_def split: prod.splits)
  qed
  have "ob_accumulated b1 + int (length tail) \<le> max_int64" using fit b1 tot by (simp add: buffer_ok_def)
  from writeLocked_good [OF b1(1,2) this] show ?thesis
  proof (elim disjE exE conjE)
    fix b2 w2
    assume w2: "writeLocked e b1 w tail = (None, b2, w2)" "buffer_ok b2 w2" "delivered b2 w2 = delivered b1 w @ tail"
    define b3 where "b3 = b2\<lparr>ob_tempFile := None\<rparr>"
    have "Finalize e True b w = (Inr (ob_tempPath b3), b3, w2)"
    proof (cases "ob_inlineMode b2")
      case True
      with w2(2) have "ob_tempPath b2 = []" "b3 = b2"
        by (cases b2; simp add: b3_def buffer_ok_def mode_ok_def)+
      with True show ?thesis unfolding Finalize_def flush by (simp add: w2(1))
    next
      case False
      with w2(2) show ?thesis unfolding Finalize_def flush
        by (simp add: w2(1) buffer_ok_def mode_ok_def b3_def)
    qed
    moreover have "delivered b3 w2 = delivered b2 w2" "ob_accumulated b3 = ob_accumulated b2" "ob_tee b3 = ob_tee b2"
      "ob_tempFile b3 = None"
      by (simp_all add: b3_def delivered_def file_bytes_def)
    moreover have "0 < ob_maxOutputSize b \<longrightarrow> ob_accumulated b3 \<le> ob_maxOutputSize b"
      using w2(2) writeLocked_max [OF w2(1)] b1(4) by (auto simp: b3_def buffer_ok_def)
    ultimately show ?thesis using w2(2,3) unfolding tot b1(3) buffer_ok_def by auto
  next
    assume "writeLocked e b1 w tail = (Some ErrOutputLimitExceeded, b1, w)"
    then have "Finalize e True b w = (Inl (FlushRedactor ErrOutputLimitExceeded), b1, w)"
      unfolding Finalize_def flush by simp
    moreover assume "0 < ob_maxOutputSize b1" "ob_maxOutputSize b1 < int (length (delivered b1 w @ tail))"
    ultimately show ?thesis using b1 unfolding tot by auto
  qed
qed

lemma writeLocked_tee:
  "writeLocked e b w d = (err, b', w') \<Longrightarrow> ob_tee b' = None \<longleftrightarrow> ob_tee b = None"
  by (auto simp: writeLocked_def place_data_def emit_data_def switchToFileMode_def Let_def
      split: if_splits option.splits prod.splits)

lemma OB_Write_tee:
  assumes "OB_Write e b w d = (err, b', w')"
  shows "ob_tee b' = None \<longleftrightarrow> ob_tee b = None"
proof (cases "d = []")
  case True
  with assms show ?thesis by (simp add: OB_Write_def)
next
  case False
  from assms [unfolded OB_Write_as_writeLocked [OF False]] show ?thesis using writeLocked_tee by fastforce
qed

lemma pump_tee: "ob_pump b w eds = (err, b', w') \<Longrightarrow> ob_tee b' = None \<longleftrightarrow> ob_tee b = None"
proof (induction eds arbitrary: b w)
  case (Cons ed eds)
  obtain e d err1 b1 w1 where ed: "ed = (e, d)" "OB_Write e b w d = (err1, b1, w1)"
    by (metis prod_cases3 surj_pair)
  show ?case using Cons OB_Write_tee [OF ed(2)] by (auto simp: ed split: if_splits)
qed simp

lemma Finalize_tee: "Finalize e c b w = (res, b', w') \<Longrightarrow> ob_tee b' = None \<longleftrightarrow> ob_tee b = None"
  by (auto simp: Finalize_def Let_def split: prod.splits if_splits option.splits dest: writeLocked_tee)

lemma Finalize_max: "Finalize e c b w = (res, b', w') \<Longrightarrow> ob_maxOutputSize b' = ob_maxOutputSize b"
  by (auto simp: Finalize_def Let_def split: if_splits option.splits prod.splits dest: writeLocked_max)

text \<open>Both ends of a run: the redacted stream is delivered whole, or the limit stops it.\<close>

lemma run_good:
  assumes "ow_sent w = []" "\<forall>(e, d) \<in> set eds. env_good e (fresh_buffer st thr mx r) w"
    and "env_good e (fresh_buffer st thr mx r) w" and "out = redact_stream r (chunks eds)"
    and "int (length out) \<le> max_int64"
  shows "(\<exists>b1 w1 b2 w2. ob_pump (fresh_buffer st thr mx r) w eds = (None, b1, w1) \<and>
       Finalize e True b1 w1 = (Inr (ob_tempPath b2), b2, w2) \<and> delivered b2 w2 = out \<and> ob_tee b2 = Some out \<and>
       Accumulated b2 = int (length out) \<and> ob_tempFile b2 = None \<and> (0 < mx \<longrightarrow> int (length out) \<le> mx)) \<or>
    (\<exists>err b1 w1 b2 w2. ob_pump (fresh_buffer st thr mx r) w eds = (err, b1, w1) \<and>
       (err = Some ErrOutputLimitExceeded \<and> b2 = b1 \<and> w2 = w1 \<or>
        err = None \<and> Finalize e True b1 w1 = (Inl (FlushRedactor ErrOutputLimitExceeded), b2, w2)) \<and>
       buffer_ok b2 w2 \<and> ob_tee b2 \<noteq> None \<and> prefix (delivered b2 w2) out \<and> ob_maxOutputSize b2 = mx \<and> 0 < mx \<and> mx < int (length out))"
proof -
  define b0 where "b0 = fresh_buffer st thr mx r"
  have b0: "buffer_ok b0 w" "delivered b0 w = []" "ob_redactor b0 = r" "ob_maxOutputSize b0 = mx"
    unfolding b0_def using fresh_buffer_ok assms(1) by blast+
  have tot: "total b0 w eds = out" by (simp add: b0 assms(4))
  have tee: "ob_tee b0 \<noteq> None" by (simp add: b0_def fresh_buffer_def SetRedactor_def SetTee_def)
  have fit: "int (length (total b0 w eds)) \<le> max_int64" using assms(5) by (simp only: tot)
  from pump_good [OF b0(1) assms(2) [folded b0_def] fit] show ?thesis
    unfolding tot
  proof (elim disjE exE conjE)
    fix b1 w1
    assume p: "ob_pump b0 w eds = (None, b1, w1)" "buffer_ok b1 w1" "total b1 w1 [] = out"
      "ob_maxOutputSize b1 = ob_maxOutputSize b0" "\<forall>e'. env_good e' b0 w \<longrightarrow> env_good e' b1 w1"
    have t1: "ob_tee b1 \<noteq> None" using pump_tee [OF p(1)] tee by simp
    have "env_good e b1 w1" "int (length (total b1 w1 [])) \<le> max_int64"
      using p(3,5) assms(3,5) by (simp_all add: b0_def)
    from Finalize_good [OF p(2) this] show ?thesis unfolding p(3)
    proof (elim disjE exE conjE)
      fix path b2 w2
      assume f: "Finalize e True b1 w1 = (Inr path, b2, w2)" "delivered b2 w2 = out"
        "ob_accumulated b2 = int (length out)" "\<forall>t. ob_tee b2 = Some t \<longrightarrow> t = out" "ob_tempFile b2 = None"
        "path = ob_tempPath b2" "0 < ob_maxOutputSize b1 \<longrightarrow> ob_accumulated b2 \<le> ob_maxOutputSize b1"
      have "ob_tee b2 = Some out" using Finalize_tee [OF f(1)] t1 f(4) by auto
      moreover have "0 < mx \<longrightarrow> int (length out) \<le> mx" using f(3,7) p(4) b0(4) by simp
      moreover have "Accumulated b2 = int (length out)" using f(3) by (simp add: Accumulated_def)
      moreover note p(1) f(1) [unfolded f(6)] f(2,5)
      ultimately show ?thesis unfolding b0_def [symmetric] by blast
    next
      fix b2
      assume f: "Finalize e True b1 w1 = (Inl (FlushRedactor ErrOutputLimitExceeded), b2, w1)" "buffer_ok b2 w1"
        "delivered b2 w1 = delivered b1 w1" "0 < ob_maxOutputSize b1" "ob_maxOutputSize b1 < int (length out)"
      have "prefix (delivered b2 w1) out" unfolding f(3) p(3) [symmetric] by (rule prefixI) (rule refl)
      moreover have "ob_tee b2 \<noteq> None" using Finalize_tee [OF f(1)] t1 by simp
      moreover have "ob_maxOutputSize b2 = mx"
        using Finalize_max [OF f(1)] p(4) b0(4) by simp
      moreover have "0 < mx" "mx < int (length out)" using f(4,5) p(4) b0(4) by simp_all
      ultimately show ?thesis unfolding b0_def [symmetric] using p(1) f(1,2) by blast
    qed
  next
    fix b1 w1
    assume p: "ob_pump b0 w eds = (Some ErrOutputLimitExceeded, b1, w1)" "buffer_ok b1 w1" "prefix (delivered b1 w1) out"
      and "0 < ob_maxOutputSize b0" "ob_maxOutputSize b1 = ob_maxOutputSize b0" "ob_maxOutputSize b0 < int (length out)"
    then have "0 < mx" "mx < int (length out)" "ob_maxOutputSize b1 = mx" using b0(4) by simp_all
    moreover have "ob_tee b1 \<noteq> None" using pump_tee [OF p(1)] tee by simp
    ultimately show ?thesis unfolding b0_def [symmetric] using p by blast
  qed
qed

text \<open>C10: when no system call fails and the redacted output is within the limit, a stream is
  delivered whole: the chunks the caller decodes followed by the announced file are exactly the
  redacted output, the counter is its length, and the audit hash is taken over the same bytes.\<close>
theorem output_delivered_whole:
  assumes "ow_sent w = []" "\<forall>(e, d) \<in> set eds. env_good e (fresh_buffer st thr mx r) w"
    and "env_good e (fresh_buffer st thr mx r) w"
    and "out = redact_stream r (filter (\<lambda>d. d \<noteq> []) (map snd eds))"
    and "int (length out) \<le> max_int64" "mx \<le> 0 \<or> int (length out) \<le> mx"
  shows "\<exists>b1 w1 b2 w2. ob_pump (fresh_buffer st thr mx r) w eds = (None, b1, w1) \<and>
     Finalize e True b1 w1 = (Inr (ob_tempPath b2), b2, w2) \<and> delivered b2 w2 = out \<and> ob_tee b2 = Some out \<and>
     Accumulated b2 = int (length out) \<and> ob_tempFile b2 = None"
proof -
  have "\<not> (0 < mx \<and> mx < int (length out))" using assms(6) by linarith
  with run_good [OF assms(1-5)] show ?thesis by blast
qed

text \<open>C11: when the redacted output is longer than the limit, the run ends with
  \<open>ErrOutputLimitExceeded\<close>; what was delivered until then is a prefix of the output no longer than
  the limit, and hash and counter cover exactly that prefix.\<close>
theorem output_limit_enforced:
  assumes "ow_sent w = []" "\<forall>(e, d) \<in> set eds. env_good e (fresh_buffer st thr mx r) w"
    and "env_good e (fresh_buffer st thr mx r) w"
    and "out = redact_stream r (filter (\<lambda>d. d \<noteq> []) (map snd eds))"
    and "int (length out) \<le> max_int64" "0 < mx" "mx < int (length out)"
  shows "\<exists>err b1 w1 b2 w2. ob_pump (fresh_buffer st thr mx r) w eds = (err, b1, w1) \<and>
     (err = Some ErrOutputLimitExceeded \<and> b2 = b1 \<and> w2 = w1 \<or>
      err = None \<and> Finalize e True b1 w1 = (Inl (FlushRedactor ErrOutputLimitExceeded), b2, w2)) \<and>
     prefix (delivered b2 w2) out \<and> int (length (delivered b2 w2)) \<le> mx \<and>
     Accumulated b2 = int (length (delivered b2 w2)) \<and> ob_tee b2 = Some (delivered b2 w2)"
proof -
  have "\<not> (0 < mx \<longrightarrow> int (length out) \<le> mx)" using assms(6,7) by simp
  then obtain err b1 w1 b2 w2 where run: "ob_pump (fresh_buffer st thr mx r) w eds = (err, b1, w1)"
      "err = Some ErrOutputLimitExceeded \<and> b2 = b1 \<and> w2 = w1 \<or>
       err = None \<and> Finalize e True b1 w1 = (Inl (FlushRedactor ErrOutputLimitExceeded), b2, w2)"
      "buffer_ok b2 w2" "ob_tee b2 \<noteq> None" "prefix (delivered b2 w2) out" "ob_maxOutputSize b2 = mx"
    using run_good [OF assms(1-5)] by blast
  have "int (length (delivered b2 w2)) \<le> mx" "Accumulated b2 = int (length (delivered b2 w2))"
    "ob_tee b2 = Some (delivered b2 w2)"
    using run(3,4,6) assms(6) by (auto simp: buffer_ok_def Accumulated_def)
  with run show ?thesis by blast
qed

definition sample_env :: write_env where
  "sample_env = \<lparr>we_tee_ok = True, we_create = Some ''/tmp/claw-wrap-stdout-1'', we_chmod_ok = True,
     we_send_ok = True, we_short_write = None\<rparr>"

lemma sample_env_good: "env_good sample_env b \<lparr>ow_sent = [], ow_files = []\<rparr>"
  by (simp add: env_good_def sample_env_def)

theorem output_delivered_whole_witness:
  "\<exists>b1 w1 b2 w2. ob_pump (fresh_buffer ''stdout'' 6 100 None) \<lparr>ow_sent = [], ow_files = []\<rparr>
       [(sample_env, ''hello''), (sample_env, ''world'')] = (None, b1, w1) \<and>
     Finalize sample_env True b1 w1 = (Inr (ob_tempPath b2), b2, w2) \<and> delivered b2 w2 = ''helloworld'' \<and>
     ob_tee b2 = Some ''helloworld'' \<and> Accumulated b2 = int (length ''helloworld'') \<and> ob_tempFile b2 = None"
  by (rule output_delivered_whole) (simp_all add: sample_env_good max_int64_def)

theorem output_limit_enforced_witness:
  "\<exists>err b1 w1 b2 w2. ob_pump (fresh_buffer ''stdout'' 0 7 None) \<lparr>ow_sent = [], ow_files = []\<rparr>
       [(sample_env, ''hello''), (sample_env, ''world'')] = (err, b1, w1) \<and>
     (err = Some ErrOutputLimitExceeded \<and> b2 = b1 \<and> w2 = w1 \<or>
      err = None \<and> Finalize sample_env True b1 w1 = (Inl (FlushRedactor ErrOutputLimitExceeded), b2, w2)) \<and>
     prefix (delivered b2 w2) ''helloworld'' \<and> int (length (delivered b2 w2)) \<le> 7 \<and>
     Accumulated b2 = int (length (delivered b2 w2)) \<and> ob_tee b2 = Some (delivered b2 w2)"
  by (rule output_limit_enforced) (simp_all add: sample_env_good max_int64_def)

section \<open>Limits and clean-up whatever fails\<close>

text \<open>What holds of a buffer even when calls fail: the limits, and in inline mode an exact counter.\<close>

definition caps_ok :: "OutputBuffer \<Rightarrow> out_world \<Rightarrow> bool" where
  "caps_ok b w \<longleftrightarrow>
     (ob_inlineMode b \<longrightarrow> ob_accumulated b = int (length (inline_bytes w))) \<and> 0 \<le> ob_accumulated b \<and>
     (ob_threshold b > 0 \<longrightarrow> int (length (inline_bytes w)) \<le> ob_threshold b) \<and>
     (ob_maxOutputSize b > 0 \<longrightarrow> ob_accumulated b \<le> ob_maxOutputSize b)"

lemma emit_caps:
  assumes "caps_ok b w" "wrap64 (ob_accumulated b + int (length d)) = ob_accumulated b + int (length d)"
    and "ob_maxOutputSize b > 0 \<longrightarrow> ob_accumulated b + int (length d) \<le> ob_maxOutputSize b"
    and "ob_inlineMode b \<and> ob_threshold b > 0 \<longrightarrow> ob_accumulated b + int (length d) \<le> ob_threshold b"
    and "emit_data e b w d = (err, b', w')"
  shows "caps_ok b' w'"
  using assms by (auto simp: emit_data_def caps_ok_def split: if_splits option.splits)

lemma place_caps:
  assumes "caps_ok b w" "wrap64 (ob_accumulated b + int (length d)) = ob_accumulated b + int (length d)"
    and "ob_maxOutputSize b > 0 \<longrightarrow> ob_accumulated b + int (length d) \<le> ob_maxOutputSize b"
    and "place_data e b w d = (err, b', w')"
  shows "caps_ok b' w'"
proof (cases "ob_inlineMode b \<and> ob_threshold b > 0 \<and> wrap64 (ob_accumulated b + int (length d)) > ob_threshold b")
  case False
  then show ?thesis using emit_caps [OF assms(1-3), of e] assms(2,4) by (auto simp: place_data_def)
next
  case True
  obtain x b1 w1 where s: "switchToFileMode e b w = (x, b1, w1)" by (metis prod_cases3)
  then have b1: "caps_ok b1 w1" "ob_accumulated b1 = ob_accumulated b" "ob_maxOutputSize b1 = ob_maxOutputSize b"
    "x = None \<longrightarrow> \<not> ob_inlineMode b1"
    using assms(1) by (auto simp: switchToFileMode_def caps_ok_def split: option.splits if_splits)
  show ?thesis
  proof (cases x)
    case (Some y)
    with True s b1 assms(4) show ?thesis by (simp add: place_data_def)
  next
    case None
    with True s b1 have "emit_data e b1 w1 d = (err, b', w')" using assms(4) by (simp add: place_data_def)
    with emit_caps [OF b1(1), of d e err b' w'] b1 None assms(2,3) show ?thesis by simp
  qed
qed

text \<open>Whatever system call fails, a write never lets the counter pass the size limit nor the
  bytes sent inline pass the threshold, and a write refused for its size changes nothing.\<close>

lemma limits_hold_under_failure:
  assumes "caps_ok b w" "ob_accumulated b + int (length d) \<le> max_int64"
    and "writeLocked e b w d = (err, b', w')"
  shows "caps_ok b' w' \<and> (err = Some ErrOutputLimitExceeded \<longrightarrow> b' = b \<and> w' = w)"
proof -
  have wr: "wrap64 (ob_accumulated b + int (length d)) = ob_accumulated b + int (length d)"
    using assms(1,2) by (intro wrap64_id) (simp add: in_int64_def min_int64_def caps_ok_def)
  let ?b = "b\<lparr>ob_tee := map_option (\<lambda>t. t @ d) (ob_tee b)\<rparr>"
  have "caps_ok ?b w" using assms(1) by (simp add: caps_ok_def)
  note place = place_caps [OF this, of d e err b' w', simplified]
  have "place_data e ?b w d \<noteq> (Some ErrOutputLimitExceeded, b', w')"
    by (auto simp: place_data_def switchToFileMode_def emit_data_def split: option.splits if_splits)
  then show ?thesis using assms(1,3) wr place by (auto simp: writeLocked_def split: if_splits)
qed

lemma limits_hold_under_failure_witness:
  "caps_ok (fresh_buffer ''stdout'' 6 100 None) \<lparr>ow_sent = [], ow_files = []\<rparr> \<and>
   writeLocked (sample_env\<lparr>we_send_ok := False\<rparr>) (fresh_buffer ''stdout'' 6 100 None) \<lparr>ow_sent = [], ow_files = []\<rparr> ''hello''
     = (Some SendChunk, (fresh_buffer ''stdout'' 6 100 None)\<lparr>ob_tee := Some ''hello''\<rparr>, \<lparr>ow_sent = [], ow_files = []\<rparr>) \<and>
   caps_ok ((fresh_buffer ''stdout'' 6 100 None)\<lparr>ob_tee := Some ''hello''\<rparr>) \<lparr>ow_sent = [], ow_files = []\<rparr>"
proof -
  have c: "caps_ok (fresh_buffer ''stdout'' 6 100 None) \<lparr>ow_sent = [], ow_files = []\<rparr>"
    by (simp add: caps_ok_def fresh_buffer_def SetRedactor_def SetTee_def NewOutputBuffer_def inline_bytes_def)
  have w: "writeLocked (sample_env\<lparr>we_send_ok := False\<rparr>) (fresh_buffer ''stdout'' 6 100 None) \<lparr>ow_sent = [], ow_files = []\<rparr> ''hello''
     = (Some SendChunk, (fresh_buffer ''stdout'' 6 100 None)\<lparr>ob_tee := Some ''hello''\<rparr>, \<lparr>ow_sent = [], ow_files = []\<rparr>)"
    by code_simp
  have "ob_accumulated (fresh_buffer ''stdout'' 6 100 None) + int (length ''hello'') \<le> max_int64" by code_simp
  from limits_hold_under_failure [OF c this w] c w show ?thesis by blast
qed

lemma cleanup_removes_file:
  "OB_Cleanup stuck b w = (b', w') \<Longrightarrow> ob_tempFile b' = None \<and> ob_tempPath b' = [] \<and>
     map_of (ow_files w') = (if ob_tempPath b = [] \<or> ob_tempPath b \<in> set stuck then map_of (ow_files w)
       else (map_of (ow_files w))(ob_tempPath b := None))"
  by (auto simp: OB_Cleanup_def Let_def split: if_splits)

end
