(* ===== verification/Json_Value.thy ===== *)
theory Json_Value
  imports Json
begin

text \<open>
  \<open>encoding/json\<close> on whole documents: the compact printer behind \<open>json.Marshal\<close>, the parser behind
  \<open>json.Unmarshal\<close> with its grammar of white space, numbers, literals, arrays and objects and its
  nesting limit, and that parsing undoes printing. A number stays the text of its literal until a
  typed field reads it, as in the Go decoder. Members of an object keep their order and duplicates.
\<close>

datatype json =
    JNull
  | JBool bool
  | JNum string
  | JStr string
  | JArr "json list"
  | JObj "(string \<times> json) list"

fun json_print :: "json \<Rightarrow> string" where
  "json_print JNull = ''null''"
| "json_print (JBool b) = (if b then ''true'' else ''false'')"
| "json_print (JNum n) = n"
| "json_print (JStr s) = json_string s"
| "json_print (JArr vs) = ''['' @ join '','' (map json_print vs) @ '']''"
| "json_print (JObj ms) = ''{'' @ join '','' (map (\<lambda>(k, v). json_string k @ '':'' @ json_print v) ms) @ ''}''"

section \<open>Parser\<close>

definition is_ws :: "char \<Rightarrow> bool" where
  "is_ws c \<longleftrightarrow> c = CHR '' '' \<or> c = TAB \<or> c = CR \<or> c = LF"

definition skip_ws :: "string \<Rightarrow> string" where
  "skip_ws s = dropWhile is_ws s"

text \<open>Number literals, in the three parts of the grammar.\<close>

definition num_int :: "string \<Rightarrow> (string \<times> string) option" where
  "num_int s =
     (case s of [] \<Rightarrow> None
      | c # r \<Rightarrow> if c = CHR ''0'' then Some ([c], r)
                 else if is_digit c then Some (takeWhile is_digit s, dropWhile is_digit s) else None)"

definition num_frac :: "string \<Rightarrow> (string \<times> string) option" where
  "num_frac s =
     (case s of [] \<Rightarrow> Some ([], [])
      | c # r \<Rightarrow> if c \<noteq> CHR ''.'' then Some ([], s)
                 else if takeWhile is_digit r = [] then None
                 else Some (c # takeWhile is_digit r, dropWhile is_digit r))"

definition num_exp :: "string \<Rightarrow> (string \<times> string) option" where
  "num_exp s =
     (case s of [] \<Rightarrow> Some ([], [])
      | c # r \<Rightarrow>
        if c \<noteq> CHR ''e'' \<and> c \<noteq> CHR ''E'' then Some ([], s)
        else let sg = (if r \<noteq> [] \<and> (hd r = CHR ''+'' \<or> hd r = CHR ''-'') then [hd r] else []);
                 r' = drop (length sg) r
             in if takeWhile is_digit r' = [] then None
                else Some (c # sg @ takeWhile is_digit r', dropWhile is_digit r'))"

definition read_num :: "string \<Rightarrow> (string \<times> string) option" where
  "read_num s =
     (let sg = (if s \<noteq> [] \<and> hd s = CHR ''-'' then ''-'' else [])
      in case num_int (drop (length sg) s) of None \<Rightarrow> None
         | Some (a, s1) \<Rightarrow>
           (case num_frac s1 of None \<Rightarrow> None
            | Some (b, s2) \<Rightarrow>
              (case num_exp s2 of None \<Rightarrow> None
               | Some (e, s3) \<Rightarrow> Some (sg @ a @ b @ e, s3))))"

definition read_word :: "string \<Rightarrow> json \<Rightarrow> string \<Rightarrow> (json \<times> string) option" where
  "read_word w v s = (if has_prefix s w then Some (v, drop (length w) s) else None)"

text \<open>The key of an object member up to and including the colon.\<close>

definition read_key :: "string \<Rightarrow> (string \<times> string) option" where
  "read_key s =
     (if take 1 (skip_ws s) \<noteq> [DQUOTE] then None
      else case read_str (tl (skip_ws s)) of
        None \<Rightarrow> None
      | Some (k, t) \<Rightarrow> if take 1 (skip_ws t) = '':'' then Some (k, tl (skip_ws t)) else None)"

text \<open>
  Values, array elements and object members. The first argument bounds the recursion; the top level
  starts it with more than any input of that length can use.
\<close>

fun parse_value :: "nat \<Rightarrow> string \<Rightarrow> (json \<times> string) option"
  and parse_elems :: "nat \<Rightarrow> string \<Rightarrow> (json list \<times> string) option"
  and parse_members :: "nat \<Rightarrow> string \<Rightarrow> ((string \<times> json) list \<times> string) option" where
  "parse_value 0 s = None"
| "parse_value (Suc n) s =
     (case skip_ws s of
        [] \<Rightarrow> None
      | c # r \<Rightarrow>
        if c = DQUOTE then map_option (\<lambda>(x, t). (JStr x, t)) (read_str r)
        else if c = CHR ''['' then
          (if take 1 (skip_ws r) = '']'' then Some (JArr [], tl (skip_ws r))
           else map_option (\<lambda>(vs, t). (JArr vs, t)) (parse_elems n r))
        else if c = CHR ''{'' then
          (if take 1 (skip_ws r) = ''}'' then Some (JObj [], tl (skip_ws r))
           else map_option (\<lambda>(ms, t). (JObj ms, t)) (parse_members n r))
        else if c = CHR ''t'' then read_word ''true'' (JBool True) (c # r)
        else if c = CHR ''f'' then read_word ''false'' (JBool False) (c # r)
        else if c = CHR ''n'' then read_word ''null'' JNull (c # r)
        else map_option (\<lambda>(x, t). (JNum x, t)) (read_num (c # r)))"
| "parse_elems 0 s = None"
| "parse_elems (Suc n) s =
     (case parse_value n s of
        None \<Rightarrow> None
      | Some (v, t) \<Rightarrow>
        (case skip_ws t of
           [] \<Rightarrow> None
         | c # r \<Rightarrow>
           if c = CHR '','' then map_option (\<lambda>(vs, u). (v # vs, u)) (parse_elems n r)
           else if c = CHR '']'' then Some ([v], r) else None))"
| "parse_members 0 s = None"
| "parse_members (Suc n) s =
     (case read_key s of
        None \<Rightarrow> None
      | Some (k, s1) \<Rightarrow>
        (case parse_value n s1 of
           None \<Rightarrow> None
         | Some (v, t) \<Rightarrow>
           (case skip_ws t of
              [] \<Rightarrow> None
            | c # r \<Rightarrow>
              if c = CHR '','' then map_option (\<lambda>(ms, u). ((k, v) # ms, u)) (parse_members n r)
              else if c = CHR ''}'' then Some ([(k, v)], r) else None)))"

fun json_depth :: "json \<Rightarrow> nat" where
  "json_depth (JArr vs) = Suc (foldr max (map json_depth vs) 0)"
| "json_depth (JObj ms) = Suc (foldr max (map (\<lambda>(k, v). json_depth v) ms) 0)"
| "json_depth _ = 0"

definition json_parse :: "string \<Rightarrow> json option" where
  "json_parse s =
     (case parse_value (2 * length s + 2) s of
        None \<Rightarrow> None
      | Some (v, t) \<Rightarrow> if skip_ws t = [] \<and> json_depth v \<le> 10000 then Some v else None)"

section \<open>Parsing undoes printing\<close>

text \<open>The documents \<open>json.Marshal\<close> prints: valid UTF-8, integers in their shortest form.\<close>

definition int_lit :: "string \<Rightarrow> bool" where
  "int_lit n \<longleftrightarrow> (case parse_int64 n of None \<Rightarrow> False | Some k \<Rightarrow> n = format_int k)"

fun json_valid :: "json \<Rightarrow> bool" where
  "json_valid (JNum n) = int_lit n"
| "json_valid (JStr s) = utf8_valid s"
| "json_valid (JArr vs) = list_all json_valid vs"
| "json_valid (JObj ms) = list_all (\<lambda>(k, v). utf8_valid k \<and> json_valid v) ms"
| "json_valid _ = True"

definition delim :: "string \<Rightarrow> bool" where
  "delim t \<longleftrightarrow> t = [] \<or> hd t = CHR '','' \<or> hd t = CHR '']'' \<or> hd t = CHR ''}''"

lemma hd_nat_digits_0: "hd (nat_digits n) = CHR ''0'' \<longleftrightarrow> n = 0"
proof (induction n rule: nat_digits.induct)
  case (1 n)
  have zero: "char_of (48 + n :: nat) = CHR ''0'' \<longleftrightarrow> n = 0" if "n < 10"
    using char_code_digit [OF that] char_code_inj [of "char_of (48 + n)" "CHR ''0''"]
    by (auto simp: char_code_def)
  show ?case using 1 zero by (subst nat_digits.simps) auto
qed

lemma digits_then_delim:
  "\<forall>c \<in> set ds. is_digit c \<Longrightarrow> delim t \<Longrightarrow> takeWhile is_digit (ds @ t) = ds \<and> dropWhile is_digit (ds @ t) = t"
proof (induction ds)
  case Nil
  then show ?case by (cases t) (auto simp: delim_def is_digit_def char_code_def)
qed auto

lemma num_int_digits: "delim t \<Longrightarrow> num_int (nat_digits n @ t) = Some (nat_digits n, t)"
proof -
  assume t: "delim t"
  obtain c ds where d: "nat_digits n = c # ds" by (cases "nat_digits n") auto
  have all: "\<forall>c \<in> set (nat_digits n). is_digit c" using nat_digits_is_digit by blast
  show ?thesis
  proof (cases "n = 0")
    case True
    then have "nat_digits n = ''0''" by (simp add: nat_digits.simps) (code_simp)
    then show ?thesis by (simp add: num_int_def)
  next
    case False
    then have "c \<noteq> CHR ''0''" using hd_nat_digits_0 [of n] d by simp
    then show ?thesis using digits_then_delim [OF all t] all d by (auto simp: num_int_def)
  qed
qed

lemma num_rest_delim: "delim t \<Longrightarrow> num_frac t = Some ([], t) \<and> num_exp t = Some ([], t)"
  by (cases t) (auto simp: num_frac_def num_exp_def delim_def)

lemma read_num_int: "delim t \<Longrightarrow> read_num (format_int k @ t) = Some (format_int k, t)"
proof -
  assume t: "delim t"
  show ?thesis
  proof (cases "k < 0")
    case True
    then show ?thesis using num_int_digits [OF t] num_rest_delim [OF t] by (simp add: read_num_def format_int_def)
  next
    case False
    have "hd (nat_digits (nat k)) \<noteq> CHR ''-''" using hd_nat_digits not_digit_signs by metis
    then have "hd (nat_digits (nat k) @ t) \<noteq> CHR ''-''" by (cases "nat_digits (nat k)") simp_all
    with False show ?thesis using num_int_digits [OF t, of "nat k"] num_rest_delim [OF t]
      by (auto simp: read_num_def format_int_def)
  qed
qed

lemma format_int_head: "\<exists>c r. format_int k = c # r \<and> (is_digit c \<or> c = CHR ''-'')"
  using hd_nat_digits [of "nat k"] by (cases "nat_digits (nat k)") (auto simp: format_int_def)

lemma json_print_head:
  "json_valid v \<Longrightarrow> \<exists>c r. json_print v = c # r \<and> \<not> is_ws c \<and> c \<noteq> CHR '']'' \<and> c \<noteq> CHR ''}''"
proof (cases v)
  case (JNum n)
  assume "json_valid v"
  then obtain k where "n = format_int k" using JNum by (auto simp: int_lit_def split: option.splits)
  with format_int_head [of k] JNum show ?thesis by (auto simp: is_ws_def is_digit_def char_code_def)
qed (auto simp: json_string_def is_ws_def)

lemma skip_ws_delim: "delim t \<Longrightarrow> skip_ws t = t"
  by (cases t) (auto simp: skip_ws_def delim_def is_ws_def)

lemma skip_ws_head [simp]: "\<not> is_ws c \<Longrightarrow> skip_ws (c # r) = c # r"
  by (simp add: skip_ws_def)

lemma punct_not_ws [simp]: "\<not> is_ws DQUOTE" "\<not> is_ws CHR '',''" "\<not> is_ws CHR '':''" "\<not> is_ws CHR '']''"
  "\<not> is_ws CHR ''}''" "\<not> is_ws CHR ''[''" "\<not> is_ws CHR ''{''"
  by (simp_all add: is_ws_def)

definition parses :: "json \<Rightarrow> bool" where
  "parses v \<longleftrightarrow> (\<forall>n t. 2 * length (json_print v) + 1 \<le> n \<longrightarrow> delim t \<longrightarrow> parse_value n (json_print v @ t) = Some (v, t))"

lemma parsesI: "(\<And>m t. parse_value (Suc m) (json_print v @ t) = Some (v, t)) \<Longrightarrow> parses v"
  unfolding parses_def by (metis Suc_le_D Suc_eq_plus1)

lemma letter_not_ws [simp]: "\<not> is_ws CHR ''n''" "\<not> is_ws CHR ''t''" "\<not> is_ws CHR ''f''"
  by (simp_all add: is_ws_def)

lemma parses_scalar: "parses JNull" "parses (JBool b)" "utf8_valid s \<Longrightarrow> parses (JStr s)"
  by (rule parsesI, simp add: json_string_def read_str_body read_word_def)+

lemma parse_elems_print:
  "vs \<noteq> [] \<Longrightarrow> \<forall>v \<in> set vs. parses v \<Longrightarrow> 2 * length (join '','' (map json_print vs)) + 2 \<le> n \<Longrightarrow>
   parse_elems n (join '','' (map json_print vs) @ CHR '']'' # t) = Some (vs, t)"
proof (induction vs arbitrary: n)
  case (Cons v vs)
  obtain m where n: "n = Suc m" using Cons.prems(3) by (cases n) auto
  have v: "parse_value m (json_print v @ u) = Some (v, u)" if "delim u" "2 * length (json_print v) + 1 \<le> m" for u
    using Cons.prems(2) that by (simp add: parses_def)
  show ?case
  proof (cases vs)
    case Nil
    then show ?thesis using Cons.prems v [of "CHR '']'' # t"] by (simp add: n delim_def)
  next
    case (Cons w ws)
    then have "2 * length (join '','' (map json_print vs)) + 2 \<le> m" "2 * length (json_print v) + 1 \<le> m"
      using Cons.prems(3) n by simp_all
    with Cons.IH [of m] Cons.prems Cons
      v [of "CHR '','' # join '','' (map json_print vs) @ CHR '']'' # t"]
    show ?thesis by (simp add: n delim_def)
  qed
qed simp

lemma read_key_print: "utf8_valid k \<Longrightarrow> read_key (json_string k @ '':'' @ t) = Some (k, t)"
  by (simp add: read_key_def json_string_def read_str_body)

abbreviation print_member :: "string \<times> json \<Rightarrow> string" where
  "print_member \<equiv> \<lambda>(k, v). json_string k @ '':'' @ json_print v"

lemma parse_members_print:
  "ms \<noteq> [] \<Longrightarrow> \<forall>(k, v) \<in> set ms. utf8_valid k \<and> parses v \<Longrightarrow>
   2 * length (join '','' (map print_member ms)) + 2 \<le> n \<Longrightarrow>
   parse_members n (join '','' (map print_member ms) @ CHR ''}'' # t) = Some (ms, t)"
proof (induction ms arbitrary: n)
  case (Cons kv ms)
  obtain k v where kv: "kv = (k, v)" by (cases kv)
  obtain m where n: "n = Suc m" using Cons.prems(3) by (cases n) auto
  have k: "read_key (json_string k @ CHR '':'' # u) = Some (k, u)" for u
    using read_key_print [of k u] Cons.prems(2) kv by simp
  have v: "parse_value m (json_print v @ u) = Some (v, u)" if "delim u" "2 * length (json_print v) + 1 \<le> m" for u
    using Cons.prems(2) kv that by (simp add: parses_def)
  show ?case
  proof (cases ms)
    case Nil
    then show ?thesis using Cons.prems kv k v [of "CHR ''}'' # t"] by (simp add: n delim_def)
  next
    case (Cons w ws)
    then have "2 * length (join '','' (map print_member ms)) + 2 \<le> m" "2 * length (json_print v) + 1 \<le> m"
      using Cons.prems(3) n kv by simp_all
    with Cons.IH [of m] Cons.prems Cons kv k
      v [of "CHR '','' # join '','' (map print_member ms) @ CHR ''}'' # t"]
    show ?thesis by (simp add: n delim_def)
  qed
qed simp

lemma parses_if_valid: "json_valid v \<Longrightarrow> parses v"
proof (induction v)
  case (JNum x)
  then obtain k where x: "x = format_int k" by (auto simp: int_lit_def split: option.splits)
  obtain c r where c: "format_int k = c # r" "is_digit c \<or> c = CHR ''-''" using format_int_head by blast
  show ?case unfolding parses_def
  proof (intro allI impI)
    fix n t
    assume "2 * length (json_print (JNum x)) + 1 \<le> n" "delim t"
    moreover have "\<not> is_ws c" "c \<notin> {DQUOTE, CHR ''['', CHR ''{'', CHR ''t'', CHR ''f'', CHR ''n''}"
      using c(2) by (auto simp: is_digit_def char_code_def is_ws_def)
    ultimately show "parse_value n (json_print (JNum x) @ t) = Some (JNum x, t)"
      using read_num_int [of t k] c(1) by (cases n) (auto simp: x)
  qed
next
  case (JArr vs)
  then have all: "\<forall>v \<in> set vs. parses v" by (simp add: list_all_iff)
  show ?case unfolding parses_def
  proof (intro allI impI)
    fix n t
    assume n: "2 * length (json_print (JArr vs)) + 1 \<le> n"
    then obtain m where m: "n = Suc m" by (cases n) auto
    show "parse_value n (json_print (JArr vs) @ t) = Some (JArr vs, t)"
    proof (cases vs)
      case (Cons v ws)
      obtain c r where c: "json_print v = c # r" "\<not> is_ws c" "c \<noteq> CHR '']''"
        using json_print_head [of v] JArr.prems Cons by auto
      then obtain r' where "join '','' (map json_print vs) @ CHR '']'' # t = c # r'" using Cons by (cases ws) auto
      with c parse_elems_print [OF _ all, of m t] Cons n m show ?thesis by simp
    qed (simp add: m)
  qed
next
  case (JObj ms)
  then have all: "\<forall>(k, v) \<in> set ms. utf8_valid k \<and> parses v" by (fastforce simp: list_all_iff)
  show ?case unfolding parses_def
  proof (intro allI impI)
    fix n t
    assume n: "2 * length (json_print (JObj ms)) + 1 \<le> n"
    then obtain m where m: "n = Suc m" by (cases n) auto
    show "parse_value n (json_print (JObj ms) @ t) = Some (JObj ms, t)"
    proof (cases ms)
      case (Cons kv ws)
      obtain r' where "join '','' (map print_member ms) @ CHR ''}'' # t = DQUOTE # r'"
        using Cons by (cases ws; cases kv) (auto simp: json_string_def)
      with parse_members_print [OF _ all, of m t] Cons n m show ?thesis by simp
    qed (simp add: m)
  qed
qed (simp_all add: parses_scalar)

lemma json_parse_print:
  assumes "json_valid v" "json_depth v \<le> 10000"
  shows "json_parse (json_print v) = Some v"
proof -
  have "parse_value (2 * length (json_print v) + 2) (json_print v @ []) = Some (v, [])"
    using parses_if_valid [OF assms(1)] unfolding parses_def by (metis add_le_mono delim_def le_refl one_le_numeral)
  then show ?thesis using assms(2) by (simp add: json_parse_def skip_ws_def del: parse_value.simps)
qed

section \<open>Printed documents are one line\<close>

lemma LF_notin_format_int [simp]: "LF \<notin> set (format_int k)"
  using nat_digits_is_digit not_digit_signs(3) by (auto simp: format_int_def)

lemma LF_notin_json_print: "json_valid v \<Longrightarrow> LF \<notin> set (json_print v)"
proof (induction v)
  case (JNum x)
  then show ?case by (auto simp: int_lit_def split: option.splits)
next
  case (JObj ms)
  then have "\<forall>m \<in> set ms. LF \<notin> set (print_member m)" by (fastforce simp: list_all_iff)
  then show ?case using LF_notin_join [of "'',''" "map print_member ms"] by auto
qed (auto simp: list_all_iff LF_notin_join)

section \<open>Values of no fixed type\<close>

text \<open>
  A number read into an \<open>interface{}\<close> becomes a \<open>float64\<close>; one that rounds to infinity is an error.
  \<open>float_parts\<close> is mantissa and exponent of the literal, the bound is halfway above the largest finite value.
\<close>

definition digits_nat :: "string \<Rightarrow> nat" where
  "digits_nat s = foldl (\<lambda>a c. a * 10 + (char_code c - 48)) 0 s"

definition float_parts :: "string \<Rightarrow> nat \<times> int" where
  "float_parts n =
     (let m = takeWhile (\<lambda>c. c \<noteq> CHR ''e'' \<and> c \<noteq> CHR ''E'') (trim_prefix n ''-'');
          x = drop (Suc (length m)) (trim_prefix n ''-'');
          ip = takeWhile (\<lambda>c. c \<noteq> CHR ''.'') m; fp = drop (Suc (length ip)) m
      in (digits_nat (ip @ fp),
          (if has_prefix x ''-'' then - int (digits_nat (tl x)) else int (digits_nat (trim_prefix x ''+''))) - int (length fp)))"

definition float_finite :: "string \<Rightarrow> bool" where
  "float_finite n =
     (case float_parts n of (m, e) \<Rightarrow>
        if 0 \<le> e then m = 0 \<or> (e < 400 \<and> m * 10 ^ nat e < 2 ^ 1024 - 2 ^ 970)
        else m < (2 ^ 1024 - 2 ^ 970) * 10 ^ nat (- e))"

fun any_ok :: "json \<Rightarrow> bool" where
  "any_ok (JNum n) = float_finite n"
| "any_ok (JArr vs) = list_all any_ok vs"
| "any_ok (JObj ms) = list_all (\<lambda>(k, v). any_ok v) ms"
| "any_ok _ = True"

end
