(* ===== verification/Wire.thy ===== *)
theory Wire
  imports Types Json_Value
begin

text \<open>
  The JSON form of the messages of \<open>internal/protocol/protocol.go\<close>, from the field tags of the
  structs: what \<open>json.Marshal\<close> writes (fields in order, \<open>omitempty\<close> fields left out when zero) and
  what \<open>json.Unmarshal\<close> reads (fields found by exact name, then by case-folded name, unknown members
  skipped, \<open>null\<close> leaves a field alone, a member of the wrong type is an error). Reading back a
  written message gives the message.
\<close>

section \<open>Writing fields\<close>

definition opt_str :: "string \<Rightarrow> string \<Rightarrow> (string \<times> json) list" where
  "opt_str k s = (if s = [] then [] else [(k, JStr s)])"

definition opt_int :: "string \<Rightarrow> int \<Rightarrow> (string \<times> json) list" where
  "opt_int k n = (if n = 0 then [] else [(k, JNum (format_int n))])"

definition opt_bool :: "string \<Rightarrow> bool \<Rightarrow> (string \<times> json) list" where
  "opt_bool k b = (if b then [(k, JBool True)] else [])"

definition opt_strs :: "string \<Rightarrow> string list \<Rightarrow> (string \<times> json) list" where
  "opt_strs k xs = (if xs = [] then [] else [(k, JArr (map JStr xs))])"

text \<open>Map entries are written in key order.\<close>

definition opt_map :: "string \<Rightarrow> (string, string) gomap \<Rightarrow> (string \<times> json) list" where
  "opt_map k m = (if m = [] then [] else [(k, JObj (map (\<lambda>(a, b). (a, JStr b)) (sort_key fst m)))])"

section \<open>Reading fields\<close>

definition dec_str :: "json \<Rightarrow> string \<Rightarrow> string option" where
  "dec_str j old = (case j of JStr s \<Rightarrow> Some s | JNull \<Rightarrow> Some old | _ \<Rightarrow> None)"

definition dec_bool :: "json \<Rightarrow> bool \<Rightarrow> bool option" where
  "dec_bool j old = (case j of JBool b \<Rightarrow> Some b | JNull \<Rightarrow> Some old | _ \<Rightarrow> None)"

definition dec_int :: "json \<Rightarrow> int \<Rightarrow> int option" where
  "dec_int j old = (case j of JNum n \<Rightarrow> parse_int64 n | JNull \<Rightarrow> Some old | _ \<Rightarrow> None)"

definition dec_uint16 :: "json \<Rightarrow> int \<Rightarrow> int option" where
  "dec_uint16 j old =
     (case j of
        JNum n \<Rightarrow> (case parse_digits 10 n of None \<Rightarrow> None | Some v \<Rightarrow> if v < 65536 then Some v else None)
      | JNull \<Rightarrow> Some old | _ \<Rightarrow> None)"

text \<open>A string slice is overwritten element by element; a \<open>null\<close> element keeps what was there.\<close>

fun dec_elems :: "json list \<Rightarrow> string list \<Rightarrow> string list option" where
  "dec_elems [] old = Some []"
| "dec_elems (j # js) old =
     (case (dec_str j (if old = [] then [] else hd old), dec_elems js (tl old)) of
        (Some x, Some xs) \<Rightarrow> Some (x # xs) | _ \<Rightarrow> None)"

definition dec_strs :: "json \<Rightarrow> string list option \<Rightarrow> string list option option" where
  "dec_strs j old =
     (case j of JArr js \<Rightarrow> map_option Some (dec_elems js (nil_slice old)) | JNull \<Rightarrow> Some None | _ \<Rightarrow> None)"

fun dec_entries :: "(string \<times> json) list \<Rightarrow> (string, string) gomap \<Rightarrow> (string, string) gomap option" where
  "dec_entries [] m = Some m"
| "dec_entries ((k, j) # es) m =
     (case dec_str j [] of None \<Rightarrow> None | Some v \<Rightarrow> dec_entries es (map_set k v m))"

definition dec_map :: "json \<Rightarrow> (string, string) gomap \<Rightarrow> (string, string) gomap option" where
  "dec_map j old = (case j of JObj es \<Rightarrow> dec_entries es old | JNull \<Rightarrow> Some [] | _ \<Rightarrow> None)"

section \<open>Structs\<close>

text \<open>\<open>foldName\<close>: letter case is ignored, and the Kelvin sign and the long s fold to k and s.\<close>

definition fold_name :: "string \<Rightarrow> string" where
  "fold_name k = to_lower (replace_all (replace_all k [CHR 0xE2, CHR 0x84, CHR 0xAA] ''k'') [CHR 0xC5, CHR 0xBF] ''s'')"

definition find_field :: "string list \<Rightarrow> string \<Rightarrow> string option" where
  "find_field names k =
     (if k \<in> set names then Some k else find (\<lambda>n. fold_name n = fold_name k) names)"

fun dec_members :: "string list \<Rightarrow> (string \<Rightarrow> json \<Rightarrow> 'a \<Rightarrow> 'a option) \<Rightarrow> (string \<times> json) list \<Rightarrow> 'a \<Rightarrow> 'a option" where
  "dec_members names fld [] m = Some m"
| "dec_members names fld ((k, j) # es) m =
     (case find_field names k of
        None \<Rightarrow> dec_members names fld es m
      | Some n \<Rightarrow> (case fld n j m of None \<Rightarrow> None | Some m' \<Rightarrow> dec_members names fld es m'))"

definition dec_struct :: "string list \<Rightarrow> (string \<Rightarrow> json \<Rightarrow> 'a \<Rightarrow> 'a option) \<Rightarrow> json \<Rightarrow> 'a \<Rightarrow> 'a option" where
  "dec_struct names fld j m =
     (case j of JObj es \<Rightarrow> dec_members names fld es m | JNull \<Rightarrow> Some m | _ \<Rightarrow> None)"

definition unmarshal :: "(json \<Rightarrow> 'a \<Rightarrow> 'a option) \<Rightarrow> 'a \<Rightarrow> string \<Rightarrow> 'a option" where
  "unmarshal dec zero s = (case json_parse s of None \<Rightarrow> None | Some j \<Rightarrow> dec j zero)"

lemma dec_members_append:
  "dec_members names fld (xs @ ys) m =
     (case dec_members names fld xs m of None \<Rightarrow> None | Some m' \<Rightarrow> dec_members names fld ys m')"
  by (induction xs arbitrary: m) (auto split: option.splits)

lemma dec_elems_strs: "dec_elems (map JStr xs) old = Some xs"
  by (induction xs arbitrary: old) (simp_all add: dec_str_def)

lemma opt_valid:
  "utf8_valid k \<Longrightarrow> utf8_valid s \<Longrightarrow> list_all (\<lambda>(k, v). utf8_valid k \<and> json_valid v) (opt_str k s)"
  "utf8_valid k \<Longrightarrow> in_int64 n \<Longrightarrow> list_all (\<lambda>(k, v). utf8_valid k \<and> json_valid v) (opt_int k n)"
  "utf8_valid k \<Longrightarrow> list_all (\<lambda>(k, v). utf8_valid k \<and> json_valid v) (opt_bool k b)"
  "utf8_valid k \<Longrightarrow> list_all utf8_valid xs \<Longrightarrow> list_all (\<lambda>(k, v). utf8_valid k \<and> json_valid v) (opt_strs k xs)"
  by (auto simp: opt_str_def opt_int_def opt_bool_def opt_strs_def int_lit_def parse_int64_format_int list_all_iff)

section \<open>WrapperMessage\<close>

definition zero_WrapperMessage :: WrapperMessage where
  "zero_WrapperMessage = \<lparr>wm_type = [], wm_data = [], wm_eof = False, wm_signal = [], wm_files = [],
     wm_rows = 0, wm_cols = 0\<rparr>"

definition json_WrapperMessage :: "WrapperMessage \<Rightarrow> json" where
  "json_WrapperMessage m = JObj ([(''type'', JStr (wm_type m))] @ opt_str ''data'' (wm_data m) @
     opt_bool ''eof'' (wm_eof m) @ opt_str ''signal'' (wm_signal m) @ opt_strs ''files'' (wm_files m) @
     opt_int ''rows'' (wm_rows m) @ opt_int ''cols'' (wm_cols m))"

definition marshal_WrapperMessage :: "WrapperMessage \<Rightarrow> string" where
  "marshal_WrapperMessage m = json_print (json_WrapperMessage m)"

definition WrapperMessage_field :: "string \<Rightarrow> json \<Rightarrow> WrapperMessage \<Rightarrow> WrapperMessage option" where
  "WrapperMessage_field n j m =
     (if n = ''type'' then map_option (\<lambda>v. m\<lparr>wm_type := v\<rparr>) (dec_str j (wm_type m))
      else if n = ''data'' then map_option (\<lambda>v. m\<lparr>wm_data := v\<rparr>) (dec_str j (wm_data m))
      else if n = ''eof'' then map_option (\<lambda>v. m\<lparr>wm_eof := v\<rparr>) (dec_bool j (wm_eof m))
      else if n = ''signal'' then map_option (\<lambda>v. m\<lparr>wm_signal := v\<rparr>) (dec_str j (wm_signal m))
      else if n = ''files'' then map_option (\<lambda>v. m\<lparr>wm_files := nil_slice v\<rparr>) (dec_strs j (Some (wm_files m)))
      else if n = ''rows'' then map_option (\<lambda>v. m\<lparr>wm_rows := v\<rparr>) (dec_uint16 j (wm_rows m))
      else map_option (\<lambda>v. m\<lparr>wm_cols := v\<rparr>) (dec_uint16 j (wm_cols m)))"

definition WrapperMessage_names :: "string list" where
  "WrapperMessage_names = [''type'', ''data'', ''eof'', ''signal'', ''files'', ''rows'', ''cols'']"

definition unmarshal_WrapperMessage :: "string \<Rightarrow> WrapperMessage option" where
  "unmarshal_WrapperMessage =
     unmarshal (dec_struct WrapperMessage_names WrapperMessage_field) zero_WrapperMessage"

definition uint16_ok :: "int \<Rightarrow> bool" where
  "uint16_ok n \<longleftrightarrow> 0 \<le> n \<and> n < 65536"

definition WrapperMessage_ok :: "WrapperMessage \<Rightarrow> bool" where
  "WrapperMessage_ok m \<longleftrightarrow> utf8_valid (wm_type m) \<and> utf8_valid (wm_data m) \<and> utf8_valid (wm_signal m) \<and>
     list_all utf8_valid (wm_files m) \<and> uint16_ok (wm_rows m) \<and> uint16_ok (wm_cols m)"

lemma dec_uint16_format: "uint16_ok n \<Longrightarrow> dec_uint16 (JNum (format_int n)) old = Some n"
  by (auto simp: dec_uint16_def uint16_ok_def format_int_def)

lemma uint16_in_int64: "uint16_ok n \<Longrightarrow> in_int64 n"
  by (simp add: uint16_ok_def in_int64_def min_int64_def max_int64_def)

lemma wm_segments:
  fixes t d :: string
  assumes "uint16_ok r" "uint16_ok c"
  defines "D \<equiv> dec_members WrapperMessage_names WrapperMessage_field"
  shows "D [(''type'', JStr t)] zero_WrapperMessage = Some (zero_WrapperMessage\<lparr>wm_type := t\<rparr>)"
    "wm_data m = [] \<Longrightarrow> D (opt_str ''data'' d) m = Some (m\<lparr>wm_data := d\<rparr>)"
    "wm_eof m = False \<Longrightarrow> D (opt_bool ''eof'' e) m = Some (m\<lparr>wm_eof := e\<rparr>)"
    "wm_signal m = [] \<Longrightarrow> D (opt_str ''signal'' d) m = Some (m\<lparr>wm_signal := d\<rparr>)"
    "wm_files m = [] \<Longrightarrow> D (opt_strs ''files'' fs) m = Some (m\<lparr>wm_files := fs\<rparr>)"
    "wm_rows m = 0 \<Longrightarrow> D (opt_int ''rows'' r) m = Some (m\<lparr>wm_rows := r\<rparr>)"
    "wm_cols m = 0 \<Longrightarrow> D (opt_int ''cols'' c) m = Some (m\<lparr>wm_cols := c\<rparr>)"
  using assms(1,2) unfolding D_def
  by (simp_all add: find_field_def WrapperMessage_names_def WrapperMessage_field_def opt_str_def opt_int_def
      opt_bool_def opt_strs_def dec_str_def dec_bool_def dec_strs_def dec_uint16_format dec_elems_strs nil_slice_def
      zero_WrapperMessage_def)

lemma foldr_max_le: "(\<forall>x \<in> set xs. x \<le> (b::nat)) \<Longrightarrow> foldr max xs 0 \<le> b"
  by (induction xs) auto

text \<open>A message nests two levels at most.\<close>

definition flat :: "(string \<times> json) list \<Rightarrow> bool" where
  "flat es \<longleftrightarrow> list_all (\<lambda>(k, v). json_depth v \<le> 2) es"

lemma flat_segments [simp]:
  "flat [(k, JStr s)]" "flat (opt_str k s)" "flat (opt_bool k b)" "flat (opt_int k n)" "flat (opt_strs k xs)"
  "flat (es @ es') \<longleftrightarrow> flat es \<and> flat es'" "flat []"
  by (auto simp: flat_def opt_str_def opt_bool_def opt_int_def opt_strs_def intro!: foldr_max_le le_SucI)

lemma flat_depth: "flat es \<Longrightarrow> json_depth (JObj es) \<le> 10000"
proof -
  assume "flat es"
  then have "\<forall>x \<in> set (map (\<lambda>(k, v). json_depth v) es). x \<le> 2" by (auto simp: flat_def list_all_iff)
  from foldr_max_le [OF this] show ?thesis by simp
qed

lemma unmarshal_print:
  "list_all (\<lambda>(k, v). utf8_valid k \<and> json_valid v) es \<Longrightarrow> flat es \<Longrightarrow>
   unmarshal (dec_struct names fld) zero (json_print (JObj es)) = dec_members names fld es zero"
  using json_parse_print [of "JObj es"] flat_depth [of es]
  by (simp add: unmarshal_def dec_struct_def del: json_print.simps)

lemma name_valid [simp]:
  "utf8_valid ''type''" "utf8_valid ''data''" "utf8_valid ''eof''" "utf8_valid ''signal''" "utf8_valid ''files''"
  "utf8_valid ''rows''" "utf8_valid ''cols''" "utf8_valid ''exit_code''" "utf8_valid ''timeout''"
  "utf8_valid ''message''" "utf8_valid ''stream''" "utf8_valid ''path''" "utf8_valid ''version''"
  "utf8_valid ''tool''" "utf8_valid ''args''" "utf8_valid ''cwd''" "utf8_valid ''timestamp''" "utf8_valid ''nonce''"
  "utf8_valid ''hmac''" "utf8_valid ''env''" "utf8_valid ''use_pty''" "utf8_valid ''window_size''" "utf8_valid ''admin''"
  by (simp_all add: utf8_valid.simps char_code_def)

lemma WrapperMessage_members_valid:
  "WrapperMessage_ok m \<Longrightarrow> json_valid (json_WrapperMessage m)"
  unfolding json_WrapperMessage_def WrapperMessage_ok_def by (simp add: opt_valid uint16_in_int64)

lemma WrapperMessage_roundtrip:
  "WrapperMessage_ok m \<Longrightarrow> unmarshal_WrapperMessage (marshal_WrapperMessage m) = Some m"
proof -
  assume ok: "WrapperMessage_ok m"
  then have u: "uint16_ok (wm_rows m)" "uint16_ok (wm_cols m)" by (simp_all add: WrapperMessage_ok_def)
  note v = WrapperMessage_members_valid [OF ok, unfolded json_WrapperMessage_def, simplified json_valid.simps]
  show ?thesis
    unfolding unmarshal_WrapperMessage_def marshal_WrapperMessage_def json_WrapperMessage_def
    by (subst unmarshal_print [OF v]) (simp_all only: flat_segments dec_members_append wm_segments [OF u] option.case,
      simp add: wm_segments [OF u] zero_WrapperMessage_def)
qed

section \<open>ResponseMessage\<close>

definition json_ResponseMessage :: "ResponseMessage \<Rightarrow> json" where
  "json_ResponseMessage m = JObj ([(''type'', JStr (rm_type m))] @ opt_str ''data'' (rm_data m) @
     opt_int ''exit_code'' (rm_exit_code m) @ opt_bool ''timeout'' (rm_timeout m) @
     opt_str ''message'' (rm_message m) @ opt_str ''stream'' (rm_stream m) @ opt_str ''path'' (rm_path m))"

definition marshal_ResponseMessage :: "ResponseMessage \<Rightarrow> string" where
  "marshal_ResponseMessage m = json_print (json_ResponseMessage m)"

definition ResponseMessage_field :: "string \<Rightarrow> json \<Rightarrow> ResponseMessage \<Rightarrow> ResponseMessage option" where
  "ResponseMessage_field n j m =
     (if n = ''type'' then map_option (\<lambda>v. m\<lparr>rm_type := v\<rparr>) (dec_str j (rm_type m))
      else if n = ''data'' then map_option (\<lambda>v. m\<lparr>rm_data := v\<rparr>) (dec_str j (rm_data m))
      else if n = ''exit_code'' then map_option (\<lambda>v. m\<lparr>rm_exit_code := v\<rparr>) (dec_int j (rm_exit_code m))
      else if n = ''timeout'' then map_option (\<lambda>v. m\<lparr>rm_timeout := v\<rparr>) (dec_bool j (rm_timeout m))
      else if n = ''message'' then map_option (\<lambda>v. m\<lparr>rm_message := v\<rparr>) (dec_str j (rm_message m))
      else if n = ''stream'' then map_option (\<lambda>v. m\<lparr>rm_stream := v\<rparr>) (dec_str j (rm_stream m))
      else map_option (\<lambda>v. m\<lparr>rm_path := v\<rparr>) (dec_str j (rm_path m)))"

definition ResponseMessage_names :: "string list" where
  "ResponseMessage_names = [''type'', ''data'', ''exit_code'', ''timeout'', ''message'', ''stream'', ''path'']"

definition unmarshal_ResponseMessage :: "string \<Rightarrow> ResponseMessage option" where
  "unmarshal_ResponseMessage = unmarshal (dec_struct ResponseMessage_names ResponseMessage_field) empty_response"

definition ResponseMessage_ok :: "ResponseMessage \<Rightarrow> bool" where
  "ResponseMessage_ok m \<longleftrightarrow> utf8_valid (rm_type m) \<and> utf8_valid (rm_data m) \<and> in_int64 (rm_exit_code m) \<and>
     utf8_valid (rm_message m) \<and> utf8_valid (rm_stream m) \<and> utf8_valid (rm_path m)"

lemma dec_int_format: "in_int64 n \<Longrightarrow> dec_int (JNum (format_int n)) old = Some n"
  by (simp add: dec_int_def parse_int64_format_int)

lemma rm_segments:
  fixes d :: string
  assumes "in_int64 x"
  defines "D \<equiv> dec_members ResponseMessage_names ResponseMessage_field"
  shows "D [(''type'', JStr d)] m = Some (m\<lparr>rm_type := d\<rparr>)"
    "rm_data m = [] \<Longrightarrow> D (opt_str ''data'' d) m = Some (m\<lparr>rm_data := d\<rparr>)"
    "rm_exit_code m = 0 \<Longrightarrow> D (opt_int ''exit_code'' x) m = Some (m\<lparr>rm_exit_code := x\<rparr>)"
    "rm_timeout m = False \<Longrightarrow> D (opt_bool ''timeout'' b) m = Some (m\<lparr>rm_timeout := b\<rparr>)"
    "rm_message m = [] \<Longrightarrow> D (opt_str ''message'' d) m = Some (m\<lparr>rm_message := d\<rparr>)"
    "rm_stream m = [] \<Longrightarrow> D (opt_str ''stream'' d) m = Some (m\<lparr>rm_stream := d\<rparr>)"
    "rm_path m = [] \<Longrightarrow> D (opt_str ''path'' d) m = Some (m\<lparr>rm_path := d\<rparr>)"
  using assms(1) unfolding D_def
  by (simp_all add: find_field_def ResponseMessage_names_def ResponseMessage_field_def opt_str_def opt_int_def
      opt_bool_def dec_str_def dec_bool_def dec_int_format)

lemma ResponseMessage_members_valid:
  "ResponseMessage_ok m \<Longrightarrow> json_valid (json_ResponseMessage m)"
  unfolding json_ResponseMessage_def ResponseMessage_ok_def by (simp add: opt_valid)

lemma ResponseMessage_roundtrip:
  "ResponseMessage_ok m \<Longrightarrow> unmarshal_ResponseMessage (marshal_ResponseMessage m) = Some m"
proof -
  assume ok: "ResponseMessage_ok m"
  then have x: "in_int64 (rm_exit_code m)" by (simp add: ResponseMessage_ok_def)
  note v = ResponseMessage_members_valid [OF ok, unfolded json_ResponseMessage_def, simplified json_valid.simps]
  show ?thesis
    unfolding unmarshal_ResponseMessage_def marshal_ResponseMessage_def json_ResponseMessage_def
    by (subst unmarshal_print [OF v]) (simp_all only: flat_segments dec_members_append rm_segments [OF x] option.case,
      simp add: rm_segments [OF x] empty_response_def)
qed

section \<open>AdminRequest and ProxyRequest\<close>

definition zero_AdminRequest :: AdminRequest where
  "zero_AdminRequest = \<lparr>ar_version = 0, ar_admin = [], ar_timestamp = [], ar_nonce = [], ar_hmac = []\<rparr>"

definition json_AdminRequest :: "AdminRequest \<Rightarrow> json" where
  "json_AdminRequest r = JObj (opt_int ''version'' (ar_version r) @ [(''admin'', JStr (ar_admin r)),
     (''timestamp'', JStr (ar_timestamp r)), (''nonce'', JStr (ar_nonce r)), (''hmac'', JStr (ar_hmac r))])"

definition AdminRequest_field :: "string \<Rightarrow> json \<Rightarrow> AdminRequest \<Rightarrow> AdminRequest option" where
  "AdminRequest_field n j r =
     (if n = ''version'' then map_option (\<lambda>v. r\<lparr>ar_version := v\<rparr>) (dec_int j (ar_version r))
      else if n = ''admin'' then map_option (\<lambda>v. r\<lparr>ar_admin := v\<rparr>) (dec_str j (ar_admin r))
      else if n = ''timestamp'' then map_option (\<lambda>v. r\<lparr>ar_timestamp := v\<rparr>) (dec_str j (ar_timestamp r))
      else if n = ''nonce'' then map_option (\<lambda>v. r\<lparr>ar_nonce := v\<rparr>) (dec_str j (ar_nonce r))
      else map_option (\<lambda>v. r\<lparr>ar_hmac := v\<rparr>) (dec_str j (ar_hmac r)))"

definition AdminRequest_names :: "string list" where
  "AdminRequest_names = [''version'', ''admin'', ''timestamp'', ''nonce'', ''hmac'']"

definition unmarshal_AdminRequest :: "string \<Rightarrow> AdminRequest option" where
  "unmarshal_AdminRequest = unmarshal (dec_struct AdminRequest_names AdminRequest_field) zero_AdminRequest"

definition zero_ProxyRequest :: ProxyRequest where
  "zero_ProxyRequest = \<lparr>pr_version = 0, pr_tool = [], pr_args = None, pr_cwd = [], pr_timestamp = [],
     pr_nonce = [], pr_hmac = [], pr_env = [], pr_use_pty = False, pr_window_size = None\<rparr>"

definition json_WinSize :: "WinSize \<Rightarrow> json" where
  "json_WinSize w = JObj [(''rows'', JNum (format_int (ws_rows w))), (''cols'', JNum (format_int (ws_cols w)))]"

definition json_ProxyRequest :: "ProxyRequest \<Rightarrow> json" where
  "json_ProxyRequest r = JObj (opt_int ''version'' (pr_version r) @ [(''tool'', JStr (pr_tool r)),
     (''args'', case pr_args r of None \<Rightarrow> JNull | Some xs \<Rightarrow> JArr (map JStr xs)), (''cwd'', JStr (pr_cwd r)),
     (''timestamp'', JStr (pr_timestamp r)), (''nonce'', JStr (pr_nonce r)), (''hmac'', JStr (pr_hmac r))] @
     opt_map ''env'' (pr_env r) @ opt_bool ''use_pty'' (pr_use_pty r) @
     (case pr_window_size r of None \<Rightarrow> [] | Some w \<Rightarrow> [(''window_size'', json_WinSize w)]))"

definition marshal_ProxyRequest :: "ProxyRequest \<Rightarrow> string" where
  "marshal_ProxyRequest r = json_print (json_ProxyRequest r)"

definition WinSize_field :: "string \<Rightarrow> json \<Rightarrow> WinSize \<Rightarrow> WinSize option" where
  "WinSize_field n j w =
     (if n = ''rows'' then map_option (\<lambda>v. w\<lparr>ws_rows := v\<rparr>) (dec_uint16 j (ws_rows w))
      else map_option (\<lambda>v. w\<lparr>ws_cols := v\<rparr>) (dec_uint16 j (ws_cols w)))"

definition dec_window :: "json \<Rightarrow> WinSize option \<Rightarrow> WinSize option option" where
  "dec_window j old =
     (case j of JNull \<Rightarrow> Some None
      | _ \<Rightarrow> map_option Some (dec_struct [''rows'', ''cols''] WinSize_field j
               (case old of None \<Rightarrow> \<lparr>ws_rows = 0, ws_cols = 0\<rparr> | Some w \<Rightarrow> w)))"

definition ProxyRequest_field :: "string \<Rightarrow> json \<Rightarrow> ProxyRequest \<Rightarrow> ProxyRequest option" where
  "ProxyRequest_field n j r =
     (if n = ''version'' then map_option (\<lambda>v. r\<lparr>pr_version := v\<rparr>) (dec_int j (pr_version r))
      else if n = ''tool'' then map_option (\<lambda>v. r\<lparr>pr_tool := v\<rparr>) (dec_str j (pr_tool r))
      else if n = ''args'' then map_option (\<lambda>v. r\<lparr>pr_args := v\<rparr>) (dec_strs j (pr_args r))
      else if n = ''cwd'' then map_option (\<lambda>v. r\<lparr>pr_cwd := v\<rparr>) (dec_str j (pr_cwd r))
      else if n = ''timestamp'' then map_option (\<lambda>v. r\<lparr>pr_timestamp := v\<rparr>) (dec_str j (pr_timestamp r))
      else if n = ''nonce'' then map_option (\<lambda>v. r\<lparr>pr_nonce := v\<rparr>) (dec_str j (pr_nonce r))
      else if n = ''hmac'' then map_option (\<lambda>v. r\<lparr>pr_hmac := v\<rparr>) (dec_str j (pr_hmac r))
      else if n = ''env'' then map_option (\<lambda>v. r\<lparr>pr_env := v\<rparr>) (dec_map j (pr_env r))
      else if n = ''use_pty'' then map_option (\<lambda>v. r\<lparr>pr_use_pty := v\<rparr>) (dec_bool j (pr_use_pty r))
      else map_option (\<lambda>v. r\<lparr>pr_window_size := v\<rparr>) (dec_window j (pr_window_size r)))"

definition ProxyRequest_names :: "string list" where
  "ProxyRequest_names = [''version'', ''tool'', ''args'', ''cwd'', ''timestamp'', ''nonce'', ''hmac'', ''env'',
     ''use_pty'', ''window_size'']"

definition unmarshal_ProxyRequest :: "string \<Rightarrow> ProxyRequest option" where
  "unmarshal_ProxyRequest = unmarshal (dec_struct ProxyRequest_names ProxyRequest_field) zero_ProxyRequest"

definition ProxyRequest_ok :: "ProxyRequest \<Rightarrow> bool" where
  "ProxyRequest_ok r \<longleftrightarrow> in_int64 (pr_version r) \<and> utf8_valid (pr_tool r) \<and> args_valid (pr_args r) \<and>
     utf8_valid (pr_cwd r) \<and> utf8_valid (pr_timestamp r) \<and> utf8_valid (pr_nonce r) \<and> utf8_valid (pr_hmac r) \<and>
     list_all entry_valid (pr_env r) \<and> gomap_ok (pr_env r) \<and>
     (case pr_window_size r of None \<Rightarrow> True | Some w \<Rightarrow> uint16_ok (ws_rows w) \<and> uint16_ok (ws_cols w))"

text \<open>Reading the entries of a map back gives the map, in some order.\<close>

lemma dec_entries_strs:
  "distinct (map fst (es @ m)) \<Longrightarrow> dec_entries (map (\<lambda>(a, b). (a, JStr b)) es) m = Some (rev es @ m)"
proof (induction es arbitrary: m)
  case (Cons e es)
  obtain k v where e: "e = (k, v)" by (cases e)
  have k: "k \<notin> fst ` set m" using Cons.prems by (simp add: e)
  then have "map_set k v m = (k, v) # m"
    by (auto simp: map_set_def filter_id_conv rev_image_eqI)
  moreover have "distinct (map fst (es @ (k, v) # m))" using Cons.prems by (auto simp: e)
  ultimately show ?case using Cons.IH [of "(k, v) # m"] by (simp add: e dec_str_def)
qed simp

definition read_order :: "(string, string) gomap \<Rightarrow> (string, string) gomap" where
  "read_order m = rev (sort_key fst m)"

lemma distinct_sort_key: "distinct (map fst (sort_key fst m)) = distinct (map fst m)"
  by (simp add: distinct_map)

lemma map_of_read_order: "gomap_ok m \<Longrightarrow> map_of (read_order m) = map_of m"
  by (rule map_of_inject_set [THEN iffD2])
    (simp_all add: read_order_def gomap_ok_def rev_map [symmetric] distinct_sort_key)

lemma pr_segments:
  fixes d :: string
  defines "D \<equiv> dec_members ProxyRequest_names ProxyRequest_field"
  shows "in_int64 x \<Longrightarrow> pr_version r = 0 \<Longrightarrow> D (opt_int ''version'' x) r = Some (r\<lparr>pr_version := x\<rparr>)"
    "pr_env r = [] \<Longrightarrow> gomap_ok e \<Longrightarrow> D (opt_map ''env'' e) r = Some (r\<lparr>pr_env := read_order e\<rparr>)"
    "pr_use_pty r = False \<Longrightarrow> D (opt_bool ''use_pty'' b) r = Some (r\<lparr>pr_use_pty := b\<rparr>)"
    "D [(''tool'', JStr d1), (''args'', case as of None \<Rightarrow> JNull | Some xs \<Rightarrow> JArr (map JStr xs)),
        (''cwd'', JStr d2), (''timestamp'', JStr d3), (''nonce'', JStr d4), (''hmac'', JStr d5)] r =
       Some (r\<lparr>pr_tool := d1, pr_args := as, pr_cwd := d2, pr_timestamp := d3, pr_nonce := d4, pr_hmac := d5\<rparr>)"
    "uint16_ok (ws_rows z) \<Longrightarrow> uint16_ok (ws_cols z) \<Longrightarrow> pr_window_size r = None \<Longrightarrow>
       D [(''window_size'', json_WinSize z)] r = Some (r\<lparr>pr_window_size := Some z\<rparr>)"
  unfolding D_def
  by (simp_all add: find_field_def ProxyRequest_names_def ProxyRequest_field_def opt_int_def opt_map_def
      opt_bool_def dec_str_def dec_bool_def dec_int_format dec_map_def dec_entries_strs distinct_sort_key gomap_ok_def
      read_order_def dec_strs_def dec_elems_strs dec_window_def json_WinSize_def dec_struct_def WinSize_field_def
      dec_uint16_format split: option.split)

lemma pr_window_segment:
  "pr_window_size r = None \<Longrightarrow> (case w of None \<Rightarrow> True | Some z \<Rightarrow> uint16_ok (ws_rows z) \<and> uint16_ok (ws_cols z)) \<Longrightarrow>
   dec_members ProxyRequest_names ProxyRequest_field
     (case w of None \<Rightarrow> [] | Some z \<Rightarrow> [(''window_size'', json_WinSize z)]) r = Some (r\<lparr>pr_window_size := w\<rparr>)"
  using pr_segments(5) [of _ r] by (cases w) auto

lemma ProxyRequest_members:
  assumes "ProxyRequest_ok r" "json_ProxyRequest r = JObj es"
  shows "list_all (\<lambda>(k, v). utf8_valid k \<and> json_valid v) es" "flat es"
proof -
  note es = assms(2) [unfolded json_ProxyRequest_def json.inject, symmetric]
  have env: "list_all (\<lambda>(k, v). utf8_valid k \<and> json_valid v) (opt_map ''env'' (pr_env r))" "flat (opt_map ''env'' (pr_env r))"
    using assms(1) by (auto simp: ProxyRequest_ok_def opt_map_def entry_valid_def list_all_iff flat_def intro!: foldr_max_le le_SucI)
  have win: "list_all (\<lambda>(k, v). utf8_valid k \<and> json_valid v) (case pr_window_size r of None \<Rightarrow> [] | Some w \<Rightarrow> [(''window_size'', json_WinSize w)])"
    "flat (case pr_window_size r of None \<Rightarrow> [] | Some w \<Rightarrow> [(''window_size'', json_WinSize w)])"
    using assms(1) by (auto simp: ProxyRequest_ok_def json_WinSize_def flat_def int_lit_def uint16_in_int64
        parse_int64_format_int split: option.splits)
  have args: "json_valid (case pr_args r of None \<Rightarrow> JNull | Some xs \<Rightarrow> JArr (map JStr xs))"
    "json_depth (case pr_args r of None \<Rightarrow> JNull | Some xs \<Rightarrow> JArr (map JStr xs)) \<le> 2"
    using assms(1) by (auto simp: ProxyRequest_ok_def args_valid_def list_all_iff split: option.splits intro!: foldr_max_le le_SucI)
  show "list_all (\<lambda>(k, v). utf8_valid k \<and> json_valid v) es"
    using assms(1) env(1) win(1) args(1) unfolding es by (simp add: ProxyRequest_ok_def opt_valid)
  show "flat es"
    using env(2) win(2) args(2) unfolding es by (simp add: flat_def opt_int_def opt_bool_def)
qed

lemma ProxyRequest_roundtrip:
  assumes "ProxyRequest_ok r"
  shows "unmarshal_ProxyRequest (marshal_ProxyRequest r) = Some (r\<lparr>pr_env := read_order (pr_env r)\<rparr>)"
proof -
  obtain es where es: "json_ProxyRequest r = JObj es" by (simp add: json_ProxyRequest_def)
  note m = ProxyRequest_members [OF assms es]
  have h: "in_int64 (pr_version r)" "gomap_ok (pr_env r)"
    "case pr_window_size r of None \<Rightarrow> True | Some z \<Rightarrow> uint16_ok (ws_rows z) \<and> uint16_ok (ws_cols z)"
    using assms by (simp_all add: ProxyRequest_ok_def)
  have "dec_members ProxyRequest_names ProxyRequest_field es zero_ProxyRequest = Some (r\<lparr>pr_env := read_order (pr_env r)\<rparr>)"
    using es [symmetric] unfolding json_ProxyRequest_def json.inject
    by (simp only: dec_members_append) (simp add: pr_segments(1-4) pr_window_segment h zero_ProxyRequest_def del: dec_members.simps)
  then show ?thesis
    unfolding unmarshal_ProxyRequest_def marshal_ProxyRequest_def es by (simp only: unmarshal_print [OF m])
qed

end
