(* ===== verification/Framing.thy ===== *)
theory Framing
  imports Wire
begin

text \<open>
  \<open>internal/framing/framing.go\<close>: length-prefixed frames from the daemon, newline-delimited JSON from
  the wrapper. A connection is the list of bytes still to be read; every operation returns what is
  left of it. The locale \<open>message_codec\<close> is what framing needs of a message type's JSON form; it is
  interpreted on the wire messages.
\<close>

definition MaxMessageSize :: nat where "MaxMessageSize = 16777216"

datatype frame_error =
    ErrMessageTooLarge
  | ErrEmptyMessage
  | ErrEOF
  | ErrReadLength
  | ErrTruncated nat
  | ErrMarshal
  | ErrUnmarshal
  | ErrWriteLength
  | ErrWritePayload
  | ErrWriteNewline

section \<open>Length-prefixed frames\<close>

definition put_uint32 :: "nat \<Rightarrow> bytes" where
  "put_uint32 n =
     [char_of (n div 16777216 mod 256), char_of (n div 65536 mod 256), char_of (n div 256 mod 256), char_of (n mod 256)]"

definition get_uint32 :: "bytes \<Rightarrow> nat" where
  "get_uint32 b = ((char_code (b ! 0) * 256 + char_code (b ! 1)) * 256 + char_code (b ! 2)) * 256 + char_code (b ! 3)"

text \<open>
  \<open>w.Write\<close>: \<open>Some k\<close> is a failure after \<open>k\<close> bytes. \<open>Encode\<close> returns the error and what was written.
\<close>

definition Encode :: "('v \<Rightarrow> string option) \<Rightarrow> nat option \<Rightarrow> nat option \<Rightarrow> 'v \<Rightarrow> frame_error option \<times> bytes" where
  "Encode marshal fail1 fail2 v =
     (case marshal v of
        None \<Rightarrow> (Some ErrMarshal, [])
      | Some data \<Rightarrow>
        if length data > MaxMessageSize then (Some ErrMessageTooLarge, [])
        else let lenBuf = put_uint32 (length data)
             in case fail1 of
                  Some k \<Rightarrow> (Some ErrWriteLength, take k lenBuf)
                | None \<Rightarrow>
                  (case fail2 of
                     Some k \<Rightarrow> (Some ErrWritePayload, lenBuf @ take k data)
                   | None \<Rightarrow> (None, lenBuf @ data)))"

definition Decode :: "(string \<Rightarrow> 'v option) \<Rightarrow> bytes \<Rightarrow> (frame_error + 'v) \<times> bytes" where
  "Decode unmarsh s =
     (if s = [] then (Inl ErrEOF, [])
      else if length s < 4 then (Inl ErrReadLength, [])
      else let len = get_uint32 s; r = drop 4 s
           in if len = 0 then (Inl ErrEmptyMessage, r)
              else if len > MaxMessageSize then (Inl ErrMessageTooLarge, r)
              else if length r < len then (Inl (ErrTruncated len), [])
              else case unmarsh (take len r) of
                     None \<Rightarrow> (Inl ErrUnmarshal, drop len r)
                   | Some v \<Rightarrow> (Inr v, drop len r))"

section \<open>Newline-delimited JSON\<close>

definition ND_Write :: "('v \<Rightarrow> string option) \<Rightarrow> nat option \<Rightarrow> bool \<Rightarrow> 'v \<Rightarrow> frame_error option \<times> bytes" where
  "ND_Write marshal fail1 fail2 v =
     (case marshal v of
        None \<Rightarrow> (Some ErrMarshal, [])
      | Some data \<Rightarrow>
        if length data > MaxMessageSize then (Some ErrMessageTooLarge, [])
        else case fail1 of
               Some k \<Rightarrow> (Some ErrWritePayload, take k data)
             | None \<Rightarrow> if fail2 then (Some ErrWriteNewline, data) else (None, data @ [LF]))"

text \<open>
  The reader around \<open>bufio.Scanner\<close>: the unread bytes, the largest token, and the error that stopped
  the scanner for good. The scanner finds a line when its newline is among the first \<open>nd_max\<close> bytes,
  gives up when that many bytes hold none, and returns an unterminated last line.
\<close>

record NDJSONReader =
  nd_rest :: bytes
  nd_max :: nat
  nd_stopped :: "frame_error option"

definition NewNDJSONReaderWithLimit :: "bytes \<Rightarrow> int \<Rightarrow> NDJSONReader" where
  "NewNDJSONReaderWithLimit s maxTokenSize =
     \<lparr>nd_rest = s,
      nd_max = (if maxTokenSize \<le> 0 \<or> maxTokenSize > int MaxMessageSize then MaxMessageSize else nat maxTokenSize),
      nd_stopped = None\<rparr>"

definition NewNDJSONReader :: "bytes \<Rightarrow> NDJSONReader" where
  "NewNDJSONReader s = NewNDJSONReaderWithLimit s (int MaxMessageSize)"

text \<open>\<open>bufio.ScanLines\<close> drops one carriage return at the end of a line.\<close>

definition drop_cr :: "bytes \<Rightarrow> bytes" where
  "drop_cr l = (if l \<noteq> [] \<and> last l = CR then butlast l else l)"

definition scan :: "NDJSONReader \<Rightarrow> bytes option \<times> NDJSONReader" where
  "scan n =
     (if nd_stopped n \<noteq> None then (None, n)
      else case cut_char LF (nd_rest n) of
        Some (line, r) \<Rightarrow>
          if length line < nd_max n then (Some (drop_cr line), n\<lparr>nd_rest := r\<rparr>)
          else (None, n\<lparr>nd_stopped := Some ErrMessageTooLarge\<rparr>)
      | None \<Rightarrow>
          if length (nd_rest n) \<ge> nd_max n then (None, n\<lparr>nd_stopped := Some ErrMessageTooLarge\<rparr>)
          else if nd_rest n = [] then (None, n\<lparr>nd_stopped := Some ErrEOF\<rparr>)
          else (Some (drop_cr (nd_rest n)), n\<lparr>nd_rest := []\<rparr>))"

definition ND_Read :: "(string \<Rightarrow> 'v option) \<Rightarrow> NDJSONReader \<Rightarrow> (frame_error + 'v) \<times> NDJSONReader" where
  "ND_Read unmarsh n =
     (let (tok, n') = scan n
      in case tok of
           None \<Rightarrow> (Inl (case nd_stopped n' of None \<Rightarrow> ErrEOF | Some e \<Rightarrow> e), n')
         | Some line \<Rightarrow>
           if line = [] then (Inl ErrEmptyMessage, n')
           else case unmarsh line of None \<Rightarrow> (Inl ErrUnmarshal, n') | Some v \<Rightarrow> (Inr v, n'))"

section \<open>What framing needs of a message type\<close>

locale message_codec =
  fixes marsh :: "'v \<Rightarrow> string" and unmarsh :: "string \<Rightarrow> 'v option" and ok :: "'v \<Rightarrow> bool"
  assumes roundtrip: "ok v \<Longrightarrow> unmarsh (marsh v) = Some v"
    and one_line: "ok v \<Longrightarrow> LF \<notin> set (marsh v)"
    and closed: "ok v \<Longrightarrow> marsh v \<noteq> [] \<and> last (marsh v) \<noteq> CR"
begin

definition fits :: "'v \<Rightarrow> bool" where
  "fits v \<longleftrightarrow> ok v \<and> length (marsh v) \<le> MaxMessageSize"

lemma frame_written: "fits v \<Longrightarrow> Encode (Some \<circ> marsh) None None v = (None, put_uint32 (length (marsh v)) @ marsh v)"
  by (simp add: Encode_def fits_def)

lemma line_written: "fits v \<Longrightarrow> ND_Write (Some \<circ> marsh) None False v = (None, marsh v @ [LF])"
  by (simp add: ND_Write_def fits_def)

lemma line_read:
  assumes "ok v" "length (marsh v) < nd_max n" "nd_stopped n = None" "nd_rest n = marsh v @ LF # r"
  shows "ND_Read unmarsh n = (Inr v, n\<lparr>nd_rest := r\<rparr>)"
  using assms one_line [OF assms(1)] closed [OF assms(1)] roundtrip [OF assms(1)]
  by (simp add: ND_Read_def scan_def cut_char_append drop_cr_def)

end

section \<open>Big-endian lengths\<close>

lemma get_put_uint32: "n < 4294967296 \<Longrightarrow> get_uint32 (put_uint32 n @ r) = n"
proof -
  assume n: "n < 4294967296"
  have c: "char_code (char_of (k mod 256)) = k mod 256" for k :: nat by (simp add: char_code_def)
  have "get_uint32 (put_uint32 n @ r) =
      ((n div 16777216 mod 256 * 256 + n div 65536 mod 256) * 256 + n div 256 mod 256) * 256 + n mod 256"
    by (simp add: get_uint32_def put_uint32_def c numeral_3_eq_3 numeral_2_eq_2 del: char_of_mod_256)
  also have "\<dots> = ((n div 256 div 256 div 256 * 256 + n div 256 div 256 mod 256) * 256 + n div 256 mod 256) * 256 + n mod 256"
    using n by (simp add: div_mult2_eq [symmetric])
  also have "\<dots> = n" by (simp only: div_mult_mod_eq)
  finally show ?thesis .
qed

lemma length_put_uint32 [simp]: "length (put_uint32 n) = 4"
  by (simp add: put_uint32_def)

text \<open>A complete frame is taken off the front of the connection.\<close>

lemma Decode_frame:
  assumes "data \<noteq> []" "length data \<le> MaxMessageSize"
  shows "Decode unmarsh (put_uint32 (length data) @ data @ r) =
     ((case unmarsh data of None \<Rightarrow> Inl ErrUnmarshal | Some v \<Rightarrow> Inr v), r)"
proof -
  have "get_uint32 (put_uint32 (length data) @ data @ r) = length data"
    using assms(2) by (intro get_put_uint32) (simp add: MaxMessageSize_def)
  then show ?thesis using assms by (auto simp: Decode_def Let_def split: option.splits)
qed

section \<open>Streams of messages\<close>

fun decode_n :: "(string \<Rightarrow> 'v option) \<Rightarrow> nat \<Rightarrow> bytes \<Rightarrow> (frame_error + 'v) list \<times> bytes" where
  "decode_n unmarsh 0 s = ([], s)"
| "decode_n unmarsh (Suc k) s =
     (let (x, s1) = Decode unmarsh s; (xs, s2) = decode_n unmarsh k s1 in (x # xs, s2))"

fun read_n :: "(string \<Rightarrow> 'v option) \<Rightarrow> nat \<Rightarrow> NDJSONReader \<Rightarrow> (frame_error + 'v) list \<times> NDJSONReader" where
  "read_n unmarsh 0 n = ([], n)"
| "read_n unmarsh (Suc k) n =
     (let (x, n1) = ND_Read unmarsh n; (xs, n2) = read_n unmarsh k n1 in (x # xs, n2))"

context message_codec
begin

lemma frames_read:
  "\<forall>v \<in> set vs. fits v \<Longrightarrow>
   decode_n unmarsh (Suc (length vs)) (concat (map (\<lambda>v. snd (Encode (Some \<circ> marsh) None None v)) vs)) =
     (map Inr vs @ [Inl ErrEOF], [])"
proof (induction vs)
  case Nil
  show ?case by (simp add: Decode_def)
next
  case (Cons v vs)
  then have v: "fits v" by simp
  then have "marsh v \<noteq> []" "length (marsh v) \<le> MaxMessageSize" "unmarsh (marsh v) = Some v"
    using closed roundtrip by (auto simp: fits_def)
  with Cons Decode_frame [of "marsh v" unmarsh] show ?case by (simp add: frame_written [OF v] del: o_apply)
qed

lemma lines_read:
  "\<forall>v \<in> set vs. fits v \<and> length (marsh v) < nd_max n \<Longrightarrow> nd_stopped n = None \<Longrightarrow> 0 < nd_max n \<Longrightarrow>
   nd_rest n = concat (map (\<lambda>v. snd (ND_Write (Some \<circ> marsh) None False v)) vs) \<Longrightarrow>
   fst (read_n unmarsh (Suc (length vs)) n) = map Inr vs @ [Inl ErrEOF]"
proof (induction vs arbitrary: n)
  case Nil
  then show ?case by (simp add: ND_Read_def scan_def)
next
  case (Cons v vs)
  then have v: "fits v" by simp
  let ?r = "concat (map (\<lambda>v. snd (ND_Write (Some \<circ> marsh) None False v)) vs)"
  have "nd_rest n = marsh v @ LF # ?r" using Cons.prems(4) by (simp add: line_written [OF v] del: o_apply)
  then have "ND_Read unmarsh n = (Inr v, n\<lparr>nd_rest := ?r\<rparr>)"
    using Cons.prems by (intro line_read) (auto simp: fits_def)
  then show ?case using Cons.IH [of "n\<lparr>nd_rest := ?r\<rparr>"] Cons.prems by (auto split: prod.splits simp del: o_apply)
qed

end

section \<open>The wire messages\<close>

lemma last_json_obj: "last (json_print (JObj es)) = CHR ''}''"
  by simp

interpretation wm: message_codec marshal_WrapperMessage unmarshal_WrapperMessage WrapperMessage_ok
proof
  fix m assume ok: "WrapperMessage_ok m"
  show "unmarshal_WrapperMessage (marshal_WrapperMessage m) = Some m" by (rule WrapperMessage_roundtrip [OF ok])
  show "LF \<notin> set (marshal_WrapperMessage m)"
    unfolding marshal_WrapperMessage_def by (rule LF_notin_json_print [OF WrapperMessage_members_valid [OF ok]])
  show "marshal_WrapperMessage m \<noteq> [] \<and> last (marshal_WrapperMessage m) \<noteq> CR"
    by (simp add: marshal_WrapperMessage_def json_WrapperMessage_def)
qed

interpretation rm: message_codec marshal_ResponseMessage unmarshal_ResponseMessage ResponseMessage_ok
proof
  fix m assume ok: "ResponseMessage_ok m"
  show "unmarshal_ResponseMessage (marshal_ResponseMessage m) = Some m" by (rule ResponseMessage_roundtrip [OF ok])
  show "LF \<notin> set (marshal_ResponseMessage m)"
    unfolding marshal_ResponseMessage_def by (rule LF_notin_json_print [OF ResponseMessage_members_valid [OF ok]])
  show "marshal_ResponseMessage m \<noteq> [] \<and> last (marshal_ResponseMessage m) \<noteq> CR"
    by (simp add: marshal_ResponseMessage_def json_ResponseMessage_def)
qed

text \<open>The responses a daemon frames arrive at the wrapper unchanged, in order and followed by the
  end of the stream, as long as each fits a frame and holds valid UTF-8.\<close>

lemma responses_roundtrip:
  assumes "\<forall>m \<in> set ms. ResponseMessage_ok m \<and> length (marshal_ResponseMessage m) \<le> MaxMessageSize"
  shows "decode_n unmarshal_ResponseMessage (Suc (length ms))
       (concat (map (\<lambda>m. snd (Encode (Some \<circ> marshal_ResponseMessage) None None m)) ms)) =
     (map Inr ms @ [Inl ErrEOF], [])"
  by (rule rm.frames_read) (use assms in \<open>simp add: rm.fits_def\<close>)

definition sample_done :: ResponseMessage where
  "sample_done = empty_response\<lparr>rm_type := ''done'', rm_exit_code := 3\<rparr>"

lemma responses_roundtrip_witness:
  "decode_n unmarshal_ResponseMessage 2
       (concat (map (\<lambda>m. snd (Encode (Some \<circ> marshal_ResponseMessage) None None m)) [sample_done])) =
     ([Inr sample_done, Inl ErrEOF], [])"
proof -
  have "ResponseMessage_ok sample_done" "length (marshal_ResponseMessage sample_done) < 40" by code_simp+
  then show ?thesis
    using responses_roundtrip [of "[sample_done]"] by (simp add: numeral_2_eq_2 MaxMessageSize_def)
qed

text \<open>The messages a wrapper writes line by line (standard input, signals, window sizes, clean-up
  lists) are read by the daemon unchanged, in order and followed by the end of the stream, as long
  as each is shorter than the reader's limit.\<close>

lemma wrapper_messages_roundtrip:
  assumes "\<forall>m \<in> set ms. WrapperMessage_ok m \<and> length (marshal_WrapperMessage m) < nd_max n \<and>
      length (marshal_WrapperMessage m) \<le> MaxMessageSize"
    and "n = NewNDJSONReaderWithLimit (concat (map (\<lambda>m. snd (ND_Write (Some \<circ> marshal_WrapperMessage) None False m)) ms)) limit"
  shows "fst (read_n unmarshal_WrapperMessage (Suc (length ms)) n) = map Inr ms @ [Inl ErrEOF]"
proof (rule wm.lines_read)
  show "\<forall>m \<in> set ms. wm.fits m \<and> length (marshal_WrapperMessage m) < nd_max n" using assms(1) by (simp add: wm.fits_def)
qed (simp_all add: assms(2) NewNDJSONReaderWithLimit_def MaxMessageSize_def)

definition sample_signal :: WrapperMessage where
  "sample_signal = zero_WrapperMessage\<lparr>wm_type := ''signal'', wm_signal := ''SIGINT''\<rparr>"

lemma wrapper_messages_roundtrip_witness:
  "fst (read_n unmarshal_WrapperMessage 2 (NewNDJSONReaderWithLimit
     (concat (map (\<lambda>m. snd (ND_Write (Some \<circ> marshal_WrapperMessage) None False m)) [sample_signal])) 4096)) =
   [Inr sample_signal, Inl ErrEOF]"
proof -
  have "WrapperMessage_ok sample_signal" "length (marshal_WrapperMessage sample_signal) < 40" by code_simp+
  then show ?thesis
    using wrapper_messages_roundtrip [of "[sample_signal]", OF _ refl, of 4096]
    by (simp add: numeral_2_eq_2 NewNDJSONReaderWithLimit_def MaxMessageSize_def)
qed

section \<open>Error branches\<close>

text \<open>
  A newline left over from the request header is not skipped: the next read is the error
  \<open>ErrEmptyMessage\<close>, not the message behind it.
\<close>

lemma leftover_newline:
  "nd_stopped n = None \<Longrightarrow> 0 < nd_max n \<Longrightarrow> nd_rest n = LF # r \<Longrightarrow>
   ND_Read unmarsh n = (Inl ErrEmptyMessage, n\<lparr>nd_rest := r\<rparr>)"
  by (simp add: ND_Read_def scan_def drop_cr_def)

end
