(* ===== verification/Args_Policy.thy ===== *)
theory Args_Policy
  imports Types
begin

text \<open>
  The argument policy: \<open>internal/config/args_rules.go\<close> compiles the rules when the configuration is
  loaded, \<open>internal/daemon/args_policy.go\<close> decides on a request. \<open>compile\<close> stands for
  \<open>regexp.Compile\<close> on the patterns of the configuration file.
\<close>

section \<open>Compiling a rule\<close>

datatype rule_error =
    ArgvWithoutMatchArgv
  | InvalidPattern string
  | ArgvUnsupported
  | PatternAndArgv
  | EmptyArgv
  | InvalidArgv nat string
  | InvalidMatch string

definition anchored :: "string \<Rightarrow> string" where
  "anchored p = ''^(?:'' @ p @ '')$''"

fun compile_argv :: "(string \<Rightarrow> regex option) \<Rightarrow> nat \<Rightarrow> string list \<Rightarrow> rule_error + regex list" where
  "compile_argv compile i [] = Inr []"
| "compile_argv compile i (p # ps) =
     (case compile p of
        None \<Rightarrow> Inl (InvalidArgv i p)
      | Some _ \<Rightarrow>
        (case compile (anchored p) of
           None \<Rightarrow> Inl (InvalidArgv i p)
         | Some re \<Rightarrow>
           (case compile_argv compile (Suc i) ps of Inl e \<Rightarrow> Inl e | Inr res \<Rightarrow> Inr (re # res))))"

definition compileArgRule :: "(string \<Rightarrow> regex option) \<Rightarrow> bool \<Rightarrow> BlockedArg \<Rightarrow> rule_error + BlockedArg" where
  "compileArgRule compile allowArgv rule =
     (let matchMode = (if trim_space (ba_match rule) = [] then BlockedArgMatchArg else trim_space (ba_match rule))
      in if matchMode = BlockedArgMatchArg \<or> matchMode = BlockedArgMatchCommand then
           if ba_argv rule \<noteq> [] then Inl ArgvWithoutMatchArgv
           else case compile (ba_pattern rule) of
                  None \<Rightarrow> Inl (InvalidPattern (ba_pattern rule))
                | Some re \<Rightarrow> Inr (rule\<lparr>ba_compiled := Some re, ba_match := matchMode\<rparr>)
         else if matchMode = BlockedArgMatchArgv then
           if \<not> allowArgv then Inl ArgvUnsupported
           else if ba_pattern rule \<noteq> [] then Inl PatternAndArgv
           else if ba_argv rule = [] then Inl EmptyArgv
           else case compile_argv compile 0 (ba_argv rule) of
                  Inl e \<Rightarrow> Inl e
                | Inr res \<Rightarrow> Inr (rule\<lparr>ba_compiled_argv := res, ba_match := matchMode\<rparr>)
         else Inl (InvalidMatch (ba_match rule)))"

section \<open>Deciding on a request\<close>

definition blockedArgMessage :: "string \<Rightarrow> string" where
  "blockedArgMessage msg = (if msg = [] then ''operation blocked by security policy'' else msg)"

definition internal_error :: string where
  "internal_error = ''internal error: invalid security pattern''"

fun block_loop :: "string list \<Rightarrow> string \<Rightarrow> BlockedArg list \<Rightarrow> bool \<times> string" where
  "block_loop args joinedArgs [] = (True, [])"
| "block_loop args joinedArgs (b # bs) =
     (case ba_compiled b of
        None \<Rightarrow> (False, internal_error)
      | Some re \<Rightarrow>
        if ba_match b = [] \<or> ba_match b = BlockedArgMatchArg then
          if list_ex (\<lambda>arg. match_string re arg) args then (False, blockedArgMessage (ba_message b))
          else block_loop args joinedArgs bs
        else if ba_match b = BlockedArgMatchCommand then
          if match_string re joinedArgs then (False, blockedArgMessage (ba_message b))
          else block_loop args joinedArgs bs
        else (False, internal_error))"

definition checkBlockedArgs :: "string list \<Rightarrow> BlockedArg list \<Rightarrow> bool \<times> string" where
  "checkBlockedArgs args blocked =
     (if blocked = [] then (True, []) else block_loop args (join '' '' args) blocked)"

fun matchArgv :: "string list \<Rightarrow> regex list \<Rightarrow> bool" where
  "matchArgv [] [] = True"
| "matchArgv (a # as) (r # rs) = (match_string r a \<and> matchArgv as rs)"
| "matchArgv _ _ = False"

fun allowedArgMessage :: "BlockedArg list \<Rightarrow> string" where
  "allowedArgMessage [] = ''operation not in allowlist''"
| "allowedArgMessage (a # as) = (if ba_message a \<noteq> [] then ba_message a else allowedArgMessage as)"

fun allow_loop :: "string list \<Rightarrow> string \<Rightarrow> BlockedArg list \<Rightarrow> BlockedArg list \<Rightarrow> bool \<times> string" where
  "allow_loop args joinedArgs all [] = (False, allowedArgMessage all)"
| "allow_loop args joinedArgs all (a # as) =
     (if ba_match a = BlockedArgMatchArgv then
        if ba_compiled_argv a = [] \<or> length (ba_compiled_argv a) \<noteq> length (ba_argv a) then (False, internal_error)
        else if matchArgv args (ba_compiled_argv a) then (True, [])
        else allow_loop args joinedArgs all as
      else case ba_compiled a of
        None \<Rightarrow> (False, internal_error)
      | Some re \<Rightarrow>
        if ba_match a = [] \<or> ba_match a = BlockedArgMatchArg then
          if list_ex (\<lambda>arg. match_string re arg) args then (True, [])
          else allow_loop args joinedArgs all as
        else if ba_match a = BlockedArgMatchCommand then
          if match_string re joinedArgs then (True, []) else allow_loop args joinedArgs all as
        else (False, internal_error))"

definition checkAllowedArgs :: "string list \<Rightarrow> BlockedArg list \<Rightarrow> bool \<times> string" where
  "checkAllowedArgs args allowed =
     (if allowed = [] then (True, []) else allow_loop args (join '' '' args) allowed allowed)"

definition checkToolArgs :: "string list \<Rightarrow> ToolDef \<Rightarrow> bool \<times> string" where
  "checkToolArgs args tool =
     (let (allowed, msg) = checkBlockedArgs args (td_blocked_args tool)
      in if \<not> allowed then (False, msg)
         else if td_mode tool = ToolModeAllowlist \<and> td_allowed_args tool \<noteq> [] then
           let (allowed2, msg2) = checkAllowedArgs args (td_allowed_args tool)
           in if \<not> allowed2 then (False, msg2) else (True, [])
         else (True, []))"

section \<open>The policy the rules state\<close>

text \<open>What one rule says about an argument vector, by its kind.\<close>

definition rule_matches :: "string list \<Rightarrow> BlockedArg \<Rightarrow> bool" where
  "rule_matches args b \<longleftrightarrow>
     (if ba_match b = BlockedArgMatchArgv
      then list_all2 (\<lambda>a r. match_string r a) args (ba_compiled_argv b)
      else case ba_compiled b of None \<Rightarrow> False
        | Some re \<Rightarrow>
          if ba_match b = BlockedArgMatchCommand then match_string re (join '' '' args)
          else (\<exists>a \<in> set args. match_string re a))"

text \<open>A rule as the loader leaves it.\<close>

definition rule_loaded :: "bool \<Rightarrow> BlockedArg \<Rightarrow> bool" where
  "rule_loaded allowArgv b \<longleftrightarrow>
     (ba_match b = BlockedArgMatchArg \<or> ba_match b = BlockedArgMatchCommand) \<and> ba_compiled b \<noteq> None \<or>
     allowArgv \<and> ba_match b = BlockedArgMatchArgv \<and> ba_compiled_argv b \<noteq> [] \<and>
       length (ba_compiled_argv b) = length (ba_argv b)"

lemma matchArgv_iff: "matchArgv args rs \<longleftrightarrow> list_all2 (\<lambda>a r. match_string r a) args rs"
  by (induction args rs rule: matchArgv.induct) auto

lemma length_compile_argv: "compile_argv compile i ps = Inr res \<Longrightarrow> length res = length ps"
  by (induction ps arbitrary: i res) (auto split: option.splits sum.splits)

lemma compileArgRule_loaded: "compileArgRule compile allowArgv rule = Inr b \<Longrightarrow> rule_loaded allowArgv b"
proof -
  define mm where "mm = (if trim_space (ba_match rule) = [] then BlockedArgMatchArg else trim_space (ba_match rule))"
  assume "compileArgRule compile allowArgv rule = Inr b"
  then show ?thesis unfolding compileArgRule_def Let_def mm_def [symmetric]
    by (auto simp: rule_loaded_def match_modes split: if_splits option.splits sum.splits dest!: length_compile_argv)
qed

lemma loaded_cases:
  assumes "rule_loaded allowArgv b"
  obtains re where "ba_match b = BlockedArgMatchArg" "ba_compiled b = Some re"
  | re where "ba_match b = BlockedArgMatchCommand" "ba_compiled b = Some re"
  | "allowArgv" "ba_match b = BlockedArgMatchArgv" "ba_compiled_argv b \<noteq> []"
    "length (ba_compiled_argv b) = length (ba_argv b)"
  using assms by (auto simp: rule_loaded_def)

lemma block_loop_Cons:
  "rule_loaded False b \<Longrightarrow> block_loop args (join '' '' args) (b # bs) =
     (if rule_matches args b then (False, blockedArgMessage (ba_message b)) else block_loop args (join '' '' args) bs)"
  by (erule loaded_cases) (simp_all add: rule_matches_def match_modes list_ex_iff)

lemma block_loop_iff:
  "list_all (rule_loaded False) bs \<Longrightarrow>
   fst (block_loop args (join '' '' args) bs) \<longleftrightarrow> (\<forall>b \<in> set bs. \<not> rule_matches args b)"
  by (induction bs) (simp_all add: block_loop_Cons del: block_loop.simps(2))

lemma allow_loop_Cons:
  "rule_loaded True b \<Longrightarrow> allow_loop args (join '' '' args) all (b # bs) =
     (if rule_matches args b then (True, []) else allow_loop args (join '' '' args) all bs)"
  by (erule loaded_cases) (simp_all add: rule_matches_def match_modes list_ex_iff matchArgv_iff)

lemma allow_loop_iff:
  "list_all (rule_loaded True) bs \<Longrightarrow>
   fst (allow_loop args (join '' '' args) all bs) \<longleftrightarrow> (\<exists>b \<in> set bs. rule_matches args b)"
  by (induction bs) (simp_all add: allow_loop_Cons del: allow_loop.simps(2))

text \<open>Even a rule the loader never produces cannot open the gate: what passes is matched by no blocked rule.\<close>

lemma block_loop_sound:
  "fst (block_loop args (join '' '' args) bs) \<Longrightarrow> b \<in> set bs \<Longrightarrow> \<not> rule_matches args b \<and> ba_compiled b \<noteq> None"
  by (induction bs)
    (auto simp: rule_matches_def match_modes list_ex_iff split: option.splits if_splits)

text \<open>C5: on loaded rules the decision is exactly deny-first with a default: no blocked rule matches,
  and in allowlist mode with a non-empty list some allowed rule matches.\<close>
theorem policy_decision:
  assumes "list_all (rule_loaded False) (td_blocked_args tool)" "list_all (rule_loaded True) (td_allowed_args tool)"
  shows "fst (checkToolArgs args tool) \<longleftrightarrow>
     (\<forall>b \<in> set (td_blocked_args tool). \<not> rule_matches args b) \<and>
     (td_mode tool = ToolModeAllowlist \<and> td_allowed_args tool \<noteq> [] \<longrightarrow>
        (\<exists>a \<in> set (td_allowed_args tool). rule_matches args a))"
  using block_loop_iff [OF assms(1), of args] allow_loop_iff [OF assms(2), of args "td_allowed_args tool"]
  by (auto simp: checkToolArgs_def checkBlockedArgs_def checkAllowedArgs_def split: prod.splits)

definition sample_rule :: "string \<Rightarrow> BlockedArg" where
  "sample_rule w = zero_arg\<lparr>ba_pattern := w, ba_match := BlockedArgMatchArg, ba_compiled := Some (Lit w)\<rparr>"

theorem policy_decision_witness:
  "\<not> fst (checkToolArgs [''repo'', ''delete''] (zero_tool\<lparr>td_blocked_args := [sample_rule ''delete'']\<rparr>)) \<and>
   fst (checkToolArgs [''repo'', ''view''] (zero_tool\<lparr>td_blocked_args := [sample_rule ''delete'']\<rparr>))"
proof -
  let ?t = "zero_tool\<lparr>td_blocked_args := [sample_rule ''delete'']\<rparr>"
  have l: "list_all (rule_loaded False) (td_blocked_args ?t)" "list_all (rule_loaded True) (td_allowed_args ?t)"
    "td_mode ?t = []"
    by (simp_all add: zero_tool_def sample_rule_def rule_loaded_def match_modes)
  have "rule_matches [''repo'', ''delete''] (sample_rule ''delete'')"
    "\<not> rule_matches [''repo'', ''view''] (sample_rule ''delete'')"
    by code_simp+
  then show ?thesis
    using policy_decision [OF l(1,2), of "[''repo'', ''delete'']"] policy_decision [OF l(1,2), of "[''repo'', ''view'']"]
    by (simp add: l(3) tool_modes)
qed

text \<open>Whatever the rules look like, arguments that pass are matched by no blocked rule, and every
  blocked rule was compiled: an uncompiled rule or an unknown match mode refuses the request.\<close>

lemma blocked_rules_always_enforced:
  assumes "fst (checkToolArgs args tool)" "b \<in> set (td_blocked_args tool)"
  shows "\<not> rule_matches args b \<and> ba_compiled b \<noteq> None"
  using assms block_loop_sound [of args "td_blocked_args tool" b]
  by (auto simp: checkToolArgs_def checkBlockedArgs_def split: prod.splits if_splits)

lemma blocked_rules_always_enforced_witness:
  "fst (checkToolArgs [''view''] (zero_tool\<lparr>td_blocked_args := [sample_rule ''delete'']\<rparr>)) \<and>
   \<not> rule_matches [''view''] (sample_rule ''delete'')"
proof -
  have p: "fst (checkToolArgs [''view''] (zero_tool\<lparr>td_blocked_args := [sample_rule ''delete'']\<rparr>))" by code_simp
  with blocked_rules_always_enforced [OF p, of "sample_rule ''delete''"] show ?thesis by simp
qed

section \<open>Positional rules\<close>

text \<open>
  What the code relies on of \<open>regexp.Compile\<close>: around an expression that compiles alone, the wrapping
  \<open>^(?:\<dots>)$\<close> is that expression anchored at both ends of the text.
\<close>

definition anchors_ok :: "(string \<Rightarrow> regex option) \<Rightarrow> string list \<Rightarrow> bool" where
  "anchors_ok compile ps \<longleftrightarrow>
     list_all (\<lambda>p. case compile p of None \<Rightarrow> True | Some r \<Rightarrow> compile (anchored p) = Some (Cat Bol (Cat r Eol))) ps"

lemma compile_argv_full:
  "anchors_ok compile ps \<Longrightarrow> compile_argv compile i ps = Inr res \<Longrightarrow>
   list_all2 (\<lambda>a r. match_string r a) args res \<longleftrightarrow>
     list_all2 (\<lambda>a p. \<exists>r. compile p = Some r \<and> full_match r a) args ps"
proof (induction ps arbitrary: i res args)
  case (Cons p ps)
  then obtain r res' where r: "compile p = Some r" "compile_argv compile (Suc i) ps = Inr res'" "anchors_ok compile ps"
    and "res = Cat Bol (Cat r Eol) # res'"
    by (auto simp: anchors_ok_def split: option.splits sum.splits)
  with Cons.IH [OF r(3,2)] show ?case by (cases args) (auto simp: match_string_anchored)
qed (auto simp: anchors_ok_def)

lemma argv_rule_compiled:
  assumes "compileArgRule compile True rule = Inr b" "ba_match b = BlockedArgMatchArgv"
  shows "compile_argv compile 0 (ba_argv rule) = Inr (ba_compiled_argv b)"
proof -
  define mm where "mm = (if trim_space (ba_match rule) = [] then BlockedArgMatchArg else trim_space (ba_match rule))"
  show ?thesis using assms unfolding compileArgRule_def Let_def mm_def [symmetric]
    by (auto simp: match_modes split: if_splits option.splits sum.splits)
qed

text \<open>A positional rule admits exactly the vectors with one argument per pattern in which each
  argument as a whole matches its pattern: nothing can be appended, prepended or smuggled in.\<close>

lemma argv_rule_exact:
  assumes "anchors_ok compile (ba_argv rule)" "compileArgRule compile True rule = Inr b"
    and "ba_match b = BlockedArgMatchArgv"
  shows "rule_matches args b \<longleftrightarrow>
     length args = length (ba_argv rule) \<and>
     (\<forall>i < length args. \<exists>r. compile (ba_argv rule ! i) = Some r \<and> full_match r (args ! i))"
  using compile_argv_full [OF assms(1) argv_rule_compiled [OF assms(2,3)], of args] assms(3)
  by (simp add: rule_matches_def list_all2_conv_all_nth)

text \<open>A compiler for one word and its anchored form, on which the assumption holds.\<close>

definition word_compile :: "string \<Rightarrow> regex option" where
  "word_compile p =
     (if p = ''list'' then Some (Lit ''list'')
      else if p = ''^(?:list)$'' then Some (Cat Bol (Cat (Lit ''list'') Eol)) else None)"

lemma argv_rule_exact_witness:
  "\<exists>b. compileArgRule word_compile True (zero_arg\<lparr>ba_match := ''argv'', ba_argv := [''list'']\<rparr>) = Inr b \<and>
     rule_matches [''list''] b \<and> \<not> rule_matches [''list'', ''--all''] b \<and> \<not> rule_matches [''lister''] b"
proof -
  let ?rule = "zero_arg\<lparr>ba_match := ''argv'', ba_argv := [''list'']\<rparr>"
  let ?b = "?rule\<lparr>ba_compiled_argv := [Cat Bol (Cat (Lit ''list'') Eol)]\<rparr>"
  have t: "trim_space ''argv'' = ''argv''" by code_simp
  have c: "compileArgRule word_compile True ?rule = Inr ?b"
    by (simp add: compileArgRule_def t match_modes word_compile_def anchored_def zero_arg_def)
  have a: "anchors_ok word_compile (ba_argv ?rule)"
    by (simp add: anchors_ok_def word_compile_def anchored_def)
  have m: "ba_match ?b = BlockedArgMatchArgv" by (simp add: match_modes)
  note exact = argv_rule_exact [OF a c m]
  show ?thesis using c exact [of "[''list'']"] exact [of "[''list'', ''--all'']"] exact [of "[''lister'']"]
    by (auto simp: word_compile_def full_match_Lit simp del: Lit.simps)
qed

end
