(* ===== verification/Interpolate.thy ===== *)
theory Interpolate
  imports Types
begin

text \<open>
  \<open>internal/config/interpolate.go\<close>: credential references \<open>{{ name }}\<close> in environment values and
  header templates. The resolver, which looks up a credential, is a parameter.
\<close>

section \<open>The expression\<close>

definition is_space :: "char \<Rightarrow> bool" where
  "is_space c \<longleftrightarrow> c = TAB \<or> c = LF \<or> c = CHR 0x0C \<or> c = CR \<or> c = CHR '' ''"

definition is_name_char :: "char \<Rightarrow> bool" where
  "is_name_char c \<longleftrightarrow> is_upper c \<or> is_lower c \<or> is_digit c \<or> c = CHR ''_'' \<or> c = CHR ''-''"

definition credentialNameRe :: regex where
  "credentialNameRe =
     Cat (Lit ''{{'') (Cat (Star (Chr is_space)) (Cat (Cap 1 (Plus (Chr is_name_char)))
       (Cat (Star (Chr is_space)) (Lit ''}}''))))"

section \<open>Operations\<close>

fun unique_refs :: "string list \<Rightarrow> string list \<Rightarrow> string list" where
  "unique_refs seen [] = []"
| "unique_refs seen (n # ns) = (if n \<in> set seen then unique_refs seen ns else n # unique_refs (n # seen) ns)"

definition FindCredentialRefs :: "string \<Rightarrow> string list" where
  "FindCredentialRefs v = unique_refs [] (map (\<lambda>(i, j, c). group v c 1) (find_all credentialNameRe v))"

definition HasCredentialRefs :: "string \<Rightarrow> bool" where
  "HasCredentialRefs v \<longleftrightarrow> match_string credentialNameRe v"

fun resolve_refs :: "(string \<Rightarrow> 'e + string) \<Rightarrow> string list \<Rightarrow> (string \<times> 'e) + (string, string) gomap" where
  "resolve_refs resolver [] = Inr []"
| "resolve_refs resolver (n # ns) =
     (case resolver n of
        Inl e \<Rightarrow> Inl (n, e)
      | Inr secret \<Rightarrow>
        (case resolve_refs resolver ns of Inl e \<Rightarrow> Inl e | Inr m \<Rightarrow> Inr ((n, secret) # m)))"

text \<open>The callback: the name is matched again inside the match; a missing map entry is the empty string.\<close>

definition replace_ref :: "(string, string) gomap \<Rightarrow> string \<Rightarrow> string" where
  "replace_ref resolved m =
     (case find_from credentialNameRe m 0 of
        None \<Rightarrow> m
      | Some (i, j, c) \<Rightarrow> (case map_of resolved (group m c 1) of None \<Rightarrow> [] | Some s \<Rightarrow> s))"

definition Interpolate :: "string \<Rightarrow> (string \<Rightarrow> 'e + string) \<Rightarrow> (string \<times> 'e) + string" where
  "Interpolate v resolver =
     (let refs = FindCredentialRefs v
      in if refs = [] then Inr v
         else case resolve_refs resolver refs of
                Inl e \<Rightarrow> Inl e
              | Inr resolved \<Rightarrow> Inr (replace_func credentialNameRe v (replace_ref resolved)))"

definition ClassifyEnvValue :: "string \<Rightarrow> string list \<Rightarrow> string" where
  "ClassifyEnvValue v names =
     (if v \<in> set names then ''credential''
      else if HasCredentialRefs v then ''interpolate'' else ''literal'')"

definition ValidateEnvRefs :: "string \<Rightarrow> string list \<Rightarrow> string list" where
  "ValidateEnvRefs v names =
     (let cl = ClassifyEnvValue v names
      in if cl = ''credential'' then []
         else if cl = ''interpolate'' then filter (\<lambda>r. r \<notin> set names) (FindCredentialRefs v)
         else [])"

definition ResolveEnvValue ::
  "string \<Rightarrow> string list \<Rightarrow> (string \<Rightarrow> 'e + string) \<Rightarrow> (string \<times> 'e) + string" where
  "ResolveEnvValue v names resolver =
     (let cl = ClassifyEnvValue v names
      in if cl = ''credential'' then (case resolver v of Inl e \<Rightarrow> Inl (v, e) | Inr s \<Rightarrow> Inr s)
         else if cl = ''interpolate'' then Interpolate v resolver
         else Inr v)"

definition CredentialNamesSet :: "(string, CredentialDef) gomap \<Rightarrow> string list" where
  "CredentialNamesSet creds = map fst creds"

section \<open>Where the expression matches\<close>

lemma space_not_name: "is_space c \<Longrightarrow> \<not> is_name_char c"
  by (auto simp: is_space_def is_name_char_def is_upper_def is_lower_def is_digit_def char_code_def)

lemma brace_class: "\<not> is_space CHR ''}''" "\<not> is_name_char CHR ''}''" "\<not> is_space CHR ''{''" "\<not> is_name_char CHR ''{''"
  by (simp_all add: is_space_def is_name_char_def is_upper_def is_lower_def is_digit_def char_code_def)

lemma drop_split: "i \<le> length s \<Longrightarrow> drop i s = xs @ r \<Longrightarrow> i + length xs \<le> length s \<and> drop (i + length xs) s = r"
proof -
  assume h: "i \<le> length s" "drop i s = xs @ r"
  have "length s - i = length xs + length r" using arg_cong [OF h(2), of length] by simp
  moreover have "drop (i + length xs) s = drop (length xs) (drop i s)" by (simp add: add.commute)
  ultimately show ?thesis using h by simp
qed

lemma ends_Star_drop:
  assumes "i \<le> length s"
  shows "(j, d) \<in> set (ends (Star (Chr P)) s i c) \<longleftrightarrow>
     d = c \<and> (\<exists>xs r. drop i s = xs @ r \<and> (\<forall>x \<in> set xs. P x) \<and> j = i + length xs)"
proof -
  have "(\<exists>xs r. drop i s = xs @ r \<and> (\<forall>x \<in> set xs. P x) \<and> j = i + length xs) \<longleftrightarrow>
      i \<le> j \<and> j \<le> length s \<and> (\<forall>k. i \<le> k \<and> k < j \<longrightarrow> P (s ! k))"
  proof
    assume "\<exists>xs r. drop i s = xs @ r \<and> (\<forall>x \<in> set xs. P x) \<and> j = i + length xs"
    then obtain xs r where x: "drop i s = xs @ r" "\<forall>x \<in> set xs. P x" "j = i + length xs" by blast
    have "P (s ! k)" if "i \<le> k" "k < j" for k
    proof -
      have l: "k - i < length xs" using that x(3) by linarith
      have "s ! k = drop i s ! (k - i)" using that(1) assms by simp
      also have "\<dots> = xs ! (k - i)" using l x(1) by (simp add: nth_append)
      finally show ?thesis using that x(2,3) by simp
    qed
    moreover have "j \<le> length s" using x(3) drop_split [OF assms x(1)] by simp
    ultimately show "i \<le> j \<and> j \<le> length s \<and> (\<forall>k. i \<le> k \<and> k < j \<longrightarrow> P (s ! k))" using x(3) by auto
  next
    assume h: "i \<le> j \<and> j \<le> length s \<and> (\<forall>k. i \<le> k \<and> k < j \<longrightarrow> P (s ! k))"
    then have "\<forall>x \<in> set (take (j - i) (drop i s)). P x" "j = i + length (take (j - i) (drop i s))"
      by (auto simp: in_set_conv_nth)
    moreover have "drop i s = take (j - i) (drop i s) @ drop (j - i) (drop i s)" by (rule append_take_drop_id [symmetric])
    ultimately show "\<exists>xs r. drop i s = xs @ r \<and> (\<forall>x \<in> set xs. P x) \<and> j = i + length xs" by blast
  qed
  then show ?thesis using ends_Star_Chr [OF assms] by auto
qed

lemma ends_Plus_drop:
  assumes "i \<le> length s"
  shows "(j, d) \<in> set (ends (Plus (Chr P)) s i c) \<longleftrightarrow>
     d = c \<and> (\<exists>xs r. drop i s = xs @ r \<and> xs \<noteq> [] \<and> (\<forall>x \<in> set xs. P x) \<and> j = i + length xs)"
proof (cases "i < length s \<and> P (s ! i)")
  case True
  then have d: "drop i s = s ! i # drop (Suc i) s" by (simp add: Cons_nth_drop_Suc)
  have "(j, d) \<in> set (ends (Plus (Chr P)) s i c) \<longleftrightarrow> (j, d) \<in> set (ends (Star (Chr P)) s (Suc i) c)"
    using True by (simp add: Plus_def)
  also have "\<dots> \<longleftrightarrow> d = c \<and> (\<exists>xs r. drop (Suc i) s = xs @ r \<and> (\<forall>x \<in> set xs. P x) \<and> j = Suc i + length xs)"
    using True by (intro ends_Star_drop) simp
  also have "(\<exists>xs r. drop (Suc i) s = xs @ r \<and> (\<forall>x \<in> set xs. P x) \<and> j = Suc i + length xs) \<longleftrightarrow>
      (\<exists>xs r. drop i s = xs @ r \<and> xs \<noteq> [] \<and> (\<forall>x \<in> set xs. P x) \<and> j = i + length xs)"
  proof (intro iffI; elim exE conjE)
    fix xs r
    assume "drop (Suc i) s = xs @ r" "\<forall>x \<in> set xs. P x" "j = Suc i + length xs"
    then show "\<exists>xs r. drop i s = xs @ r \<and> xs \<noteq> [] \<and> (\<forall>x \<in> set xs. P x) \<and> j = i + length xs"
      using True by (intro exI [of _ "s ! i # xs"] exI [of _ r]) (simp add: d)
  next
    fix xs r
    assume h: "drop i s = xs @ r" "xs \<noteq> []" "\<forall>x \<in> set xs. P x" "j = i + length xs"
    then show "\<exists>xs r. drop (Suc i) s = xs @ r \<and> (\<forall>x \<in> set xs. P x) \<and> j = Suc i + length xs"
      by (intro exI [of _ "tl xs"] exI [of _ r]) (cases xs; simp add: d)
  qed
  finally show ?thesis .
next
  case False
  then have "ends (Plus (Chr P)) s i c = []" by (auto simp: Plus_def)
  moreover have "\<not> (\<exists>xs r. drop i s = xs @ r \<and> xs \<noteq> [] \<and> (\<forall>x \<in> set xs. P x))"
  proof
    assume "\<exists>xs r. drop i s = xs @ r \<and> xs \<noteq> [] \<and> (\<forall>x \<in> set xs. P x)"
    then obtain x xs r where x: "drop i s = x # xs @ r" "P x" by (metis append_Cons list.set_intros(1) neq_Nil_conv)
    then have "i < length s" by (metis drop_all list.distinct(1) not_less)
    then show False using x False by (metis Cons_nth_drop_Suc list.inject)
  qed
  ultimately show ?thesis by auto
qed

lemma span_unique:
  "\<forall>x \<in> set xs. P x \<Longrightarrow> \<forall>x \<in> set ys. P x \<Longrightarrow> r \<noteq> [] \<Longrightarrow> r' \<noteq> [] \<Longrightarrow> \<not> P (hd r) \<Longrightarrow> \<not> P (hd r') \<Longrightarrow>
   xs @ r = ys @ r' \<Longrightarrow> xs = ys \<and> r = r'"
proof (induction xs arbitrary: ys)
  case Nil
  then show ?case by (cases ys) auto
next
  case (Cons x xs)
  then show ?case by (cases ys) auto
qed

definition reference :: "string \<Rightarrow> string \<Rightarrow> string \<Rightarrow> string" where
  "reference w1 n w2 = ''{{'' @ w1 @ n @ w2 @ ''}}''"

definition ref_ok :: "string \<Rightarrow> string \<Rightarrow> string \<Rightarrow> bool" where
  "ref_ok w1 n w2 \<longleftrightarrow> (\<forall>x \<in> set w1. is_space x) \<and> n \<noteq> [] \<and> (\<forall>x \<in> set n. is_name_char x) \<and> (\<forall>x \<in> set w2. is_space x)"

text \<open>At a well-formed reference there is exactly one way to match.\<close>

lemma reference_parts:
  assumes "ref_ok w1 n w2" "ref_ok v1 m v2" "w1 @ n @ w2 @ ''}}'' @ t = v1 @ m @ v2 @ ''}}'' @ t'"
  shows "w1 = v1 \<and> n = m \<and> w2 = v2"
proof -
  have sp: "\<not> is_space x" if "is_name_char x" for x using that space_not_name by blast
  have hd_n: "hd (n @ w2 @ ''}}'' @ t) = hd n" "hd (m @ v2 @ ''}}'' @ t') = hd m" "is_name_char (hd n)" "is_name_char (hd m)"
    using assms(1,2) by (auto simp: ref_ok_def)
  then have 1: "w1 = v1 \<and> n @ w2 @ ''}}'' @ t = m @ v2 @ ''}}'' @ t'"
    using assms sp by (intro span_unique [where P = is_space]) (auto simp: ref_ok_def)
  have tail: "\<not> is_name_char (hd (w @ ''}}'' @ u))" if "\<forall>x \<in> set w. is_space x" for w u
    using that brace_class space_not_name by (cases w) auto
  have 2: "n = m \<and> w2 @ ''}}'' @ t = v2 @ ''}}'' @ t'"
    using assms 1 tail by (intro span_unique [where P = is_name_char]) (auto simp: ref_ok_def)
  have "w2 = v2 \<and> ''}}'' @ t = ''}}'' @ t'"
    using assms 2 brace_class by (intro span_unique [where P = is_space]) (auto simp: ref_ok_def)
  with 1 2 show ?thesis by blast
qed

definition ref_caps :: "nat \<Rightarrow> string \<Rightarrow> string \<Rightarrow> caps" where
  "ref_caps i w1 n = (\<lambda>_. None)(1 \<mapsto> (i + 2 + length w1, i + 2 + length w1 + length n))"

lemma ends_credential:
  assumes i: "i \<le> length s"
  shows "(j, d) \<in> set (ends credentialNameRe s i (\<lambda>_. None)) \<longleftrightarrow>
     (\<exists>w1 n w2 t. drop i s = reference w1 n w2 @ t \<and> ref_ok w1 n w2 \<and>
        j = i + length (reference w1 n w2) \<and> d = ref_caps i w1 n)" (is "?L \<longleftrightarrow> ?R")
proof
  assume ?L
  then obtain k0 c0 k d1 l d2 m d3 where L: "(k0, c0) \<in> set (ends (Lit ''{{'') s i (\<lambda>_. None))"
    and k0: "(k, d1) \<in> set (ends (Star (Chr is_space)) s k0 c0)"
    and l: "(l, d2) \<in> set (ends (Plus (Chr is_name_char)) s k d1)"
    and m: "(m, d3) \<in> set (ends (Star (Chr is_space)) s l (d2(1 \<mapsto> (k, l))))"
    and jm: "(j, d) \<in> set (ends (Lit ''}}'') s m d3)"
    unfolding credentialNameRe_def ends_Cat_iff ends_Cap_iff by blast
  have p: "has_prefix (drop i s) ''{{''" "k0 = i + 2" "c0 = (\<lambda>_. None)"
    using L by (simp_all add: ends_Lit [OF i] del: Lit.simps split: if_splits)
  note k = k0 [unfolded p(2,3)]
  obtain t0 where t0: "drop i s = ''{{'' @ t0" using p(1) by (auto simp: has_prefix_iff)
  have i2: "i + 2 \<le> length s" "drop (i + 2) s = t0" using drop_split [OF i t0] by auto
  obtain w1 r1 where w1: "t0 = w1 @ r1" "\<forall>x \<in> set w1. is_space x" "k = i + 2 + length w1" "d1 = (\<lambda>_. None)"
    using k [unfolded ends_Star_drop [OF i2(1)]] i2 by auto
  have k2: "k \<le> length s" "drop k s = r1" using drop_split [OF i2(1), of w1 r1] i2(2) w1 by auto
  obtain n r2 where n: "r1 = n @ r2" "n \<noteq> []" "\<forall>x \<in> set n. is_name_char x" "l = k + length n" "d2 = d1"
    using l [unfolded ends_Plus_drop [OF k2(1)]] k2 by auto
  have l2: "l \<le> length s" "drop l s = r2" using drop_split [OF k2(1), of n r2] k2(2) n by auto
  obtain w2 r3 where w2: "r2 = w2 @ r3" "\<forall>x \<in> set w2. is_space x" "m = l + length w2" "d3 = d2(1 \<mapsto> (k, l))"
    using m [unfolded ends_Star_drop [OF l2(1)]] l2 by auto
  have m2: "m \<le> length s" "drop m s = r3" using drop_split [OF l2(1), of w2 r3] l2(2) w2 by auto
  obtain t where t: "r3 = ''}}'' @ t" "j = m + 2" "d = d3"
    using jm m2 by (auto simp: ends_Lit [OF m2(1)] has_prefix_iff simp del: Lit.simps split: if_splits)
  have "drop i s = reference w1 n w2 @ t" using t0 w1 n w2 t by (simp add: reference_def)
  moreover have "ref_ok w1 n w2" using w1 n w2 by (simp add: ref_ok_def)
  moreover have "j = i + length (reference w1 n w2)" using w1 n w2 t by (simp add: reference_def)
  moreover have "d = ref_caps i w1 n" using w1 n w2 t by (simp add: ref_caps_def)
  ultimately show ?R by blast
next
  assume ?R
  then obtain w1 n w2 t where r: "drop i s = ''{{'' @ w1 @ n @ w2 @ ''}}'' @ t" "ref_ok w1 n w2"
    "j = i + length (reference w1 n w2)" "d = ref_caps i w1 n" by (auto simp: reference_def)
  note s1 = drop_split [OF i r(1)]
  have i2: "i + 2 \<le> length s" "drop (i + 2) s = w1 @ n @ w2 @ ''}}'' @ t" using s1 by auto
  have k2: "i + 2 + length w1 \<le> length s" "drop (i + 2 + length w1) s = n @ w2 @ ''}}'' @ t"
    using drop_split [OF i2] by auto
  have l2: "i + 2 + length w1 + length n \<le> length s" "drop (i + 2 + length w1 + length n) s = w2 @ ''}}'' @ t"
    using drop_split [OF k2] by auto
  have m2: "i + 2 + length w1 + length n + length w2 \<le> length s"
    "drop (i + 2 + length w1 + length n + length w2) s = ''}}'' @ t"
    using drop_split [OF l2] by auto
  have "(i + 2, \<lambda>_. None) \<in> set (ends (Lit ''{{'') s i (\<lambda>_. None))"
    using r(1) by (simp add: ends_Lit [OF i] del: Lit.simps)
  moreover have "(i + 2 + length w1, \<lambda>_. None) \<in> set (ends (Star (Chr is_space)) s (i + 2) (\<lambda>_. None))"
    using r(2) i2 by (subst ends_Star_drop) (auto simp: ref_ok_def)
  moreover have "(i + 2 + length w1 + length n, d) \<in> set (ends (Cap 1 (Plus (Chr is_name_char))) s (i + 2 + length w1) (\<lambda>_. None))"
  proof -
    have "(i + 2 + length w1 + length n, \<lambda>_. None) \<in> set (ends (Plus (Chr is_name_char)) s (i + 2 + length w1) (\<lambda>_. None))"
      using r(2) k2 by (subst ends_Plus_drop) (auto simp: ref_ok_def)
    then show ?thesis unfolding r(4) ref_caps_def ends_Cap_iff by blast
  qed
  moreover have "(i + 2 + length w1 + length n + length w2, d) \<in> set (ends (Star (Chr is_space)) s (i + 2 + length w1 + length n) d)"
    using r(2) l2 by (subst ends_Star_drop) (auto simp: ref_ok_def)
  moreover have "(j, d) \<in> set (ends (Lit ''}}'') s (i + 2 + length w1 + length n + length w2) d)"
    unfolding ends_Lit [OF m2(1)] m2(2) r(3) reference_def by simp
  ultimately show ?L unfolding credentialNameRe_def ends_Cat_iff by blast
qed

lemma ends_credential_empty:
  assumes "i \<le> length s" "take 1 (drop i s) \<noteq> ''{''"
  shows "ends credentialNameRe s i (\<lambda>_. None) = []"
proof (rule ccontr)
  assume "ends credentialNameRe s i (\<lambda>_. None) \<noteq> []"
  then obtain j d where "(j, d) \<in> set (ends credentialNameRe s i (\<lambda>_. None))" by (metis last_in_set surj_pair)
  then show False using assms by (auto simp: ends_credential reference_def)
qed

lemma find_from_text:
  "drop pos s = pre \<Longrightarrow> CHR ''{'' \<notin> set pre \<Longrightarrow> find_from credentialNameRe s pos = None"
proof (induction pre arbitrary: pos)
  case Nil
  show ?case
  proof (cases "pos = length s")
    case True
    with ends_credential_empty [of pos s] show ?thesis
      by (subst find_from.simps) (simp add: find_from.simps [of _ _ "Suc (length s)"])
  next
    case False
    with Nil show ?thesis by (subst find_from.simps) simp
  qed
next
  case (Cons x pre)
  then have p: "pos < length s" by (metis drop_all list.distinct(1) not_less)
  have "drop (Suc pos) s = pre" using Cons.prems(1) by (metis drop_Suc drop_tl list.sel(3))
  with Cons have "find_from credentialNameRe s (Suc pos) = None" by simp
  with p Cons.prems ends_credential_empty [of pos s] show ?case by (subst find_from.simps) auto
qed

lemma find_from_ref:
  "drop pos s = pre @ reference w1 n w2 @ t \<Longrightarrow> CHR ''{'' \<notin> set pre \<Longrightarrow> ref_ok w1 n w2 \<Longrightarrow>
   find_from credentialNameRe s pos =
     Some (pos + length pre, pos + length pre + length (reference w1 n w2), ref_caps (pos + length pre) w1 n)"
proof (induction pre arbitrary: pos)
  case Nil
  have p: "pos \<le> length s" using Nil.prems(1) by (metis append_Nil append_is_Nil_conv drop_all list.distinct(1) nat_le_linear reference_def)
  have mem: "(pos + length (reference w1 n w2), ref_caps pos w1 n) \<in> set (ends credentialNameRe s pos (\<lambda>_. None))"
    using Nil.prems p by (auto simp: ends_credential)
  then obtain j d rest where e: "ends credentialNameRe s pos (\<lambda>_. None) = (j, d) # rest"
    by (cases "ends credentialNameRe s pos (\<lambda>_. None)") auto
  then have "(j, d) \<in> set (ends credentialNameRe s pos (\<lambda>_. None))" by simp
  then obtain v1 m v2 t' where v: "drop pos s = reference v1 m v2 @ t'" "ref_ok v1 m v2"
    "j = pos + length (reference v1 m v2)" "d = ref_caps pos v1 m"
    using p by (auto simp: ends_credential)
  have "w1 @ n @ w2 @ ''}}'' @ t = v1 @ m @ v2 @ ''}}'' @ t'"
    using Nil.prems(1) v(1) by (simp add: reference_def)
  from reference_parts [OF Nil.prems(3) v(2) this] v(3,4) e p show ?case by (subst find_from.simps) simp
next
  case (Cons x pre)
  then have p: "pos < length s" by (metis append_Cons drop_all list.distinct(1) not_less)
  have "drop (Suc pos) s = pre @ reference w1 n w2 @ t" using Cons.prems(1) by (metis append_Cons drop_Suc drop_tl list.sel(3))
  with Cons have "find_from credentialNameRe s (Suc pos) =
     Some (Suc pos + length pre, Suc pos + length pre + length (reference w1 n w2), ref_caps (Suc pos + length pre) w1 n)" by simp
  moreover have "ends credentialNameRe s pos (\<lambda>_. None) = []"
    using p Cons.prems by (intro ends_credential_empty) auto
  ultimately show ?case using p by (subst find_from.simps) simp
qed

section \<open>Templates\<close>

text \<open>A template: pieces of plain text, each followed by a reference, and a plain tail.\<close>

type_synonym piece = "string \<times> string \<times> string \<times> string"

fun render :: "piece list \<Rightarrow> string \<Rightarrow> string" where
  "render [] tail = tail"
| "render ((pre, w1, n, w2) # ps) tail = pre @ reference w1 n w2 @ render ps tail"

definition piece_ok :: "piece \<Rightarrow> bool" where
  "piece_ok = (\<lambda>(pre, w1, n, w2). CHR ''{'' \<notin> set pre \<and> ref_ok w1 n w2)"

definition piece_name :: "piece \<Rightarrow> string" where
  "piece_name = (\<lambda>(pre, w1, n, w2). n)"

fun found :: "piece list \<Rightarrow> nat \<Rightarrow> (nat \<times> nat \<times> caps) list" where
  "found [] pos = []"
| "found ((pre, w1, n, w2) # ps) pos =
     (pos + length pre, pos + length pre + length (reference w1 n w2), ref_caps (pos + length pre) w1 n)
       # found ps (pos + length pre + length (reference w1 n w2))"

lemma length_reference: "length (reference w1 n w2) = length w1 + length n + length w2 + 4"
  by (simp add: reference_def)

lemma all_matches_template:
  "drop pos s = render ps tail \<Longrightarrow> pos \<le> length s \<Longrightarrow> \<forall>p \<in> set ps. piece_ok p \<Longrightarrow> CHR ''{'' \<notin> set tail \<Longrightarrow>
   all_matches credentialNameRe s pos pos = found ps pos"
proof (induction ps arbitrary: pos)
  case Nil
  then show ?case using find_from_text [of pos s tail] by (subst all_matches.simps) simp
next
  case (Cons p ps)
  obtain pre w1 n w2 where p: "p = (pre, w1, n, w2)" by (cases p)
  let ?j = "pos + length pre + length (reference w1 n w2)"
  have d: "drop pos s = (pre @ reference w1 n w2) @ render ps tail" using Cons.prems(1) by (simp add: p)
  from drop_split [OF Cons.prems(2) d] have "?j \<le> length s" "drop ?j s = render ps tail" by (simp_all add: add.assoc)
  with Cons have "all_matches credentialNameRe s ?j ?j = found ps ?j" by simp
  moreover have "find_from credentialNameRe s pos = Some (pos + length pre, ?j, ref_caps (pos + length pre) w1 n)"
    using Cons.prems p by (intro find_from_ref) (auto simp: piece_ok_def)
  moreover have "max (Suc pos) ?j = ?j" by (simp add: length_reference)
  ultimately show ?case using Cons.prems(2)
    by (subst all_matches.simps) (simp add: p length_reference)
qed

lemma sub_at: "drop pos s = pre @ x @ t \<Longrightarrow> pos \<le> length s \<Longrightarrow> sub s (pos + length pre) (pos + length pre + length x) = x"
  using drop_split [of pos s pre "x @ t"] by (simp add: sub_def)

lemma sub_pre: "drop pos s = pre @ t \<Longrightarrow> sub s pos (pos + length pre) = pre"
  by (simp add: sub_def)

lemma splice_template:
  "drop pos s = render ps tail \<Longrightarrow> pos \<le> length s \<Longrightarrow>
   splice s pos (found ps pos) (\<lambda>(i, j, c). f (sub s i j)) =
     concat (map (\<lambda>(pre, w1, n, w2). pre @ f (reference w1 n w2)) ps) @ tail"
proof (induction ps arbitrary: pos)
  case (Cons p ps)
  obtain pre w1 n w2 where p: "p = (pre, w1, n, w2)" by (cases p)
  have d: "drop pos s = pre @ reference w1 n w2 @ render ps tail" using Cons.prems(1) by (simp add: p)
  then have "drop pos s = (pre @ reference w1 n w2) @ render ps tail" by simp
  from drop_split [OF Cons.prems(2) this] Cons.IH [of "pos + length pre + length (reference w1 n w2)"]
    sub_at [OF d Cons.prems(2)] sub_pre [OF d]
  show ?case by (simp add: p add.assoc)
qed simp

lemma group_at:
  assumes "drop i s = reference w1 n w2 @ t" "i \<le> length s"
  shows "group s (ref_caps i w1 n) 1 = n"
  using sub_at [of i s "''{{'' @ w1" n "w2 @ ''}}'' @ t"] assms by (simp add: group_def reference_def ref_caps_def)

lemma names_template:
  "drop pos s = render ps tail \<Longrightarrow> pos \<le> length s \<Longrightarrow>
   map (\<lambda>(i, j, c). group s c 1) (found ps pos) = map piece_name ps"
proof (induction ps arbitrary: pos)
  case (Cons p ps)
  obtain pre w1 n w2 where p: "p = (pre, w1, n, w2)" by (cases p)
  have d: "drop pos s = pre @ reference w1 n w2 @ render ps tail" using Cons.prems(1) by (simp add: p)
  have e: "drop pos s = (pre @ reference w1 n w2) @ render ps tail" using d by simp
  have g: "group s (ref_caps (pos + length pre) w1 n) 1 = n"
    using drop_split [OF Cons.prems(2) d] by (intro group_at) auto
  from drop_split [OF Cons.prems(2) e] Cons.IH [of "pos + length pre + length (reference w1 n w2)"] g
  show ?case by (simp add: p piece_name_def add.assoc)
qed simp

lemma replace_ref_at:
  "ref_ok w1 n w2 \<Longrightarrow> replace_ref resolved (reference w1 n w2) = (case map_of resolved n of None \<Rightarrow> [] | Some x \<Rightarrow> x)"
  using find_from_ref [of 0 "reference w1 n w2" "[]" w1 n w2 "[]"] group_at [of 0 "reference w1 n w2" w1 n w2 "[]"]
  by (simp add: replace_ref_def)

lemma set_unique_refs: "set (unique_refs seen ns) = set ns - set seen"
  by (induction ns arbitrary: seen) auto

lemma resolve_refs_ok:
  "\<forall>n \<in> set ns. resolver n = Inr (sec n) \<Longrightarrow> resolve_refs resolver ns = Inr (map (\<lambda>n. (n, sec n)) ns)"
  by (induction ns) auto

lemma map_of_tabulate: "n \<in> set ns \<Longrightarrow> map_of (map (\<lambda>n. (n, f n)) ns) n = Some (f n)"
  by (induction ns) auto

text \<open>C38: interpolation is simultaneous substitution: every reference is replaced by its credential,
  the text around it is kept, and nothing inside a substituted secret is expanded again.\<close>
theorem interpolate_substitutes:
  assumes "\<forall>p \<in> set ps. piece_ok p" "CHR ''{'' \<notin> set tail"
    and "\<forall>p \<in> set ps. resolver (piece_name p) = Inr (sec (piece_name p))"
  shows "Interpolate (render ps tail) resolver = Inr (concat (map (\<lambda>(pre, w1, n, w2). pre @ sec n) ps) @ tail)"
proof -
  let ?s = "render ps tail"
  have m: "find_all credentialNameRe ?s = found ps 0"
    unfolding find_all_def by (rule all_matches_template [where tail = tail]) (use assms in auto)
  have refs: "FindCredentialRefs ?s = unique_refs [] (map piece_name ps)"
    unfolding FindCredentialRefs_def m by (subst names_template [where tail = tail]) simp_all
  show ?thesis
  proof (cases "unique_refs [] (map piece_name ps) = []")
    case True
    then have "map piece_name ps = []" using set_unique_refs [of "[]" "map piece_name ps"] by simp
    then show ?thesis unfolding Interpolate_def refs Let_def by simp
  next
    case False
    let ?res = "map (\<lambda>n. (n, sec n)) (unique_refs [] (map piece_name ps))"
    have ok: "resolve_refs resolver (unique_refs [] (map piece_name ps)) = Inr ?res"
      using assms(3) by (intro resolve_refs_ok) (auto simp: set_unique_refs)
    have "replace_func credentialNameRe ?s (replace_ref ?res) =
        concat (map (\<lambda>(pre, w1, n, w2). pre @ replace_ref ?res (reference w1 n w2)) ps) @ tail"
      unfolding replace_func_def m by (rule splice_template) simp_all
    also have "map (\<lambda>(pre, w1, n, w2). pre @ replace_ref ?res (reference w1 n w2)) ps = map (\<lambda>(pre, w1, n, w2). pre @ sec n) ps"
    proof (rule map_cong [OF refl])
      fix p assume "p \<in> set ps"
      moreover obtain pre w1 n w2 where pe: "p = (pre, w1, n, w2)" by (cases p)
      ultimately have p: "(pre, w1, n, w2) \<in> set ps" by simp
      then have "n \<in> set (unique_refs [] (map piece_name ps))" by (force simp: set_unique_refs piece_name_def)
      then have "map_of ?res n = Some (sec n)" by (rule map_of_tabulate)
      moreover have "ref_ok w1 n w2" using assms(1) p by (force simp: piece_ok_def)
      ultimately show "(case p of (pre, w1, n, w2) \<Rightarrow> pre @ replace_ref ?res (reference w1 n w2)) =
          (case p of (pre, w1, n, w2) \<Rightarrow> pre @ sec n)"
        by (simp add: pe replace_ref_at)
    qed
    finally show ?thesis using False ok by (simp add: Interpolate_def refs)
  qed
qed

theorem interpolate_substitutes_witness:
  "Interpolate (''Bearer {{ tok }}:{{tok}}'') (\<lambda>n. Inr ''{{ tok }}'' :: unit + string) = Inr ''Bearer {{ tok }}:{{ tok }}''"
  using interpolate_substitutes [of "[(''Bearer '', '' '', ''tok'', '' ''), ('':'', [], ''tok'', [])]" "[]"
      "\<lambda>n. Inr ''{{ tok }}'' :: unit + string" "\<lambda>n. ''{{ tok }}''"]
  by (simp add: piece_ok_def ref_ok_def reference_def is_space_def is_name_char_def is_lower_def char_code_def)

section \<open>Validated values\<close>

lemma resolve_refs_error: "resolve_refs resolver ns = Inl (n, e) \<Longrightarrow> n \<in> set ns \<and> resolver n = Inl e"
  by (induction ns) (auto split: sum.splits)

text \<open>Once \<open>ValidateEnvRefs\<close> finds nothing missing, resolving the value can only fail because a
  configured credential fails, and the error names that credential.\<close>

lemma validated_value_resolves:
  assumes "ValidateEnvRefs v names = []" "ResolveEnvValue v names resolver = Inl (n, e)"
  shows "n \<in> set names \<and> resolver n = Inl e"
proof -
  have refs: "HasCredentialRefs v \<Longrightarrow> v \<notin> set names \<Longrightarrow> set (FindCredentialRefs v) \<subseteq> set names"
    using assms(1) by (auto simp: ValidateEnvRefs_def ClassifyEnvValue_def filter_empty_conv)
  show ?thesis
  proof (cases "v \<in> set names")
    case True
    with assms(2) show ?thesis by (auto simp: ResolveEnvValue_def ClassifyEnvValue_def split: sum.splits)
  next
    case False
    with assms(2) have "HasCredentialRefs v" "Interpolate v resolver = Inl (n, e)"
      by (auto simp: ResolveEnvValue_def ClassifyEnvValue_def split: if_splits)
    with refs [OF _ False] resolve_refs_error [of resolver "FindCredentialRefs v" n e] show ?thesis
      by (auto simp: Interpolate_def Let_def split: if_splits sum.splits)
  qed
qed

lemma validated_value_resolves_witness:
  "ResolveEnvValue ''tok'' [''tok''] (\<lambda>n. Inl () :: unit + string) = Inl (''tok'', ()) \<and> ''tok'' \<in> set [''tok'']"
proof -
  have "ValidateEnvRefs ''tok'' [''tok''] = []"
    "ResolveEnvValue ''tok'' [''tok''] (\<lambda>n. Inl () :: unit + string) = Inl (''tok'', ())"
    by (simp_all add: ValidateEnvRefs_def ResolveEnvValue_def ClassifyEnvValue_def)
  with validated_value_resolves [OF this] show ?thesis by simp
qed

end
