(* ===== verification/Paths.thy ===== *)
theory Paths
  imports Prelude
begin

text \<open>
  \<open>path/filepath\<close> on Unix as far as the program uses it, and \<open>internal/paths/paths.go\<close> on top: the
  runtime directory and its override, default locations, and the search for helper binaries in
  trusted directories. The process environment and the file system are arguments.
\<close>

section \<open>Package filepath\<close>

definition is_abs :: "string \<Rightarrow> bool" where
  "is_abs p \<longleftrightarrow> has_prefix p ''/''"

text \<open>One component of \<open>Clean\<close>; the stack holds the components kept, last first.\<close>

definition clean_step :: "bool \<Rightarrow> string list \<Rightarrow> string \<Rightarrow> string list" where
  "clean_step rooted st part =
     (if part = [] \<or> part = ''.'' then st
      else if part = ''..'' then
        (case st of
           [] \<Rightarrow> if rooted then [] else [''..'']
         | t # ts \<Rightarrow> if t = ''..'' then ''..'' # st else ts)
      else part # st)"

definition path_clean :: "string \<Rightarrow> string" where
  "path_clean p =
     (let rooted = is_abs p;
          out = join ''/'' (rev (foldl (clean_step rooted) [] (split_char CHR ''/'' p)))
      in if rooted then CHR ''/'' # out else if out = [] then ''.'' else out)"

definition path_join :: "string list \<Rightarrow> string" where
  "path_join es =
     (let es' = dropWhile (\<lambda>e. e = []) es in if es' = [] then [] else path_clean (join ''/'' es'))"

definition path_base :: "string \<Rightarrow> string" where
  "path_base p =
     (if p = [] then ''.''
      else let q = rev (dropWhile (\<lambda>c. c = CHR ''/'') (rev p))
           in if q = [] then ''/'' else last (split_char CHR ''/'' q))"

section \<open>Environment\<close>

record path_env =
  pe_runtime_dir :: string
  pe_goos :: string
  pe_tmp :: string
  pe_home :: "string option"
  pe_stat :: "string \<Rightarrow> (bool \<times> nat) option"

section \<open>paths.go\<close>

datatype path_error =
    RuntimeDirNotAbsolute string
  | EmptyBinaryName
  | NotBaseName string
  | NotFoundTrusted string

definition defaultRuntimeDir :: "path_env \<Rightarrow> string" where
  "defaultRuntimeDir e = (if pe_goos e = ''darwin'' then path_join [pe_tmp e, ''openclaw''] else ''/run/openclaw'')"

definition RuntimeDir :: "path_env \<Rightarrow> string" where
  "RuntimeDir e =
     (if pe_runtime_dir e \<noteq> [] \<and> is_abs (pe_runtime_dir e) then path_clean (pe_runtime_dir e)
      else defaultRuntimeDir e)"

definition ValidateRuntimeDirEnv :: "path_env \<Rightarrow> path_error option" where
  "ValidateRuntimeDirEnv e =
     (if pe_runtime_dir e \<noteq> [] \<and> \<not> is_abs (pe_runtime_dir e)
      then Some (RuntimeDirNotAbsolute (pe_runtime_dir e)) else None)"

definition SocketPath :: "path_env \<Rightarrow> string" where
  "SocketPath e = path_join [RuntimeDir e, ''secrets.sock'']"

definition AuthPath :: "path_env \<Rightarrow> string" where
  "AuthPath e = path_join [RuntimeDir e, ''auth'']"

definition EnvFile :: "path_env \<Rightarrow> string" where
  "EnvFile e = path_join [defaultRuntimeDir e, ''env'']"

definition ProxyAuthTokenPath :: "path_env \<Rightarrow> string" where
  "ProxyAuthTokenPath e = path_join [RuntimeDir e, ''proxy-auth-token'']"

definition ConfigPath :: string where
  "ConfigPath = ''/etc/openclaw/wrappers.yaml''"

definition RestartHint :: "path_env \<Rightarrow> string" where
  "RestartHint e =
     (if pe_goos e = ''darwin'' then ''launchctl kickstart -k gui/$(id -u)/com.openclaw.claw-wrap''
      else ''sudo systemctl restart claw-wrap'')"

definition DefaultAgeIdentityFile :: string where
  "DefaultAgeIdentityFile = ''/etc/openclaw/age-identity''"

definition DefaultOPTokenFile :: string where
  "DefaultOPTokenFile = ''/etc/openclaw/1password.token''"

definition CADir :: "path_env \<Rightarrow> string" where
  "CADir e =
     (if pe_goos e = ''darwin''
      then case pe_home e of None \<Rightarrow> ''/tmp/claw-wrap/ca'' | Some home \<Rightarrow> path_join [home, ''.claw-wrap'', ''ca'']
      else ''/etc/openclaw/ca'')"

definition trustedBinaryDirs :: "string list" where
  "trustedBinaryDirs = [''/usr/bin'', ''/usr/local/bin'', ''/opt/homebrew/bin'', ''/home/linuxbrew/.linuxbrew/bin'']"

definition is_executable :: "path_env \<Rightarrow> string \<Rightarrow> bool" where
  "is_executable e p =
     (case pe_stat e p of None \<Rightarrow> False
      | Some (isdir, mode) \<Rightarrow> \<not> isdir \<and> (odd mode \<or> odd (mode div 8) \<or> odd (mode div 64)))"

definition FindTrustedBinary :: "path_env \<Rightarrow> string \<Rightarrow> path_error + string" where
  "FindTrustedBinary e file =
     (if file = [] then Inl EmptyBinaryName
      else if contains_str file ''/'' then Inl (NotBaseName file)
      else case find (is_executable e) (map (\<lambda>dir. path_join [dir, file]) trustedBinaryDirs) of
             None \<Rightarrow> Inl (NotFoundTrusted file)
           | Some p \<Rightarrow> Inr p)"

definition defaultPassBinaryForPlatform :: "path_env \<Rightarrow> string" where
  "defaultPassBinaryForPlatform e = (if pe_goos e = ''darwin'' then ''/opt/homebrew/bin/pass'' else ''/usr/bin/pass'')"

definition DefaultPassBinary :: "path_env \<Rightarrow> string" where
  "DefaultPassBinary e =
     (case FindTrustedBinary e ''pass'' of Inr p \<Rightarrow> p | Inl _ \<Rightarrow> defaultPassBinaryForPlatform e)"

section \<open>Cleaning\<close>

text \<open>A component \<open>Clean\<close> keeps as it is.\<close>

definition plain_part :: "string \<Rightarrow> bool" where
  "plain_part p \<longleftrightarrow> p \<noteq> [] \<and> p \<noteq> ''.'' \<and> p \<noteq> ''..''"

lemma foldl_clean_plain: "\<forall>p \<in> set ps. plain_part p \<Longrightarrow> foldl (clean_step rooted) st ps = rev ps @ st"
  by (induction ps arbitrary: st) (simp_all add: clean_step_def plain_part_def)

lemma join_not_Nil: "ps \<noteq> [] \<Longrightarrow> \<forall>p \<in> set ps. p \<noteq> [] \<Longrightarrow> join sep ps \<noteq> []"
  by (induction sep ps rule: join.induct) auto

text \<open>A relative path of plain components is clean already.\<close>

lemma path_clean_relative:
  assumes "\<forall>q \<in> set (split_char CHR ''/'' p). plain_part q" "\<not> is_abs p"
  shows "path_clean p = p"
proof -
  have "p \<noteq> []"
  proof
    assume "p = []"
    with assms(1) show False by (simp add: plain_part_def)
  qed
  moreover have "join ''/'' (rev (foldl (clean_step False) [] (split_char CHR ''/'' p))) = p"
    by (simp only: foldl_clean_plain [OF assms(1)] append_Nil2 rev_rev_ident join_split_char)
  ultimately show ?thesis using assms(2) by (simp add: path_clean_def Let_def)
qed

lemma split_char_join_two: "c \<notin> set a \<Longrightarrow> split_char c (a @ c # b) = a # split_char c b"
  by (rule split_char_append)

text \<open>An absolute path that is clean: the root slash and plain components.\<close>

definition abs_clean :: "string \<Rightarrow> bool" where
  "abs_clean d \<longleftrightarrow> (\<exists>ps. ps \<noteq> [] \<and> (\<forall>p \<in> set ps. plain_part p \<and> CHR ''/'' \<notin> set p) \<and> d = CHR ''/'' # join ''/'' ps)"

lemma split_join:
  "ps \<noteq> [] \<Longrightarrow> \<forall>p \<in> set ps. c \<notin> set p \<Longrightarrow> split_char c (join [c] ps) = ps"
proof (induction "[c]" ps rule: join.induct)
  case (3 x y zs)
  then show ?case using split_char_append [of c x "join [c] (y # zs)"] by simp
qed simp_all

lemma join_append: "ps \<noteq> [] \<Longrightarrow> qs \<noteq> [] \<Longrightarrow> join sep (ps @ qs) = join sep ps @ sep @ join sep qs"
proof (induction sep ps rule: join.induct)
  case (2 sep x)
  then show ?case by (cases qs) simp_all
qed simp_all

text \<open>Joining a clean directory and a safe relative path only puts a slash between them.\<close>

lemma path_join_safe:
  assumes "abs_clean d" "\<forall>q \<in> set (split_char CHR ''/'' p). plain_part q"
  shows "path_join [d, p] = d @ ''/'' @ p"
proof -
  obtain ps where ps: "ps \<noteq> []" "\<forall>q \<in> set ps. plain_part q \<and> CHR ''/'' \<notin> set q" "d = CHR ''/'' # join ''/'' ps"
    using assms(1) by (auto simp: abs_clean_def)
  let ?qs = "split_char CHR ''/'' p"
  have qs: "\<forall>q \<in> set ?qs. CHR ''/'' \<notin> set q" "?qs \<noteq> []" "join ''/'' ?qs = p"
    by (rule split_char_parts, rule split_char_not_Nil, rule join_split_char)
  have dp: "d @ ''/'' @ p = CHR ''/'' # join ''/'' (ps @ ?qs)"
    using join_append [OF ps(1) qs(2), of "''/''"] by (simp add: ps(3) qs(3))
  have "split_char CHR ''/'' (d @ ''/'' @ p) = [] # ps @ ?qs"
  proof -
    have "\<forall>q \<in> set (ps @ ?qs). CHR ''/'' \<notin> set q" "ps @ ?qs \<noteq> []" using ps(1,2) qs(1) by auto
    from split_join [OF this(2,1)] show ?thesis unfolding dp by simp
  qed
  moreover have "foldl (clean_step True) [] ([] # ps @ ?qs) = rev (ps @ ?qs)"
    using foldl_clean_plain [of "ps @ ?qs" True "[]"] ps(2) assms(2) by (auto simp: clean_step_def)
  moreover have "is_abs (d @ ''/'' @ p)" by (simp add: is_abs_def ps(3))
  ultimately have "path_clean (d @ ''/'' @ p) = CHR ''/'' # join ''/'' (ps @ ?qs)"
    by (simp add: path_clean_def)
  moreover have "d \<noteq> []" using ps(3) by simp
  ultimately show ?thesis using dp by (simp add: path_join_def)
qed

lemma abs_clean_extend:
  assumes "abs_clean d" "\<forall>q \<in> set (split_char CHR ''/'' p). plain_part q"
  shows "abs_clean (d @ ''/'' @ p)"
proof -
  obtain ps where ps: "ps \<noteq> []" "\<forall>q \<in> set ps. plain_part q \<and> CHR ''/'' \<notin> set q" "d = CHR ''/'' # join ''/'' ps"
    using assms(1) by (auto simp: abs_clean_def)
  let ?qs = "split_char CHR ''/'' p"
  have "d @ ''/'' @ p = CHR ''/'' # join ''/'' (ps @ ?qs)"
    using join_append [OF ps(1) split_char_not_Nil, of "''/''"] by (simp add: ps(3) join_split_char)
  moreover have "\<forall>q \<in> set (ps @ ?qs). plain_part q \<and> CHR ''/'' \<notin> set q" "ps @ ?qs \<noteq> []"
    using ps(1,2) assms(2) split_char_parts [of "CHR ''/''" p] by auto
  ultimately show ?thesis unfolding abs_clean_def by blast
qed

lemma path_clean_abs: "is_abs p \<Longrightarrow> is_abs (path_clean p)"
  by (simp add: path_clean_def is_abs_def Let_def)

lemma abs_cleanI:
  "ps \<noteq> [] \<Longrightarrow> \<forall>p \<in> set ps. plain_part p \<and> CHR ''/'' \<notin> set p \<Longrightarrow> abs_clean (CHR ''/'' # join ''/'' ps)"
  unfolding abs_clean_def by blast

lemma trusted_dirs_clean: "\<forall>d \<in> set trustedBinaryDirs. abs_clean d"
proof -
  have "abs_clean ''/usr/bin''" "abs_clean ''/usr/local/bin''" "abs_clean ''/opt/homebrew/bin''"
    "abs_clean ''/home/linuxbrew/.linuxbrew/bin''"
    using abs_cleanI [of "[''usr'', ''bin'']"] abs_cleanI [of "[''usr'', ''local'', ''bin'']"]
      abs_cleanI [of "[''opt'', ''homebrew'', ''bin'']"] abs_cleanI [of "[''home'', ''linuxbrew'', ''.linuxbrew'', ''bin'']"]
    by (simp_all add: plain_part_def)
  then show ?thesis by (simp add: trustedBinaryDirs_def)
qed

text \<open>A helper binary is only ever taken from directly inside one of the trusted directories, under
  the requested name, and only if it is an executable file there.\<close>

lemma trusted_binary_location:
  assumes "FindTrustedBinary e file = Inr p" "file \<noteq> ''.'' \<and> file \<noteq> ''..''"
  shows "\<exists>dir \<in> set trustedBinaryDirs. p = dir @ ''/'' @ file \<and> is_executable e p"
proof -
  have "file \<noteq> []" "\<not> contains_str file ''/''"
    using assms(1) by (auto simp: FindTrustedBinary_def split: if_splits)
  then have f: "file \<noteq> []" "CHR ''/'' \<notin> set file" by (auto simp: contains_str_iff in_set_conv_decomp)
  then have plain: "\<forall>q \<in> set (split_char CHR ''/'' file). plain_part q"
    using assms(2) by (simp add: plain_part_def)
  have "find (is_executable e) (map (\<lambda>dir. path_join [dir, file]) trustedBinaryDirs) = Some p"
    using assms(1) by (auto simp: FindTrustedBinary_def split: if_splits option.splits)
  then obtain dir where d: "dir \<in> set trustedBinaryDirs" "p = path_join [dir, file]" "is_executable e p"
    unfolding find_Some_iff by auto (metis nth_mem)
  have "abs_clean dir" using d(1) trusted_dirs_clean by blast
  from path_join_safe [OF this plain] d show ?thesis by auto
qed

definition sample_path_env :: path_env where
  "sample_path_env = \<lparr>pe_runtime_dir = ''/shared/run/'', pe_goos = ''linux'', pe_tmp = ''/tmp'', pe_home = None,
     pe_stat = (\<lambda>p. if p = ''/usr/local/bin/op'' then Some (False, 493) else None)\<rparr>"

lemma trusted_binary_location_witness:
  "FindTrustedBinary sample_path_env ''op'' = Inr ''/usr/local/bin/op'' \<and>
   (\<exists>dir \<in> set trustedBinaryDirs. ''/usr/local/bin/op'' = dir @ ''/'' @ ''op'' \<and> is_executable sample_path_env ''/usr/local/bin/op'')"
proof -
  have "FindTrustedBinary sample_path_env ''op'' = Inr ''/usr/local/bin/op''" by code_simp
  with trusted_binary_location [OF this] show ?thesis by simp
qed

text \<open>The runtime directory is always absolute on Linux, follows the override only when that is
  absolute, and the credential file never follows it: it stays in the default directory whatever
  the override says.\<close>

lemma env_file_ignores_override:
  "EnvFile (e\<lparr>pe_runtime_dir := d\<rparr>) = EnvFile e \<and>
   (pe_goos e = ''linux'' \<longrightarrow> EnvFile e = ''/run/openclaw/env'' \<and> is_abs (RuntimeDir e) \<and>
      (ValidateRuntimeDirEnv e \<noteq> None \<longrightarrow> RuntimeDir e = ''/run/openclaw''))"
proof -
  have j: "path_join [''/run/openclaw'', ''env''] = ''/run/openclaw/env''" "is_abs ''/run/openclaw''" by code_simp+
  show ?thesis
    using path_clean_abs
    by (auto simp: EnvFile_def RuntimeDir_def defaultRuntimeDir_def ValidateRuntimeDirEnv_def j split: if_splits)
qed

lemma env_file_ignores_override_witness:
  "EnvFile sample_path_env = ''/run/openclaw/env'' \<and> RuntimeDir sample_path_env = ''/shared/run''"
proof -
  have "RuntimeDir sample_path_env = ''/shared/run''" by code_simp
  then show ?thesis using env_file_ignores_override [where e = sample_path_env] by (simp add: sample_path_env_def)
qed

end
