(* ===== verification/Config.thy ===== *)
theory Config
  imports Args_Policy Interpolate Paths Json
begin

text \<open>
  \<open>internal/config/config.go\<close>: validation and normalisation of the configuration, the compiled host
  and path patterns of the HTTP proxy, and the accessors that parse sizes and durations. \<open>compile\<close>
  stands for \<open>regexp.Compile\<close> on user patterns. The two expressions the code itself assembles around
  quoted text, for hosts and paths, are given as the trees they denote.
\<close>

section \<open>Durations and sizes\<close>

text \<open>
  \<open>time.ParseDuration\<close>: a sign, then numbers with units, with the overflow checks of the package.
  The fraction of a unit is rounded towards zero.
\<close>

definition unit_ns :: "string \<Rightarrow> int option" where
  "unit_ns u =
     map_of [(''ns'', 1), (''us'', 1000), ([CHR 0xC2, CHR 0xB5, CHR ''s''], 1000), ([CHR 0xCE, CHR 0xBC, CHR ''s''], 1000),
             (''ms'', 1000000), (''s'', 1000000000), (''m'', 60000000000), (''h'', 3600000000000)] u"

fun num_val :: "int \<Rightarrow> string \<Rightarrow> int" where
  "num_val acc [] = acc"
| "num_val acc (c # cs) = num_val (acc * 10 + (int (char_code c) - 48)) cs"

definition is_unit_end :: "char \<Rightarrow> bool" where
  "is_unit_end c \<longleftrightarrow> c = CHR ''.'' \<or> is_digit c"

text \<open>Digits, fraction digits, unit and rest of the first term.\<close>

definition term_parts :: "string \<Rightarrow> string \<times> string \<times> string \<times> string" where
  "term_parts s =
     (let s1 = dropWhile is_digit s;
          (frac, s2) = (case s1 of [] \<Rightarrow> ([], [])
             | c # r \<Rightarrow> if c = CHR ''.'' then (takeWhile is_digit r, dropWhile is_digit r) else ([], s1))
      in (takeWhile is_digit s, frac, takeWhile (\<lambda>c. \<not> is_unit_end c) s2, dropWhile (\<lambda>c. \<not> is_unit_end c) s2))"

lemma term_parts_shorter:
  assumes "term_parts s = (pre, frac, u, r)" "pre \<noteq> [] \<or> frac \<noteq> []"
  shows "length r < length s"
proof -
  let ?s1 = "dropWhile is_digit s"
  have s: "length (takeWhile is_digit s) + length ?s1 = length s" by (metis length_append takeWhile_dropWhile_id)
  show ?thesis
  proof (cases ?s1)
    case Nil
    with assms s show ?thesis by (auto simp: term_parts_def)
  next
    case (Cons c t)
    have t: "length (takeWhile is_digit t) + length (dropWhile is_digit t) = length t"
      by (metis length_append takeWhile_dropWhile_id)
    show ?thesis
      using assms s t Cons length_dropWhile_le [of "\<lambda>c. \<not> is_unit_end c" "dropWhile is_digit t"]
        length_dropWhile_le [of "\<lambda>c. \<not> is_unit_end c" ?s1]
      by (auto simp: term_parts_def Let_def split: if_splits simp flip: length_greater_0_conv)
  qed
qed

function duration_terms :: "int \<Rightarrow> string \<Rightarrow> int option" where
  "duration_terms d s =
     (if s = [] then Some d
      else case term_parts s of (pre, frac, u, r) \<Rightarrow>
        if pre = [] \<and> frac = [] then None
        else if num_val 0 pre > 9223372036854775808 then None
        else case unit_ns u of
               None \<Rightarrow> None
             | Some unit \<Rightarrow>
               if num_val 0 pre > 9223372036854775808 div unit then None
               else let v = num_val 0 pre * unit + num_val 0 frac * unit div 10 ^ length frac
                    in if v > 9223372036854775808 \<or> d + v > 9223372036854775808 then None
                       else duration_terms (d + v) r)"
  by pat_completeness auto
termination
  by (relation "measure (\<lambda>(d, s). length s)") (auto dest!: term_parts_shorter [OF sym])

declare duration_terms.simps [simp del]

definition time_ParseDuration :: "string \<Rightarrow> duration option" where
  "time_ParseDuration s =
     (let neg = (s \<noteq> [] \<and> hd s = CHR ''-'');
          s1 = (if s \<noteq> [] \<and> (hd s = CHR ''-'' \<or> hd s = CHR ''+'') then tl s else s)
      in if s1 = ''0'' then Some 0
         else if s1 = [] then None
         else case duration_terms 0 s1 of
                None \<Rightarrow> None
              | Some d \<Rightarrow> if neg then Some (- d) else if d > max_int64 then None else Some d)"

definition ParseDuration :: "string \<Rightarrow> duration option" where
  "ParseDuration s = (if s = [] then None else time_ParseDuration s)"

text \<open>The expression \<open>(?i)^(\d+)\s*(k|m|g)b?$\<close>.\<close>

definition byteSizeRegex :: regex where
  "byteSizeRegex =
     Cat Bol (Cat (Cap 1 (Plus (Chr is_digit))) (Cat (Star (Chr is_space))
       (Cat (Cap 2 (Chr (\<lambda>c. lower_char c \<in> {CHR ''k'', CHR ''m'', CHR ''g''})))
         (Cat (Opt (Chr (\<lambda>c. lower_char c = CHR ''b''))) Eol))))"

definition ParseByteSize :: "string \<Rightarrow> int option" where
  "ParseByteSize s0 =
     (if s0 = [] then None
      else let s = trim_space s0
           in case parse_int64 s of
                Some n \<Rightarrow> Some n
              | None \<Rightarrow>
                (case find_from byteSizeRegex s 0 of
                   None \<Rightarrow> None
                 | Some (i, j, c) \<Rightarrow>
                   (case parse_int64 (group s c 1) of
                      None \<Rightarrow> None
                    | Some value \<Rightarrow>
                      let unit = to_upper (group s c 2)
                      in if unit = ''K'' then Some (wrap64 (value * 1024))
                         else if unit = ''M'' then Some (wrap64 (wrap64 (value * 1024) * 1024))
                         else if unit = ''G'' then Some (wrap64 (wrap64 (wrap64 (value * 1024) * 1024) * 1024))
                         else None)))"

section \<open>Accessors\<close>

definition DefaultTimeout :: duration where "DefaultTimeout = 300000000000"
definition DefaultInlineThreshold :: int where "DefaultInlineThreshold = 1048576"
definition DefaultMaxConnections :: int where "DefaultMaxConnections = 64"
definition DefaultReadHeaderTimeout :: duration where "DefaultReadHeaderTimeout = 3000000000"
definition DefaultReadMessageTimeout :: duration where "DefaultReadMessageTimeout = 15000000000"
definition DefaultMaxStdinMessageSize :: int where "DefaultMaxStdinMessageSize = 1048576"
definition DefaultReplayCacheTTL :: duration where "DefaultReplayCacheTTL = 120000000000"
definition DefaultReplayCacheMaxEntries :: int where "DefaultReplayCacheMaxEntries = 10000"
definition DefaultWriteTimeout :: duration where "DefaultWriteTimeout = 30000000000"

lemmas config_defaults = DefaultTimeout_def DefaultInlineThreshold_def DefaultMaxConnections_def
  DefaultReadHeaderTimeout_def DefaultReadMessageTimeout_def DefaultMaxStdinMessageSize_def
  DefaultReplayCacheTTL_def DefaultReplayCacheMaxEntries_def DefaultWriteTimeout_def

definition GetTimeout :: "Config \<Rightarrow> duration" where
  "GetTimeout c =
     (case c_proxy c of None \<Rightarrow> DefaultTimeout
      | Some p \<Rightarrow> if pc_timeout p = [] then DefaultTimeout
                  else case ParseDuration (pc_timeout p) of None \<Rightarrow> DefaultTimeout | Some d \<Rightarrow> d)"

definition GetInlineThreshold :: "Config \<Rightarrow> int" where
  "GetInlineThreshold c =
     (case c_proxy c of None \<Rightarrow> DefaultInlineThreshold
      | Some p \<Rightarrow> if pc_inline_threshold p = [] then DefaultInlineThreshold
                  else case ParseByteSize (pc_inline_threshold p) of None \<Rightarrow> DefaultInlineThreshold | Some n \<Rightarrow> n)"

definition GetHMACSecretFile :: "path_env \<Rightarrow> Config \<Rightarrow> string" where
  "GetHMACSecretFile e c =
     (case c_proxy c of None \<Rightarrow> AuthPath e
      | Some p \<Rightarrow> if pc_hmac_secret_file p = [] then AuthPath e else pc_hmac_secret_file p)"

text \<open>A configured path that must be absolute, with what is used instead.\<close>

definition abs_or :: "string \<Rightarrow> (ProxyConfig \<Rightarrow> string) \<Rightarrow> Config \<Rightarrow> string" where
  "abs_or dflt field c =
     (case c_proxy c of None \<Rightarrow> dflt
      | Some p \<Rightarrow> if field p = [] then dflt else if \<not> is_abs (field p) then dflt else field p)"

definition GetPassBinary :: "path_env \<Rightarrow> Config \<Rightarrow> string" where
  "GetPassBinary e c = abs_or (DefaultPassBinary e) pc_pass_binary c"

definition GetOPBinary :: "Config \<Rightarrow> string" where "GetOPBinary c = abs_or [] pc_op_binary c"
definition GetBWBinary :: "Config \<Rightarrow> string" where "GetBWBinary c = abs_or [] pc_bw_binary c"
definition GetVaultBinary :: "Config \<Rightarrow> string" where "GetVaultBinary c = abs_or [] pc_vault_binary c"
definition GetVaultCACert :: "Config \<Rightarrow> string" where "GetVaultCACert c = abs_or [] pc_vault_cacert c"
definition GetVaultTokenFile :: "Config \<Rightarrow> string" where "GetVaultTokenFile c = abs_or [] pc_vault_token_file c"

definition GetOPTokenFile :: "Config \<Rightarrow> string" where
  "GetOPTokenFile c = abs_or DefaultOPTokenFile pc_op_token_file c"

definition GetAgeIdentityFile :: "Config \<Rightarrow> string" where
  "GetAgeIdentityFile c = abs_or DefaultAgeIdentityFile pc_age_identity_file c"

definition GetVaultAddr :: "Config \<Rightarrow> string" where
  "GetVaultAddr c = (case c_proxy c of None \<Rightarrow> [] | Some p \<Rightarrow> pc_vault_addr p)"

definition GetVaultSkipVerify :: "Config \<Rightarrow> bool option" where
  "GetVaultSkipVerify c = (case c_proxy c of None \<Rightarrow> None | Some p \<Rightarrow> pc_vault_skip_verify p)"

definition GetVaultNamespace :: "Config \<Rightarrow> string" where
  "GetVaultNamespace c = (case c_proxy c of None \<Rightarrow> [] | Some p \<Rightarrow> pc_vault_namespace p)"

definition GetMaxConnections :: "Config \<Rightarrow> int" where
  "GetMaxConnections c =
     (case c_proxy c of None \<Rightarrow> DefaultMaxConnections
      | Some p \<Rightarrow> if pc_max_connections p \<le> 0 then DefaultMaxConnections else pc_max_connections p)"

text \<open>A configured duration that must be positive, with what is used instead.\<close>

definition positive_duration :: "duration \<Rightarrow> (ProxyConfig \<Rightarrow> string) \<Rightarrow> Config \<Rightarrow> duration" where
  "positive_duration dflt field c =
     (case c_proxy c of None \<Rightarrow> dflt
      | Some p \<Rightarrow> if field p = [] then dflt
                  else case ParseDuration (field p) of None \<Rightarrow> dflt | Some d \<Rightarrow> if d \<le> 0 then dflt else d)"

definition GetReadHeaderTimeout :: "Config \<Rightarrow> duration" where
  "GetReadHeaderTimeout c = positive_duration DefaultReadHeaderTimeout pc_read_header_timeout c"

definition GetReadMessageTimeout :: "Config \<Rightarrow> duration" where
  "GetReadMessageTimeout c = positive_duration DefaultReadMessageTimeout pc_read_message_timeout c"

definition GetWriteTimeout :: "Config \<Rightarrow> duration" where
  "GetWriteTimeout c = positive_duration DefaultWriteTimeout pc_write_timeout c"

definition GetCredentialCacheTTL :: "Config \<Rightarrow> duration" where
  "GetCredentialCacheTTL c = positive_duration 0 pc_credential_cache_ttl c"

definition GetMaxConnectionLifetime :: "Config \<Rightarrow> duration" where
  "GetMaxConnectionLifetime c = positive_duration 0 pc_max_connection_lifetime c"

definition GetReplayCacheTTL :: "Config \<Rightarrow> duration" where
  "GetReplayCacheTTL c =
     (case c_proxy c of None \<Rightarrow> DefaultReplayCacheTTL
      | Some p \<Rightarrow>
        if pc_replay_cache_ttl p = [] then DefaultReplayCacheTTL
        else case ParseDuration (pc_replay_cache_ttl p) of
               None \<Rightarrow> DefaultReplayCacheTTL
             | Some d \<Rightarrow> if d \<le> 0 then DefaultReplayCacheTTL else if d < 10000000000 then 10000000000 else d)"

definition GetReplayCacheMaxEntries :: "Config \<Rightarrow> int" where
  "GetReplayCacheMaxEntries c =
     (case c_proxy c of None \<Rightarrow> DefaultReplayCacheMaxEntries
      | Some p \<Rightarrow> if pc_replay_cache_max p \<le> 0 then DefaultReplayCacheMaxEntries else pc_replay_cache_max p)"

definition GetMaxStdinMessageSize :: "Config \<Rightarrow> int" where
  "GetMaxStdinMessageSize c =
     (case c_proxy c of None \<Rightarrow> DefaultMaxStdinMessageSize
      | Some p \<Rightarrow>
        if pc_max_stdin_message_size p = [] then DefaultMaxStdinMessageSize
        else case ParseByteSize (pc_max_stdin_message_size p) of
               None \<Rightarrow> DefaultMaxStdinMessageSize
             | Some n \<Rightarrow> if n \<le> 0 then DefaultMaxStdinMessageSize
                         else if n > max_int64 then DefaultMaxStdinMessageSize else n)"

definition GetMaxOutputSize :: "Config \<Rightarrow> int" where
  "GetMaxOutputSize c =
     (case c_proxy c of None \<Rightarrow> 0
      | Some p \<Rightarrow>
        if pc_max_output_size p = [] then 0
        else case ParseByteSize (pc_max_output_size p) of None \<Rightarrow> 0 | Some n \<Rightarrow> if n \<le> 0 then 0 else n)"

definition tool_GetTimeout :: "ToolDef \<Rightarrow> duration \<Rightarrow> duration" where
  "tool_GetTimeout t globalDefault =
     (if td_timeout t = [] then globalDefault
      else case ParseDuration (td_timeout t) of None \<Rightarrow> globalDefault | Some d \<Rightarrow> d)"

text \<open>Whatever the configuration file says, the limits the daemon runs with are sane: connection
  and replay tables have room, read and write deadlines and the message size are positive, and the
  replay window is at least ten seconds.\<close>

lemma limits_always_positive:
  "0 < GetMaxConnections c \<and> 0 < GetReplayCacheMaxEntries c \<and> 0 < GetReadHeaderTimeout c \<and>
   0 < GetReadMessageTimeout c \<and> 0 < GetWriteTimeout c \<and> 0 < GetMaxStdinMessageSize c \<and>
   10000000000 \<le> GetReplayCacheTTL c \<and> 0 \<le> GetMaxOutputSize c \<and> 0 \<le> GetCredentialCacheTTL c"
  by (auto simp: GetMaxConnections_def GetReplayCacheMaxEntries_def GetReadHeaderTimeout_def
      GetReadMessageTimeout_def GetWriteTimeout_def GetMaxStdinMessageSize_def GetReplayCacheTTL_def
      GetMaxOutputSize_def GetCredentialCacheTTL_def positive_duration_def config_defaults split: option.split)

section \<open>Host and path patterns\<close>

datatype pattern_error =
    PatternEmpty
  | PatternEmptySuffix
  | PatternMethod string
  | PatternCompile

datatype file_error =
    PathEmpty
  | PathNul
  | PathAbsolute
  | PathBackslash
  | PathSlash
  | PathSeparator
  | PathSegment string
  | PathNotClean
  | TemplateEmpty
  | CAIsPath
  | CAInvalid
  | CAControl

datatype redact_error =
    RedactTooMany
  | RedactEmpty nat
  | RedactTooLong nat
  | RedactInvalid string
  | RedactMatchesEmpty nat
  | RedactReplaceTooLong nat

datatype cred_error =
    CredBoth
  | CredEmpty
  | CredAppID
  | CredInstallationID
  | CredPrivateKey
  | CredUnknownType string

datatype tool_error =
    ToolName
  | ToolBinaryEmpty
  | ToolBinaryRelative string
  | ToolWorkingDir string
  | ToolEnvName string
  | ToolPtyStdin
  | ToolEnvRefs "string list"
  | ToolConfigFile file_error
  | ToolConfigCred string
  | ToolRule rule_error
  | ToolMode string
  | ToolAllowedNeedsAllowlist
  | ToolAllowlistNeedsArgs
  | ToolRedact redact_error

datatype proxy_error =
    ProxyLogLevel string
  | ProxyValidity
  | ProxyCAFile file_error
  | RouteHost nat
  | RoutePattern nat pattern_error
  | RouteHeader nat
  | RouteValue nat
  | RouteCredential nat string
  | RouteAllow nat nat pattern_error
  | RouteDeny nat nat pattern_error

datatype audit_error =
    AuditNoOutput
  | AuditFile string
  | AuditFacility string

datatype config_error =
    InCredential string cred_error
  | InTool string tool_error
  | InProxy proxy_error
  | InAudit audit_error

text \<open>
  \<open>^[^.]+\.suffix$\<close> and \<open>^name$\<close> with the text quoted by \<open>regexp.QuoteMeta\<close>; \<open>regexp.Compile\<close> refuses
  text that is not UTF-8.
\<close>

definition compileHostPattern :: "string \<Rightarrow> pattern_error + regex" where
  "compileHostPattern pattern0 =
     (let pattern = trim_space pattern0
      in if pattern = [] then Inl PatternEmpty
         else if pattern = ''*.'' then Inl PatternEmptySuffix
         else let p = trim_suffix (to_lower pattern) ''.''
              in if p = [] then Inl PatternEmpty
                 else if \<not> utf8_valid p then Inl PatternCompile
                 else if has_prefix p ''*.''
                 then Inr (Cat Bol (Cat (Cat (Plus (Chr (\<lambda>c. c \<noteq> CHR ''.''))) (Lit (CHR ''.'' # drop 2 p))) Eol))
                 else Inr (Cat Bol (Cat (Lit p) Eol)))"

text \<open>
  The path expression: quoted text in which \<open>**\<close> has become \<open>.*\<close> and then \<open>*\<close> has become \<open>[^/]+\<close>.
  A dot does not match a line break.
\<close>

fun path_regex :: "string \<Rightarrow> regex" where
  "path_regex [] = Eps"
| "path_regex [c] = (if c = CHR ''*'' then Plus (Chr (\<lambda>x. x \<noteq> CHR ''/'')) else Chr (\<lambda>x. x = c))"
| "path_regex (c # d # r) =
     (if c = CHR ''*'' \<and> d = CHR ''*'' then Cat (Star (Chr (\<lambda>x. x \<noteq> LF))) (path_regex r)
      else if c = CHR ''*'' then Cat (Plus (Chr (\<lambda>x. x \<noteq> CHR ''/''))) (path_regex (d # r))
      else Cat (Chr (\<lambda>x. x = c)) (path_regex (d # r)))"

definition http_methods :: "string list" where
  "http_methods = [''*'', ''GET'', ''POST'', ''PUT'', ''DELETE'', ''PATCH'', ''HEAD'', ''OPTIONS'']"

definition compilePathRule :: "string \<Rightarrow> pattern_error + PathRule" where
  "compilePathRule pattern0 =
     (let pattern = trim_space pattern0
      in if pattern = [] then Inl PatternEmpty
         else let (meth, pathPattern) =
                (case cut_char CHR '' '' pattern of None \<Rightarrow> (''*'', pattern) | Some (a, b) \<Rightarrow> (to_upper a, b))
              in if meth \<notin> set http_methods then Inl (PatternMethod meth)
                 else if \<not> utf8_valid pathPattern then Inl PatternCompile
                 else Inr \<lparr>rule_method = meth, rule_pattern = Cat Bol (Cat (path_regex pathPattern) Eol)\<rparr>)"

text \<open>The expression \<open>\{\{([^}]+)\}\}\<close>.\<close>

definition credentialRefRe :: regex where
  "credentialRefRe = Cat (Lit ''{{'') (Cat (Cap 1 (Plus (Chr (\<lambda>c. c \<noteq> CHR ''}'')))) (Lit ''}}''))"

definition extractCredentialRefs :: "string \<Rightarrow> string list" where
  "extractCredentialRefs t =
     filter (\<lambda>r. r \<noteq> []) (map (\<lambda>(i, j, c). trim_space (group t c 1)) (find_all credentialRefRe t))"

section \<open>Files\<close>

definition validateSafeRelativePath :: "string \<Rightarrow> bool \<Rightarrow> file_error option" where
  "validateSafeRelativePath value allowNested =
     (if trim_space value = [] then Some PathEmpty
      else if NUL \<in> set value then Some PathNul
      else if is_abs value then Some PathAbsolute
      else if contains_str value [BACKSLASH] then Some PathBackslash
      else if has_prefix value ''/'' \<or> has_suffix value ''/'' then Some PathSlash
      else let parts = split_char CHR ''/'' value
           in if \<not> allowNested \<and> length parts > 1 then Some PathSeparator
              else case find (\<lambda>p. p = [] \<or> p = ''.'' \<or> p = ''..'') parts of
                     Some p \<Rightarrow> Some (PathSegment p)
                   | None \<Rightarrow> if path_clean value \<noteq> value then Some PathNotClean else None)"

definition validateConfigFileDef :: "ConfigFileDef \<Rightarrow> file_error option" where
  "validateConfigFileDef d =
     (case validateSafeRelativePath (cf_xdg_subdir d) True of
        Some e \<Rightarrow> Some e
      | None \<Rightarrow>
        (case validateSafeRelativePath (cf_filename d) False of
           Some e \<Rightarrow> Some e
         | None \<Rightarrow> if trim_space (cf_template d) = [] then Some TemplateEmpty else None))"

text \<open>Control characters are tested on runes; a byte below 32 or 127 is always a rune of its own.\<close>

definition validateCAFilename :: "string \<Rightarrow> file_error option" where
  "validateCAFilename f =
     (if f = [] then None
      else if list_ex (\<lambda>c. c = CHR ''/'' \<or> c = BACKSLASH) f then Some CAIsPath
      else if f = ''.'' \<or> f = ''..'' then Some CAInvalid
      else if NUL \<in> set f then Some PathNul
      else if list_ex (\<lambda>c. char_code c < 32 \<or> char_code c = 127) f then Some CAControl
      else None)"

section \<open>Validation\<close>

definition envVarNameRegex :: regex where
  "envVarNameRegex =
     Cat Bol (Cat (Cat (Chr (\<lambda>c. is_upper c \<or> is_lower c \<or> c = CHR ''_'')) (Star (Chr is_word))) Eol)"

definition toolNameRegex :: regex where
  "toolNameRegex =
     Cat Bol (Cat (Plus (Chr (\<lambda>c. is_word c \<or> c = CHR ''.'' \<or> c = CHR ''-''))) Eol)"

definition cred_validate :: "CredentialDef \<Rightarrow> cred_error option" where
  "cred_validate c =
     (let source = trim_space (cd_source c); typ = trim_space (cd_type c)
      in if source \<noteq> [] \<and> typ \<noteq> [] then Some CredBoth
         else if source = [] \<and> typ = [] then Some CredEmpty
         else if typ = [] then None
         else if typ = ''github-app'' then
           if cd_app_id c \<le> 0 then Some CredAppID
           else if cd_installation_id c \<le> 0 then Some CredInstallationID
           else if trim_space (cd_private_key c) = [] then Some CredPrivateKey
           else None
         else Some (CredUnknownType typ))"

fun first_error :: "('a \<Rightarrow> 'e option) \<Rightarrow> 'a list \<Rightarrow> 'e option" where
  "first_error f [] = None"
| "first_error f (x # xs) = (case f x of Some e \<Rightarrow> Some e | None \<Rightarrow> first_error f xs)"

fun map_error :: "('a \<Rightarrow> 'e + 'b) \<Rightarrow> 'a list \<Rightarrow> 'e + 'b list" where
  "map_error f [] = Inr []"
| "map_error f (x # xs) =
     (case f x of Inl e \<Rightarrow> Inl e
      | Inr y \<Rightarrow> (case map_error f xs of Inl e \<Rightarrow> Inl e | Inr ys \<Rightarrow> Inr (y # ys)))"

definition map_left :: "('e \<Rightarrow> 'f) \<Rightarrow> 'e + 'a \<Rightarrow> 'f + 'a" where
  "map_left f r = (case r of Inl e \<Rightarrow> Inl (f e) | Inr x \<Rightarrow> Inr x)"

fun compile_redact :: "(string \<Rightarrow> regex option) \<Rightarrow> nat \<Rightarrow> ToolRedactRule list \<Rightarrow> redact_error + ToolRedactRule list" where
  "compile_redact compile i [] = Inr []"
| "compile_redact compile i (r # rs) =
     (if trim_space (rr_pattern r) = [] then Inl (RedactEmpty i)
      else if length (rr_pattern r) > maxRedactPatternLength then Inl (RedactTooLong i)
      else case compile (rr_pattern r) of
             None \<Rightarrow> Inl (RedactInvalid (rr_pattern r))
           | Some re \<Rightarrow>
             if match_string re [] then Inl (RedactMatchesEmpty i)
             else let replace = (if rr_replace r = [] then DefaultRedactReplacement else rr_replace r)
                  in if length replace > maxRedactReplaceLength then Inl (RedactReplaceTooLong i)
                     else case compile_redact compile (Suc i) rs of
                            Inl e \<Rightarrow> Inl e
                          | Inr rs' \<Rightarrow> Inr (r\<lparr>rr_replace := replace, rr_compiled := Some re\<rparr> # rs'))"

text \<open>The checks of one tool that change nothing, in the order of the code.\<close>

definition tool_checks :: "string list \<Rightarrow> string \<Rightarrow> ToolDef \<Rightarrow> tool_error option" where
  "tool_checks credNames toolName tool =
     (if \<not> match_string toolNameRegex toolName then Some ToolName
      else if td_binary tool = [] then Some ToolBinaryEmpty
      else if \<not> is_abs (td_binary tool) then Some (ToolBinaryRelative (td_binary tool))
      else if td_working_dir tool \<noteq> [] \<and> \<not> is_abs (td_working_dir tool) then Some (ToolWorkingDir (td_working_dir tool))
      else case first_error (\<lambda>n. if match_string envVarNameRegex n then None else Some (ToolEnvName n))
                  (nil_slice (td_request_env tool)) of
             Some e \<Rightarrow> Some e
           | None \<Rightarrow>
             if td_use_pty tool = Some True \<and> \<not> GetUseStdin tool then Some ToolPtyStdin
             else case first_error (\<lambda>(n, v).
                      if \<not> match_string envVarNameRegex n then Some (ToolEnvName n)
                      else if ValidateEnvRefs v credNames \<noteq> [] then Some (ToolEnvRefs (ValidateEnvRefs v credNames))
                      else None) (td_env tool) of
                    Some e \<Rightarrow> Some e
                  | None \<Rightarrow>
                    (case first_error (\<lambda>(n, v). if match_string envVarNameRegex n then None else Some (ToolEnvName n))
                            (td_forced_env tool) of
                       Some e \<Rightarrow> Some e
                     | None \<Rightarrow>
                       (case td_config_file tool of
                          None \<Rightarrow> None
                        | Some cf \<Rightarrow>
                          (case validateConfigFileDef cf of
                             Some e \<Rightarrow> Some (ToolConfigFile e)
                           | None \<Rightarrow> first_error (\<lambda>n. if n \<in> set credNames then None else Some (ToolConfigCred n))
                                      (cf_credentials cf)))))"

definition tool_validate ::
  "(string \<Rightarrow> regex option) \<Rightarrow> string list \<Rightarrow> string \<times> ToolDef \<Rightarrow> config_error + (string \<times> ToolDef)" where
  "tool_validate compile credNames = (\<lambda>(toolName, tool).
     case tool_checks credNames toolName tool of
       Some e \<Rightarrow> Inl (InTool toolName e)
     | None \<Rightarrow>
       (case map_error (compileArgRule compile False) (td_blocked_args tool) of
          Inl e \<Rightarrow> Inl (InTool toolName (ToolRule e))
        | Inr blocked \<Rightarrow>
          let mode = (if trim_space (td_mode tool) = [] then ToolModeBlocklist else trim_space (td_mode tool))
          in if mode \<noteq> ToolModeBlocklist \<and> mode \<noteq> ToolModeAllowlist then Inl (InTool toolName (ToolMode (td_mode tool)))
             else if mode = ToolModeBlocklist \<and> td_allowed_args tool \<noteq> [] then Inl (InTool toolName ToolAllowedNeedsAllowlist)
             else if mode = ToolModeAllowlist \<and> td_allowed_args tool = [] then Inl (InTool toolName ToolAllowlistNeedsArgs)
             else case map_error (compileArgRule compile True) (td_allowed_args tool) of
                    Inl e \<Rightarrow> Inl (InTool toolName (ToolRule e))
                  | Inr allowed \<Rightarrow>
                    if length (td_redact_output tool) > maxRedactOutputRulesPerTool then Inl (InTool toolName (ToolRedact RedactTooMany))
                    else case compile_redact compile 0 (td_redact_output tool) of
                           Inl e \<Rightarrow> Inl (InTool toolName (ToolRedact e))
                         | Inr red \<Rightarrow>
                           Inr (toolName, tool\<lparr>td_blocked_args := blocked, td_mode := mode,
                                  td_allowed_args := allowed, td_redact_output := red\<rparr>)))"

definition route_validate ::
  "string list \<Rightarrow> nat \<times> ProxyRoute \<Rightarrow> proxy_error + ProxyRoute" where
  "route_validate credNames = (\<lambda>(i, route).
     if rt_host route = [] then Inl (RouteHost i)
     else case compileHostPattern (rt_host route) of
       Inl e \<Rightarrow> Inl (RoutePattern i e)
     | Inr re \<Rightarrow>
       if is_header (rt_inject route) = [] then Inl (RouteHeader i)
       else if is_value (rt_inject route) = [] then Inl (RouteValue i)
       else case find (\<lambda>r. r \<notin> set credNames) (extractCredentialRefs (is_value (rt_inject route))) of
              Some r \<Rightarrow> Inl (RouteCredential i r)
            | None \<Rightarrow>
              (case map_error (\<lambda>(j, p). map_left (RouteAllow i j) (compilePathRule p)) (enumerate 0 (rt_allow route)) of
                 Inl e \<Rightarrow> Inl e
               | Inr allow \<Rightarrow>
                 (case map_error (\<lambda>(j, p). map_left (RouteDeny i j) (compilePathRule p)) (enumerate 0 (rt_deny route)) of
                    Inl e \<Rightarrow> Inl e
                  | Inr deny \<Rightarrow>
                    Inr (route\<lparr>rt_host_regex := Some re, rt_allow_rules := rt_allow_rules route @ allow,
                               rt_deny_rules := rt_deny_rules route @ deny\<rparr>))))"

definition validateHTTPProxy :: "string list \<Rightarrow> HTTPProxyConfig \<Rightarrow> proxy_error + HTTPProxyConfig" where
  "validateHTTPProxy credNames cfg =
     (if hp_log_level cfg \<notin> {[], ''none'', ''errors'', ''info'', ''debug''} then Inl (ProxyLogLevel (hp_log_level cfg))
      else let cfg1 = (if hp_log_level cfg = [] then cfg\<lparr>hp_log_level := ''errors''\<rparr> else cfg)
           in if ca_validity_days (hp_ca cfg1) < 0 then Inl ProxyValidity
              else case validateCAFilename (ca_cert_file (hp_ca cfg1)) of
                     Some e \<Rightarrow> Inl (ProxyCAFile e)
                   | None \<Rightarrow>
                     (case validateCAFilename (ca_key_file (hp_ca cfg1)) of
                        Some e \<Rightarrow> Inl (ProxyCAFile e)
                      | None \<Rightarrow>
                        (case map_error (route_validate credNames) (enumerate 0 (hp_routes cfg1)) of
                           Inl e \<Rightarrow> Inl e
                         | Inr routes \<Rightarrow> Inr (cfg1\<lparr>hp_routes := routes\<rparr>))))"

definition validSyslogFacilities :: "string list" where
  "validSyslogFacilities =
     [''local0'', ''local1'', ''local2'', ''local3'', ''local4'', ''local5'', ''local6'', ''local7'']"

definition validateAudit :: "AuditConfig \<Rightarrow> audit_error option" where
  "validateAudit a =
     (if au_file a = [] \<and> \<not> au_syslog a \<and> \<not> au_stdout a then Some AuditNoOutput
      else if au_file a \<noteq> [] \<and> \<not> is_abs (au_file a) then Some (AuditFile (au_file a))
      else if au_syslog_facility a \<noteq> [] \<and> au_syslog_facility a \<notin> set validSyslogFacilities
        then Some (AuditFacility (au_syslog_facility a))
      else None)"

definition Validate :: "(string \<Rightarrow> regex option) \<Rightarrow> Config \<Rightarrow> config_error + Config" where
  "Validate compile c =
     (case first_error (\<lambda>(name, cred). map_option (InCredential name) (cred_validate cred)) (c_credentials c) of
        Some e \<Rightarrow> Inl e
      | None \<Rightarrow>
        (case map_error (tool_validate compile (CredentialNamesSet (c_credentials c))) (c_tools c) of
           Inl e \<Rightarrow> Inl e
         | Inr tools \<Rightarrow>
           (case (case c_http_proxy c of
                    None \<Rightarrow> Inr None
                  | Some h \<Rightarrow> if \<not> hp_enabled h then Inr (Some h)
                              else map_left InProxy (case validateHTTPProxy (CredentialNamesSet (c_credentials c)) h of
                                     Inl e \<Rightarrow> Inl e | Inr h' \<Rightarrow> Inr (Some h'))) of
              Inl e \<Rightarrow> Inl e
            | Inr hp \<Rightarrow>
              (case (case c_audit c of None \<Rightarrow> None | Some a \<Rightarrow> if au_enabled a then validateAudit a else None) of
                 Some e \<Rightarrow> Inl (InAudit e)
               | None \<Rightarrow> Inr (c\<lparr>c_tools := tools, c_http_proxy := hp\<rparr>)))))"

text \<open>\<open>Load\<close>: reading the file and parsing YAML are arguments.\<close>

datatype load_error = ReadConfig | ParseConfig | Invalid config_error

definition Load :: "(string \<Rightarrow> string option) \<Rightarrow> (string \<Rightarrow> Config option) \<Rightarrow> (string \<Rightarrow> regex option) \<Rightarrow> string \<Rightarrow> load_error + Config" where
  "Load read_file yaml compile path =
     (case read_file path of
        None \<Rightarrow> Inl ReadConfig
      | Some data \<Rightarrow>
        (case yaml data of
           None \<Rightarrow> Inl ParseConfig
         | Some c \<Rightarrow> map_left Invalid (Validate compile c)))"

definition LoadDefault :: "(string \<Rightarrow> string option) \<Rightarrow> (string \<Rightarrow> Config option) \<Rightarrow> (string \<Rightarrow> regex option) \<Rightarrow> load_error + Config" where
  "LoadDefault read_file yaml compile = Load read_file yaml compile ConfigPath"

section \<open>What a loaded configuration guarantees\<close>

lemma map_error_Inr: "map_error f xs = Inr ys \<Longrightarrow> list_all2 (\<lambda>x y. f x = Inr y) xs ys"
  by (induction xs arbitrary: ys) (auto split: sum.splits)

lemma map_error_mem: "map_error f xs = Inr ys \<Longrightarrow> y \<in> set ys \<Longrightarrow> \<exists>x \<in> set xs. f x = Inr y"
  by (induction xs arbitrary: ys) (auto split: sum.splits)

lemma map_error_length: "map_error f xs = Inr ys \<Longrightarrow> length ys = length xs"
  using map_error_Inr [of f xs ys] by (simp add: list_all2_lengthD)

lemma first_error_None: "first_error f xs = None \<longleftrightarrow> (\<forall>x \<in> set xs. f x = None)"
  by (induction xs) (auto split: option.splits)

lemma compile_redact_ok:
  "compile_redact compile i rs = Inr rs' \<Longrightarrow> length rs' = length rs \<and>
   (\<forall>r \<in> set rs'. \<exists>re. rr_compiled r = Some re \<and> \<not> match_string re [] \<and> rr_replace r \<noteq> [])"
  by (induction rs arbitrary: i rs')
    (auto simp: DefaultRedactReplacement_def Let_def split: if_splits option.splits sum.splits)

text \<open>The invariant of a loaded tool.\<close>

definition tool_loaded :: "string list \<Rightarrow> ToolDef \<Rightarrow> bool" where
  "tool_loaded credNames t \<longleftrightarrow>
     is_abs (td_binary t) \<and> (td_working_dir t = [] \<or> is_abs (td_working_dir t)) \<and>
     list_all (rule_loaded False) (td_blocked_args t) \<and> list_all (rule_loaded True) (td_allowed_args t) \<and>
     (td_mode t = ToolModeBlocklist \<and> td_allowed_args t = [] \<or>
      td_mode t = ToolModeAllowlist \<and> td_allowed_args t \<noteq> []) \<and>
     length (td_redact_output t) \<le> 64 \<and>
     list_all (\<lambda>r. \<exists>re. rr_compiled r = Some re \<and> \<not> match_string re []) (td_redact_output t) \<and>
     list_all (\<lambda>(n, v). match_string envVarNameRegex n \<and> ValidateEnvRefs v credNames = []) (td_env t) \<and>
     (\<forall>cf. td_config_file t = Some cf \<longrightarrow> validateConfigFileDef cf = None \<and> set (cf_credentials cf) \<subseteq> set credNames)"

lemma tool_checks_None:
  assumes "tool_checks credNames n t = None"
  shows "match_string toolNameRegex n" "is_abs (td_binary t)" "td_working_dir t = [] \<or> is_abs (td_working_dir t)"
    and "list_all (\<lambda>(n, v). match_string envVarNameRegex n \<and> ValidateEnvRefs v credNames = []) (td_env t)"
    and "td_config_file t = Some cf \<Longrightarrow> validateConfigFileDef cf = None \<and> set (cf_credentials cf) \<subseteq> set credNames"
  using assms
  by (auto simp: tool_checks_def first_error_None list_all_iff split: if_splits option.splits)

lemma rules_loaded:
  "map_error (compileArgRule compile b) rs = Inr rs' \<Longrightarrow> list_all (rule_loaded b) rs'"
  by (auto simp: list_all_iff dest!: map_error_mem compileArgRule_loaded)

lemma tool_validate_loaded:
  assumes "tool_validate compile credNames (n, t) = Inr (n', t')"
  shows "n' = n \<and> match_string toolNameRegex n \<and> tool_loaded credNames t'"
proof -
  define mode where "mode = (if trim_space (td_mode t) = [] then ToolModeBlocklist else trim_space (td_mode t))"
  from assms obtain blocked allowed red where c: "tool_checks credNames n t = None"
    "map_error (compileArgRule compile False) (td_blocked_args t) = Inr blocked"
    "map_error (compileArgRule compile True) (td_allowed_args t) = Inr allowed"
    "compile_redact compile 0 (td_redact_output t) = Inr red" "length (td_redact_output t) \<le> maxRedactOutputRulesPerTool"
    "mode = ToolModeBlocklist \<and> td_allowed_args t = [] \<or> mode = ToolModeAllowlist \<and> td_allowed_args t \<noteq> []"
    and t': "n' = n" "t' = t\<lparr>td_blocked_args := blocked, td_mode := mode, td_allowed_args := allowed, td_redact_output := red\<rparr>"
    unfolding tool_validate_def mode_def [symmetric]
    by (auto simp: Let_def tool_modes mode_def [symmetric] split: option.splits sum.splits if_splits)
  have "td_allowed_args t = [] \<longleftrightarrow> allowed = []" using map_error_length [OF c(3)] by auto
  moreover have "length red \<le> 64" "list_all (\<lambda>r. \<exists>re. rr_compiled r = Some re \<and> \<not> match_string re []) red"
    using compile_redact_ok [OF c(4)] c(5) by (auto simp: maxRedactOutputRulesPerTool_def list_all_iff)
  ultimately show ?thesis
    using tool_checks_None [OF c(1)] rules_loaded [OF c(2)] rules_loaded [OF c(3)] c(6)
    by (auto simp: t' tool_loaded_def)
qed

text \<open>C22: in a configuration that loads, every tool is ready to be enforced: its binary is an absolute
  path, its rules are compiled, allowlist mode goes with a non-empty list, its redaction rules
  compile and cannot match the empty string, and all its credential references are defined.\<close>
theorem loaded_tools_enforceable:
  assumes "Validate compile c = Inr c'" "(n, t) \<in> set (c_tools c')"
  shows "tool_loaded (map fst (c_credentials c')) t \<and> match_string toolNameRegex n"
proof -
  obtain tools where tools: "map_error (tool_validate compile (CredentialNamesSet (c_credentials c))) (c_tools c) = Inr tools"
    and "c_tools c' = tools" "c_credentials c' = c_credentials c"
    using assms(1) by (auto simp: Validate_def split: option.splits sum.splits if_splits)
  with map_error_mem [OF tools, of "(n, t)"] assms(2) obtain n0 t0 where
    "tool_validate compile (map fst (c_credentials c')) (n0, t0) = Inr (n, t)"
    by (auto simp: CredentialNamesSet_def)
  from tool_validate_loaded [OF this] show ?thesis by simp
qed

definition sample_config :: Config where
  "sample_config = zero_config\<lparr>c_tools := [(''gh'', zero_tool\<lparr>td_binary := ''/usr/bin/gh''\<rparr>)]\<rparr>"

theorem loaded_tools_enforceable_witness:
  "\<exists>c'. Validate (\<lambda>p. None) sample_config = Inr c' \<and>
     (''gh'', zero_tool\<lparr>td_binary := ''/usr/bin/gh'', td_mode := ToolModeBlocklist\<rparr>) \<in> set (c_tools c') \<and>
     tool_loaded (map fst (c_credentials c')) (zero_tool\<lparr>td_binary := ''/usr/bin/gh'', td_mode := ToolModeBlocklist\<rparr>)"
proof -
  let ?t = "zero_tool\<lparr>td_binary := ''/usr/bin/gh'', td_mode := ToolModeBlocklist\<rparr>"
  have m: "match_string toolNameRegex ''gh''" "trim_space [] = []" by code_simp+
  have v: "Validate (\<lambda>p. None) sample_config = Inr (sample_config\<lparr>c_tools := [(''gh'', ?t)]\<rparr>)"
    by (simp add: Validate_def sample_config_def zero_config_def zero_tool_def tool_validate_def tool_checks_def m
        nil_slice_def tool_modes is_abs_def maxRedactOutputRulesPerTool_def)
  from loaded_tools_enforceable [OF v, of "''gh''" ?t] v show ?thesis by auto
qed

section \<open>Generated files stay where they belong\<close>

lemma safe_relative_path:
  assumes "validateSafeRelativePath v nested = None"
  shows "\<forall>q \<in> set (split_char CHR ''/'' v). plain_part q" "NUL \<notin> set v" "nested \<or> CHR ''/'' \<notin> set v"
proof -
  have "find (\<lambda>p. p = [] \<or> p = ''.'' \<or> p = ''..'') (split_char CHR ''/'' v) = None" "NUL \<notin> set v"
    "nested \<or> length (split_char CHR ''/'' v) \<le> 1"
    using assms by (auto simp: validateSafeRelativePath_def Let_def split: if_splits option.splits)
  moreover have "CHR ''/'' \<in> set v \<Longrightarrow> 1 < length (split_char CHR ''/'' v)"
  proof -
    assume "CHR ''/'' \<in> set v"
    then obtain a b where "v = a @ CHR ''/'' # b" "CHR ''/'' \<notin> set a" by (metis split_list_first)
    then show ?thesis by (simp add: split_char_append length_greater_0_conv [symmetric] del: length_greater_0_conv)
        (metis length_greater_0_conv split_char_not_Nil)
  qed
  ultimately show "\<forall>q \<in> set (split_char CHR ''/'' v). plain_part q" "NUL \<notin> set v" "nested \<or> CHR ''/'' \<notin> set v"
    by (auto simp: find_None_iff plain_part_def)
qed

text \<open>A generated configuration file lies below the directory made for it: joining an accepted
  subdirectory and file name to a clean directory appends them literally, whatever they contain.\<close>

lemma config_file_stays_inside:
  assumes "validateConfigFileDef d = None" "abs_clean dir"
  shows "path_join [dir, cf_xdg_subdir d] = dir @ ''/'' @ cf_xdg_subdir d \<and>
     path_join [dir @ ''/'' @ cf_xdg_subdir d, cf_filename d] = dir @ ''/'' @ cf_xdg_subdir d @ ''/'' @ cf_filename d"
proof -
  have v: "validateSafeRelativePath (cf_xdg_subdir d) True = None" "validateSafeRelativePath (cf_filename d) False = None"
    using assms(1) by (auto simp: validateConfigFileDef_def split: option.splits)
  note s = safe_relative_path(1) [OF v(1)] safe_relative_path(1) [OF v(2)]
  have "abs_clean (dir @ ''/'' @ cf_xdg_subdir d)"
    by (rule abs_clean_extend [OF assms(2) s(1)])
  from path_join_safe [OF assms(2) s(1)] path_join_safe [OF this s(2)] show ?thesis by simp
qed

lemma config_file_stays_inside_witness:
  "path_join [''/tmp/x'', ''gh''] = ''/tmp/x'' @ ''/'' @ ''gh'' \<and>
   path_join [''/tmp/x'' @ ''/'' @ ''gh'', ''hosts.yml''] = ''/tmp/x'' @ ''/'' @ ''gh'' @ ''/'' @ ''hosts.yml''"
proof -
  let ?d = "\<lparr>cf_xdg_subdir = ''gh'', cf_filename = ''hosts.yml'', cf_template = ''token: {{t}}'', cf_credentials = []\<rparr>"
  have "validateConfigFileDef ?d = None" by code_simp
  moreover have "abs_clean ''/tmp/x''" using abs_cleanI [of "[''tmp'', ''x'']"] by (simp add: plain_part_def)
  ultimately show ?thesis using config_file_stays_inside [of ?d "''/tmp/x''"] by simp
qed

section \<open>What host and path patterns match\<close>

lemma full_match_Cat_Lit:
  "full_match (Cat r (Lit w)) s \<longleftrightarrow> (\<exists>u. s = u @ w \<and> length u \<in> fst ` set (ends r s 0 (\<lambda>_. None)))"
proof
  assume "full_match (Cat r (Lit w)) s"
  then obtain d k e where k: "(k, e) \<in> set (ends r s 0 (\<lambda>_. None))" "(length s, d) \<in> set (ends (Lit w) s k e)"
    unfolding full_match_def ends_Cat_iff by (auto simp: ends_Cat_iff simp del: Lit.simps ends.simps)
  have "k \<le> length s" using ends_bounds [OF k(1)] by simp
  with k(2) have "has_prefix (drop k s) w" "length s = k + length w" by (auto simp: ends_Lit split: if_splits)
  then have "drop k s = w" by (metis add_diff_cancel_left' has_prefix_def length_drop order_refl take_all)
  then have "s = take k s @ w" by (metis append_take_drop_id)
  with k(1) \<open>k \<le> length s\<close> show "\<exists>u. s = u @ w \<and> length u \<in> fst ` set (ends r s 0 (\<lambda>_. None))"
    by (intro exI [of _ "take k s"]) (force simp: min_absorb2)
next
  assume "\<exists>u. s = u @ w \<and> length u \<in> fst ` set (ends r s 0 (\<lambda>_. None))"
  then obtain u e where u: "s = u @ w" "(length u, e) \<in> set (ends r s 0 (\<lambda>_. None))" by auto
  then have "(length s, e) \<in> set (ends (Lit w) s (length u) e)" by (simp add: ends_Lit has_prefix_def)
  with u(2) have "(length s, e) \<in> set (ends (Cat r (Lit w)) s 0 (\<lambda>_. None))" unfolding ends_Cat_iff by blast
  then show "full_match (Cat r (Lit w)) s" by (force simp: full_match_def)
qed

lemma full_match_Plus_Lit:
  "full_match (Cat (Plus (Chr P)) (Lit w)) s \<longleftrightarrow> (\<exists>u. s = u @ w \<and> u \<noteq> [] \<and> (\<forall>x \<in> set u. P x))"
proof -
  have "length u \<in> fst ` set (ends (Plus (Chr P)) (u @ w) 0 (\<lambda>_. None)) \<longleftrightarrow> u \<noteq> [] \<and> (\<forall>x \<in> set u. P x)" for u
  proof -
    have "length u \<in> fst ` set (ends (Plus (Chr P)) (u @ w) 0 (\<lambda>_. None)) \<longleftrightarrow>
        (\<exists>d. (length u, d) \<in> set (ends (Plus (Chr P)) (u @ w) 0 (\<lambda>_. None)))" by force
    also have "\<dots> \<longleftrightarrow> (\<exists>xs r. u @ w = xs @ r \<and> xs \<noteq> [] \<and> (\<forall>x \<in> set xs. P x) \<and> length u = length xs)"
      by (subst ends_Plus_drop) auto
    also have "\<dots> \<longleftrightarrow> u \<noteq> [] \<and> (\<forall>x \<in> set u. P x)" by auto
    finally show ?thesis .
  qed
  note k = this
  show ?thesis unfolding full_match_Cat_Lit by (intro ex_cong1 conj_cong refl) (simp add: k)
qed

text \<open>A host pattern without a wildcard matches exactly its own lower-case name; a pattern
  \<open>*.suffix\<close> matches exactly the names with one more label in front, so neither the bare suffix,
  nor a deeper subdomain, nor a name that merely ends in the same letters.\<close>
lemma host_pattern_matches:
  assumes "compileHostPattern pattern = Inr re" "p = trim_suffix (to_lower (trim_space pattern)) ''.''"
  shows "match_string re host \<longleftrightarrow>
     (if has_prefix p ''*.''
      then \<exists>label. host = label @ CHR ''.'' # drop 2 p \<and> label \<noteq> [] \<and> CHR ''.'' \<notin> set label
      else host = p)"
proof -
  have "re = (if has_prefix p ''*.''
      then Cat Bol (Cat (Cat (Plus (Chr (\<lambda>c. c \<noteq> CHR ''.''))) (Lit (CHR ''.'' # drop 2 p))) Eol)
      else Cat Bol (Cat (Lit p) Eol))"
    using assms(1) unfolding compileHostPattern_def Let_def assms(2) [symmetric] by (auto split: if_splits)
  then show ?thesis by (auto simp: match_string_anchored full_match_Plus_Lit full_match_Lit simp del: Lit.simps)
qed

text \<open>What a path pattern means: \<open>*\<close> is one non-empty segment, \<open>**\<close> any text without a line break.\<close>

fun glob :: "string \<Rightarrow> string \<Rightarrow> bool" where
  "glob [] u = (u = [])"
| "glob [c] u = (if c = CHR ''*'' then u \<noteq> [] \<and> CHR ''/'' \<notin> set u else u = [c])"
| "glob (c # d # r) u =
     (if c = CHR ''*'' \<and> d = CHR ''*'' then
        list_ex (\<lambda>i. LF \<notin> set (take i u) \<and> glob r (drop i u)) [0..<Suc (length u)]
      else if c = CHR ''*'' then
        list_ex (\<lambda>i. 0 < i \<and> CHR ''/'' \<notin> set (take i u) \<and> glob (d # r) (drop i u)) [0..<Suc (length u)]
      else (case u of [] \<Rightarrow> False | x # v \<Rightarrow> x = c \<and> glob (d # r) v))"

text \<open>A concatenation matches the text that splits into a match of each part.\<close>

lemma ends_Cat_drop:
  assumes i: "i \<le> length s"
    and a: "\<And>k d. (k, d) \<in> set (ends a s i c) \<longleftrightarrow> d = c \<and> (\<exists>xs t. drop i s = xs @ t \<and> P xs \<and> k = i + length xs)"
    and b: "\<And>k. k \<le> length s \<Longrightarrow> (\<exists>d. (j, d) \<in> set (ends b s k c)) \<longleftrightarrow> (\<exists>u v. drop k s = u @ v \<and> j = k + length u \<and> Q u)"
  shows "(\<exists>d. (j, d) \<in> set (ends (Cat a b) s i c)) \<longleftrightarrow>
      (\<exists>u v. drop i s = u @ v \<and> j = i + length u \<and> (\<exists>k \<le> length u. P (take k u) \<and> Q (drop k u)))"
proof
  assume "\<exists>d. (j, d) \<in> set (ends (Cat a b) s i c)"
  then obtain d k e where ke: "(k, e) \<in> set (ends a s i c)" "(j, d) \<in> set (ends b s k e)" unfolding ends_Cat_iff by blast
  from ke(1) obtain xs t where e: "e = c" and xs: "drop i s = xs @ t" "P xs" "k = i + length xs" unfolding a by blast
  from drop_split [OF i xs(1)] have k: "k \<le> length s" "drop k s = t" using xs(3) by auto
  have "\<exists>d. (j, d) \<in> set (ends b s k c)" using ke(2) e by blast
  then obtain u v where "t = u @ v" "j = k + length u" "Q u" unfolding b [OF k(1)] k(2) by blast
  with xs show "\<exists>u v. drop i s = u @ v \<and> j = i + length u \<and> (\<exists>k \<le> length u. P (take k u) \<and> Q (drop k u))"
    by (intro exI [of _ "xs @ u"] exI [of _ v]) (auto intro!: exI [of _ "length xs"])
next
  assume "\<exists>u v. drop i s = u @ v \<and> j = i + length u \<and> (\<exists>k \<le> length u. P (take k u) \<and> Q (drop k u))"
  then obtain u v k where u: "drop i s = u @ v" "j = i + length u" "k \<le> length u" "P (take k u)" "Q (drop k u)" by blast
  have d: "drop i s = take k u @ drop k u @ v" using u(1) by (metis append.assoc append_take_drop_id)
  have l: "length (take k u) = k" using u(3) by simp
  from drop_split [OF i d] l have k: "i + k \<le> length s" "drop (i + k) s = drop k u @ v" by auto
  have "(i + k, c) \<in> set (ends a s i c)" unfolding a using d u(4) l by (metis (no_types))
  moreover have "\<exists>d. (j, d) \<in> set (ends b s (i + k) c)" using b [OF k(1)] k(2) u(2,3,5) by auto
  ultimately show "\<exists>d. (j, d) \<in> set (ends (Cat a b) s i c)" unfolding ends_Cat_iff by blast
qed

lemma path_regex_ends:
  assumes "i \<le> length s"
  shows "(\<exists>d. (j, d) \<in> set (ends (path_regex p) s i c)) \<longleftrightarrow> (\<exists>u v. drop i s = u @ v \<and> j = i + length u \<and> glob p u)"
  using assms
proof (induction p arbitrary: i c rule: path_regex.induct)
  case 1
  then show ?case by auto
next
  case (2 x)
  show ?case
  proof (cases "x = CHR ''*''")
    case True
    then show ?thesis using ends_Plus_drop [OF 2] by (auto simp: Ball_def)
  next
    case False
    have "(\<exists>u v. drop i s = u @ v \<and> j = i + length u \<and> u = [x]) \<longleftrightarrow> i < length s \<and> s ! i = x \<and> j = Suc i"
      by (auto simp: Cons_nth_drop_Suc [symmetric]) (metis drop_eq_Nil linorder_not_le list.distinct(1) nth_via_drop)+
    with False show ?thesis by auto
  qed
next
  case (3 x y r)
  consider "x = CHR ''*''" "y = CHR ''*''" | "x = CHR ''*''" "y \<noteq> CHR ''*''" | "x \<noteq> CHR ''*''" by blast
  then show ?case
  proof cases
    case 1
    have "(\<exists>d. (j, d) \<in> set (ends (Cat (Star (Chr (\<lambda>x. x \<noteq> LF))) (path_regex r)) s i c)) \<longleftrightarrow>
        (\<exists>u v. drop i s = u @ v \<and> j = i + length u \<and> (\<exists>k \<le> length u. LF \<notin> set (take k u) \<and> glob r (drop k u)))"
    proof (rule ends_Cat_drop [OF 3(4), where P = "\<lambda>xs. LF \<notin> set xs"])
      have n: "(\<forall>z \<in> set xs. z \<noteq> LF) \<longleftrightarrow> LF \<notin> set xs" for xs by auto
      show "(k, d) \<in> set (ends (Star (Chr (\<lambda>x. x \<noteq> LF))) s i c) \<longleftrightarrow>
          d = c \<and> (\<exists>xs t. drop i s = xs @ t \<and> LF \<notin> set xs \<and> k = i + length xs)" for k d
        unfolding ends_Star_drop [OF 3(4)] n by (rule refl)
    qed (use 3(1) 1 in blast)
    with 1 show ?thesis by (simp add: list_ex_iff Bex_def less_Suc_eq_le del: upt_Suc ends.simps)
  next
    case 2
    have "(\<exists>d. (j, d) \<in> set (ends (Cat (Plus (Chr (\<lambda>x. x \<noteq> CHR ''/''))) (path_regex (y # r))) s i c)) \<longleftrightarrow>
        (\<exists>u v. drop i s = u @ v \<and> j = i + length u \<and>
           (\<exists>k \<le> length u. (take k u \<noteq> [] \<and> CHR ''/'' \<notin> set (take k u)) \<and> glob (y # r) (drop k u)))"
    proof (rule ends_Cat_drop [OF 3(4), where P = "\<lambda>xs. xs \<noteq> [] \<and> CHR ''/'' \<notin> set xs"])
      have n: "(\<forall>z \<in> set xs. z \<noteq> CHR ''/'') \<longleftrightarrow> CHR ''/'' \<notin> set xs" for xs by auto
      show "(k, d) \<in> set (ends (Plus (Chr (\<lambda>x. x \<noteq> CHR ''/''))) s i c) \<longleftrightarrow>
          d = c \<and> (\<exists>xs t. drop i s = xs @ t \<and> (xs \<noteq> [] \<and> CHR ''/'' \<notin> set xs) \<and> k = i + length xs)" for k d
        unfolding ends_Plus_drop [OF 3(4)] n by (simp only: conj_assoc)
    qed (use 3(2) 2 in blast)
    moreover have "(\<exists>k \<le> length u. (take k u \<noteq> [] \<and> CHR ''/'' \<notin> set (take k u)) \<and> glob (y # r) (drop k u)) \<longleftrightarrow>
        (\<exists>k \<le> length u. 0 < k \<and> CHR ''/'' \<notin> set (take k u) \<and> glob (y # r) (drop k u))" for u :: string
      by (rule ex_cong1) (cases u; auto)
    moreover have "path_regex (x # y # r) = Cat (Plus (Chr (\<lambda>x. x \<noteq> CHR ''/''))) (path_regex (y # r))" using 2 by simp
    ultimately show ?thesis using 2
      by (simp add: list_ex_iff Bex_def less_Suc_eq_le del: upt_Suc ends.simps path_regex.simps(2,3))
  next
    case c3: 3
    have "(\<exists>d. (j, d) \<in> set (ends (Cat (Chr (\<lambda>z. z = x)) (path_regex (y # r))) s i c)) \<longleftrightarrow>
        (\<exists>u v. drop i s = u @ v \<and> j = i + length u \<and> (\<exists>k \<le> length u. take k u = [x] \<and> glob (y # r) (drop k u)))"
    proof (rule ends_Cat_drop [OF 3(4), where P = "\<lambda>xs. xs = [x]"])
      show "(k, d) \<in> set (ends (Chr (\<lambda>z. z = x)) s i c) \<longleftrightarrow> d = c \<and> (\<exists>xs t. drop i s = xs @ t \<and> xs = [x] \<and> k = i + length xs)" for k d
        by (auto simp: Cons_nth_drop_Suc [symmetric]) (metis drop_eq_Nil linorder_not_le list.distinct(1) nth_via_drop)+
    qed (use 3(3) c3 in auto)
    moreover have "(\<exists>k \<le> length u. take k u = [x] \<and> glob (y # r) (drop k u)) \<longleftrightarrow> (case u of [] \<Rightarrow> False | z # v \<Rightarrow> z = x \<and> glob (y # r) v)" for u :: string
      by (cases u) (auto simp: take_Cons' le_Suc_eq Suc_le_eq intro!: exI [of _ "Suc 0"] split: if_splits)
    moreover have "path_regex (x # y # r) = Cat (Chr (\<lambda>z. z = x)) (path_regex (y # r))" using c3 by simp
    ultimately show ?thesis using c3 by (simp del: ends.simps path_regex.simps(2,3))
  qed
qed

text \<open>A compiled path rule matches exactly the paths its pattern describes: literal text as it
  stands, \<open>*\<close> one non-empty path segment, \<open>**\<close> any rest without a line break. A path with an encoded
  line break is therefore outside every \<open>**\<close> rule, a deny rule included.\<close>
lemma path_rule_matches:
  assumes "compilePathRule pattern = Inr rule"
    and "p = (case cut_char CHR '' '' (trim_space pattern) of None \<Rightarrow> trim_space pattern | Some (a, b) \<Rightarrow> b)"
  shows "match_string (rule_pattern rule) path \<longleftrightarrow> glob p path"
proof -
  have "rule_pattern rule = Cat Bol (Cat (path_regex p) Eol)"
    using assms by (auto simp: compilePathRule_def Let_def split: if_splits option.splits prod.splits)
  then have "match_string (rule_pattern rule) path \<longleftrightarrow> full_match (path_regex p) path" by (simp only: match_string_anchored)
  also have "\<dots> \<longleftrightarrow> (\<exists>d. (length path, d) \<in> set (ends (path_regex p) path 0 (\<lambda>_. None)))"
    by (force simp: full_match_def)
  also have "\<dots> \<longleftrightarrow> glob p path" by (subst path_regex_ends) auto
  finally show ?thesis .
qed

lemma line_break_escapes_rule:
  "\<exists>rule. compilePathRule ''DELETE /repos/**'' = Inr rule \<and> match_string (rule_pattern rule) ''/repos/a/b'' \<and>
     \<not> match_string (rule_pattern rule) (''/repos/a'' @ [LF])"
proof -
  let ?rule = "\<lparr>rule_method = ''DELETE'', rule_pattern = Cat Bol (Cat (path_regex ''/repos/**'') Eol)\<rparr>"
  have t: "trim_space ''DELETE /repos/**'' = ''DELETE /repos/**''" "to_upper ''DELETE'' = ''DELETE''" "utf8_valid ''/repos/**''"
    by code_simp+
  have c: "compilePathRule ''DELETE /repos/**'' = Inr ?rule"
    by (simp add: compilePathRule_def t http_methods_def del: path_regex.simps)
  have g: "glob ''/repos/**'' ''/repos/a/b''" "\<not> glob ''/repos/**'' (''/repos/a'' @ [LF])" by code_simp+
  have "match_string (rule_pattern ?rule) path \<longleftrightarrow> glob ''/repos/**'' path" for path
    by (rule path_rule_matches [OF c]) (simp add: t)
  with c g show ?thesis by blast
qed

section \<open>Sizes wrap around\<close>

text \<open>A size is computed in 64 bits without an overflow check: an output limit of 2^34 gigabytes
  is read as 0, which means no limit at all.\<close>

lemma byte_size_wraps:
  "c_proxy c = Some p \<Longrightarrow> pc_max_output_size p = ''17179869184G'' \<Longrightarrow> GetMaxOutputSize c = 0"
proof -
  have "ParseByteSize ''17179869184G'' = Some 0" by code_simp
  then show "c_proxy c = Some p \<Longrightarrow> pc_max_output_size p = ''17179869184G'' \<Longrightarrow> GetMaxOutputSize c = 0"
    by (simp add: GetMaxOutputSize_def)
qed

definition sample_proxy :: ProxyConfig where
  "sample_proxy = \<lparr>pc_timeout = [], pc_inline_threshold = [], pc_hmac_secret_file = [], pc_pass_binary = [],
     pc_op_binary = [], pc_op_token_file = [], pc_bw_binary = [], pc_age_identity_file = [], pc_max_connections = 0,
     pc_read_header_timeout = [], pc_read_message_timeout = [], pc_max_stdin_message_size = [], pc_max_output_size = [],
     pc_write_timeout = [], pc_max_connection_lifetime = [], pc_replay_cache_ttl = [], pc_replay_cache_max = 0,
     pc_credential_cache_ttl = [], pc_vault_binary = [], pc_vault_addr = [], pc_vault_skip_verify = None,
     pc_vault_cacert = [], pc_vault_namespace = [], pc_vault_token_file = []\<rparr>"

lemma byte_size_wraps_witness:
  "GetMaxOutputSize (zero_config\<lparr>c_proxy := Some (sample_proxy\<lparr>pc_max_output_size := ''17179869184G''\<rparr>)\<rparr>) = 0"
  by (rule byte_size_wraps [of _ "sample_proxy\<lparr>pc_max_output_size := ''17179869184G''\<rparr>"]) simp_all

end
