(* ===== verification/Cache.thy ===== *)
theory Cache
  imports Prelude "HOL-Library.Multiset"
begin

text \<open>
  \<open>internal/credentials/cache.go\<close>: the in-memory cache of credential values, its early refresh, and
  \<open>fetchCached\<close>, which falls back to a value that is due for refresh but not expired when the backend
  fails. Each section the code runs under the mutex is one definition, so the step relation
  \<open>cache_step\<close> covers every interleaving of callers, of \<open>SetTTL\<close> and of the sweeper.
\<close>

section \<open>Data\<close>

record Credential =
  cr_value :: string
  cr_expires_at :: time

record credentialCacheEntry =
  ce_value :: string
  ce_refresh_at :: time
  ce_hard_expires_at :: time

text \<open>The stop and done channels and the interval of a running sweeper are one optional interval.\<close>

record credentialCache =
  cc_ttl :: duration
  cc_entries :: "(string, credentialCacheEntry) gomap"
  cc_sweeper :: "duration option"

definition minCredentialCacheSweepInterval :: duration where
  "minCredentialCacheSweepInterval = 5 * second"

definition maxCredentialCacheSweepInterval :: duration where
  "maxCredentialCacheSweepInterval = minute"

definition credentialEarlyRefreshMargin :: duration where
  "credentialEarlyRefreshMargin = 5 * minute"

definition newCredentialCache :: credentialCache where
  "newCredentialCache = \<lparr>cc_ttl = 0, cc_entries = [], cc_sweeper = None\<rparr>"

abbreviation is_static :: "credentialCacheEntry \<Rightarrow> bool" where
  "is_static e \<equiv> ce_hard_expires_at e = zero_time"

abbreviation entry_cred :: "credentialCacheEntry \<Rightarrow> Credential" where
  "entry_cred e \<equiv> \<lparr>cr_value = ce_value e, cr_expires_at = ce_hard_expires_at e\<rparr>"

section \<open>Operations\<close>

definition computeRefreshAt :: "time \<Rightarrow> duration \<Rightarrow> time \<Rightarrow> time" where
  "computeRefreshAt now t expiresAt =
     (if expiresAt = zero_time then now + t
      else let early = expiresAt - credentialEarlyRefreshMargin
           in if t \<le> 0 then early
              else let refreshAt = now + t in if early < refreshAt then early else refreshAt)"

definition entryExpired :: "credentialCacheEntry \<Rightarrow> time \<Rightarrow> bool" where
  "entryExpired e now =
     (if \<not> is_static e then \<not> now < ce_hard_expires_at e else \<not> now < ce_refresh_at e)"

definition sweepExpiredLocked :: "time \<Rightarrow> credentialCache \<Rightarrow> credentialCache" where
  "sweepExpiredLocked now c =
     c\<lparr>cc_entries := filter (\<lambda>(key, e). \<not> entryExpired e now) (cc_entries c)\<rparr>"

definition dropStaticEntriesLocked :: "credentialCache \<Rightarrow> credentialCache" where
  "dropStaticEntriesLocked c = c\<lparr>cc_entries := filter (\<lambda>(key, e). \<not> is_static e) (cc_entries c)\<rparr>"

definition detachSweeperLocked :: "credentialCache \<Rightarrow> credentialCache" where
  "detachSweeperLocked c = c\<lparr>cc_sweeper := None\<rparr>"

definition sweepInterval :: "duration \<Rightarrow> duration" where
  "sweepInterval t =
     (if t \<le> 0 then 0
      else min (max (t div 2) minCredentialCacheSweepInterval) maxCredentialCacheSweepInterval)"

definition startSweeper :: "duration \<Rightarrow> credentialCache \<Rightarrow> credentialCache" where
  "startSweeper interval c =
     (if interval \<le> 0 then c
      else if cc_ttl c \<le> 0 \<or> cc_sweeper c \<noteq> None then c
      else c\<lparr>cc_sweeper := Some interval\<rparr>)"

text \<open>\<open>SetTTL\<close> up to the unlock: the new cache and the interval to start a sweeper with, if any.\<close>

definition SetTTL_locked :: "duration \<Rightarrow> credentialCache \<Rightarrow> credentialCache \<times> duration option" where
  "SetTTL_locked t c =
     (if t \<le> 0 then (detachSweeperLocked (dropStaticEntriesLocked (c\<lparr>cc_ttl := 0\<rparr>)), None)
      else if t \<noteq> cc_ttl c
      then (detachSweeperLocked (c\<lparr>cc_ttl := t, cc_entries := []\<rparr>), Some (sweepInterval t))
      else (c, if cc_sweeper c = None then Some (sweepInterval t) else None))"

definition SetTTL :: "duration \<Rightarrow> credentialCache \<Rightarrow> credentialCache" where
  "SetTTL t c =
     (let (c', start) = SetTTL_locked t c
      in case start of None \<Rightarrow> c' | Some interval \<Rightarrow> startSweeper interval c')"

text \<open>
  \<open>Get\<close> reads under the read lock (\<open>get_lookup\<close>: the answer, and whether the entry is to be dropped)
  and drops a dead entry under the write lock, testing again (\<open>get_evict\<close>).
\<close>

definition get_lookup :: "string \<Rightarrow> time \<Rightarrow> credentialCache \<Rightarrow> Credential option \<times> bool" where
  "get_lookup key now c =
     (case map_of (cc_entries c) key of
        None \<Rightarrow> (None, False)
      | Some e \<Rightarrow>
          if cc_ttl c \<le> 0 \<and> is_static e then (None, False)
          else if \<not> now < ce_refresh_at e
          then (None, is_static e \<or> \<not> now < ce_hard_expires_at e)
          else (Some (entry_cred e), False))"

definition get_evict :: "string \<Rightarrow> time \<Rightarrow> credentialCache \<Rightarrow> credentialCache" where
  "get_evict key now c =
     (case map_of (cc_entries c) key of
        None \<Rightarrow> c
      | Some current \<Rightarrow>
          if \<not> now < ce_refresh_at current \<and> (is_static current \<or> \<not> now < ce_hard_expires_at current)
          then c\<lparr>cc_entries := map_del key (cc_entries c)\<rparr> else c)"

definition Get :: "string \<Rightarrow> time \<Rightarrow> credentialCache \<Rightarrow> Credential option \<times> credentialCache" where
  "Get key now c =
     (let (r, dead) = get_lookup key now c in (r, if dead then get_evict key now c else c))"

definition staleEntry :: "string \<Rightarrow> time \<Rightarrow> credentialCache \<Rightarrow> credentialCacheEntry option" where
  "staleEntry key now c =
     (case map_of (cc_entries c) key of
        None \<Rightarrow> None
      | Some e \<Rightarrow> if is_static e \<or> \<not> now < ce_hard_expires_at e then None else Some e)"

definition SetCredential :: "string \<Rightarrow> Credential \<Rightarrow> time \<Rightarrow> credentialCache \<Rightarrow> credentialCache" where
  "SetCredential key cred now c =
     (if key = [] \<or> cr_value cred = [] then c
      else if cc_ttl c \<le> 0 \<and> cr_expires_at cred = zero_time then c
      else let c' = sweepExpiredLocked now c
           in c'\<lparr>cc_entries := map_set key
                  \<lparr>ce_value = cr_value cred, ce_refresh_at = computeRefreshAt now (cc_ttl c) (cr_expires_at cred),
                   ce_hard_expires_at = cr_expires_at cred\<rparr> (cc_entries c')\<rparr>)"

definition Cache_Set :: "string \<Rightarrow> string \<Rightarrow> time \<Rightarrow> credentialCache \<Rightarrow> credentialCache" where
  "Cache_Set key v now c = SetCredential key \<lparr>cr_value = v, cr_expires_at = zero_time\<rparr> now c"

text \<open>
  What a call of \<open>fetchCached\<close> meets: the clock readings, the result of the backend, what other
  callers do to the cache meanwhile, and the answer of \<open>singleflight\<close>. The latter's \<open>Do\<close> either runs
  the function itself or hands out the result of a concurrent call for the same key.
\<close>

record 'e fetch_env =
  fe_joined :: "('e + Credential) option"
  fe_fetch :: "'e + Credential"
  fe_inner_now :: time
  fe_store_now :: time
  fe_fail_now :: time
  fe_before :: "credentialCache \<Rightarrow> credentialCache"
  fe_during :: "credentialCache \<Rightarrow> credentialCache"

definition run_flight :: "string \<Rightarrow> 'e fetch_env \<Rightarrow> credentialCache \<Rightarrow> ('e + Credential) \<times> credentialCache" where
  "run_flight key env c =
     (case fe_joined env of
        Some v \<Rightarrow> (v, c)
      | None \<Rightarrow>
          (case Get key (fe_inner_now env) c of
             (Some cred, c') \<Rightarrow> (Inr cred, c')
           | (None, c') \<Rightarrow>
               (case fe_fetch env of
                  Inl err \<Rightarrow> (Inl err, fe_during env c')
                | Inr cred \<Rightarrow> (Inr cred, SetCredential key cred (fe_store_now env) (fe_during env c')))))"

definition fetchCached ::
  "string \<Rightarrow> time \<Rightarrow> 'e fetch_env \<Rightarrow> credentialCache \<Rightarrow> ('e + Credential) \<times> credentialCache" where
  "fetchCached key now env c =
     (case Get key now c of
        (Some cred, c') \<Rightarrow> (Inr cred, c')
      | (None, c') \<Rightarrow>
          let stale = staleEntry key now c'; (v, c'') = run_flight key env (fe_before env c')
          in case v of
               Inr cred \<Rightarrow> (Inr cred, c'')
             | Inl err \<Rightarrow>
                 (case stale of
                    None \<Rightarrow> (Inl err, c'')
                  | Some s \<Rightarrow> (if fe_fail_now env < ce_hard_expires_at s then Inr (entry_cred s) else Inl err, c'')))"

section \<open>Invariant\<close>

definition entry_ok :: "duration \<Rightarrow> string \<Rightarrow> credentialCacheEntry \<Rightarrow> bool" where
  "entry_ok t key e \<longleftrightarrow>
     key \<noteq> [] \<and> ce_value e \<noteq> [] \<and>
     (if is_static e then 0 < t else ce_refresh_at e \<le> ce_hard_expires_at e - credentialEarlyRefreshMargin)"

definition credcache_ok :: "credentialCache \<Rightarrow> bool" where
  "credcache_ok c \<longleftrightarrow>
     0 \<le> cc_ttl c \<and> gomap_ok (cc_entries c) \<and>
     (\<forall>(key, e) \<in> set (cc_entries c). entry_ok (cc_ttl c) key e) \<and>
     (\<forall>i. cc_sweeper c = Some i \<longrightarrow> 0 < cc_ttl c)"

lemma credcache_okD:
  "credcache_ok c \<Longrightarrow> gomap_ok (cc_entries c)"
  "credcache_ok c \<Longrightarrow> map_of (cc_entries c) key = Some e \<Longrightarrow> entry_ok (cc_ttl c) key e"
  by (auto simp: credcache_ok_def dest!: map_of_SomeD)

lemma computeRefreshAt_early:
  "x \<noteq> zero_time \<Longrightarrow> computeRefreshAt now t x \<le> x - credentialEarlyRefreshMargin"
  by (auto simp: computeRefreshAt_def Let_def)

lemma sweep_ok: "credcache_ok c \<Longrightarrow> credcache_ok (sweepExpiredLocked now c)"
  by (auto simp: credcache_ok_def sweepExpiredLocked_def)

lemma get_evict_ok: "credcache_ok c \<Longrightarrow> credcache_ok (get_evict key now c)"
  by (auto simp: credcache_ok_def get_evict_def map_del_def split: option.splits)

lemma Get_ok: "credcache_ok c \<Longrightarrow> credcache_ok (snd (Get key now c))"
  by (simp add: Get_def get_evict_ok split: prod.splits)

lemma insert_entry_ok:
  "credcache_ok c \<Longrightarrow> entry_ok (cc_ttl c) key e \<Longrightarrow> credcache_ok (c\<lparr>cc_entries := map_set key e (cc_entries c)\<rparr>)"
  unfolding credcache_ok_def by (simp add: map_set_ok) (auto simp: map_set_def)

lemma new_entry_ok:
  "key \<noteq> [] \<Longrightarrow> v \<noteq> [] \<Longrightarrow> \<not> (t \<le> 0 \<and> x = zero_time) \<Longrightarrow>
   entry_ok t key \<lparr>ce_value = v, ce_refresh_at = computeRefreshAt now t x, ce_hard_expires_at = x\<rparr>"
  using computeRefreshAt_early [of x now t] by (auto simp: entry_ok_def)

lemma sweep_ttl [simp]: "cc_ttl (sweepExpiredLocked now c) = cc_ttl c"
  by (simp add: sweepExpiredLocked_def)

lemma SetCredential_ok: "credcache_ok c \<Longrightarrow> credcache_ok (SetCredential key cred now c)"
  unfolding SetCredential_def Let_def by (simp add: insert_entry_ok new_entry_ok sweep_ok)

lemma SetTTL_locked_ok: "credcache_ok c \<Longrightarrow> credcache_ok (fst (SetTTL_locked t c))"
  by (auto simp: SetTTL_locked_def credcache_ok_def detachSweeperLocked_def dropStaticEntriesLocked_def
      entry_ok_def)

lemma startSweeper_ok: "credcache_ok c \<Longrightarrow> credcache_ok (startSweeper i c)"
  by (auto simp: startSweeper_def credcache_ok_def)

lemma SetTTL_ok: "credcache_ok c \<Longrightarrow> credcache_ok (SetTTL t c)"
  using SetTTL_locked_ok [of c t] by (auto simp: SetTTL_def startSweeper_ok split: prod.splits option.splits)

lemma run_flight_ok:
  "credcache_ok c \<Longrightarrow> (\<And>d. credcache_ok d \<Longrightarrow> credcache_ok (fe_during env d)) \<Longrightarrow>
   credcache_ok (snd (run_flight key env c))"
proof -
  assume c: "credcache_ok c" and d: "\<And>d. credcache_ok d \<Longrightarrow> credcache_ok (fe_during env d)"
  obtain r c1 where g: "Get key (fe_inner_now env) c = (r, c1)" by (metis surj_pair)
  have k: "credcache_ok c1" using Get_ok [OF c, of key "fe_inner_now env"] g by simp
  show ?thesis
    unfolding run_flight_def g prod.case using c k d [OF k] SetCredential_ok [OF d [OF k]]
    by (cases "fe_joined env"; cases r; cases "fe_fetch env") simp_all
qed

section \<open>Abstract specification\<close>

text \<open>
  The contract of the cache has no eviction and no sweeping: it remembers the last credential stored
  under a key and decides by the clock alone what to hand out.
\<close>

record spec_cache =
  sp_ttl :: duration
  sp_map :: "string \<Rightarrow> credentialCacheEntry option"

datatype cache_event =
  Store string Credential time
| Configure duration
| Start duration
| Sweep time
| Evict string time

definition cache_do :: "cache_event \<Rightarrow> credentialCache \<Rightarrow> credentialCache" where
  "cache_do ev c =
     (case ev of
        Store key cred now \<Rightarrow> SetCredential key cred now c
      | Configure t \<Rightarrow> fst (SetTTL_locked t c)
      | Start interval \<Rightarrow> startSweeper interval c
      | Sweep now \<Rightarrow> sweepExpiredLocked now c
      | Evict key now \<Rightarrow> get_evict key now c)"

definition spec_do :: "cache_event \<Rightarrow> spec_cache \<Rightarrow> spec_cache" where
  "spec_do ev a =
     (case ev of
        Store key cred now \<Rightarrow>
          if key = [] \<or> cr_value cred = [] \<or> (sp_ttl a \<le> 0 \<and> cr_expires_at cred = zero_time) then a
          else a\<lparr>sp_map := (sp_map a)(key \<mapsto>
            \<lparr>ce_value = cr_value cred, ce_refresh_at = computeRefreshAt now (sp_ttl a) (cr_expires_at cred),
             ce_hard_expires_at = cr_expires_at cred\<rparr>)\<rparr>
      | Configure t \<Rightarrow>
          if t \<le> 0
          then a\<lparr>sp_ttl := 0, sp_map := (\<lambda>key. case sp_map a key of None \<Rightarrow> None
                   | Some e \<Rightarrow> if is_static e then None else Some e)\<rparr>
          else if t \<noteq> sp_ttl a then a\<lparr>sp_ttl := t, sp_map := Map.empty\<rparr> else a
      | Start interval \<Rightarrow> a
      | Sweep now \<Rightarrow> a
      | Evict key now \<Rightarrow> a)"

definition spec_init :: spec_cache where
  "spec_init = \<lparr>sp_ttl = 0, sp_map = Map.empty\<rparr>"

definition spec_get :: "string \<Rightarrow> time \<Rightarrow> spec_cache \<Rightarrow> Credential option" where
  "spec_get key t a =
     (case sp_map a key of None \<Rightarrow> None
      | Some e \<Rightarrow> if t < ce_refresh_at e then Some (entry_cred e) else None)"

definition spec_stale :: "string \<Rightarrow> time \<Rightarrow> spec_cache \<Rightarrow> credentialCacheEntry option" where
  "spec_stale key t a =
     (case sp_map a key of None \<Rightarrow> None
      | Some e \<Rightarrow> if \<not> is_static e \<and> t < ce_hard_expires_at e then Some e else None)"

fun event_time :: "cache_event \<Rightarrow> time option" where
  "event_time (Store key cred now) = Some now"
| "event_time (Sweep now) = Some now"
| "event_time (Evict key now) = Some now"
| "event_time (Configure t) = None"
| "event_time (Start i) = None"

definition not_after :: "time \<Rightarrow> cache_event \<Rightarrow> bool" where
  "not_after t ev = (case event_time ev of None \<Rightarrow> True | Some now \<Rightarrow> now \<le> t)"

text \<open>At time \<open>t\<close> the cache holds what the specification holds, or has dropped what is expired.\<close>

definition agree :: "time \<Rightarrow> credentialCacheEntry option \<Rightarrow> credentialCacheEntry option \<Rightarrow> bool" where
  "agree t x y \<longleftrightarrow> y = x \<or> y = None \<and> (\<exists>e. x = Some e \<and> entryExpired e t)"

definition cache_rel :: "time \<Rightarrow> spec_cache \<Rightarrow> credentialCache \<Rightarrow> bool" where
  "cache_rel t a c \<longleftrightarrow>
     credcache_ok c \<and> sp_ttl a = cc_ttl c \<and>
     (\<forall>key e. sp_map a key = Some e \<longrightarrow> entry_ok (sp_ttl a) key e) \<and>
     (\<forall>key. agree t (sp_map a key) (map_of (cc_entries c) key))"

lemma entryExpired_mono: "entryExpired e now \<Longrightarrow> now \<le> t \<Longrightarrow> entryExpired e t"
  by (auto simp: entryExpired_def split: if_splits)

lemma map_of_sweep:
  "gomap_ok (cc_entries c) \<Longrightarrow> map_of (cc_entries (sweepExpiredLocked now c)) key =
     (case map_of (cc_entries c) key of None \<Rightarrow> None | Some e \<Rightarrow> if entryExpired e now then None else Some e)"
  by (simp add: sweepExpiredLocked_def map_of_filter_value split: option.splits)

lemma agree_sweep:
  "agree t x y \<Longrightarrow> now \<le> t \<Longrightarrow>
   agree t x (case y of None \<Rightarrow> None | Some e \<Rightarrow> if entryExpired e now then None else Some e)"
  by (auto simp: agree_def entryExpired_mono split: option.splits)

lemma agree_evict:
  "agree t x y \<Longrightarrow> now \<le> t \<Longrightarrow>
   agree t x (case y of None \<Rightarrow> None
     | Some e \<Rightarrow> if \<not> now < ce_refresh_at e \<and> (is_static e \<or> \<not> now < ce_hard_expires_at e) then None else Some e)"
  by (cases x; cases y) (simp_all add: agree_def entryExpired_def, linarith?)

lemma agree_drop_static:
  "agree t x y \<Longrightarrow>
   agree t (case x of None \<Rightarrow> None | Some e \<Rightarrow> if is_static e then None else Some e)
     (case y of None \<Rightarrow> None | Some e \<Rightarrow> if \<not> is_static e then Some e else None)"
  by (cases x; cases y) (auto simp: agree_def)

lemma cache_relI:
  assumes "cache_rel t a c" and "credcache_ok c'" and "cc_ttl c' = cc_ttl c"
    and "\<And>key. agree t (sp_map a key) (map_of (cc_entries c') key)"
  shows "cache_rel t a c'"
  using assms unfolding cache_rel_def by metis

lemma cache_relD:
  assumes "cache_rel t a c"
  shows "credcache_ok c" "sp_ttl a = cc_ttl c" "agree t (sp_map a key) (map_of (cc_entries c) key)"
    "sp_map a key = Some e \<Longrightarrow> entry_ok (cc_ttl c) key e"
  using assms unfolding cache_rel_def by metis+

lemma rel_sweep: "cache_rel t a c \<Longrightarrow> now \<le> t \<Longrightarrow> cache_rel t a (sweepExpiredLocked now c)"
  by (rule cache_relI) (simp_all add: cache_relD sweep_ok map_of_sweep agree_sweep credcache_okD)

lemma map_of_evict:
  "map_of (cc_entries (get_evict key now c)) k =
     (if k = key then
        (case map_of (cc_entries c) key of None \<Rightarrow> None
         | Some e \<Rightarrow> if \<not> now < ce_refresh_at e \<and> (is_static e \<or> \<not> now < ce_hard_expires_at e) then None
                   else Some e)
      else map_of (cc_entries c) k)"
  by (auto simp: get_evict_def split: option.splits)

lemma get_evict_ttl [simp]: "cc_ttl (get_evict key now c) = cc_ttl c"
  by (simp add: get_evict_def split: option.splits)

lemma rel_evict: "cache_rel t a c \<Longrightarrow> now \<le> t \<Longrightarrow> cache_rel t a (get_evict key now c)"
  by (rule cache_relI) (simp_all add: cache_relD get_evict_ok map_of_evict agree_evict)

lemma rel_store:
  assumes rel: "cache_rel t a c" and now: "now \<le> t"
  shows "cache_rel t (spec_do (Store key cred now) a) (SetCredential key cred now c)"
proof (cases "key = [] \<or> cr_value cred = [] \<or> (cc_ttl c \<le> 0 \<and> cr_expires_at cred = zero_time)")
  case True
  then show ?thesis using rel by (auto simp: spec_do_def SetCredential_def cache_rel_def)
next
  case False
  let ?e = "\<lparr>ce_value = cr_value cred, ce_refresh_at = computeRefreshAt now (cc_ttl c) (cr_expires_at cred),
             ce_hard_expires_at = cr_expires_at cred\<rparr>"
  have e: "entry_ok (cc_ttl c) key ?e" using False by (intro new_entry_ok) auto
  have s: "cache_rel t a (sweepExpiredLocked now c)" using rel now by (rule rel_sweep)
  then have ttl: "sp_ttl a = cc_ttl c" by (simp add: cache_rel_def)
  have c: "SetCredential key cred now c =
      (let c' = sweepExpiredLocked now c in c'\<lparr>cc_entries := map_set key ?e (cc_entries c')\<rparr>)"
    using False by (auto simp: SetCredential_def)
  have a: "spec_do (Store key cred now) a = a\<lparr>sp_map := (sp_map a)(key \<mapsto> ?e)\<rparr>"
    using False ttl by (auto simp: spec_do_def)
  have "credcache_ok (SetCredential key cred now c)"
    using rel by (simp add: cache_rel_def SetCredential_ok)
  moreover have "agree t (((sp_map a)(key \<mapsto> ?e)) k) (map_of (cc_entries (SetCredential key cred now c)) k)" for k
    using cache_relD(3) [OF s, of k] by (simp add: c Let_def agree_def)
  moreover have "((sp_map a)(key \<mapsto> ?e)) k = Some x \<Longrightarrow> entry_ok (cc_ttl c) k x" for k x
    using cache_relD(4) [OF rel, of k x] e by (simp split: if_splits)
  ultimately show ?thesis using ttl unfolding cache_rel_def a by (simp add: c Let_def)
qed

lemma rel_configure:
  assumes "cache_rel t a c"
  shows "cache_rel t (spec_do (Configure d) a) (fst (SetTTL_locked d c))"
proof -
  have ok: "credcache_ok (fst (SetTTL_locked d c))" using assms by (simp add: cache_rel_def SetTTL_locked_ok)
  have m: "gomap_ok (cc_entries c)" using assms by (simp add: cache_rel_def credcache_okD)
  consider "d \<le> 0" | "0 < d" "d \<noteq> cc_ttl c" | "0 < d" "d = cc_ttl c" by linarith
  then show ?thesis
  proof cases
    case 1
    have "map_of (cc_entries (fst (SetTTL_locked d c))) k =
        (case map_of (cc_entries c) k of None \<Rightarrow> None | Some e \<Rightarrow> if \<not> is_static e then Some e else None)" for k
      using 1 m by (simp add: SetTTL_locked_def detachSweeperLocked_def dropStaticEntriesLocked_def
          map_of_filter_value)
    moreover have "entry_ok 0 k x"
      if "(case sp_map a k of None \<Rightarrow> None | Some e \<Rightarrow> if is_static e then None else Some e) = Some x" for k x
      using that cache_relD(4) [OF assms, of k x] by (simp add: entry_ok_def split: option.splits if_splits)
    ultimately show ?thesis
      using 1 ok agree_drop_static [OF cache_relD(3) [OF assms]] unfolding cache_rel_def
      by (simp add: spec_do_def SetTTL_locked_def detachSweeperLocked_def dropStaticEntriesLocked_def)
  next
    case 2
    with assms ok show ?thesis
      by (auto simp: cache_rel_def spec_do_def SetTTL_locked_def detachSweeperLocked_def agree_def)
  next
    case 3
    with assms show ?thesis by (auto simp: cache_rel_def spec_do_def SetTTL_locked_def)
  qed
qed

lemma rel_start: "cache_rel t a c \<Longrightarrow> cache_rel t a (startSweeper i c)"
  using startSweeper_ok [of c i] by (auto simp: cache_rel_def startSweeper_def)

interpretation cs: simulation "cache_rel t" "not_after t" spec_do cache_do for t
proof
  fix a c e
  assume "cache_rel t a c" and "not_after t e"
  then show "cache_rel t (spec_do e a) (cache_do e c)"
    by (cases e) (simp_all add: cache_do_def not_after_def rel_store rel_configure rel_start rel_sweep
        rel_evict spec_do_def [of "Start i" for i] spec_do_def [of "Sweep n" for n]
        spec_do_def [of "Evict k n" for k n])
qed

lemma rel_init: "cache_rel t spec_init newCredentialCache"
  by (simp add: cache_rel_def spec_init_def newCredentialCache_def credcache_ok_def agree_def)

lemma rel_get: "cache_rel t a c \<Longrightarrow> fst (Get key t c) = spec_get key t a"
proof -
  assume rel: "cache_rel t a c"
  then have ag: "agree t (sp_map a key) (map_of (cc_entries c) key)" by (simp add: cache_rel_def)
  show ?thesis
  proof (cases "sp_map a key")
    case None
    with ag show ?thesis by (simp add: agree_def spec_get_def Get_def get_lookup_def)
  next
    case (Some e)
    then have "entry_ok (cc_ttl c) key e" by (rule cache_relD(4) [OF rel])
    with Some ag show ?thesis
      by (auto simp: agree_def spec_get_def Get_def get_lookup_def entryExpired_def entry_ok_def
          credentialEarlyRefreshMargin_def split: if_splits)
  qed
qed

lemma rel_stale: "cache_rel t a c \<Longrightarrow> staleEntry key t c = spec_stale key t a"
proof -
  assume rel: "cache_rel t a c"
  then have "agree t (sp_map a key) (map_of (cc_entries c) key)" by (simp add: cache_rel_def)
  then show ?thesis
    by (auto simp: agree_def spec_stale_def staleEntry_def entryExpired_def split: option.splits if_splits)
qed

text \<open>C28: whatever callers, reconfigurations, sweeps and evictions did before time \<open>t\<close> and in
  whatever order, the cache answers at \<open>t\<close> as the contract without eviction does: the last credential
  stored under the key while it is not due for refresh, and until its hard expiry as a fallback.\<close>
theorem cache_refines_contract:
  assumes "\<forall>ev \<in> set evs. not_after t ev"
  shows "fst (Get key t (fold cache_do evs newCredentialCache)) = spec_get key t (fold spec_do evs spec_init) \<and>
         staleEntry key t (fold cache_do evs newCredentialCache) = spec_stale key t (fold spec_do evs spec_init)"
  using cs.run_related [OF rel_init assms] by (simp add: rel_get rel_stale)

definition sample_events :: "cache_event list" where
  "sample_events = [Configure (10 * second), Start (5 * second), Store ''k'' \<lparr>cr_value = ''v'', cr_expires_at = zero_time\<rparr> 0,
     Store ''e'' \<lparr>cr_value = ''w'', cr_expires_at = 7 * minute\<rparr> second, Sweep (2 * second)]"

theorem cache_refines_contract_witness:
  "fst (Get ''k'' (3 * second) (fold cache_do sample_events newCredentialCache)) =
     Some \<lparr>cr_value = ''v'', cr_expires_at = zero_time\<rparr> \<and>
   spec_get ''k'' (3 * second) (fold spec_do sample_events spec_init) =
     Some \<lparr>cr_value = ''v'', cr_expires_at = zero_time\<rparr>"
proof -
  have "\<forall>ev \<in> set sample_events. not_after (3 * second) ev"
    by (simp add: sample_events_def not_after_def)
  note r = cache_refines_contract [OF this, of "''k''"]
  have "spec_get ''k'' (3 * second) (fold spec_do sample_events spec_init) =
      Some \<lparr>cr_value = ''v'', cr_expires_at = zero_time\<rparr>"
    by (simp add: sample_events_def spec_do_def spec_init_def spec_get_def computeRefreshAt_def)
  with r show ?thesis by simp
qed

section \<open>Fetching through the cache\<close>

lemma Get_value:
  "fst (Get key now c) = Some cred \<Longrightarrow> \<exists>e. map_of (cc_entries c) key = Some e \<and> cred = entry_cred e \<and> now < ce_refresh_at e"
  by (auto simp: Get_def get_lookup_def split: option.splits if_splits prod.splits)

lemma Get_unexpired:
  "credcache_ok c \<Longrightarrow> fst (Get key now c) = Some cred \<Longrightarrow>
   cr_expires_at cred = zero_time \<or> now < cr_expires_at cred"
  using Get_value [of key now c cred] credcache_okD(2) [of c key]
  by (fastforce simp: entry_ok_def credentialEarlyRefreshMargin_def split: if_splits)

lemma stale_after_Get:
  "staleEntry key now (snd (Get key now c)) = staleEntry key now c"
  by (auto simp: Get_def get_lookup_def staleEntry_def get_evict_def split: option.splits if_splits)

lemma run_flight_result:
  "run_flight key env c = (Inr cred, c') \<Longrightarrow>
   fe_joined env = Some (Inr cred) \<or> fe_joined env = None \<and> (fst (Get key (fe_inner_now env) c) = Some cred \<or> fe_fetch env = Inr cred)"
  by (auto simp: run_flight_def split: option.splits prod.splits sum.splits)

text \<open>
  A value the cache holds at a time \<open>t\<close> and still regards as fresh, and that has not expired then; a fetch
  that ends in an error, in this call or in the concurrent one it joined.
\<close>

definition fresh_at :: "string \<Rightarrow> time \<Rightarrow> credentialCache \<Rightarrow> Credential \<Rightarrow> bool" where
  "fresh_at key t c cred \<longleftrightarrow>
     (\<exists>e. map_of (cc_entries c) key = Some e \<and> cred = entry_cred e \<and> t < ce_refresh_at e) \<and>
     (cr_expires_at cred = zero_time \<or> t < cr_expires_at cred)"

definition fetch_fails :: "'e fetch_env \<Rightarrow> bool" where
  "fetch_fails env \<longleftrightarrow> (case fe_joined env of Some r \<Rightarrow> isl r | None \<Rightarrow> isl (fe_fetch env))"

lemma Get_fresh: "credcache_ok c \<Longrightarrow> fst (Get key now c) = Some cred \<Longrightarrow> fresh_at key now c cred"
  using Get_value [of key now c cred] Get_unexpired [of c key now cred] by (simp add: fresh_at_def)

lemma run_flight_failed: "run_flight key env c = (Inl x, c') \<Longrightarrow> fetch_fails env"
  by (auto simp: run_flight_def fetch_fails_def isl_def split: option.splits prod.splits sum.splits)

lemma fetchCached_stale:
  assumes "fetchCached key now env c = (Inr cred, c')" and "fst (Get key now c) = None"
    and "fst (run_flight key env (fe_before env (snd (Get key now c)))) \<noteq> Inr cred"
  shows "fetch_fails env \<and> (\<exists>s. map_of (cc_entries c) key = Some s \<and> cred = entry_cred s) \<and>
    fe_fail_now env < cr_expires_at cred"
proof -
  obtain x c1 where f: "run_flight key env (fe_before env (snd (Get key now c))) = (Inl x, c1)"
    using assms by (auto simp: fetchCached_def Let_def split: prod.splits option.splits sum.splits if_splits)
  then obtain s where "staleEntry key now c = Some s" "fe_fail_now env < ce_hard_expires_at s" "cred = entry_cred s"
    using assms(1,2) stale_after_Get [of key now c]
    by (auto simp: fetchCached_def Let_def split: prod.splits option.splits sum.splits if_splits)
  with run_flight_failed [OF f] show ?thesis by (auto simp: staleEntry_def split: option.splits if_splits)
qed

text \<open>C29: a credential that \<open>fetchCached\<close> returns is in the cache, fresh and not expired when the call
  begins; or it is what the backend answers, to this call or to the concurrent one it joined; or it is in
  the cache, fresh and not expired when the fetch is about to begin; or the fetch failed and it is the
  cached value, not yet expired when the failure is known. So a cached value is never handed out after its
  expiry, whatever other callers do to the cache.\<close>
theorem fetch_never_serves_expired:
  assumes "credcache_ok c" and "\<And>d. credcache_ok d \<Longrightarrow> credcache_ok (fe_before env d)"
    and "fetchCached key now env c = (Inr cred, c')"
  shows "fresh_at key now c cred \<or>
    fe_joined env = Some (Inr cred) \<or>
    fe_joined env = None \<and> (fe_fetch env = Inr cred \<or>
      fresh_at key (fe_inner_now env) (fe_before env (snd (Get key now c))) cred) \<or>
    fetch_fails env \<and> (\<exists>s. map_of (cc_entries c) key = Some s \<and> cred = entry_cred s) \<and>
      fe_fail_now env < cr_expires_at cred"
proof (cases "fst (Get key now c)")
  case (Some v)
  with assms(3) have "v = cred" by (auto simp: fetchCached_def split: prod.splits)
  with Some Get_fresh [OF assms(1)] show ?thesis by blast
next
  case None
  let ?d = "fe_before env (snd (Get key now c))"
  have ok: "credcache_ok ?d" using assms(1,2) Get_ok by blast
  show ?thesis
  proof (cases "fst (run_flight key env ?d) = Inr cred")
    case True
    then show ?thesis using run_flight_result [of key env ?d cred] Get_fresh [OF ok] by (metis prod.collapse)
  next
    case False
    with fetchCached_stale [OF assms(3) None] show ?thesis by blast
  qed
qed

definition plain_env :: "string + Credential \<Rightarrow> time \<Rightarrow> string fetch_env" where
  "plain_env r now = \<lparr>fe_joined = None, fe_fetch = r, fe_inner_now = now, fe_store_now = now, fe_fail_now = now,
     fe_before = id, fe_during = id\<rparr>"

definition sample_cache :: credentialCache where
  "sample_cache = \<lparr>cc_ttl = 0, cc_entries = [(''k'', \<lparr>ce_value = ''v'', ce_refresh_at = 0,
     ce_hard_expires_at = 5 * minute\<rparr>)], cc_sweeper = None\<rparr>"

lemma sample_cache_ok: "credcache_ok sample_cache"
  by (simp add: sample_cache_def credcache_ok_def entry_ok_def gomap_ok_def zero_time_def
      credentialEarlyRefreshMargin_def)

theorem fetch_never_serves_expired_witness:
  "fetchCached ''k'' minute (plain_env (Inl ''down'') (2 * minute)) sample_cache =
     (Inr \<lparr>cr_value = ''v'', cr_expires_at = 5 * minute\<rparr>, sample_cache) \<and>
   fetch_fails (plain_env (Inl ''down'') (2 * minute)) \<and> fe_fail_now (plain_env (Inl ''down'') (2 * minute)) < 5 * minute"
proof -
  let ?env = "plain_env (Inl ''down'') (2 * minute)"
  have "credcache_ok d \<Longrightarrow> credcache_ok (fe_before ?env d)" for d
    by (simp add: plain_env_def)
  moreover have f: "fetchCached ''k'' minute ?env sample_cache = (Inr \<lparr>cr_value = ''v'', cr_expires_at = 5 * minute\<rparr>, sample_cache)"
    by (simp add: fetchCached_def Get_def get_lookup_def sample_cache_def plain_env_def run_flight_def
        staleEntry_def zero_time_def Let_def)
  moreover have "\<not> fresh_at ''k'' t sample_cache cred" if "0 \<le> t" for t cred
    using that by (simp add: fresh_at_def sample_cache_def)
  ultimately show ?thesis using fetch_never_serves_expired [OF sample_cache_ok _ f]
    by (simp add: plain_env_def Get_def get_lookup_def sample_cache_def zero_time_def)
qed

text \<open>As long as a cached credential has not reached its hard expiry, an outage of the backend
  never makes \<open>fetchCached\<close> fail: the call returns the cached value or a newer one.\<close>

lemma outage_tolerated_until_expiry:
  assumes "map_of (cc_entries c) key = Some e" and "ce_hard_expires_at e \<noteq> zero_time"
    and "now \<le> fe_fail_now env" and "fe_fail_now env < ce_hard_expires_at e"
  shows "\<exists>cred c'. fetchCached key now env c = (Inr cred, c') \<and>
    (fe_joined env = None \<and> fe_before env = id \<and> fe_fetch env = Inl err \<and> now \<le> fe_inner_now env \<longrightarrow> cred = entry_cred e)"
proof -
  have stale: "staleEntry key now (snd (Get key now c)) = Some e"
    unfolding stale_after_Get using assms by (simp add: staleEntry_def)
  show ?thesis
  proof (cases "fst (Get key now c)")
    case (Some cred)
    with Get_value [OF Some] assms(1) show ?thesis
      by (auto simp: fetchCached_def split: prod.splits)
  next
    case None
    let ?c = "snd (Get key now c)"
    have same: "?c = c" using None assms by (auto simp: Get_def get_lookup_def split: if_splits)
    obtain v c'' where v: "run_flight key env (fe_before env ?c) = (v, c'')" by fastforce
    have f: "fetchCached key now env c =
        (case v of Inr cred \<Rightarrow> (Inr cred, c'') | Inl _ \<Rightarrow> (Inr (entry_cred e), c''))"
      using None stale v assms(4) by (cases v) (auto simp: fetchCached_def Let_def split: prod.splits)
    have "cred = entry_cred e"
      if "v = Inr cred" "fe_joined env = None" "fe_before env = id" "fe_fetch env = Inl err" for cred
      using that run_flight_result [of key env c cred c''] v same Get_value [of key "fe_inner_now env" c cred] assms(1)
      by auto
    then show ?thesis using f by (cases v) auto
  qed
qed

lemma outage_tolerated_until_expiry_witness:
  "\<exists>cred c'. fetchCached ''k'' minute (plain_env (Inl ''down'') minute) sample_cache = (Inr cred, c') \<and>
     cred = \<lparr>cr_value = ''v'', cr_expires_at = 5 * minute\<rparr>"
  using outage_tolerated_until_expiry [of sample_cache "''k''"
      "\<lparr>ce_value = ''v'', ce_refresh_at = 0, ce_hard_expires_at = 5 * minute\<rparr>" minute
      "plain_env (Inl ''down'') minute" "''down''"]
  by (simp add: sample_cache_def plain_env_def zero_time_def)

lemma sweep_interval_bounds:
  "0 < t \<Longrightarrow> 5 * second \<le> sweepInterval t \<and> sweepInterval t \<le> minute"
  by (simp add: sweepInterval_def minCredentialCacheSweepInterval_def maxCredentialCacheSweepInterval_def)

end
