(* ===== verification/System.thy ===== *)
theory System
  imports Paths Json_Value
begin

text \<open>
  What the credential backends see of the machine: the process environment, files as \<open>open\<close> and
  \<open>stat\<close> report them, and the outcome of every command. The outcome of a command may depend on all
  commands run before it, so the state of a helper program between calls is covered. The age and jq
  libraries are third-party code and stand as functions here.
\<close>

section \<open>Files\<close>

datatype open_error = ENOENT | ELOOP | Errno nat

record file_stat =
  fs_regular :: bool
  fs_perm :: nat
  fs_uid :: "int option" \<comment> \<open>\<open>None\<close>: \<open>Sys()\<close> is not a \<open>Stat_t\<close>\<close>

text \<open>An open file: its handle may be nil, \<open>Stat\<close> may fail, and a read may fail after some bytes.\<close>

record open_file =
  of_handle :: bool
  of_stat :: "file_stat option"
  of_data :: bytes
  of_read_ok :: bool

section \<open>Commands\<close>

record command =
  cm_argv :: "string list"
  cm_env :: "string list option" \<comment> \<open>\<open>None\<close>: the environment of the process\<close>

datatype cmd_result =
    Cmd_Output bytes
  | Cmd_Exit int bytes \<comment> \<open>exit code and what went to standard error\<close>
  | Cmd_Deadline
  | Cmd_Failed string

section \<open>The jq library\<close>

text \<open>
  A value of the library: a \<open>float64\<close> is given by the integer it equals, if it is one in the range of
  \<open>int64\<close>, and the text \<open>%g\<close> prints; arrays and objects by the document \<open>json.Marshal\<close> prints.
\<close>

datatype jq_value =
    Jq_String string
  | Jq_Null
  | Jq_Bool bool
  | Jq_Int int
  | Jq_Float "int option" string
  | Jq_Json json

datatype jq_outcome =
    Jq_End
  | Jq_Halt_Nil
  | Jq_Error
  | Jq_Value jq_value

section \<open>The machine\<close>

record sys =
  sy_paths :: path_env
  sy_euid :: int
  sy_environ :: "string list"
  sy_open_nofollow :: "string \<Rightarrow> open_error + open_file"
  sy_open :: "string \<Rightarrow> open_error + open_file"
  sy_lstat :: "string \<Rightarrow> open_error option"
  sy_stat_ok :: "string \<Rightarrow> bool"
  sy_mkdtemp :: "string option"
  sy_run :: "command list \<Rightarrow> cmd_result" \<comment> \<open>the commands run so far, the present one first\<close>
  sy_jq_parse :: "string \<Rightarrow> bool"
  sy_jq_run :: "string \<Rightarrow> json \<Rightarrow> jq_outcome"
  sy_age_identities :: "string \<Rightarrow> bool"
  sy_age_decrypt :: "string \<Rightarrow> bytes \<Rightarrow> bytes option"

text \<open>\<open>os.Getenv\<close>: the first entry for the name.\<close>

definition env_key :: "string \<Rightarrow> string" where
  "env_key e = (case cut_char CHR ''='' e of None \<Rightarrow> e | Some (k, _) \<Rightarrow> k)"

definition getenv :: "sys \<Rightarrow> string \<Rightarrow> string" where
  "getenv s k =
     (case find (\<lambda>e. has_prefix e (k @ ''='')) (sy_environ s) of
        None \<Rightarrow> [] | Some e \<Rightarrow> drop (length k + 1) e)"

text \<open>\<open>cmd.Output\<close>: the result, and the trace with the command at its front.\<close>

definition run_command :: "sys \<Rightarrow> command \<Rightarrow> command list \<Rightarrow> cmd_result \<times> command list" where
  "run_command s c tr = (sy_run s (c # tr), c # tr)"

section \<open>A machine for examples\<close>

definition plain_file :: "int \<Rightarrow> nat \<Rightarrow> bytes \<Rightarrow> open_file" where
  "plain_file uid perm d =
     \<lparr>of_handle = True, of_stat = Some \<lparr>fs_regular = True, fs_perm = perm, fs_uid = Some uid\<rparr>,
      of_data = d, of_read_ok = True\<rparr>"

definition sample_sys :: "(string \<times> open_file) list \<Rightarrow> (command list \<Rightarrow> cmd_result) \<Rightarrow> sys" where
  "sample_sys files run =
     \<lparr>sy_paths = sample_path_env, sy_euid = 1000, sy_environ = [''PATH=/usr/bin''],
      sy_open_nofollow = (\<lambda>p. case map_of files p of None \<Rightarrow> Inl ENOENT | Some f \<Rightarrow> Inr f),
      sy_open = (\<lambda>p. case map_of files p of None \<Rightarrow> Inl ENOENT | Some f \<Rightarrow> Inr f),
      sy_lstat = (\<lambda>p. case map_of files p of None \<Rightarrow> Some ENOENT | Some f \<Rightarrow> None),
      sy_stat_ok = (\<lambda>p. map_of files p \<noteq> None), sy_mkdtemp = Some ''/tmp/d'', sy_run = run,
      sy_jq_parse = (\<lambda>e. True), sy_jq_run = (\<lambda>e j. Jq_End), sy_age_identities = (\<lambda>i. True),
      sy_age_decrypt = (\<lambda>i d. None)\<rparr>"

end
