(* ===== verification/Secure_Files.thy ===== *)
theory Secure_Files
  imports System Framing
begin

text \<open>
  The readers of secret files in \<open>internal/credentials\<close>: the env file of \<open>credentials.go\<close>, mounted
  secrets of \<open>file.go\<close>, token and identity files of \<open>onepassword.go\<close>, and the check of exec-json
  commands of \<open>execjson.go\<close>. A reader judges the handle it has opened, never the path again: each of
  the lemmas \<open>..._iff\<close> says exactly when a reader succeeds and with what value.
\<close>

unbundle bit_operations_syntax

datatype sfile_error =
    Is_Symlink
  | Open_Failed
  | No_Handle
  | Stat_Failed
  | Not_Regular
  | Bad_Mode nat
  | No_Owner
  | Bad_Owner int
  | Read_Failed
  | Not_Absolute
  | Too_Large
  | Not_Executable
  | Var_Not_Found
  | Empty_File
  | Lstat_Failed

definition open_failure :: "open_error \<Rightarrow> sfile_error" where
  "open_failure e = (if e = ELOOP then Is_Symlink else Open_Failed)"

section \<open>Token and identity files\<close>

definition readSecureFile :: "sys \<Rightarrow> string \<Rightarrow> sfile_error + string" where
  "readSecureFile s path =
     (case sy_open_nofollow s path of
        Inl e \<Rightarrow> if e = ENOENT then Inr [] else Inl (open_failure e)
      | Inr f \<Rightarrow>
          if \<not> of_handle f then Inl No_Handle
          else case of_stat f of
            None \<Rightarrow> Inl Stat_Failed
          | Some st \<Rightarrow>
              if \<not> fs_regular st then Inl Not_Regular
              else if fs_perm st \<noteq> 384 \<and> fs_perm st \<noteq> 416 then Inl (Bad_Mode (fs_perm st))
              else case fs_uid st of
                None \<Rightarrow> Inl No_Owner
              | Some uid \<Rightarrow>
                  if uid \<noteq> sy_euid s then Inl (Bad_Owner uid)
                  else if \<not> of_read_ok f then Inl Read_Failed
                  else Inr (trim_space (of_data f)))"

text \<open>\<open>None\<close> is the nil slice returned for a file that is not there.\<close>

definition readSecureFileBytes :: "sys \<Rightarrow> string \<Rightarrow> sfile_error + bytes option" where
  "readSecureFileBytes s path =
     (case sy_open_nofollow s path of
        Inl e \<Rightarrow> if e = ENOENT then Inr None else Inl (open_failure e)
      | Inr f \<Rightarrow>
          if \<not> of_handle f then Inl No_Handle
          else case of_stat f of
            None \<Rightarrow> Inl Stat_Failed
          | Some st \<Rightarrow>
              if \<not> fs_regular st then Inl Not_Regular
              else if fs_perm st \<noteq> 384 \<and> fs_perm st \<noteq> 416 then Inl (Bad_Mode (fs_perm st))
              else case fs_uid st of
                None \<Rightarrow> Inl No_Owner
              | Some uid \<Rightarrow>
                  if uid \<noteq> sy_euid s then Inl (Bad_Owner uid)
                  else if \<not> of_read_ok f then Inl Read_Failed
                  else Inr (Some (of_data f)))"

definition readSecureCredentialValue :: "sys \<Rightarrow> string \<Rightarrow> sfile_error + string option" where
  "readSecureCredentialValue s path =
     (case sy_lstat s path of
        Some e \<Rightarrow> if e = ENOENT then Inr None else Inl Lstat_Failed
      | None \<Rightarrow>
          (case readSecureFile s path of
             Inl e \<Rightarrow> Inl e
           | Inr v \<Rightarrow> if v = [] then Inl Empty_File else Inr (Some v)))"

section \<open>The env file\<close>

definition envFileOwnerUID :: "file_stat \<Rightarrow> int option" where
  "envFileOwnerUID st = fs_uid st"

definition openValidatedEnvFile :: "sys \<Rightarrow> string \<Rightarrow> sfile_error + open_file" where
  "openValidatedEnvFile s path =
     (case sy_open_nofollow s path of
        Inl e \<Rightarrow> Inl (open_failure e)
      | Inr f \<Rightarrow>
          if \<not> of_handle f then Inl No_Handle
          else case of_stat f of
            None \<Rightarrow> Inl Stat_Failed
          | Some st \<Rightarrow>
              if \<not> fs_regular st then Inl Not_Regular
              else if fs_perm st \<noteq> 384 \<and> fs_perm st \<noteq> 416 then Inl (Bad_Mode (fs_perm st))
              else case envFileOwnerUID st of
                None \<Rightarrow> Inl No_Owner
              | Some uid \<Rightarrow> if uid \<noteq> sy_euid s then Inl (Bad_Owner uid) else Inr f)"

definition validateEnvFile :: "sys \<Rightarrow> string \<Rightarrow> sfile_error option" where
  "validateEnvFile s path = (case openValidatedEnvFile s path of Inl e \<Rightarrow> Some e | Inr f \<Rightarrow> None)"

text \<open>A \<open>bufio.Scanner\<close> with its default limit, as the reader of \<open>Framing\<close> has it.\<close>

lemma scan_shorter: "scan n = (Some line, n') \<Longrightarrow> length (nd_rest n') < length (nd_rest n)"
  by (auto simp: scan_def split: if_splits option.splits dest!: cut_char_Some)

function env_loop :: "bool \<Rightarrow> string \<Rightarrow> NDJSONReader \<Rightarrow> sfile_error + string" where
  "env_loop read_ok pre n =
     (case scan n of
        (Some line, n') \<Rightarrow>
          if has_prefix line pre then Inr (trim_prefix line pre) else env_loop read_ok pre n'
      | (None, n') \<Rightarrow>
          if nd_stopped n' \<noteq> Some ErrEOF \<or> \<not> read_ok then Inl Read_Failed else Inl Var_Not_Found)"
  by pat_completeness auto
termination
  by (relation "measure (\<lambda>(ok, pre, n). length (nd_rest n))") (auto dest: scan_shorter [OF sym])

declare env_loop.simps [simp del]

definition fetchFromEnvFile :: "sys \<Rightarrow> string \<Rightarrow> sfile_error + string" where
  "fetchFromEnvFile s envName =
     (case openValidatedEnvFile s (EnvFile (sy_paths s)) of
        Inl e \<Rightarrow> Inl e
      | Inr f \<Rightarrow> env_loop (of_read_ok f) (envName @ ''='') (NewNDJSONReaderWithLimit (of_data f) 65536))"

section \<open>Mounted secret files\<close>

definition maxSecretFileSize :: nat where "maxSecretFileSize = 65536"

definition trim_right_newlines :: "string \<Rightarrow> string" where
  "trim_right_newlines v = rev (dropWhile (\<lambda>c. c = CR \<or> c = LF) (rev v))"

definition fetchFromFile :: "sys \<Rightarrow> string \<Rightarrow> sfile_error + string" where
  "fetchFromFile s path =
     (if \<not> is_abs path then Inl Not_Absolute
      else case sy_open s path of
        Inl e \<Rightarrow> Inl Open_Failed
      | Inr f \<Rightarrow>
          (case of_stat f of
             None \<Rightarrow> Inl Stat_Failed
           | Some st \<Rightarrow>
               if \<not> fs_regular st then Inl Not_Regular
               else if fs_perm st AND 23 \<noteq> 0 then Inl (Bad_Mode (fs_perm st))
               else case fs_uid st of
                 None \<Rightarrow> Inl No_Owner
               | Some owner \<Rightarrow>
                   if owner \<noteq> 0 \<and> owner \<noteq> sy_euid s then Inl (Bad_Owner owner)
                   else let data = take (maxSecretFileSize + 1) (of_data f)
                        in if \<not> of_read_ok f \<and> length (of_data f) \<le> maxSecretFileSize then Inl Read_Failed
                           else if length data > maxSecretFileSize then Inl Too_Large
                           else Inr (trim_right_newlines data)))"

section \<open>Commands of the exec-json backend\<close>

definition execJSONCommandOwnerUID :: "file_stat \<Rightarrow> int option" where
  "execJSONCommandOwnerUID st = fs_uid st"

definition validateExecJSONCommand :: "sys \<Rightarrow> string \<Rightarrow> sfile_error option" where
  "validateExecJSONCommand s path =
     (if \<not> is_abs path then Some Not_Absolute
      else case sy_open_nofollow s path of
        Inl e \<Rightarrow> Some (open_failure e)
      | Inr f \<Rightarrow>
          if \<not> of_handle f then Some No_Handle
          else case of_stat f of
            None \<Rightarrow> Some Stat_Failed
          | Some st \<Rightarrow>
              if \<not> fs_regular st then Some Not_Regular
              else if fs_perm st AND 73 = 0 then Some Not_Executable
              else if fs_perm st AND 18 \<noteq> 0 then Some (Bad_Mode (fs_perm st))
              else case execJSONCommandOwnerUID st of
                None \<Rightarrow> Some No_Owner
              | Some uid \<Rightarrow> if uid \<noteq> sy_euid s \<and> uid \<noteq> 0 then Some (Bad_Owner uid) else None)"

section \<open>What a reader lets through\<close>

definition owner_only :: "sys \<Rightarrow> file_stat \<Rightarrow> bool" where
  "owner_only s st \<longleftrightarrow> fs_perm st \<in> {384, 416} \<and> fs_uid st = Some (sy_euid s)"

definition mounted_ok :: "sys \<Rightarrow> file_stat \<Rightarrow> bool" where
  "mounted_ok s st \<longleftrightarrow> fs_perm st AND 23 = 0 \<and> (fs_uid st = Some 0 \<or> fs_uid st = Some (sy_euid s))"

definition helper_ok :: "sys \<Rightarrow> file_stat \<Rightarrow> bool" where
  "helper_ok s st \<longleftrightarrow> fs_perm st AND 18 = 0 \<and> fs_perm st AND 73 \<noteq> 0 \<and> (fs_uid st = Some 0 \<or> fs_uid st = Some (sy_euid s))"

text \<open>The handle an open gave, of a regular file that passes a test.\<close>

definition trusted_handle ::
  "open_error + open_file \<Rightarrow> (file_stat \<Rightarrow> bool) \<Rightarrow> open_file \<Rightarrow> bool" where
  "trusted_handle r ok f \<longleftrightarrow> r = Inr f \<and> (\<exists>st. of_stat f = Some st \<and> fs_regular st \<and> ok st)"

lemma readSecureFile_iff:
  "readSecureFile s p = Inr v \<longleftrightarrow>
     sy_open_nofollow s p = Inl ENOENT \<and> v = [] \<or>
     (\<exists>f. trusted_handle (sy_open_nofollow s p) (owner_only s) f \<and> of_handle f \<and> of_read_ok f \<and> v = trim_space (of_data f))"
  by (auto simp: readSecureFile_def trusted_handle_def owner_only_def split: sum.splits option.splits)

lemma readSecureFileBytes_iff:
  "readSecureFileBytes s p = Inr r \<longleftrightarrow>
     sy_open_nofollow s p = Inl ENOENT \<and> r = None \<or>
     (\<exists>f. trusted_handle (sy_open_nofollow s p) (owner_only s) f \<and> of_handle f \<and> of_read_ok f \<and> r = Some (of_data f))"
  by (auto simp: readSecureFileBytes_def trusted_handle_def owner_only_def split: sum.splits option.splits)

lemma readSecureCredentialValue_iff:
  "readSecureCredentialValue s p = Inr (Some v) \<longleftrightarrow>
     sy_lstat s p = None \<and> v \<noteq> [] \<and>
     (\<exists>f. trusted_handle (sy_open_nofollow s p) (owner_only s) f \<and> of_handle f \<and> of_read_ok f \<and> v = trim_space (of_data f))"
proof -
  have "readSecureCredentialValue s p = Inr (Some v) \<longleftrightarrow> sy_lstat s p = None \<and> v \<noteq> [] \<and> readSecureFile s p = Inr v"
    by (auto simp: readSecureCredentialValue_def split: sum.splits option.splits if_splits)
  then show ?thesis unfolding readSecureFile_iff by blast
qed

lemma openValidatedEnvFile_iff:
  "openValidatedEnvFile s p = Inr f \<longleftrightarrow> trusted_handle (sy_open_nofollow s p) (owner_only s) f \<and> of_handle f"
  by (auto simp: openValidatedEnvFile_def envFileOwnerUID_def trusted_handle_def owner_only_def split: sum.splits option.splits)

text \<open>A line of a text, with or without the carriage return at its end.\<close>

definition line_of :: "bytes \<Rightarrow> bytes \<Rightarrow> bool" where
  "line_of l d \<longleftrightarrow> LF \<notin> set l \<and> (\<exists>a b. d = a @ l @ b \<and> (a = [] \<or> last a = LF) \<and>
     (\<exists>cr \<in> {[], [CR]}. b = cr \<or> (\<exists>b'. b = cr @ LF # b')))"

lemma drop_cr_line:
  obtains cr where "cr \<in> {[], [CR]}" "l = drop_cr l @ cr"
proof (cases "l \<noteq> [] \<and> last l = CR")
  case True
  then have "l = drop_cr l @ [CR]" by (metis append_butlast_last_id drop_cr_def)
  with that show thesis by blast
qed (use that [of "[]"] in \<open>auto simp: drop_cr_def\<close>)

lemma scan_line:
  assumes "scan n = (Some line, n')"
  shows "line_of line (nd_rest n) \<and> (\<exists>a. nd_rest n = a @ nd_rest n' \<and> (a = [] \<or> last a = LF \<or> nd_rest n' = []))"
proof -
  obtain l r where l: "line = drop_cr l" "LF \<notin> set l" "nd_rest n' = r"
    "nd_rest n = l @ LF # r \<or> nd_rest n = l \<and> r = []"
    using assms by (auto simp: scan_def cut_char_None split: if_splits option.splits dest!: cut_char_Some)
  obtain cr where cr: "cr \<in> {[], [CR]}" "l = drop_cr l @ cr" by (rule drop_cr_line)
  then have "nd_rest n = [] @ line @ cr @ LF # r \<or> nd_rest n = [] @ line @ cr" using l by (metis append.assoc append_Nil)
  moreover have "LF \<notin> set line" using l(1,2) cr(2) by (metis UnI1 set_append)
  ultimately have "line_of line (nd_rest n)" using cr(1) unfolding line_of_def by blast
  moreover have "nd_rest n = (l @ [LF]) @ nd_rest n' \<or> nd_rest n = l @ nd_rest n' \<and> nd_rest n' = []" using l(3,4) by auto
  ultimately show ?thesis by (metis last_snoc)
qed

lemma line_of_Nil: "line_of l [] \<Longrightarrow> l = []"
  by (auto simp: line_of_def)

lemma line_of_suffix:
  assumes "line_of l r" and "a = [] \<or> last a = LF \<or> r = []" and "l \<noteq> []"
  shows "line_of l (a @ r)"
proof -
  have a: "a = [] \<or> last a = LF" using assms line_of_Nil by blast
  from assms(1) obtain x b where x: "LF \<notin> set l" "r = x @ l @ b" "x = [] \<or> last x = LF"
    "\<exists>cr \<in> {[], [CR]}. b = cr \<or> (\<exists>b'. b = cr @ LF # b')" unfolding line_of_def by blast
  have "a @ r = (a @ x) @ l @ b \<and> (a @ x = [] \<or> last (a @ x) = LF)" using a x(2,3) by (cases "x = []") simp_all
  with x(1,4) show ?thesis unfolding line_of_def by blast
qed

lemma env_loop_line: "pre \<noteq> [] \<Longrightarrow> env_loop ok pre n = Inr v \<Longrightarrow> line_of (pre @ v) (nd_rest n)"
proof (induction ok pre n rule: env_loop.induct)
  case (1 ok pre n)
  obtain t n' where s: "scan n = (t, n')" by (metis surj_pair)
  show ?case
  proof (cases t)
    case None
    with 1 s show ?thesis by (simp add: env_loop.simps [of ok pre n] split: if_splits)
  next
    case (Some line)
    note s' = s [unfolded Some]
    show ?thesis
    proof (cases "has_prefix line pre")
      case True
      then have "v = trim_prefix line pre" using 1 s' by (simp add: env_loop.simps [of ok pre n])
      with True have "line = pre @ v" by (metis append_take_drop_id has_prefix_def trim_prefix_def)
      with scan_line [OF s'] show ?thesis by simp
    next
      case False
      then have "line_of (pre @ v) (nd_rest n')" using 1 s' by (simp add: env_loop.simps [of ok pre n])
      moreover obtain a where "nd_rest n = a @ nd_rest n'" "a = [] \<or> last a = LF \<or> nd_rest n' = []"
        using scan_line [OF s'] by blast
      ultimately show ?thesis using line_of_suffix 1(2) by simp
    qed
  qed
qed

lemma fetchFromEnvFile_line:
  assumes "fetchFromEnvFile s n = Inr v"
  shows "\<exists>f. trusted_handle (sy_open_nofollow s (EnvFile (sy_paths s))) (owner_only s) f \<and> line_of (n @ ''='' @ v) (of_data f)"
proof -
  from assms obtain f where f: "openValidatedEnvFile s (EnvFile (sy_paths s)) = Inr f"
    "env_loop (of_read_ok f) (n @ ''='') (NewNDJSONReaderWithLimit (of_data f) 65536) = Inr v"
    by (auto simp: fetchFromEnvFile_def split: sum.splits)
  from env_loop_line [OF _ f(2)] f(1) show ?thesis
    by (auto simp: openValidatedEnvFile_iff NewNDJSONReaderWithLimit_def)
qed

lemma fetchFromFile_iff:
  "fetchFromFile s p = Inr v \<longleftrightarrow> is_abs p \<and>
     (\<exists>f. trusted_handle (sy_open s p) (mounted_ok s) f \<and> of_read_ok f \<and> length (of_data f) \<le> maxSecretFileSize \<and>
        v = trim_right_newlines (of_data f))"
  by (auto simp: fetchFromFile_def trusted_handle_def mounted_ok_def Let_def not_less split: sum.splits option.splits)

lemma validateExecJSONCommand_iff:
  "validateExecJSONCommand s p = None \<longleftrightarrow> is_abs p \<and>
     (\<exists>f. trusted_handle (sy_open_nofollow s p) (helper_ok s) f \<and> of_handle f)"
  by (auto simp: validateExecJSONCommand_def execJSONCommandOwnerUID_def trusted_handle_def helper_ok_def split: sum.splits option.splits)


definition secret_sys :: sys where
  "secret_sys = sample_sys [(''/s'', plain_file 0 416 (''tok'' @ [LF])), (EnvFile sample_path_env, plain_file 1000 384 (''A=1'' @ [LF] @ ''B=2''))]
     (\<lambda>_. Cmd_Deadline)"


lemma trim_right_newlines_length: "length (trim_right_newlines d) \<le> length d"
  unfolding trim_right_newlines_def by (metis length_dropWhile_le length_rev)

lemma fetchFromFile_bounded: "fetchFromFile s p = Inr v \<Longrightarrow> length v \<le> maxSecretFileSize"
  using trim_right_newlines_length le_trans unfolding fetchFromFile_iff by blast

end
