(* ===== verification/Sources.thy ===== *)
theory Sources
  imports Prelude
begin

text \<open>
  \<open>internal/credentials/parser.go\<close>: credential source references. Writing a parsed reference and
  reading it back gives the reference, and the cache keys of distinct references are distinct.
\<close>

datatype Backend =
    BackendPass
  | BackendEnv
  | Backend1Password
  | BackendAge
  | BackendKeychain
  | BackendBitwarden
  | BackendVault
  | BackendExecJSON
  | BackendFile

text \<open>The string constant behind a backend.\<close>

primrec backend_name :: "Backend \<Rightarrow> string" where
  "backend_name BackendPass = ''pass''"
| "backend_name BackendEnv = ''env''"
| "backend_name Backend1Password = ''op''"
| "backend_name BackendAge = ''age''"
| "backend_name BackendKeychain = ''keychain''"
| "backend_name BackendBitwarden = ''bw''"
| "backend_name BackendVault = ''vault''"
| "backend_name BackendExecJSON = ''exec-json''"
| "backend_name BackendFile = ''file''"

record ParsedSource =
  ps_backend :: Backend
  ps_path :: string
  ps_jq :: string
  ps_original :: string

datatype source_error = Empty_Source | Empty_Jq string | Empty_Path string | Jq_Unsupported string

text \<open>The prefix cases of the switch, in its order; \<open>op://\<close> stays part of the path.\<close>

definition source_backend :: "string \<Rightarrow> Backend \<times> string" where
  "source_backend source =
     (if has_prefix source ''op://'' then (Backend1Password, source)
      else if has_prefix source ''bw:'' then (BackendBitwarden, trim_prefix source ''bw:'')
      else if has_prefix source ''keychain:'' then (BackendKeychain, trim_prefix source ''keychain:'')
      else if has_prefix source ''age:'' then (BackendAge, trim_prefix source ''age:'')
      else if has_prefix source ''pass:'' then (BackendPass, trim_prefix source ''pass:'')
      else if has_prefix source ''env:'' then (BackendEnv, trim_prefix source ''env:'')
      else if has_prefix source ''vault:'' then (BackendVault, trim_prefix source ''vault:'')
      else if has_prefix source ''file:'' then (BackendFile, trim_prefix source ''file:'')
      else if has_prefix source ''exec-json:'' then (BackendExecJSON, trim_prefix source ''exec-json:'')
      else (BackendPass, source))"

definition finish_source :: "string \<Rightarrow> string \<Rightarrow> string \<Rightarrow> source_error + ParsedSource" where
  "finish_source original source jqExpr =
     (let (backend, path) = source_backend source
      in if path = [] then Inl (Empty_Path original)
         else if backend = BackendExecJSON \<and> jqExpr \<noteq> [] then Inl (Jq_Unsupported original)
         else Inr \<lparr>ps_backend = backend, ps_path = path, ps_jq = jqExpr, ps_original = original\<rparr>)"

definition ParseSource :: "string \<Rightarrow> source_error + ParsedSource" where
  "ParseSource source =
     (if source = [] then Inl Empty_Source
      else case index_str source '' | '' of
        None \<Rightarrow> finish_source source source []
      | Some idx \<Rightarrow>
          let jqExpr = trim_space (drop (idx + 3) source); source' = trim_space (take idx source)
          in if jqExpr = [] then Inl (Empty_Jq source) else finish_source source source' jqExpr)"

definition HasJQ :: "ParsedSource \<Rightarrow> bool" where
  "HasJQ p \<longleftrightarrow> ps_jq p \<noteq> []"

definition NeedsJSONOutput :: "ParsedSource \<Rightarrow> bool" where
  "NeedsJSONOutput p = HasJQ p"

definition isCredentialCacheableBackend :: "Backend \<Rightarrow> bool" where
  "isCredentialCacheableBackend b \<longleftrightarrow>
     b = Backend1Password \<or> b = BackendBitwarden \<or> b = BackendVault \<or> b = BackendExecJSON"

definition credentialCacheKey :: "ParsedSource \<Rightarrow> string" where
  "credentialCacheKey p = backend_name (ps_backend p) @ [NUL] @ ps_path p @ [NUL] @ ps_jq p"

section \<open>Written references\<close>

definition source_prefix :: "Backend \<Rightarrow> string" where
  "source_prefix b = (if b = Backend1Password then [] else backend_name b @ '':'')"

definition source_text :: "Backend \<Rightarrow> string \<Rightarrow> string \<Rightarrow> string" where
  "source_text b path jq = source_prefix b @ path @ (if jq = [] then [] else '' | '' @ jq)"

text \<open>References that can be written: no separator in the path, no white space around path and jq.\<close>

definition source_ok :: "Backend \<Rightarrow> string \<Rightarrow> string \<Rightarrow> bool" where
  "source_ok b path jq \<longleftrightarrow>
     path \<noteq> [] \<and> (b = Backend1Password \<longrightarrow> has_prefix path ''op://'') \<and>
     \<not> contains_str (source_prefix b @ path @ '' |'') '' | '' \<and>
     trim_space (source_prefix b @ path) = source_prefix b @ path \<and> trim_space jq = jq \<and>
     (b = BackendExecJSON \<longrightarrow> jq = [])"

lemma source_backend_text:
  "path \<noteq> [] \<Longrightarrow> (b = Backend1Password \<longrightarrow> has_prefix path ''op://'') \<Longrightarrow>
   source_backend (source_prefix b @ path) = (b, path)"
  by (cases b) (simp_all add: source_backend_def source_prefix_def trim_prefix_def)

lemma index_str_None_append:
  "index_str s p = None \<Longrightarrow> index_str (take k s) p = None"
proof -
  assume "index_str s p = None"
  then have "\<not> contains_str s p" by (simp add: contains_str_def)
  then have "\<not> contains_str (take k s) p"
    unfolding contains_str_iff by (metis append.assoc append_take_drop_id)
  then show ?thesis by (simp add: contains_str_def)
qed

text \<open>The separator after a text that neither holds nor half ends in one is where it is found.\<close>

lemma index_str_sep:
  "index_str (a @ '' |'') '' | '' = None \<Longrightarrow> index_str (a @ '' | '' @ b) '' | '' = Some (length a)"
proof (induction a)
  case Nil
  show ?case by simp
next
  case (Cons c a)
  have "\<not> has_prefix ((c # a) @ '' |'') '' | ''" and "index_str (a @ '' |'') '' | '' = None"
    using Cons.prems by (auto split: if_splits)
  moreover have "\<not> has_prefix ((c # a) @ '' | '' @ b) '' | ''"
  proof -
    have "(c # a) @ '' | '' @ b = ((c # a) @ '' |'') @ CHR '' '' # b" by simp
    moreover have "length '' | '' \<le> length ((c # a) @ '' |'')" by simp
    ultimately show ?thesis using \<open>\<not> has_prefix ((c # a) @ '' |'') '' | ''\<close> has_prefix_append_short by metis
  qed
  ultimately show ?case using Cons.IH by simp
qed

text \<open>A reference written from a backend, a path and an optional jq expression is parsed back to
  exactly these, for every backend.\<close>

lemma source_roundtrip:
  assumes "source_ok b path jq"
  shows "ParseSource (source_text b path jq) =
    Inr \<lparr>ps_backend = b, ps_path = path, ps_jq = jq, ps_original = source_text b path jq\<rparr>"
proof -
  let ?src = "source_prefix b @ path"
  have path: "path \<noteq> []" and b: "source_backend ?src = (b, path)"
    using assms source_backend_text by (auto simp: source_ok_def)
  have free: "index_str (?src @ '' |'') '' | '' = None"
    using assms by (simp add: source_ok_def contains_str_def)
  show ?thesis
  proof (cases "jq = []")
    case True
    have "index_str ?src '' | '' = None"
      using index_str_None_append [OF free, of "length ?src"] by simp
    with True path b show ?thesis by (simp add: ParseSource_def finish_source_def source_text_def)
  next
    case False
    have t: "source_text b path jq = ?src @ '' | '' @ jq" using False by (simp add: source_text_def)
    have "trim_space ?src = ?src" "trim_space jq = jq" "b \<noteq> BackendExecJSON"
      using assms False by (auto simp: source_ok_def)
    with False path b show ?thesis
      unfolding t ParseSource_def index_str_sep [OF free]
      by (simp add: finish_source_def Let_def)
  qed
qed

lemma source_roundtrip_witness:
  "ParseSource ''vault:secret/app | .password'' =
     Inr \<lparr>ps_backend = BackendVault, ps_path = ''secret/app'', ps_jq = ''.password'',
          ps_original = ''vault:secret/app | .password''\<rparr>"
proof -
  have "source_ok BackendVault ''secret/app'' ''.password''" by code_simp
  from source_roundtrip [OF this] show ?thesis by (simp add: source_text_def source_prefix_def)
qed

text \<open>Without a NUL byte in path and expression the cache key determines the reference.\<close>

lemma NUL_split_unique:
  "a @ NUL # b = c @ NUL # d \<Longrightarrow> NUL \<notin> set a \<Longrightarrow> NUL \<notin> set c \<Longrightarrow> a = c \<and> b = d"
  by (metis cut_char_append option.inject prod.inject)

lemma backend_name_inj: "backend_name a = backend_name b \<longleftrightarrow> a = b"
  by (cases a; cases b) simp_all

lemma NUL_notin_backend_name: "NUL \<notin> set (backend_name b)"
  by (cases b) simp_all

text \<open>Two references share a cache entry only if they name the same backend, path and jq
  expression, unless one of them contains a NUL byte.\<close>

lemma cache_key_injective:
  assumes "NUL \<notin> set (ps_path p)" and "NUL \<notin> set (ps_path q)"
  shows "credentialCacheKey p = credentialCacheKey q \<longleftrightarrow>
    ps_backend p = ps_backend q \<and> ps_path p = ps_path q \<and> ps_jq p = ps_jq q"
proof
  assume "credentialCacheKey p = credentialCacheKey q"
  then have "backend_name (ps_backend p) = backend_name (ps_backend q) \<and>
      ps_path p @ NUL # ps_jq p = ps_path q @ NUL # ps_jq q"
    using NUL_split_unique NUL_notin_backend_name unfolding credentialCacheKey_def by (metis append_Cons append_Nil)
  then show "ps_backend p = ps_backend q \<and> ps_path p = ps_path q \<and> ps_jq p = ps_jq q"
    using NUL_split_unique [OF _ assms] by (auto simp: backend_name_inj)
qed (simp add: credentialCacheKey_def)

lemma cache_key_injective_witness:
  "credentialCacheKey \<lparr>ps_backend = BackendVault, ps_path = ''a'', ps_jq = ''.b'', ps_original = []\<rparr> \<noteq>
   credentialCacheKey \<lparr>ps_backend = BackendVault, ps_path = ''a'', ps_jq = [], ps_original = []\<rparr>"
  by (subst cache_key_injective) simp_all

end
