(* ===== verification/Go_Time.thy ===== *)
theory Go_Time
  imports Prelude
begin

text \<open>
  \<open>time.Parse(time.RFC3339, s)\<close> and \<open>Format(time.RFC3339)\<close> in UTC, as the exec-json and GitHub App
  backends and the audit log use them. As in Go, the hour may have one digit, a fraction of a second
  may follow the seconds, and offsets may write 24 hours or 60 minutes.
\<close>

section \<open>Calendar\<close>

definition leap_year :: "int \<Rightarrow> bool" where
  "leap_year y \<longleftrightarrow> y mod 4 = 0 \<and> (y mod 100 \<noteq> 0 \<or> y mod 400 = 0)"

definition days_in :: "int \<Rightarrow> int \<Rightarrow> int" where
  "days_in m y =
     (if m = 2 then (if leap_year y then 29 else 28)
      else if m = 4 \<or> m = 6 \<or> m = 9 \<or> m = 11 then 30 else 31)"

text \<open>Days from 1 January of year 1 to 1 January of \<open>y\<close>, and to the first of a month within a year.\<close>

definition days_before_year :: "int \<Rightarrow> int" where
  "days_before_year y = 365 * (y - 1) + (y - 1) div 4 - (y - 1) div 100 + (y - 1) div 400"

fun days_before_month :: "nat \<Rightarrow> int \<Rightarrow> int" where
  "days_before_month 0 y = 0"
| "days_before_month (Suc m) y = (if m = 0 then 0 else days_before_month m y + days_in (int m) y)"

definition unix_days :: "int \<Rightarrow> int \<Rightarrow> int \<Rightarrow> int" where
  "unix_days y m d = days_before_year y + days_before_month (nat m) y + (d - 1) - 719162"

definition time_date :: "int \<Rightarrow> int \<Rightarrow> int \<Rightarrow> int \<Rightarrow> int \<Rightarrow> int \<Rightarrow> int \<Rightarrow> time" where
  "time_date y m d h mi sec ns = ((unix_days y m d * 24 + h) * 60 + mi) * 60 * second + sec * second + ns"

section \<open>Parsing\<close>

text \<open>\<open>getnum\<close>: two digits, or one when \<open>fixed\<close> is not asked for.\<close>

definition getnum :: "bool \<Rightarrow> string \<Rightarrow> (int \<times> string) option" where
  "getnum fixed s =
     (case s of
        [] \<Rightarrow> None
      | c # r \<Rightarrow>
          if \<not> is_digit c then None
          else if r \<noteq> [] \<and> is_digit (hd r)
          then Some ((int (char_code c) - 48) * 10 + (int (char_code (hd r)) - 48), tl r)
          else if fixed then None else Some (int (char_code c) - 48, r))"

definition expect_char :: "char \<Rightarrow> string \<Rightarrow> string option" where
  "expect_char c s = (case s of [] \<Rightarrow> None | x # r \<Rightarrow> if x = c then Some r else None)"

definition get_year :: "string \<Rightarrow> (int \<times> string) option" where
  "get_year s =
     (if length s < 4 then None
      else map_option (\<lambda>y. (y, drop 4 s)) (parse_digits 10 (take 4 s)))"

text \<open>A fraction of a second: at most nine digits count.\<close>

definition get_fraction :: "string \<Rightarrow> int \<times> string" where
  "get_fraction s =
     (case s of
        [] \<Rightarrow> (0, s)
      | c # r \<Rightarrow>
          if (c = CHR ''.'' \<or> c = CHR '','') \<and> r \<noteq> [] \<and> is_digit (hd r)
          then let ds = take 9 (takeWhile is_digit r)
               in (case parse_digits 10 ds of None \<Rightarrow> 0 | Some n \<Rightarrow> n * 10 ^ (9 - length ds), dropWhile is_digit r)
          else (0, s))"

text \<open>The zone: \<open>Z\<close> or a signed offset, in seconds east of UTC.\<close>

definition get_zone :: "string \<Rightarrow> (int \<times> string) option" where
  "get_zone s =
     (if has_prefix s ''Z'' then Some (0, tl s)
      else if length s < 6 \<or> s ! 3 \<noteq> CHR '':'' then None
      else case (getnum True (take 2 (drop 1 s)), getnum True (take 2 (drop 4 s))) of
             (Some (hr, _), Some (mm, _)) \<Rightarrow>
               if hr > 24 \<or> mm > 60 then None
               else let off = (hr * 60 + mm) * 60
                    in if hd s = CHR ''+'' then Some (off, drop 6 s)
                       else if hd s = CHR ''-'' then Some (- off, drop 6 s) else None
           | _ \<Rightarrow> None)"

definition bind_rest :: "('a \<times> string) option \<Rightarrow> ('a \<Rightarrow> string \<Rightarrow> 'b option) \<Rightarrow> 'b option" where
  "bind_rest x f = (case x of None \<Rightarrow> None | Some (a, r) \<Rightarrow> f a r)"

definition skip_char :: "char \<Rightarrow> string \<Rightarrow> (unit \<times> string) option" where
  "skip_char c s = map_option (\<lambda>r. ((), r)) (expect_char c s)"

definition parse_rfc3339 :: "string \<Rightarrow> time option" where
  "parse_rfc3339 s =
     bind_rest (get_year s) (\<lambda>y s. bind_rest (skip_char CHR ''-'' s) (\<lambda>_ s.
     bind_rest (getnum True s) (\<lambda>m s. if m < 1 \<or> 12 < m then None else
     bind_rest (skip_char CHR ''-'' s) (\<lambda>_ s. bind_rest (getnum True s) (\<lambda>d s.
     bind_rest (skip_char CHR ''T'' s) (\<lambda>_ s. bind_rest (getnum False s) (\<lambda>h s. if 24 \<le> h then None else
     bind_rest (skip_char CHR '':'' s) (\<lambda>_ s. bind_rest (getnum True s) (\<lambda>mi s. if 60 \<le> mi then None else
     bind_rest (skip_char CHR '':'' s) (\<lambda>_ s. bind_rest (getnum True s) (\<lambda>sec s. if 60 \<le> sec then None else
     (let (ns, s) = get_fraction s
      in bind_rest (get_zone s) (\<lambda>off s.
           if s \<noteq> [] \<or> d < 1 \<or> days_in m y < d then None
           else Some (time_date y m d h mi sec ns - off * second))))))))))))))"

section \<open>Formatting\<close>

text \<open>Calendar date of a day number, by counting off cycles of 400, 100, 4 and 1 years.\<close>

definition civil_year :: "int \<Rightarrow> int \<times> int" where
  "civil_year days =
     (let n400 = days div 146097; r = days mod 146097;
          n100 = min 3 (r div 36524); r = r - n100 * 36524;
          n4 = r div 1461; r = r - n4 * 1461;
          n1 = min 3 (r div 365); r = r - n1 * 365
      in (n400 * 400 + n100 * 100 + n4 * 4 + n1 + 1, r))"

fun civil_month :: "nat \<Rightarrow> int \<Rightarrow> int \<Rightarrow> int \<Rightarrow> int \<times> int" where
  "civil_month 0 y m r = (m, r + 1)"
| "civil_month (Suc k) y m r = (if r < days_in m y then (m, r + 1) else civil_month k y (m + 1) (r - days_in m y))"

definition pad2 :: "int \<Rightarrow> string" where
  "pad2 n = [char_of (48 + nat (n div 10)), char_of (48 + nat (n mod 10))]"

definition format_rfc3339 :: "time \<Rightarrow> string" where
  "format_rfc3339 t =
     (let secs = t div second; days = secs div 86400; s = secs mod 86400;
          (y, r) = civil_year (days + 719162); (m, d) = civil_month 11 y 1 r
      in pad2 (y div 100) @ pad2 (y mod 100) @ ''-'' @ pad2 m @ ''-'' @ pad2 d @ ''T'' @
         pad2 (s div 3600) @ '':'' @ pad2 (s div 60 mod 60) @ '':'' @ pad2 (s mod 60) @ ''Z'')"

lemma epoch_parses: "parse_rfc3339 ''1970-01-01T00:00:00Z'' = Some 0"
  by code_simp

lemma offset_parses: "parse_rfc3339 ''2024-02-29T23:59:59.5+01:00'' = Some 1709247599500000000"
  by code_simp

lemma format_example: "format_rfc3339 1709247599000000000 = ''2024-02-29T22:59:59Z''"
  by code_simp

end
