(* ===== verification/Backends.thy ===== *)
theory Backends
  imports Cache Sources Secure_Files Go_Time Config
begin

text \<open>
  The credential backends of \<open>internal/credentials\<close> and the way to them: \<open>jq.go\<close>, \<open>age.go\<close>,
  \<open>keychain_darwin.go\<close> and its stub, \<open>onepassword.go\<close>, \<open>bitwarden.go\<close>, \<open>vault.go\<close>, \<open>execjson.go\<close>, and
  \<open>credentials.go\<close>. A backend that runs commands threads the list of commands run so far, latest
  first; the Bitwarden session is part of the state it threads.
\<close>

datatype jq_error = Jq_Bad_Expr | Jq_Bad_Json | Jq_No_Result | Jq_Failed | Jq_Null_Result
datatype op_error = OP_No_Binary | OP_No_Token | OP_Bad_Ref | OP_Read_Failed | OP_Get_Failed
datatype bw_error = BW_No_Binary | BW_Session_Failed | BW_Reauth_Failed | BW_Fetch_Failed
datatype exec_error =
    Exec_Untrusted sfile_error | Exec_Timeout | Exec_Exit int bytes | Exec_Failed string
  | Exec_Decode | Exec_No_Value | Exec_Bad_Expiry

datatype fetch_error =
    Bad_Source
  | File_Error sfile_error
  | Jq_Err jq_error
  | Pass_Failed string
  | OP_Err op_error
  | Age_No_Identity
  | Age_Failed
  | Keychain_Failed
  | Keychain_Unavailable
  | BW_Err bw_error
  | Vault_No_Binary
  | Vault_Failed
  | Exec_Err exec_error

section \<open>jq.go\<close>

definition resultToString :: "jq_value \<Rightarrow> jq_error + string" where
  "resultToString v =
     (case v of
        Jq_String x \<Rightarrow> Inr x
      | Jq_Null \<Rightarrow> Inl Jq_Null_Result
      | Jq_Bool b \<Rightarrow> Inr (if b then ''true'' else ''false'')
      | Jq_Int n \<Rightarrow> Inr (format_int n)
      | Jq_Float whole g \<Rightarrow> Inr (case whole of Some n \<Rightarrow> format_int n | None \<Rightarrow> g)
      | Jq_Json j \<Rightarrow> Inr (json_print j))"

definition ApplyJQ :: "sys \<Rightarrow> bytes \<Rightarrow> string \<Rightarrow> jq_error + string" where
  "ApplyJQ s jsonBytes jqExpr =
     (if \<not> sy_jq_parse s jqExpr then Inl Jq_Bad_Expr
      else case json_parse jsonBytes of
        None \<Rightarrow> Inl Jq_Bad_Json
      | Some input \<Rightarrow>
          if \<not> any_ok input then Inl Jq_Bad_Json
          else case sy_jq_run s jqExpr input of
             Jq_End \<Rightarrow> Inl Jq_No_Result
           | Jq_Halt_Nil \<Rightarrow> Inl Jq_No_Result
           | Jq_Error \<Rightarrow> Inl Jq_Failed
           | Jq_Value v \<Rightarrow> resultToString v)"

text \<open>The step each backend ends with: extraction when the reference asks for it.\<close>

definition with_jq :: "sys \<Rightarrow> ParsedSource \<Rightarrow> bytes \<Rightarrow> fetch_error + string" where
  "with_jq s parsed r = (if HasJQ parsed then map_left Jq_Err (ApplyJQ s r (ps_jq parsed)) else Inr r)"

section \<open>age.go\<close>

definition ageIdentityCredentialName :: string where "ageIdentityCredentialName = ''age-identity''"

definition SetAgeIdentityFile :: "string \<Rightarrow> string \<Rightarrow> string" where
  "SetAgeIdentityFile path current = (if path \<noteq> [] then path else current)"

definition getAgeIdentityPath :: "sys \<Rightarrow> string \<Rightarrow> string" where
  "getAgeIdentityPath s configured =
     (let credDir = getenv s ''CREDENTIALS_DIRECTORY''; tokenPath = path_join [credDir, ageIdentityCredentialName]
      in if credDir \<noteq> [] \<and> sy_stat_ok s tokenPath then tokenPath else configured)"

definition decryptAgeFile :: "sys \<Rightarrow> string \<Rightarrow> string \<Rightarrow> bytes option" where
  "decryptAgeFile s identityPath encryptedPath =
     (case readSecureFile s identityPath of
        Inl _ \<Rightarrow> None
      | Inr identity \<Rightarrow>
          if identity = [] \<or> \<not> sy_age_identities s identity then None
          else case readSecureFileBytes s encryptedPath of
            Inl _ \<Rightarrow> None
          | Inr None \<Rightarrow> None
          | Inr (Some enc) \<Rightarrow> sy_age_decrypt s identity enc)"

definition fetchFromAge :: "sys \<Rightarrow> string \<Rightarrow> ParsedSource \<Rightarrow> fetch_error + string" where
  "fetchFromAge s identityFile parsed =
     (case decryptAgeFile s (getAgeIdentityPath s identityFile) (ps_path parsed) of
        None \<Rightarrow> Inl Age_Failed
      | Some plaintext \<Rightarrow> with_jq s parsed (trim_space plaintext))"

section \<open>Keychain\<close>

definition keychainAccountName :: string where "keychainAccountName = ''claw-wrap''"

definition readKeychainItem :: "sys \<Rightarrow> string \<Rightarrow> command list \<Rightarrow> string option \<times> command list" where
  "readKeychainItem s serviceName tr =
     (let (r, tr') = run_command s \<lparr>cm_argv = [''security'', ''find-generic-password'', ''-s'', serviceName,
                        ''-a'', keychainAccountName, ''-w''], cm_env = None\<rparr> tr
      in (case r of Cmd_Output out \<Rightarrow> Some (trim_space out) | _ \<Rightarrow> None, tr'))"

definition fetchFromKeychain :: "sys \<Rightarrow> ParsedSource \<Rightarrow> command list \<Rightarrow> (fetch_error + string) \<times> command list" where
  "fetchFromKeychain s parsed tr =
     (if pe_goos (sy_paths s) \<noteq> ''darwin'' then (Inl Keychain_Unavailable, tr)
      else let (r, tr') = readKeychainItem s (ps_path parsed) tr
           in (case r of None \<Rightarrow> Inl Keychain_Failed | Some v \<Rightarrow> with_jq s parsed v, tr'))"

section \<open>onepassword.go\<close>

definition opTokenCredentialName :: string where "opTokenCredentialName = ''op-service-account-token''"
definition opTokenEnvVar :: string where "opTokenEnvVar = ''OP_SERVICE_ACCOUNT_TOKEN''"

definition SetOPTokenFile :: "string \<Rightarrow> string \<Rightarrow> string" where
  "SetOPTokenFile path current = (if path \<noteq> [] then path else current)"

definition resolveBinary :: "sys \<Rightarrow> string \<Rightarrow> string \<Rightarrow> string option" where
  "resolveBinary s override name =
     (if override \<noteq> [] then Some override
      else case FindTrustedBinary (sy_paths s) name of Inl _ \<Rightarrow> None | Inr p \<Rightarrow> Some p)"

definition resolveOPBinary :: "sys \<Rightarrow> string \<Rightarrow> string option" where
  "resolveOPBinary s override = resolveBinary s override ''op''"

text \<open>A token file of the systemd credentials directory: an error, a value, or not there.\<close>

definition systemd_credential :: "sys \<Rightarrow> string \<Rightarrow> sfile_error + string option" where
  "systemd_credential s name =
     (let credDir = getenv s ''CREDENTIALS_DIRECTORY''
      in if credDir = [] then Inr None else readSecureCredentialValue s (path_join [credDir, name]))"

definition getOPServiceAccountToken :: "sys \<Rightarrow> string \<Rightarrow> string option" where
  "getOPServiceAccountToken s tokenFile =
     (case systemd_credential s opTokenCredentialName of
        Inl _ \<Rightarrow> None
      | Inr (Some t) \<Rightarrow> Some t
      | Inr None \<Rightarrow>
          (case readSecureCredentialValue s tokenFile of
             Inl _ \<Rightarrow> None
           | Inr (Some t) \<Rightarrow> Some t
           | Inr None \<Rightarrow> let t = getenv s opTokenEnvVar in if t \<noteq> [] then Some t else None))"

definition op_env :: "sys \<Rightarrow> string \<Rightarrow> string list" where
  "op_env s token = sy_environ s @ [opTokenEnvVar @ ''='' @ token]"

definition fetchFrom1PasswordDirect ::
  "sys \<Rightarrow> string \<Rightarrow> string \<Rightarrow> string \<Rightarrow> command list \<Rightarrow> (fetch_error + string) \<times> command list" where
  "fetchFrom1PasswordDirect s opBinary token secretRef tr =
     (let (r, tr') = run_command s \<lparr>cm_argv = [opBinary, ''read'', secretRef], cm_env = Some (op_env s token)\<rparr> tr
      in (case r of Cmd_Output out \<Rightarrow> Inr (trim_space out) | _ \<Rightarrow> Inl (OP_Err OP_Read_Failed), tr'))"

definition parseOPSecretRef :: "string \<Rightarrow> (string \<times> string) option" where
  "parseOPSecretRef ref =
     (if \<not> has_prefix ref ''op://'' then None
      else case split_char CHR ''/'' (trim_prefix ref ''op://'') of
             vault # item # _ \<Rightarrow> Some (vault, item) | _ \<Rightarrow> None)"

definition fetchFrom1PasswordWithJQ ::
  "sys \<Rightarrow> string \<Rightarrow> string \<Rightarrow> ParsedSource \<Rightarrow> command list \<Rightarrow> (fetch_error + string) \<times> command list" where
  "fetchFrom1PasswordWithJQ s opBinary token parsed tr =
     (case parseOPSecretRef (ps_path parsed) of
        None \<Rightarrow> (Inl (OP_Err OP_Bad_Ref), tr)
      | Some (vault, item) \<Rightarrow>
          let (r, tr') = run_command s \<lparr>cm_argv = [opBinary, ''item'', ''get'', item, ''--vault'', vault, ''--format'', ''json''],
                           cm_env = Some (op_env s token)\<rparr> tr
          in (case r of Cmd_Output out \<Rightarrow> map_left Jq_Err (ApplyJQ s out (ps_jq parsed))
              | _ \<Rightarrow> Inl (OP_Err OP_Get_Failed), tr'))"

definition fetchFrom1Password ::
  "sys \<Rightarrow> string \<Rightarrow> ParsedSource \<Rightarrow> string \<Rightarrow> command list \<Rightarrow> (fetch_error + string) \<times> command list" where
  "fetchFrom1Password s tokenFile parsed override tr =
     (case resolveOPBinary s override of
        None \<Rightarrow> (Inl (OP_Err OP_No_Binary), tr)
      | Some opBinary \<Rightarrow>
          (case getOPServiceAccountToken s tokenFile of
             None \<Rightarrow> (Inl (OP_Err OP_No_Token), tr)
           | Some token \<Rightarrow>
               if HasJQ parsed then fetchFrom1PasswordWithJQ s opBinary token parsed tr
               else fetchFrom1PasswordDirect s opBinary token (ps_path parsed) tr))"

section \<open>vault.go\<close>

record VaultSettings =
  vs_addr :: string
  vs_skip_verify :: "bool option"
  vs_cacert :: string
  vs_namespace :: string
  vs_token_file :: string

definition SetVaultAddr :: "string \<Rightarrow> VaultSettings \<Rightarrow> VaultSettings" where
  "SetVaultAddr addr v = v\<lparr>vs_addr := addr\<rparr>"

definition SetVaultSkipVerify :: "bool option \<Rightarrow> VaultSettings \<Rightarrow> VaultSettings" where
  "SetVaultSkipVerify skip v = v\<lparr>vs_skip_verify := skip\<rparr>"

definition SetVaultCACert :: "string \<Rightarrow> VaultSettings \<Rightarrow> VaultSettings" where
  "SetVaultCACert path v = v\<lparr>vs_cacert := path\<rparr>"

definition SetVaultNamespace :: "string \<Rightarrow> VaultSettings \<Rightarrow> VaultSettings" where
  "SetVaultNamespace ns v = v\<lparr>vs_namespace := ns\<rparr>"

definition SetVaultTokenFile :: "string \<Rightarrow> VaultSettings \<Rightarrow> VaultSettings" where
  "SetVaultTokenFile path v = v\<lparr>vs_token_file := path\<rparr>"

definition vault_set :: "VaultSettings \<Rightarrow> string list" where
  "vault_set v =
     (if vs_addr v \<noteq> [] then [''VAULT_ADDR''] else []) @
     (if vs_skip_verify v \<noteq> None then [''VAULT_SKIP_VERIFY''] else []) @
     (if vs_cacert v \<noteq> [] then [''VAULT_CACERT''] else []) @
     (if vs_namespace v \<noteq> [] then [''VAULT_NAMESPACE''] else []) @
     (if vs_token_file v \<noteq> [] then [''VAULT_TOKEN_FILE''] else [])"

definition vault_overrides :: "VaultSettings \<Rightarrow> string list" where
  "vault_overrides v =
     (if vs_addr v \<noteq> [] then [''VAULT_ADDR='' @ vs_addr v] else []) @
     (case vs_skip_verify v of None \<Rightarrow> [] | Some b \<Rightarrow> [if b then ''VAULT_SKIP_VERIFY=1'' else ''VAULT_SKIP_VERIFY=0'']) @
     (if vs_cacert v \<noteq> [] then [''VAULT_CACERT='' @ vs_cacert v] else []) @
     (if vs_namespace v \<noteq> [] then [''VAULT_NAMESPACE='' @ vs_namespace v] else []) @
     (if vs_token_file v \<noteq> [] then [''VAULT_TOKEN_FILE='' @ vs_token_file v] else [])"

definition vaultEnv :: "sys \<Rightarrow> VaultSettings \<Rightarrow> string list" where
  "vaultEnv s v = filter (\<lambda>e. env_key e \<notin> set (vault_set v)) (sy_environ s) @ vault_overrides v"

definition resolveVaultBinary :: "sys \<Rightarrow> string \<Rightarrow> string option" where
  "resolveVaultBinary s override = resolveBinary s override ''vault''"

text \<open>\<open>json.RawMessage\<close> fields: the members of an object with the text of their values.\<close>

fun raw_members :: "nat \<Rightarrow> string \<Rightarrow> (string \<times> string) list" where
  "raw_members 0 t = []"
| "raw_members (Suc n) t =
     (case read_key t of
        None \<Rightarrow> []
      | Some (k, t1) \<Rightarrow>
          (case parse_value (2 * length t1 + 2) t1 of
             None \<Rightarrow> []
           | Some (v, t2) \<Rightarrow>
               (k, take (length (skip_ws t1) - length t2) (skip_ws t1)) #
               (case skip_ws t2 of [] \<Rightarrow> [] | c # r \<Rightarrow> if c = CHR '','' then raw_members n r else [])))"

definition raw_struct :: "string list \<Rightarrow> string \<Rightarrow> (string \<times> string) list option" where
  "raw_struct names t =
     (case json_parse t of
        Some (JObj ms) \<Rightarrow>
          Some (rev (List.map_filter (\<lambda>(k, r). map_option (\<lambda>n. (n, r)) (find_field names k))
                       (raw_members (length ms) (tl (skip_ws t)))))
      | Some JNull \<Rightarrow> Some []
      | _ \<Rightarrow> None)"

definition extractVaultData :: "bytes \<Rightarrow> fetch_error + string" where
  "extractVaultData output =
     (case raw_struct [''data''] output of
        None \<Rightarrow> Inl Vault_Failed
      | Some response \<Rightarrow>
          let data = map_of response ''data'';
              kv2 = (case data of None \<Rightarrow> None | Some d \<Rightarrow> raw_struct [''data'', ''metadata''] d)
          in case kv2 of
               Some f \<Rightarrow>
                 (case (map_of f ''data'', map_of f ''metadata'') of
                    (Some d, Some _) \<Rightarrow> Inr (trim_space d)
                  | _ \<Rightarrow> Inr (case data of None \<Rightarrow> [] | Some d \<Rightarrow> trim_space d))
             | None \<Rightarrow> Inr (case data of None \<Rightarrow> [] | Some d \<Rightarrow> trim_space d))"

definition fetchFromVault ::
  "sys \<Rightarrow> VaultSettings \<Rightarrow> ParsedSource \<Rightarrow> string \<Rightarrow> command list \<Rightarrow> (fetch_error + string) \<times> command list" where
  "fetchFromVault s settings parsed override tr =
     (case resolveVaultBinary s override of
        None \<Rightarrow> (Inl Vault_No_Binary, tr)
      | Some vaultBinary \<Rightarrow>
          let (r, tr') = run_command s \<lparr>cm_argv = [vaultBinary, ''kv'', ''get'', ''-format=json'', ''--'', ps_path parsed],
                           cm_env = Some (vaultEnv s settings)\<rparr> tr
          in (case r of
                Cmd_Output output \<Rightarrow>
                  (case extractVaultData output of Inl e \<Rightarrow> Inl e | Inr v \<Rightarrow> with_jq s parsed v)
              | _ \<Rightarrow> Inl Vault_Failed, tr'))"

section \<open>bitwarden.go\<close>

record bwSession =
  bw_token :: string
  bw_data_dir :: string
  bw_binary :: string
  bw_logged_in :: bool

type_synonym bw_state = "bwSession option \<times> command list"

definition bwClientIDCredentialName :: string where "bwClientIDCredentialName = ''bw-client-id''"
definition bwClientSecretCredentialName :: string where "bwClientSecretCredentialName = ''bw-client-secret''"
definition bwPasswordCredentialName :: string where "bwPasswordCredentialName = ''bw-master-password''"
definition bwClientIDEnvVar :: string where "bwClientIDEnvVar = ''BW_CLIENTID''"
definition bwClientSecretEnvVar :: string where "bwClientSecretEnvVar = ''BW_CLIENTSECRET''"
definition bwPasswordEnvVar :: string where "bwPasswordEnvVar = ''BW_PASSWORD''"

definition resolveBWBinary :: "sys \<Rightarrow> string \<Rightarrow> string option" where
  "resolveBWBinary s override = resolveBinary s override ''bw''"

definition getBWCredential :: "sys \<Rightarrow> string \<Rightarrow> string \<Rightarrow> string option" where
  "getBWCredential s credName envVar =
     (case systemd_credential s credName of
        Inl _ \<Rightarrow> None
      | Inr (Some t) \<Rightarrow> Some t
      | Inr None \<Rightarrow> let t = getenv s envVar in if t \<noteq> [] then Some t else None)"

definition bwEnv :: "sys \<Rightarrow> bwSession \<Rightarrow> string list" where
  "bwEnv s ses = sy_environ s @
     (if bw_data_dir ses \<noteq> [] then [''BITWARDENCLI_APPDATA_DIR='' @ bw_data_dir ses] else [])"

definition bwStatus_field :: "string \<Rightarrow> json \<Rightarrow> string \<times> string \<Rightarrow> (string \<times> string) option" where
  "bwStatus_field n j m =
     (if n = ''status'' then map_option (\<lambda>v. (v, snd m)) (dec_str j (fst m))
      else map_option (\<lambda>v. (fst m, v)) (dec_str j (snd m)))"

definition bwCheckStatus :: "sys \<Rightarrow> bwSession \<Rightarrow> command list \<Rightarrow> string option \<times> command list" where
  "bwCheckStatus s ses tr =
     (let (r, tr') = run_command s \<lparr>cm_argv = [bw_binary ses, ''status''], cm_env = Some (bwEnv s ses)\<rparr> tr
      in (case r of
            Cmd_Output out \<Rightarrow> map_option fst (unmarshal (dec_struct [''status'', ''userEmail''] bwStatus_field) ([], []) out)
          | _ \<Rightarrow> None, tr'))"

definition bwLogin :: "sys \<Rightarrow> bwSession \<Rightarrow> command list \<Rightarrow> bwSession option \<times> command list" where
  "bwLogin s ses tr =
     (case getBWCredential s bwClientIDCredentialName bwClientIDEnvVar of
        None \<Rightarrow> (None, tr)
      | Some clientID \<Rightarrow>
          (case getBWCredential s bwClientSecretCredentialName bwClientSecretEnvVar of
             None \<Rightarrow> (None, tr)
           | Some clientSecret \<Rightarrow>
               let (r, tr') = run_command s \<lparr>cm_argv = [bw_binary ses, ''login'', ''--apikey''],
                     cm_env = Some (bwEnv s ses @ [bwClientIDEnvVar @ ''='' @ clientID, bwClientSecretEnvVar @ ''='' @ clientSecret])\<rparr> tr
               in (case r of Cmd_Output _ \<Rightarrow> Some (ses\<lparr>bw_logged_in := True\<rparr>) | _ \<Rightarrow> None, tr')))"

definition bwUnlock :: "sys \<Rightarrow> bwSession \<Rightarrow> command list \<Rightarrow> bwSession option \<times> command list" where
  "bwUnlock s ses tr =
     (case getBWCredential s bwPasswordCredentialName bwPasswordEnvVar of
        None \<Rightarrow> (None, tr)
      | Some password \<Rightarrow>
          let (r, tr') = run_command s \<lparr>cm_argv = [bw_binary ses, ''unlock'', ''--raw'', ''--passwordenv'', ''BW_UNLOCK_PASSWORD''],
                cm_env = Some (bwEnv s ses @ [''BW_UNLOCK_PASSWORD='' @ password])\<rparr> tr
          in (case r of Cmd_Output out \<Rightarrow> Some (ses\<lparr>bw_token := trim_space out\<rparr>) | _ \<Rightarrow> None, tr'))"

text \<open>
  \<open>ensureBWSession\<close>: whether it succeeded, and the session it leaves behind either way. The switch on
  the reported status is \<open>bw_authenticate\<close>.
\<close>

definition bw_unlock_step :: "sys \<Rightarrow> bwSession \<Rightarrow> command list \<Rightarrow> bool \<times> bw_state" where
  "bw_unlock_step s ses tr =
     (let (r, tr') = bwUnlock s ses tr in (r \<noteq> None, Some (case r of None \<Rightarrow> ses | Some ses' \<Rightarrow> ses'), tr'))"

definition bw_authenticate :: "sys \<Rightarrow> bwSession \<Rightarrow> string \<Rightarrow> command list \<Rightarrow> bool \<times> bw_state" where
  "bw_authenticate s ses status tr =
     (if status = ''unlocked'' then (True, Some ses, tr)
      else if status = ''locked'' then bw_unlock_step s ses tr
      else if status = ''unauthenticated'' then
        (let (r, tr') = bwLogin s ses tr
         in case r of None \<Rightarrow> (False, Some ses, tr') | Some ses' \<Rightarrow> bw_unlock_step s ses' tr')
      else (False, Some ses, tr))"

definition ensureBWSession :: "sys \<Rightarrow> string \<Rightarrow> bw_state \<Rightarrow> bool \<times> bw_state" where
  "ensureBWSession s bwBinary st =
     (case (case fst st of
              None \<Rightarrow> map_option (\<lambda>d. \<lparr>bw_token = [], bw_data_dir = d, bw_binary = bwBinary, bw_logged_in = False\<rparr>) (sy_mkdtemp s)
            | Some ses \<Rightarrow> Some (if bw_binary ses = [] then ses\<lparr>bw_binary := bwBinary\<rparr> else ses)) of
        None \<Rightarrow> (False, st)
      | Some ses \<Rightarrow>
          let (status, tr) = bwCheckStatus s ses (snd st)
          in bw_authenticate s ses (case status of None \<Rightarrow> ''unauthenticated'' | Some x \<Rightarrow> x) tr)"

text \<open>The text of a failed command: its standard error, or the error itself.\<close>

definition bitwardenStderr :: "cmd_result \<Rightarrow> string" where
  "bitwardenStderr r =
     (case r of
        Cmd_Exit n stderr \<Rightarrow> (let e = trim_space stderr in if e \<noteq> [] then e else ''exit status '' @ format_int n)
      | Cmd_Failed msg \<Rightarrow> trim_space msg
      | Cmd_Deadline \<Rightarrow> ''signal: killed''
      | Cmd_Output _ \<Rightarrow> [])"

definition isNotFoundError :: "string \<Rightarrow> bool" where
  "isNotFoundError stderr \<longleftrightarrow> contains_str (to_lower stderr) ''not found''"

definition isAuthError :: "string \<Rightarrow> bool" where
  "isAuthError msg \<longleftrightarrow>
     list_ex (contains_str (to_lower msg))
       [''not logged in'', ''vault is locked'', ''invalid session'', ''session key'', ''authorization failed'']"

definition bwGetItem :: "sys \<Rightarrow> bwSession \<Rightarrow> string \<Rightarrow> command list \<Rightarrow> (string + string) \<times> command list" where
  "bwGetItem s ses itemID tr =
     (let (r, tr') = run_command s \<lparr>cm_argv = [bw_binary ses, ''get'', ''item'', itemID],
            cm_env = Some (bwEnv s ses @ [''BW_SESSION='' @ bw_token ses])\<rparr> tr
      in (case r of
            Cmd_Output out \<Rightarrow> Inr (trim_space out)
          | _ \<Rightarrow> (let stderr = bitwardenStderr r
                  in Inl (if isNotFoundError stderr then ''bitwarden item not found''
                          else ''bitwarden get item failed: '' @ stderr)), tr'))"

text \<open>
  The attempts of \<open>fetchFromBitwarden\<close>; the context is the background context, so waiting between them
  never fails. A session is always there once \<open>ensureBWSession\<close> has succeeded.
\<close>

fun bw_loop :: "sys \<Rightarrow> ParsedSource \<Rightarrow> string \<Rightarrow> nat \<Rightarrow> bw_state \<Rightarrow> (fetch_error + string) \<times> bw_state" where
  "bw_loop s parsed bwBinary 0 st = (Inl (BW_Err BW_Fetch_Failed), st)"
| "bw_loop s parsed bwBinary (Suc n) (None, tr) = (Inl (BW_Err BW_Fetch_Failed), (None, tr))"
| "bw_loop s parsed bwBinary (Suc n) (Some ses, tr) =
     (case bwGetItem s ses (ps_path parsed) tr of
        (Inr v, tr') \<Rightarrow> (with_jq s parsed v, (Some ses, tr'))
      | (Inl msg, tr') \<Rightarrow>
          if isAuthError msg then
            (case ensureBWSession s bwBinary (Some (ses\<lparr>bw_logged_in := False, bw_token := []\<rparr>), tr') of
               (False, st) \<Rightarrow> (Inl (BW_Err BW_Reauth_Failed), st)
             | (True, st) \<Rightarrow> bw_loop s parsed bwBinary n st)
          else (Inl (BW_Err BW_Fetch_Failed), (Some ses, tr')))"

definition bwRetryDelays :: "duration list" where "bwRetryDelays = [0, second, 3 * second]"

definition fetchFromBitwarden ::
  "sys \<Rightarrow> ParsedSource \<Rightarrow> string \<Rightarrow> bw_state \<Rightarrow> (fetch_error + string) \<times> bw_state" where
  "fetchFromBitwarden s parsed override st =
     (case resolveBWBinary s override of
        None \<Rightarrow> (Inl (BW_Err BW_No_Binary), st)
      | Some bwBinary \<Rightarrow>
          (case ensureBWSession s bwBinary (map_option (\<lambda>ses. ses\<lparr>bw_binary := bwBinary\<rparr>) (fst st), snd st) of
             (False, st') \<Rightarrow> (Inl (BW_Err BW_Session_Failed), st')
           | (True, st') \<Rightarrow> bw_loop s parsed bwBinary (length bwRetryDelays) st'))"

definition CleanupBWSession :: "sys \<Rightarrow> bw_state \<Rightarrow> bw_state \<times> string option" where
  "CleanupBWSession s st =
     (case fst st of
        Some ses \<Rightarrow>
          if bw_data_dir ses \<noteq> [] then
            let bin = (if bw_binary ses = [] then ''bw'' else bw_binary ses);
                (r, tr') = run_command s \<lparr>cm_argv = [bin, ''logout''], cm_env = Some (bwEnv s ses)\<rparr> (snd st)
            in ((None, tr'), Some (bw_data_dir ses))
          else (st, None)
      | None \<Rightarrow> (st, None))"

section \<open>execjson.go\<close>

definition maxExecJSONStderrLen :: nat where "maxExecJSONStderrLen = 1024"

definition truncateExecJSONStderr :: "bytes \<Rightarrow> string" where
  "truncateExecJSONStderr stderr =
     (if length stderr \<le> maxExecJSONStderrLen then stderr else take maxExecJSONStderrLen stderr)"

definition execJSONCommandError :: "cmd_result \<Rightarrow> exec_error" where
  "execJSONCommandError r =
     (case r of
        Cmd_Exit n stderr \<Rightarrow> Exec_Exit n (truncateExecJSONStderr stderr)
      | Cmd_Deadline \<Rightarrow> Exec_Timeout
      | Cmd_Failed msg \<Rightarrow> Exec_Failed msg
      | Cmd_Output out \<Rightarrow> Exec_Failed [])"

record execJSONResponse =
  ej_value :: string
  ej_expires_at :: string

definition execJSONResponse_field :: "string \<Rightarrow> json \<Rightarrow> execJSONResponse \<Rightarrow> execJSONResponse option" where
  "execJSONResponse_field n j m =
     (if n = ''value'' then map_option (\<lambda>v. m\<lparr>ej_value := v\<rparr>) (dec_str j (ej_value m))
      else map_option (\<lambda>v. m\<lparr>ej_expires_at := v\<rparr>) (dec_str j (ej_expires_at m)))"

definition parseExecJSONOutput :: "bytes \<Rightarrow> exec_error + Credential" where
  "parseExecJSONOutput output =
     (case unmarshal (dec_struct [''value'', ''expires_at''] execJSONResponse_field) \<lparr>ej_value = [], ej_expires_at = []\<rparr> output of
        None \<Rightarrow> Inl Exec_Decode
      | Some parsed \<Rightarrow>
          if trim_space (ej_value parsed) = [] then Inl Exec_No_Value
          else let expiresRaw = trim_space (ej_expires_at parsed)
               in if expiresRaw = [] then Inr \<lparr>cr_value = ej_value parsed, cr_expires_at = zero_time\<rparr>
                  else case parse_rfc3339 expiresRaw of
                    None \<Rightarrow> Inl Exec_Bad_Expiry
                  | Some t \<Rightarrow> Inr \<lparr>cr_value = ej_value parsed, cr_expires_at = t\<rparr>)"

definition fetchFromExecJSON :: "sys \<Rightarrow> ParsedSource \<Rightarrow> command list \<Rightarrow> (fetch_error + Credential) \<times> command list" where
  "fetchFromExecJSON s parsed tr =
     (case validateExecJSONCommand s (ps_path parsed) of
        Some e \<Rightarrow> (Inl (Exec_Err (Exec_Untrusted e)), tr)
      | None \<Rightarrow>
          let (r, tr') = run_command s \<lparr>cm_argv = [ps_path parsed], cm_env = None\<rparr> tr
          in (case r of
                Cmd_Output output \<Rightarrow> map_left Exec_Err (parseExecJSONOutput output)
              | _ \<Rightarrow> Inl (Exec_Err (execJSONCommandError r)), tr'))"

section \<open>credentials.go\<close>

record FetchOptions =
  fo_pass_binary :: string
  fo_op_binary :: string
  fo_bw_binary :: string
  fo_vault_binary :: string
  fo_bypass_cache :: bool

type_synonym FetchOption = "FetchOptions \<Rightarrow> FetchOptions"

definition WithPassBinary :: "string \<Rightarrow> FetchOption" where "WithPassBinary path o' = o'\<lparr>fo_pass_binary := path\<rparr>"
definition WithOPBinary :: "string \<Rightarrow> FetchOption" where "WithOPBinary path o' = o'\<lparr>fo_op_binary := path\<rparr>"
definition WithBWBinary :: "string \<Rightarrow> FetchOption" where "WithBWBinary path o' = o'\<lparr>fo_bw_binary := path\<rparr>"
definition WithVaultBinary :: "string \<Rightarrow> FetchOption" where "WithVaultBinary path o' = o'\<lparr>fo_vault_binary := path\<rparr>"
definition WithBypassCache :: FetchOption where "WithBypassCache o' = o'\<lparr>fo_bypass_cache := True\<rparr>"

lemmas fetch_options = WithPassBinary_def WithOPBinary_def WithBWBinary_def WithVaultBinary_def WithBypassCache_def

definition default_options :: "sys \<Rightarrow> FetchOptions" where
  "default_options s = \<lparr>fo_pass_binary = DefaultPassBinary (sy_paths s), fo_op_binary = [], fo_bw_binary = [],
     fo_vault_binary = [], fo_bypass_cache = False\<rparr>"

text \<open>The package's state: cache, Bitwarden session, configured locations, and the commands run.\<close>

record cred_state =
  cs_cache :: credentialCache
  cs_bw :: "bwSession option"
  cs_vault :: VaultSettings
  cs_op_token_file :: string
  cs_age_identity_file :: string
  cs_trace :: "command list"

definition SetCredentialCacheTTL :: "duration \<Rightarrow> cred_state \<Rightarrow> cred_state" where
  "SetCredentialCacheTTL t st = st\<lparr>cs_cache := SetTTL t (cs_cache st)\<rparr>"

definition fetchFromPass :: "sys \<Rightarrow> string \<Rightarrow> string \<Rightarrow> command list \<Rightarrow> (fetch_error + string) \<times> command list" where
  "fetchFromPass s binary path tr =
     (let (r, tr') = run_command s \<lparr>cm_argv = [binary, ''--'', path], cm_env = None\<rparr> tr
      in (case r of Cmd_Output out \<Rightarrow> Inr (trim_space out) | _ \<Rightarrow> Inl (Pass_Failed path), tr'))"

definition plain :: "fetch_error + string \<Rightarrow> fetch_error + Credential" where
  "plain r = (case r of Inl e \<Rightarrow> Inl e | Inr v \<Rightarrow> Inr \<lparr>cr_value = v, cr_expires_at = zero_time\<rparr>)"

definition then_jq :: "sys \<Rightarrow> ParsedSource \<Rightarrow> fetch_error + string \<Rightarrow> fetch_error + string" where
  "then_jq s parsed r = (case r of Inl e \<Rightarrow> Inl e | Inr v \<Rightarrow> with_jq s parsed v)"

definition fetchCredentialFromBackend ::
  "sys \<Rightarrow> ParsedSource \<Rightarrow> FetchOptions \<Rightarrow> cred_state \<Rightarrow> (fetch_error + Credential) \<times> cred_state" where
  "fetchCredentialFromBackend s parsed opts st =
     (case ps_backend parsed of
        BackendEnv \<Rightarrow> (plain (then_jq s parsed (map_left File_Error (fetchFromEnvFile s (ps_path parsed)))), st)
      | BackendFile \<Rightarrow> (plain (then_jq s parsed (map_left File_Error (fetchFromFile s (ps_path parsed)))), st)
      | BackendPass \<Rightarrow>
          let (r, tr) = fetchFromPass s (fo_pass_binary opts) (ps_path parsed) (cs_trace st)
          in (plain (then_jq s parsed r), st\<lparr>cs_trace := tr\<rparr>)
      | Backend1Password \<Rightarrow>
          let (r, tr) = fetchFrom1Password s (cs_op_token_file st) parsed (fo_op_binary opts) (cs_trace st)
          in (plain r, st\<lparr>cs_trace := tr\<rparr>)
      | BackendAge \<Rightarrow> (plain (fetchFromAge s (cs_age_identity_file st) parsed), st)
      | BackendKeychain \<Rightarrow>
          let (r, tr) = fetchFromKeychain s parsed (cs_trace st) in (plain r, st\<lparr>cs_trace := tr\<rparr>)
      | BackendBitwarden \<Rightarrow>
          let (r, (bw, tr)) = fetchFromBitwarden s parsed (fo_bw_binary opts) (cs_bw st, cs_trace st)
          in (plain r, st\<lparr>cs_bw := bw, cs_trace := tr\<rparr>)
      | BackendVault \<Rightarrow>
          let (r, tr) = fetchFromVault s (cs_vault st) parsed (fo_vault_binary opts) (cs_trace st)
          in (plain r, st\<lparr>cs_trace := tr\<rparr>)
      | BackendExecJSON \<Rightarrow>
          let (r, tr) = fetchFromExecJSON s parsed (cs_trace st) in (r, st\<lparr>cs_trace := tr\<rparr>))"

text \<open>Whether a call of \<open>fetchCached\<close> gets to run its fetch function.\<close>

definition fetch_runs :: "string \<Rightarrow> time \<Rightarrow> 'e fetch_env \<Rightarrow> credentialCache \<Rightarrow> bool" where
  "fetch_runs key now env c \<longleftrightarrow>
     fst (Get key now c) = None \<and> fe_joined env = None \<and>
     fst (Get key (fe_inner_now env) (fe_before env (snd (Get key now c)))) = None"

definition cached_fetch ::
  "string \<Rightarrow> time \<Rightarrow> fetch_error fetch_env \<Rightarrow> (cred_state \<Rightarrow> (fetch_error + Credential) \<times> cred_state) \<Rightarrow> cred_state \<Rightarrow>
   (fetch_error + Credential) \<times> cred_state" where
  "cached_fetch key now env fetch st =
     (let (r, st1) = fetch st;
          (v, c) = fetchCached key now (env\<lparr>fe_fetch := r\<rparr>) (cs_cache st);
          st2 = (if fetch_runs key now env (cs_cache st) then st1 else st)
      in (v, st2\<lparr>cs_cache := c\<rparr>))"

definition FetchCredential ::
  "sys \<Rightarrow> time \<Rightarrow> fetch_error fetch_env \<Rightarrow> string \<Rightarrow> FetchOption list \<Rightarrow> cred_state \<Rightarrow> (fetch_error + Credential) \<times> cred_state" where
  "FetchCredential s now env source opts st =
     (let options = fold (\<lambda>opt o'. opt o') opts (default_options s)
      in case ParseSource source of
           Inl _ \<Rightarrow> (Inl Bad_Source, st)
         | Inr parsed \<Rightarrow>
             if isCredentialCacheableBackend (ps_backend parsed) \<and> \<not> fo_bypass_cache options
             then cached_fetch (credentialCacheKey parsed) now env (fetchCredentialFromBackend s parsed options) st
             else fetchCredentialFromBackend s parsed options st)"

definition Fetch ::
  "sys \<Rightarrow> time \<Rightarrow> fetch_error fetch_env \<Rightarrow> string \<Rightarrow> FetchOption list \<Rightarrow> cred_state \<Rightarrow> (fetch_error + string) \<times> cred_state" where
  "Fetch s now env source opts st =
     (let (r, st') = FetchCredential s now env source opts st
      in (case r of Inl e \<Rightarrow> Inl e | Inr c \<Rightarrow> Inr (cr_value c), st'))"

section \<open>Commands and secrets\<close>

text \<open>
  What a backend may put on a command line: the helper program, words of its own, and parts of the
  reference. Tokens, passwords and session keys are not among them.
\<close>

definition cli_words :: "string set" where
  "cli_words = {''security'', ''find-generic-password'', ''-s'', ''-a'', ''-w'', ''claw-wrap'', ''read'', ''item'', ''get'',
     ''--vault'', ''--format'', ''json'', ''kv'', ''-format=json'', ''--'', ''status'', ''login'', ''--apikey'', ''unlock'',
     ''--raw'', ''--passwordenv'', ''BW_UNLOCK_PASSWORD''}"

definition ref_words :: "ParsedSource \<Rightarrow> string set" where
  "ref_words parsed = insert (ps_path parsed) (set (split_char CHR ''/'' (trim_prefix (ps_path parsed) ''op://'')))"

definition argv_ok :: "ParsedSource \<Rightarrow> command \<Rightarrow> bool" where
  "argv_ok parsed c \<longleftrightarrow> cm_argv c \<noteq> [] \<and> set (tl (cm_argv c)) \<subseteq> cli_words \<union> ref_words parsed"

text \<open>The trace grew by commands of this form only, and by at most \<open>k\<close> of them.\<close>

definition grows :: "nat \<Rightarrow> ParsedSource \<Rightarrow> command list \<Rightarrow> command list \<Rightarrow> bool" where
  "grows k parsed tr tr' \<longleftrightarrow> (\<exists>cs. tr' = cs @ tr \<and> length cs \<le> k \<and> list_all (argv_ok parsed) cs)"

lemma grows_refl [simp]: "grows k parsed tr tr"
  by (auto simp: grows_def)

lemma grows_Cons: "argv_ok parsed c \<Longrightarrow> grows (Suc k) parsed tr (c # tr)"
  unfolding grows_def by (rule exI [of _ "[c]"]) simp

lemma grows_trans:
  assumes "grows j parsed a b" and "grows k parsed b c" and "j + k \<le> n"
  shows "grows n parsed a c"
proof -
  obtain xs where "b = xs @ a" "length xs \<le> j" "list_all (argv_ok parsed) xs"
    using assms(1) by (auto simp: grows_def)
  moreover obtain ys where "c = ys @ b" "length ys \<le> k" "list_all (argv_ok parsed) ys"
    using assms(2) by (auto simp: grows_def)
  ultimately have "c = (ys @ xs) @ a \<and> length (ys @ xs) \<le> n \<and> list_all (argv_ok parsed) (ys @ xs)"
    using assms(3) by simp
  then show ?thesis unfolding grows_def by blast
qed

lemmas argv_simps = argv_ok_def cli_words_def ref_words_def keychainAccountName_def run_command_def

lemma status_grows: "bwCheckStatus s ses tr = (r, tr') \<Longrightarrow> grows 1 parsed tr tr'"
  by (auto simp: bwCheckStatus_def argv_simps split: prod.splits intro!: grows_Cons)

lemma login_grows: "bwLogin s ses tr = (r, tr') \<Longrightarrow> grows 1 parsed tr tr'"
  by (auto simp: bwLogin_def argv_simps split: prod.splits option.splits intro!: grows_Cons)

lemma unlock_grows: "bwUnlock s ses tr = (r, tr') \<Longrightarrow> grows 1 parsed tr tr'"
  by (auto simp: bwUnlock_def argv_simps split: prod.splits option.splits intro!: grows_Cons)

lemma get_grows: "bwGetItem s ses (ps_path parsed) tr = (r, tr') \<Longrightarrow> grows 1 parsed tr tr'"
  by (auto simp: bwGetItem_def argv_simps split: prod.splits intro!: grows_Cons)

lemma grows_mono: "grows j parsed a b \<Longrightarrow> j \<le> n \<Longrightarrow> grows n parsed a b"
  using grows_trans [of j parsed a b 0 b n] by simp

lemma unlock_step_grows: "grows 1 parsed tr (snd (snd (bw_unlock_step s ses tr)))"
  using unlock_grows [of s ses tr] by (auto simp: bw_unlock_step_def split: prod.splits)

lemma authenticate_grows: "grows 2 parsed tr (snd (snd (bw_authenticate s ses status tr)))"
proof -
  obtain r tr1 where l: "bwLogin s ses tr = (r, tr1)" by (metis surj_pair)
  have "grows 1 parsed tr tr1" using l by (rule login_grows)
  then have "grows 2 parsed tr tr1" "grows 2 parsed tr (snd (snd (bw_unlock_step s ses' tr1)))" for ses'
    using grows_mono [of 1] grows_trans [OF _ unlock_step_grows] by fastforce+
  moreover have "grows 2 parsed tr (snd (snd (bw_unlock_step s ses tr)))"
    using grows_mono [OF unlock_step_grows] by fastforce
  ultimately show ?thesis using l by (simp add: bw_authenticate_def split: option.splits)
qed

lemma ensure_grows: "grows 3 parsed (snd st) (snd (snd (ensureBWSession s bin st)))"
proof -
  have "grows 3 parsed tr (snd (snd (let (status, tr') = bwCheckStatus s ses tr
      in bw_authenticate s ses (case status of None \<Rightarrow> ''unauthenticated'' | Some x \<Rightarrow> x) tr')))" for tr ses
  proof -
    obtain r tr1 where c: "bwCheckStatus s ses tr = (r, tr1)" by (metis surj_pair)
    then have "grows 1 parsed tr tr1" by (rule status_grows)
    from grows_trans [OF this authenticate_grows, of 3] show ?thesis by (simp add: c)
  qed
  then show ?thesis by (simp add: ensureBWSession_def split: option.splits)
qed

lemma bw_loop_grows: "grows (4 * n) parsed (snd st) (snd (snd (bw_loop s parsed bin n st)))"
proof (induction n arbitrary: st)
  case (Suc n)
  obtain cur tr where st: "st = (cur, tr)" by (cases st)
  show ?case
  proof (cases cur)
    case None
    then show ?thesis by (simp add: st)
  next
    case (Some ses)
    obtain r tr1 where get: "bwGetItem s ses (ps_path parsed) tr = (r, tr1)" by fastforce
    then have g: "grows 1 parsed tr tr1" by (rule get_grows)
    show ?thesis
    proof (cases "\<exists>msg. r = Inl msg \<and> isAuthError msg")
      case False
      then show ?thesis using get grows_mono [OF g, of "4 * Suc n"] by (auto simp: st Some split: sum.splits)
    next
      case True
      then obtain msg where r: "r = Inl msg" "isAuthError msg" by blast
      let ?ses = "ses\<lparr>bw_logged_in := False, bw_token := []\<rparr>"
      obtain ok st2 where e: "ensureBWSession s bin (Some ?ses, tr1) = (ok, st2)" by (metis surj_pair)
      have "grows 3 parsed tr1 (snd st2)" using ensure_grows [of parsed "(Some ?ses, tr1)" s bin] by (simp add: e)
      with g have g4: "grows 4 parsed tr (snd st2)" by (rule grows_trans) simp
      show ?thesis
      proof (cases ok)
        case True
        have "grows (4 * Suc n) parsed tr (snd (snd (bw_loop s parsed bin n st2)))"
          using g4 Suc.IH [of st2] by (rule grows_trans) simp
        with True get r e show ?thesis by (simp add: st Some)
      next
        case False
        then show ?thesis using get r e grows_mono [OF g4, of "4 * Suc n"] by (simp add: st Some)
      qed
    qed
  qed
qed simp

lemma bitwarden_grows: "grows 15 parsed (snd st) (snd (snd (fetchFromBitwarden s parsed override st)))"
proof (cases "resolveBWBinary s override")
  case None
  then show ?thesis by (simp add: fetchFromBitwarden_def)
next
  case (Some bin)
  obtain ok st1 where e: "ensureBWSession s bin (map_option (\<lambda>ses. ses\<lparr>bw_binary := bin\<rparr>) (fst st), snd st) = (ok, st1)"
    by (metis surj_pair)
  have g: "grows 3 parsed (snd st) (snd st1)"
    using ensure_grows [of parsed "(map_option (\<lambda>ses. ses\<lparr>bw_binary := bin\<rparr>) (fst st), snd st)" s bin] by (simp add: e)
  show ?thesis
  proof (cases ok)
    case True
    have "grows 15 parsed (snd st) (snd (snd (bw_loop s parsed bin 3 st1)))"
      using g bw_loop_grows by (rule grows_trans) simp
    with True Some e show ?thesis by (simp add: fetchFromBitwarden_def bwRetryDelays_def numeral_3_eq_3)
  next
    case False
    with Some e grows_mono [OF g, of 15] show ?thesis by (simp add: fetchFromBitwarden_def)
  qed
qed

lemma parseOPSecretRef_words:
  "parseOPSecretRef (ps_path parsed) = Some (vault, item) \<Longrightarrow> vault \<in> ref_words parsed \<and> item \<in> ref_words parsed"
  by (auto simp: parseOPSecretRef_def ref_words_def split: if_splits list.splits)

lemma onepassword_grows: "grows 1 parsed tr (snd (fetchFrom1Password s file parsed override tr))"
proof -
  have 1: "grows 1 parsed tr (snd (fetchFrom1PasswordDirect s bin token (ps_path parsed) tr))" for bin token
    by (auto simp: fetchFrom1PasswordDirect_def argv_simps intro!: grows_Cons split: prod.splits)
  have 2: "grows 1 parsed tr (snd (fetchFrom1PasswordWithJQ s bin token parsed tr))" for bin token
    using parseOPSecretRef_words [of parsed]
    by (auto simp: fetchFrom1PasswordWithJQ_def run_command_def argv_ok_def cli_words_def
        intro!: grows_Cons split: prod.splits option.splits)
  show ?thesis using 1 2 by (simp add: fetchFrom1Password_def split: option.splits)
qed

lemma other_grows:
  "grows 1 parsed tr (snd (fetchFromVault s settings parsed override tr))"
  "grows 1 parsed tr (snd (fetchFromKeychain s parsed tr))"
  "grows 1 parsed tr (snd (fetchFromExecJSON s parsed tr))"
  "grows 1 parsed tr (snd (fetchFromPass s bin (ps_path parsed) tr))"
  by (auto simp: fetchFromVault_def fetchFromKeychain_def readKeychainItem_def fetchFromExecJSON_def
      fetchFromPass_def argv_simps intro!: grows_Cons split: prod.splits option.splits)

lemma backend_grows:
  "grows 15 parsed (cs_trace st) (cs_trace (snd (fetchCredentialFromBackend s parsed opts st)))"
proof (cases "ps_backend parsed")
  case BackendBitwarden
  then show ?thesis
    using bitwarden_grows [of parsed "(cs_bw st, cs_trace st)" s "fo_bw_binary opts"]
    by (simp add: fetchCredentialFromBackend_def case_prod_beta Let_def)
qed (use grows_mono [OF onepassword_grows] grows_mono [OF other_grows(1)] grows_mono [OF other_grows(2)]
    grows_mono [OF other_grows(3)] grows_mono [OF other_grows(4)] in
    \<open>simp_all add: fetchCredentialFromBackend_def case_prod_beta Let_def\<close>)

text \<open>C31: a fetch runs at most fifteen commands, and none of them carries anything on its command
  line but the program, words of the program's own command syntax and parts of the configured
  reference: no token, password or session key can show up in the process list.\<close>
theorem no_secret_on_command_line:
  assumes "ParseSource source = Inr parsed"
  shows "\<exists>cs. cs_trace (snd (FetchCredential s now env source opts st)) = cs @ cs_trace st \<and>
    length cs \<le> 15 \<and> (\<forall>c \<in> set cs. set (tl (cm_argv c)) \<subseteq> cli_words \<union> ref_words parsed)"
proof -
  let ?o = "fold (\<lambda>opt o'. opt o') opts (default_options s)"
  have "grows 15 parsed (cs_trace st) (cs_trace (snd (FetchCredential s now env source opts st)))"
    using assms backend_grows [of parsed st s ?o]
    by (simp add: FetchCredential_def cached_fetch_def Let_def case_prod_beta)
  then show ?thesis by (auto simp: grows_def argv_ok_def list_all_iff)
qed

definition zero_state :: cred_state where
  "zero_state = \<lparr>cs_cache = newCredentialCache, cs_bw = None,
     cs_vault = \<lparr>vs_addr = [], vs_skip_verify = None, vs_cacert = [], vs_namespace = [], vs_token_file = []\<rparr>,
     cs_op_token_file = ''/t'', cs_age_identity_file = ''/i'', cs_trace = []\<rparr>"

definition quiet_env :: "time \<Rightarrow> fetch_error fetch_env" where
  "quiet_env now = \<lparr>fe_joined = None, fe_fetch = Inl Bad_Source, fe_inner_now = now, fe_store_now = now, fe_fail_now = now,
     fe_before = id, fe_during = id\<rparr>"

theorem no_secret_on_command_line_witness:
  "\<exists>cs. cs_trace (snd (FetchCredential (sample_sys [] (\<lambda>_. Cmd_Output ''pw'')) 0 (quiet_env 0) ''pass:a/b'' [] zero_state)) =
     cs @ [] \<and> length cs \<le> 15 \<and>
   (\<forall>c \<in> set cs. set (tl (cm_argv c)) \<subseteq> cli_words \<union>
      ref_words \<lparr>ps_backend = BackendPass, ps_path = ''a/b'', ps_jq = [], ps_original = ''pass:a/b''\<rparr>)"
proof -
  have "ParseSource ''pass:a/b'' = Inr \<lparr>ps_backend = BackendPass, ps_path = ''a/b'', ps_jq = [], ps_original = ''pass:a/b''\<rparr>"
    by code_simp
  from no_secret_on_command_line [OF this, of "sample_sys [] (\<lambda>_. Cmd_Output ''pw'')" 0 "quiet_env 0" "[]" zero_state]
  show ?thesis by (simp add: zero_state_def)
qed

text \<open>
  The answer of \<open>vault kv get\<close> for a deleted version of a secret has \<open>null\<close> as its data. The field is
  present, so the four characters of the word are taken for the secret.
\<close>

lemma vault_deleted_secret:
  "extractVaultData (''{'' @ [DQUOTE] @ ''data'' @ [DQUOTE] @ '':{'' @ [DQUOTE] @ ''data'' @ [DQUOTE] @ '':null,'' @
      [DQUOTE] @ ''metadata'' @ [DQUOTE] @ '':{}}}'') = Inr ''null''"
  by code_simp

text \<open>Only the four remote backends go through the cache; a bypassing call leaves it alone.\<close>

lemma bypass_leaves_cache:
  "fo_bypass_cache (fold (\<lambda>opt o'. opt o') opts (default_options s)) \<Longrightarrow>
   cs_cache (snd (FetchCredential s now env source opts st)) = cs_cache st"
  by (auto simp: FetchCredential_def fetchCredentialFromBackend_def Let_def case_prod_beta
      split: sum.splits Backend.splits)

lemma cacheable_only:
  "ParseSource source = Inr parsed \<Longrightarrow> \<not> isCredentialCacheableBackend (ps_backend parsed) \<Longrightarrow>
   cs_cache (snd (FetchCredential s now env source opts st)) = cs_cache st"
  by (auto simp: FetchCredential_def fetchCredentialFromBackend_def Let_def case_prod_beta
      split: Backend.splits)

end
