(* ===== verification/Github_App.thy ===== *)
theory Github_App
  imports Backends Base64
begin

text \<open>
  \<open>internal/credentials/githubapp.go\<close> and \<open>resolve.go\<close>: installation tokens of a GitHub App, and the
  resolution of a credential definition through a static source or this provider. The RSA functions
  of the standard library and the network are functions of the record \<open>github_sys\<close>.
\<close>

section \<open>Inputs\<close>

record ResolveInput =
  ri_label :: string
  ri_source :: string
  ri_type :: string
  ri_app_id :: int
  ri_installation_id :: int
  ri_private_key :: string
  ri_api_url :: string
  ri_permissions :: "(string, string) gomap"
  ri_repositories :: "string list"

record GitHubAppSpec =
  gh_app_id :: int
  gh_installation_id :: int
  gh_private_key_source :: string
  gh_api_url :: string
  gh_permissions :: "(string, string) gomap"
  gh_repositories :: "string list"

definition githubAppCredentialType :: string where "githubAppCredentialType = ''github-app''"
definition defaultGitHubAPIURL :: string where "defaultGitHubAPIURL = ''https://api.github.com''"
definition githubAppJWTIssuedOffset :: duration where "githubAppJWTIssuedOffset = 60 * second"
definition githubAppJWTLifetime :: duration where "githubAppJWTLifetime = 540 * second"
definition githubAPIVersionHeader :: string where "githubAPIVersionHeader = ''2022-11-28''"

text \<open>\<open>CredentialDef.ResolveInput\<close> of the configuration.\<close>

definition cred_ResolveInput :: "CredentialDef \<Rightarrow> string \<Rightarrow> ResolveInput" where
  "cred_ResolveInput c name =
     \<lparr>ri_label = name, ri_source = cd_source c, ri_type = cd_type c, ri_app_id = cd_app_id c,
      ri_installation_id = cd_installation_id c, ri_private_key = cd_private_key c, ri_api_url = cd_api_url c,
      ri_permissions = cd_permissions c, ri_repositories = cd_repositories c\<rparr>"

definition githubAppDisplaySource :: "int \<Rightarrow> int \<Rightarrow> string" where
  "githubAppDisplaySource appID installationID =
     ''github-app:'' @ format_int appID @ ''/'' @ format_int installationID"

definition DisplaySource :: "ResolveInput \<Rightarrow> string" where
  "DisplaySource i =
     (if trim_space (ri_label i) \<noteq> [] then trim_space (ri_label i)
      else if trim_space (ri_source i) \<noteq> [] then trim_space (ri_source i)
      else if trim_space (ri_type i) = githubAppCredentialType
      then githubAppDisplaySource (ri_app_id i) (ri_installation_id i) else [])"

definition githubAppSpecFromInput :: "ResolveInput \<Rightarrow> GitHubAppSpec" where
  "githubAppSpecFromInput i =
     (let apiURL = trim_space (ri_api_url i)
      in \<lparr>gh_app_id = ri_app_id i, gh_installation_id = ri_installation_id i,
          gh_private_key_source = trim_space (ri_private_key i),
          gh_api_url = (if apiURL = [] then defaultGitHubAPIURL else apiURL),
          gh_permissions = ri_permissions i, gh_repositories = ri_repositories i\<rparr>)"

section \<open>Cache key\<close>

definition canonicalPermissionString :: "(string, string) gomap \<Rightarrow> string" where
  "canonicalPermissionString perms = join '','' (map (\<lambda>(k, v). k @ ''='' @ v) (sort_key fst perms))"

definition canonicalRepositoryString :: "string list \<Rightarrow> string" where
  "canonicalRepositoryString repos = join '','' (sort repos)"

definition githubAppCacheKey :: "GitHubAppSpec \<Rightarrow> string" where
  "githubAppCacheKey spec = ''github-app'' @ [NUL] @ format_int (gh_app_id spec) @ [NUL] @
     format_int (gh_installation_id spec) @ [NUL] @ gh_api_url spec @ [NUL] @
     canonicalPermissionString (gh_permissions spec) @ [NUL] @ canonicalRepositoryString (gh_repositories spec)"

section \<open>Minting\<close>

datatype key_form = Key_RSA bytes | Key_Other | Key_Invalid

record http_post =
  hq_url :: string
  hq_authorization :: string
  hq_accept :: string
  hq_api_version :: string
  hq_content_type :: string
  hq_body :: bytes

datatype http_outcome = Http_Failed | Http_Read_Failed int | Http_Reply int bytes

record github_sys =
  gs_pem :: "string \<Rightarrow> (string \<times> bytes) option"
  gs_pkcs1 :: "bytes \<Rightarrow> key_form"
  gs_pkcs8 :: "bytes \<Rightarrow> key_form"
  gs_sign :: "bytes \<Rightarrow> string \<Rightarrow> bytes option"
  gs_url_ok :: "string \<Rightarrow> bool"
  gs_post :: "http_post \<Rightarrow> http_outcome"

datatype gh_error =
    Gh_Private_Key fetch_error
  | Gh_Empty_Key
  | Gh_Bad_Pem
  | Gh_Bad_Key
  | Gh_Not_RSA
  | Gh_Key_Type string
  | Gh_Sign
  | Gh_Request
  | Gh_Exchange
  | Gh_Read
  | Gh_Status int string
  | Gh_Decode
  | Gh_No_Token
  | Gh_Bad_Expiry

definition fetchPrivateKeyPEM ::
  "sys \<Rightarrow> time \<Rightarrow> fetch_error fetch_env \<Rightarrow> string \<Rightarrow> FetchOptions \<Rightarrow> cred_state \<Rightarrow> (gh_error + string) \<times> cred_state" where
  "fetchPrivateKeyPEM s now env source options st =
     (let (r, st') = FetchCredential s now env source
            [WithPassBinary (fo_pass_binary options), WithOPBinary (fo_op_binary options), WithBWBinary (fo_bw_binary options),
             WithVaultBinary (fo_vault_binary options), WithBypassCache] st
      in (case r of
            Inl e \<Rightarrow> Inl (Gh_Private_Key e)
          | Inr cred \<Rightarrow> if trim_space (cr_value cred) = [] then Inl Gh_Empty_Key else Inr (cr_value cred), st'))"

definition parseRSAPrivateKeyPEM :: "github_sys \<Rightarrow> string \<Rightarrow> gh_error + bytes" where
  "parseRSAPrivateKeyPEM g pemData =
     (case gs_pem g pemData of
        None \<Rightarrow> Inl Gh_Bad_Pem
      | Some (typ, b) \<Rightarrow>
          if typ = ''RSA PRIVATE KEY'' then (case gs_pkcs1 g b of Key_RSA k \<Rightarrow> Inr k | _ \<Rightarrow> Inl Gh_Bad_Key)
          else if typ = ''PRIVATE KEY'' then
            (case gs_pkcs8 g b of Key_RSA k \<Rightarrow> Inr k | Key_Other \<Rightarrow> Inl Gh_Not_RSA | Key_Invalid \<Rightarrow> Inl Gh_Bad_Key)
          else Inl (Gh_Key_Type typ))"

definition jwt_claims :: "int \<Rightarrow> time \<Rightarrow> string" where
  "jwt_claims appID now =
     ''{'' @ json_string ''iss'' @ '':'' @ [DQUOTE] @ format_int appID @ [DQUOTE] @ '','' @
     json_string ''iat'' @ '':'' @ format_int ((now - githubAppJWTIssuedOffset) div second) @ '','' @
     json_string ''exp'' @ '':'' @ format_int ((now + githubAppJWTLifetime) div second) @ ''}''"

definition jwt_header :: string where
  "jwt_header = ''{'' @ json_string ''alg'' @ '':'' @ json_string ''RS256'' @ '','' @ json_string ''typ'' @ '':'' @ json_string ''JWT'' @ ''}''"

definition signGitHubAppJWT :: "github_sys \<Rightarrow> bytes \<Rightarrow> int \<Rightarrow> time \<Rightarrow> string option" where
  "signGitHubAppJWT g key appID now =
     (let signingInput = b64_encode RawURLEncoding jwt_header @ ''.'' @ b64_encode RawURLEncoding (jwt_claims appID now)
      in case gs_sign g key signingInput of
           None \<Rightarrow> None
         | Some sig \<Rightarrow> Some (signingInput @ ''.'' @ b64_encode RawURLEncoding sig))"

definition encodeGitHubAppExchangeBody :: "GitHubAppSpec \<Rightarrow> bytes" where
  "encodeGitHubAppExchangeBody spec =
     (if gh_permissions spec = [] \<and> gh_repositories spec = [] then []
      else json_print (JObj (opt_map ''permissions'' (gh_permissions spec) @ opt_strs ''repositories'' (gh_repositories spec))))"

record githubAppExchangeResponse =
  ge_token :: string
  ge_expires_at :: string
  ge_message :: string

definition exchange_field :: "string \<Rightarrow> json \<Rightarrow> githubAppExchangeResponse \<Rightarrow> githubAppExchangeResponse option" where
  "exchange_field n j m =
     (if n = ''token'' then map_option (\<lambda>v. m\<lparr>ge_token := v\<rparr>) (dec_str j (ge_token m))
      else if n = ''expires_at'' then map_option (\<lambda>v. m\<lparr>ge_expires_at := v\<rparr>) (dec_str j (ge_expires_at m))
      else map_option (\<lambda>v. m\<lparr>ge_message := v\<rparr>) (dec_str j (ge_message m)))"

definition githubAppExchangeError :: "int \<Rightarrow> bytes \<Rightarrow> gh_error" where
  "githubAppExchangeError statusCode body =
     Gh_Status statusCode
       (case unmarshal (dec_struct [''message''] (\<lambda>n j m. dec_str j m)) [] body of None \<Rightarrow> [] | Some m \<Rightarrow> trim_space m)"

definition trim_right_slashes :: "string \<Rightarrow> string" where
  "trim_right_slashes u = rev (dropWhile (\<lambda>c. c = CHR ''/'') (rev u))"

definition exchange_url :: "GitHubAppSpec \<Rightarrow> string" where
  "exchange_url spec = trim_right_slashes (gh_api_url spec) @ ''/app/installations/'' @
     format_int (gh_installation_id spec) @ ''/access_tokens''"

definition exchangeGitHubAppInstallationToken :: "github_sys \<Rightarrow> GitHubAppSpec \<Rightarrow> string \<Rightarrow> gh_error + Credential" where
  "exchangeGitHubAppInstallationToken g spec jwt =
     (let body = encodeGitHubAppExchangeBody spec; url = exchange_url spec
      in if \<not> gs_url_ok g url then Inl Gh_Request
         else case gs_post g \<lparr>hq_url = url, hq_authorization = ''Bearer '' @ jwt, hq_accept = ''application/vnd.github+json'',
                 hq_api_version = githubAPIVersionHeader, hq_content_type = (if body \<noteq> [] then ''application/json'' else []),
                 hq_body = body\<rparr> of
           Http_Failed \<Rightarrow> Inl Gh_Exchange
         | Http_Read_Failed _ \<Rightarrow> Inl Gh_Read
         | Http_Reply code reply \<Rightarrow>
             let respBody = take 65536 reply
             in if code \<noteq> 201 then Inl (githubAppExchangeError code respBody)
                else case unmarshal (dec_struct [''token'', ''expires_at'', ''message''] exchange_field)
                            \<lparr>ge_token = [], ge_expires_at = [], ge_message = []\<rparr> respBody of
                  None \<Rightarrow> Inl Gh_Decode
                | Some parsed \<Rightarrow>
                    if trim_space (ge_token parsed) = [] then Inl Gh_No_Token
                    else case parse_rfc3339 (ge_expires_at parsed) of
                      None \<Rightarrow> Inl Gh_Bad_Expiry
                    | Some t \<Rightarrow> Inr \<lparr>cr_value = ge_token parsed, cr_expires_at = t\<rparr>)"

text \<open>A mint reads the private key live, signs a short-lived claim and trades it for a token.\<close>

definition mintGitHubAppInstallationToken ::
  "sys \<Rightarrow> github_sys \<Rightarrow> time \<Rightarrow> fetch_error fetch_env \<Rightarrow> GitHubAppSpec \<Rightarrow> FetchOptions \<Rightarrow> cred_state \<Rightarrow>
   (gh_error + Credential) \<times> cred_state" where
  "mintGitHubAppInstallationToken s g now env spec options st =
     (let (r, st') = fetchPrivateKeyPEM s now env (gh_private_key_source spec) options st
      in (case r of
            Inl e \<Rightarrow> Inl e
          | Inr keyPEM \<Rightarrow>
              (case parseRSAPrivateKeyPEM g keyPEM of
                 Inl e \<Rightarrow> Inl e
               | Inr key \<Rightarrow>
                   (case signGitHubAppJWT g key (gh_app_id spec) now of
                      None \<Rightarrow> Inl Gh_Sign
                    | Some jwt \<Rightarrow> exchangeGitHubAppInstallationToken g spec jwt)), st'))"

section \<open>Resolving\<close>

datatype resolve_error = Fetch_Err fetch_error | Gh_Err gh_error | Unknown_Type string

definition cached_mint ::
  "string \<Rightarrow> time \<Rightarrow> resolve_error fetch_env \<Rightarrow> (cred_state \<Rightarrow> (gh_error + Credential) \<times> cred_state) \<Rightarrow> cred_state \<Rightarrow>
   (resolve_error + Credential) \<times> cred_state" where
  "cached_mint key now env mint st =
     (let (r, st1) = mint st;
          (v, c) = fetchCached key now (env\<lparr>fe_fetch := map_left Gh_Err r\<rparr>) (cs_cache st);
          st2 = (if fetch_runs key now env (cs_cache st) then st1 else st)
      in (v, st2\<lparr>cs_cache := c\<rparr>))"

text \<open>What one resolution meets: the clock, and the two fetches it may make.\<close>

record resolve_env =
  re_now :: time
  re_fetch :: "fetch_error fetch_env"
  re_mint :: "resolve_error fetch_env"

definition fetchGitHubAppCredential ::
  "sys \<Rightarrow> github_sys \<Rightarrow> resolve_env \<Rightarrow> ResolveInput \<Rightarrow> FetchOption list \<Rightarrow> cred_state \<Rightarrow> (resolve_error + Credential) \<times> cred_state" where
  "fetchGitHubAppCredential s g env i opts st =
     (let spec = githubAppSpecFromInput i; options = fold (\<lambda>opt o'. opt o') opts (default_options s);
          mint = mintGitHubAppInstallationToken s g (re_now env) (re_fetch env) spec options
      in if fo_bypass_cache options then (let (r, st') = mint st in (map_left Gh_Err r, st'))
         else cached_mint (githubAppCacheKey spec) (re_now env) (re_mint env) mint st)"

definition ResolveCredential ::
  "sys \<Rightarrow> github_sys \<Rightarrow> resolve_env \<Rightarrow> ResolveInput \<Rightarrow> FetchOption list \<Rightarrow> cred_state \<Rightarrow> (resolve_error + Credential) \<times> cred_state" where
  "ResolveCredential s g env i opts st =
     (let typ = trim_space (ri_type i)
      in if typ = [] then
           (let (r, st') = FetchCredential s (re_now env) (re_fetch env) (trim_space (ri_source i)) opts st
            in (map_left Fetch_Err r, st'))
         else if typ = githubAppCredentialType then fetchGitHubAppCredential s g env i opts st
         else (Inl (Unknown_Type typ), st))"

definition Resolve ::
  "sys \<Rightarrow> github_sys \<Rightarrow> resolve_env \<Rightarrow> ResolveInput \<Rightarrow> FetchOption list \<Rightarrow> cred_state \<Rightarrow> (resolve_error + string) \<times> cred_state" where
  "Resolve s g env i opts st =
     (let (r, st') = ResolveCredential s g env i opts st
      in (case r of Inl e \<Rightarrow> Inl e | Inr c \<Rightarrow> Inr (cr_value c), st'))"

section \<open>Properties\<close>

text \<open>The private key is always read past the cache, so it never gets into it.\<close>

lemma private_key_not_cached:
  "cs_cache (snd (fetchPrivateKeyPEM s now env source options st)) = cs_cache st"
  using bypass_leaves_cache [of "[WithPassBinary (fo_pass_binary options), WithOPBinary (fo_op_binary options),
      WithBWBinary (fo_bw_binary options), WithVaultBinary (fo_vault_binary options), WithBypassCache]" s now env source st]
  by (simp add: fetchPrivateKeyPEM_def fetch_options case_prod_beta Let_def)

lemma mint_cache: "cs_cache (snd (mintGitHubAppInstallationToken s g now env spec options st)) = cs_cache st"
  using private_key_not_cached by (simp add: mintGitHubAppInstallationToken_def case_prod_beta Let_def)

text \<open>
  The text an object of an answer gives for a name: the last member of that name, where letter case does
  not count and a \<open>null\<close> changes nothing.
\<close>

definition member_text :: "string \<Rightarrow> (string \<times> json) list \<Rightarrow> string" where
  "member_text name es =
     foldl (\<lambda>old (k, j). case j of JStr v \<Rightarrow> if fold_name k = fold_name name then v else old | _ \<Rightarrow> old) [] es"

lemma member_text_snoc:
  "member_text name (es @ [(k, j)]) =
     (case j of JStr v \<Rightarrow> if fold_name k = fold_name name then v else member_text name es | _ \<Rightarrow> member_text name es)"
  by (simp add: member_text_def split: json.splits)

lemma exchange_find:
  "find_field [''token'', ''expires_at'', ''message''] k =
     (if fold_name k = fold_name ''token'' then Some ''token''
      else if fold_name k = fold_name ''expires_at'' then Some ''expires_at''
      else if fold_name k = fold_name ''message'' then Some ''message'' else None)"
proof -
  have names: "fold_name ''token'' \<noteq> fold_name ''expires_at''" "fold_name ''token'' \<noteq> fold_name ''message''"
    "fold_name ''expires_at'' \<noteq> fold_name ''message''" by code_simp+
  then show ?thesis by (auto simp: find_field_def)
qed

lemma exchange_members:
  "dec_members [''token'', ''expires_at'', ''message''] exchange_field es \<lparr>ge_token = [], ge_expires_at = [], ge_message = []\<rparr> = Some p \<Longrightarrow>
   ge_token p = member_text ''token'' es \<and> ge_expires_at p = member_text ''expires_at'' es"
proof (induction es arbitrary: p rule: rev_induct)
  case (snoc e es)
  obtain k j where e: "e = (k, j)" by (metis surj_pair)
  from snoc.prems obtain q where
    q: "dec_members [''token'', ''expires_at'', ''message''] exchange_field es \<lparr>ge_token = [], ge_expires_at = [], ge_message = []\<rparr> = Some q"
    and p: "dec_members [''token'', ''expires_at'', ''message''] exchange_field [e] q = Some p"
    by (auto simp: dec_members_append split: option.splits)
  have names: "fold_name ''token'' \<noteq> fold_name ''expires_at''" "fold_name ''token'' \<noteq> fold_name ''message''"
    "fold_name ''expires_at'' \<noteq> fold_name ''message''" by code_simp+
  show ?case using snoc.IH [OF q] p names unfolding e member_text_snoc
    by (auto simp: exchange_field_def dec_str_def exchange_find split: if_splits option.splits json.splits)
qed (simp add: member_text_def)

definition exchange_request :: "GitHubAppSpec \<Rightarrow> string \<Rightarrow> http_post" where
  "exchange_request spec jwt =
     \<lparr>hq_url = exchange_url spec, hq_authorization = ''Bearer '' @ jwt, hq_accept = ''application/vnd.github+json'',
      hq_api_version = ''2022-11-28'', hq_content_type = (if encodeGitHubAppExchangeBody spec \<noteq> [] then ''application/json'' else []),
      hq_body = encodeGitHubAppExchangeBody spec\<rparr>"

lemma exchange_result:
  assumes "exchangeGitHubAppInstallationToken g spec jwt = Inr cred"
  shows "\<exists>reply es. gs_post g (exchange_request spec jwt) = Http_Reply 201 reply \<and> json_parse (take 65536 reply) = Some (JObj es) \<and>
     cr_value cred = member_text ''token'' es \<and> trim_space (cr_value cred) \<noteq> [] \<and>
     parse_rfc3339 (member_text ''expires_at'' es) = Some (cr_expires_at cred)"
proof -
  from assms obtain reply p t where r: "gs_post g (exchange_request spec jwt) = Http_Reply 201 reply"
    and p: "unmarshal (dec_struct [''token'', ''expires_at'', ''message''] exchange_field)
       \<lparr>ge_token = [], ge_expires_at = [], ge_message = []\<rparr> (take 65536 reply) = Some p"
    and c: "trim_space (ge_token p) \<noteq> []" "parse_rfc3339 (ge_expires_at p) = Some t" "cred = \<lparr>cr_value = ge_token p, cr_expires_at = t\<rparr>"
    by (auto simp: exchangeGitHubAppInstallationToken_def exchange_request_def githubAPIVersionHeader_def Let_def
        split: if_splits http_outcome.splits option.splits)
  have "trim_space [] = []" by code_simp
  then obtain es where es: "json_parse (take 65536 reply) = Some (JObj es)"
    "dec_members [''token'', ''expires_at'', ''message''] exchange_field es \<lparr>ge_token = [], ge_expires_at = [], ge_message = []\<rparr> = Some p"
    using p c(1) by (auto simp: unmarshal_def dec_struct_def split: option.splits json.splits)
  from exchange_members [OF es(2)] r es(1) c show ?thesis by auto
qed

text \<open>A claim is valid for ten minutes at most, the limit the service sets.\<close>

lemma jwt_lifetime: "(now + githubAppJWTLifetime) div second - (now - githubAppJWTIssuedOffset) div second = 600"
proof -
  have "now + githubAppJWTLifetime = (now - githubAppJWTIssuedOffset) + 600 * second"
    by (simp add: githubAppJWTLifetime_def githubAppJWTIssuedOffset_def)
  then show ?thesis by simp
qed

text \<open>C32: minting an installation token never changes the cache, so the App's private key is not kept
  in it; a credential is returned only after the private key was read live, and only if the service
  answered 201 to the request for this very installation, signed with that key: its value is the token of
  the object in the answer, which is not blank, and its expiry is the time the answer gives.\<close>
theorem mint_returns_granted_token:
  assumes "mintGitHubAppInstallationToken s g now env spec options st = (Inr cred, st')"
  shows "cs_cache st' = cs_cache st \<and>
    (\<exists>pem key jwt reply es. fst (fetchPrivateKeyPEM s now env (gh_private_key_source spec) options st) = Inr pem \<and>
       parseRSAPrivateKeyPEM g pem = Inr key \<and> signGitHubAppJWT g key (gh_app_id spec) now = Some jwt \<and>
       gs_post g (exchange_request spec jwt) = Http_Reply 201 reply \<and> json_parse (take 65536 reply) = Some (JObj es) \<and>
       cr_value cred = member_text ''token'' es \<and> trim_space (cr_value cred) \<noteq> [] \<and>
       parse_rfc3339 (member_text ''expires_at'' es) = Some (cr_expires_at cred))"
proof -
  have "cs_cache st' = cs_cache st" using mint_cache [of s g now env spec options st] assms by simp
  moreover obtain pem key jwt where "fst (fetchPrivateKeyPEM s now env (gh_private_key_source spec) options st) = Inr pem"
    "parseRSAPrivateKeyPEM g pem = Inr key" "signGitHubAppJWT g key (gh_app_id spec) now = Some jwt"
    "exchangeGitHubAppInstallationToken g spec jwt = Inr cred"
    using assms by (auto simp: mintGitHubAppInstallationToken_def split: prod.splits sum.splits option.splits)
  ultimately show ?thesis using exchange_result by blast
qed

definition sample_github :: github_sys where
  "sample_github = \<lparr>gs_pem = (\<lambda>p. Some (''RSA PRIVATE KEY'', p)), gs_pkcs1 = Key_RSA, gs_pkcs8 = Key_RSA,
     gs_sign = (\<lambda>k m. Some ''sig''), gs_url_ok = (\<lambda>u. True),
     gs_post = (\<lambda>q. Http_Reply 201 (json_print (JObj [(''token'', JStr ''ghs''), (''expires_at'', JStr ''2024-02-29T22:59:59Z'')])))\<rparr>"

definition sample_spec :: GitHubAppSpec where
  "sample_spec = \<lparr>gh_app_id = 7, gh_installation_id = 9, gh_private_key_source = ''file:/k'',
     gh_api_url = defaultGitHubAPIURL, gh_permissions = [], gh_repositories = []\<rparr>"

definition key_sys :: sys where
  "key_sys = sample_sys [(''/k'', plain_file 0 416 ''pem'')] (\<lambda>_. Cmd_Deadline)"

lemma sample_mint:
  "mintGitHubAppInstallationToken key_sys sample_github 0 (quiet_env 0) sample_spec (default_options key_sys) zero_state =
     (Inr \<lparr>cr_value = ''ghs'', cr_expires_at = 1709247599000000000\<rparr>, zero_state)"
proof -
  have p: "ParseSource ''file:/k'' = Inr \<lparr>ps_backend = BackendFile, ps_path = ''/k'', ps_jq = [], ps_original = ''file:/k''\<rparr>"
    by code_simp
  have f: "fetchFromFile key_sys ''/k'' = Inr ''pem''"
    by (simp add: key_sys_def fetchFromFile_def sample_sys_def plain_file_def is_abs_def maxSecretFileSize_def
        trim_right_newlines_def)
  have t: "trim_space ''pem'' \<noteq> []" "trim_space ''ghs'' \<noteq> []" by code_simp+
  have k: "fetchPrivateKeyPEM key_sys 0 (quiet_env 0) ''file:/k'' (default_options key_sys) zero_state = (Inr ''pem'', zero_state)"
    using t(1) by (simp add: fetchPrivateKeyPEM_def FetchCredential_def p fetchCredentialFromBackend_def f map_left_def
        then_jq_def with_jq_def HasJQ_def plain_def isCredentialCacheableBackend_def Let_def)
  have r: "unmarshal (dec_struct [''token'', ''expires_at'', ''message''] exchange_field)
      \<lparr>ge_token = [], ge_expires_at = [], ge_message = []\<rparr>
      (take 65536 (json_print (JObj [(''token'', JStr ''ghs''), (''expires_at'', JStr ''2024-02-29T22:59:59Z'')]))) =
      Some \<lparr>ge_token = ''ghs'', ge_expires_at = ''2024-02-29T22:59:59Z'', ge_message = []\<rparr>"
  proof -
    have "length (json_print (JObj [(''token'', JStr ''ghs''), (''expires_at'', JStr ''2024-02-29T22:59:59Z'')])) \<le> 99"
      by code_simp
    then have "take 65536 (json_print (JObj [(''token'', JStr ''ghs''), (''expires_at'', JStr ''2024-02-29T22:59:59Z'')])) =
        json_print (JObj [(''token'', JStr ''ghs''), (''expires_at'', JStr ''2024-02-29T22:59:59Z'')])" by simp
    moreover have "unmarshal (dec_struct [''token'', ''expires_at'', ''message''] exchange_field)
      \<lparr>ge_token = [], ge_expires_at = [], ge_message = []\<rparr>
      (json_print (JObj [(''token'', JStr ''ghs''), (''expires_at'', JStr ''2024-02-29T22:59:59Z'')])) =
      Some \<lparr>ge_token = ''ghs'', ge_expires_at = ''2024-02-29T22:59:59Z'', ge_message = []\<rparr>" by code_simp
    ultimately show ?thesis by simp
  qed
  have e: "parse_rfc3339 ''2024-02-29T22:59:59Z'' = Some 1709247599000000000" by code_simp
  show ?thesis
    using k t(2) r e by (simp add: mintGitHubAppInstallationToken_def sample_spec_def sample_github_def
        parseRSAPrivateKeyPEM_def signGitHubAppJWT_def exchangeGitHubAppInstallationToken_def Let_def)
qed

theorem mint_returns_granted_token_witness:
  "mintGitHubAppInstallationToken key_sys sample_github 0 (quiet_env 0) sample_spec (default_options key_sys) zero_state =
     (Inr \<lparr>cr_value = ''ghs'', cr_expires_at = 1709247599000000000\<rparr>, zero_state) \<and>
   (\<exists>es. ''ghs'' = member_text ''token'' es \<and> parse_rfc3339 (member_text ''expires_at'' es) = Some 1709247599000000000)"
  using sample_mint mint_returns_granted_token [OF sample_mint] by auto

end
