(* ===== verification/Ssrf.thy ===== *)
theory Ssrf
  imports Json
begin

text \<open>
  \<open>internal/httpproxy/ssrf.go\<close> and the address part of \<open>security.go\<close>: the dialer's control callback
  that refuses private and reserved addresses. \<open>net.ParseIP\<close>, \<open>net.SplitHostPort\<close> and
  \<open>IPNet.Contains\<close> are modelled from their documentation; an \<open>net.IP\<close> is its list of bytes, sixteen
  of them as \<open>ParseIP\<close> returns it, an IPv4 address in its mapped form.
\<close>

unbundle bit_operations_syntax

type_synonym ip = "nat list"

section \<open>Package net\<close>

text \<open>One decimal field of a dotted address: no leading zero, at most 255.\<close>

definition ip4_field :: "string \<Rightarrow> nat option" where
  "ip4_field s =
     (if s = [] \<or> 3 < length s \<or> (1 < length s \<and> hd s = CHR ''0'') then None
      else case parse_digits 10 s of None \<Rightarrow> None | Some n \<Rightarrow> if n \<le> 255 then Some (nat n) else None)"

definition parse_ip4 :: "string \<Rightarrow> ip option" where
  "parse_ip4 s =
     (case map ip4_field (split_char CHR ''.'' s) of
        [Some a, Some b, Some c, Some d] \<Rightarrow> Some [a, b, c, d] | _ \<Rightarrow> None)"

definition mapped4 :: "ip \<Rightarrow> ip" where
  "mapped4 a = replicate 10 0 @ [255, 255] @ a"

fun hex_group :: "nat \<Rightarrow> string \<Rightarrow> nat option" where
  "hex_group acc [] = Some acc"
| "hex_group acc (c # r) = (case hex_val c of None \<Rightarrow> None | Some d \<Rightarrow> hex_group (acc * 16 + d) r)"

definition is_hex :: "char \<Rightarrow> bool" where
  "is_hex c \<longleftrightarrow> hex_val c \<noteq> None"

text \<open>
  The groups of an IPv6 address: \<open>acc\<close> the bytes so far, \<open>ell\<close> where the \<open>::\<close> stood. The first argument
  bounds the number of groups.
\<close>

fun ip6_groups :: "nat \<Rightarrow> ip \<Rightarrow> nat option \<Rightarrow> string \<Rightarrow> (ip \<times> nat option) option" where
  "ip6_groups 0 acc ell s = None"
| "ip6_groups (Suc n) acc ell s =
     (let g = takeWhile is_hex s; r = dropWhile is_hex s
      in if 16 \<le> length acc \<or> g = [] \<or> 4 < length g then None
         else if r \<noteq> [] \<and> hd r = CHR ''.'' then
           (if ell = None \<and> length acc \<noteq> 12 \<or> 16 < length acc + 4 then None
            else case parse_ip4 s of None \<Rightarrow> None | Some a \<Rightarrow> Some (acc @ a, ell))
         else case hex_group 0 g of
           None \<Rightarrow> None
         | Some v \<Rightarrow>
             let acc = acc @ [v div 256, v mod 256]
             in if r = [] then Some (acc, ell)
                else if hd r \<noteq> CHR '':'' \<or> length r = 1 then None
                else let r = tl r
                     in if hd r = CHR '':'' then
                          (if ell \<noteq> None then None
                           else if tl r = [] then Some (acc, Some (length acc))
                           else if length acc = 16 then None
                           else ip6_groups n acc (Some (length acc)) (tl r))
                        else if length acc = 16 then None else ip6_groups n acc ell r)"

definition expand_ip6 :: "ip \<times> nat option \<Rightarrow> ip option" where
  "expand_ip6 p =
     (case p of (b, ell) \<Rightarrow>
        if length b = 16 then (if ell = None then Some b else None)
        else case ell of None \<Rightarrow> None
             | Some k \<Rightarrow> Some (take k b @ replicate (16 - length b) 0 @ drop k b))"

definition parse_ip6 :: "string \<Rightarrow> ip option" where
  "parse_ip6 s =
     (if has_prefix s ''::'' then
        (if length s = 2 then Some (replicate 16 0)
         else case ip6_groups 9 [] (Some 0) (drop 2 s) of None \<Rightarrow> None | Some p \<Rightarrow> expand_ip6 p)
      else case ip6_groups 9 [] None s of None \<Rightarrow> None | Some p \<Rightarrow> expand_ip6 p)"

text \<open>\<open>net.ParseIP\<close>: the first dot, colon or percent sign decides; zones are refused.\<close>

definition ParseIP :: "string \<Rightarrow> ip option" where
  "ParseIP s =
     (case find (\<lambda>c. c = CHR ''.'' \<or> c = CHR '':'' \<or> c = CHR ''%'') s of
        None \<Rightarrow> None
      | Some c \<Rightarrow>
          if c = CHR ''.'' then map_option mapped4 (parse_ip4 s)
          else if c = CHR '':'' then (if CHR ''%'' \<in> set s then None else parse_ip6 s)
          else None)"

definition To4 :: "ip \<Rightarrow> ip option" where
  "To4 ip =
     (if length ip = 4 then Some ip
      else if length ip = 16 \<and> take 10 ip = replicate 10 0 \<and> ip ! 10 = 255 \<and> ip ! 11 = 255
      then Some (drop 12 ip) else None)"

fun mask_byte :: "nat \<Rightarrow> nat" where
  "mask_byte n = (if 8 \<le> n then 255 else 256 - 2 ^ (8 - n))"

definition cidr_mask :: "nat \<Rightarrow> nat \<Rightarrow> nat list" where
  "cidr_mask ones len = map (\<lambda>i. mask_byte (ones - 8 * i)) [0..<len]"

text \<open>\<open>IPNet.Contains\<close> for a network number of 4 or 16 bytes and a prefix length.\<close>

definition Contains :: "ip \<times> nat \<Rightarrow> ip \<Rightarrow> bool" where
  "Contains block ip0 =
     (let ip = (case To4 ip0 of Some x \<Rightarrow> x | None \<Rightarrow> ip0); nn = fst block
      in length ip = length nn \<and>
         list_all (\<lambda>((n, m), i). n AND m = i AND m) (zip (zip nn (cidr_mask (snd block) (length nn))) ip))"

text \<open>\<open>net.SplitHostPort\<close>.\<close>

definition last_colon :: "string \<Rightarrow> nat option" where
  "last_colon s = (if CHR '':'' \<in> set s then Some (length s - 1 - length (takeWhile (\<lambda>c. c \<noteq> CHR '':'') (rev s))) else None)"

definition SplitHostPort :: "string \<Rightarrow> (string \<times> string) option" where
  "SplitHostPort hostport =
     (case last_colon hostport of
        None \<Rightarrow> None
      | Some i \<Rightarrow>
          if hd hostport = CHR ''['' then
            (case index_str hostport '']'' of
               None \<Rightarrow> None
             | Some e \<Rightarrow>
                 if e + 1 \<noteq> i then None
                 else if CHR ''['' \<in> set (drop 1 hostport) \<or> CHR '']'' \<in> set (drop (e + 1) hostport) then None
                 else Some (take (e - 1) (drop 1 hostport), drop (i + 1) hostport))
          else if CHR '':'' \<in> set (take i hostport) then None
          else if CHR ''['' \<in> set hostport \<or> CHR '']'' \<in> set hostport then None
          else Some (take i hostport, drop (i + 1) hostport))"

section \<open>security.go and ssrf.go\<close>

definition privateIPBlocks :: "(ip \<times> nat) list" where
  "privateIPBlocks =
     [([10, 0, 0, 0], 8), ([172, 16, 0, 0], 12), ([192, 168, 0, 0], 16), ([127, 0, 0, 0], 8), ([169, 254, 0, 0], 16),
      ([0, 0, 0, 0, 0, 0, 0, 0, 0, 0, 0, 0, 0, 0, 0, 1], 128), ([254, 128, 0, 0, 0, 0, 0, 0, 0, 0, 0, 0, 0, 0, 0, 0], 10),
      ([252, 0, 0, 0, 0, 0, 0, 0, 0, 0, 0, 0, 0, 0, 0, 0], 7),
      ([0, 0, 0, 0], 8), ([100, 64, 0, 0], 10), ([192, 0, 0, 0], 24), ([192, 0, 2, 0], 24), ([198, 51, 100, 0], 24),
      ([203, 0, 113, 0], 24), ([224, 0, 0, 0], 4), ([240, 0, 0, 0], 4)]"

definition isPrivateIP :: "ip \<Rightarrow> bool" where
  "isPrivateIP ip \<longleftrightarrow> list_ex (\<lambda>block. Contains block ip) privateIPBlocks"

datatype ssrf_error = Bad_Network string | Bad_Address | Bad_IP string | ErrSSRFBlocked ip

definition ssrfControl :: "string \<Rightarrow> string \<Rightarrow> ssrf_error option" where
  "ssrfControl network address =
     (if network \<noteq> ''tcp'' \<and> network \<noteq> ''tcp4'' \<and> network \<noteq> ''tcp6'' then Some (Bad_Network network)
      else case SplitHostPort address of
        None \<Rightarrow> Some Bad_Address
      | Some (host, _) \<Rightarrow>
          (case ParseIP host of
             None \<Rightarrow> Some (Bad_IP host)
           | Some ip \<Rightarrow> if isPrivateIP ip then Some (ErrSSRFBlocked ip) else None))"

section \<open>What is blocked\<close>

text \<open>The reserved ranges, octet by octet.\<close>

definition reserved4 :: "nat \<Rightarrow> nat \<Rightarrow> nat \<Rightarrow> bool" where
  "reserved4 a b c \<longleftrightarrow>
     a = 10 \<or> (a = 172 \<and> 16 \<le> b \<and> b < 32) \<or> (a = 192 \<and> b = 168) \<or> a = 127 \<or> (a = 169 \<and> b = 254) \<or> a = 0 \<or>
     (a = 100 \<and> 64 \<le> b \<and> b < 128) \<or> (a = 192 \<and> b = 0 \<and> c = 0) \<or> (a = 192 \<and> b = 0 \<and> c = 2) \<or>
     (a = 198 \<and> b = 51 \<and> c = 100) \<or> (a = 203 \<and> b = 0 \<and> c = 113) \<or> 224 \<le> a"

definition reserved6 :: "ip \<Rightarrow> bool" where
  "reserved6 b \<longleftrightarrow>
     b = [0, 0, 0, 0, 0, 0, 0, 0, 0, 0, 0, 0, 0, 0, 0, 1] \<or> (b ! 0 = 254 \<and> 128 \<le> b ! 1 \<and> b ! 1 < 192) \<or>
     (252 \<le> b ! 0 \<and> b ! 0 < 254)"

text \<open>A mask with its top bits set cuts off a remainder.\<close>

lemma and_high_bits: "n AND push_bit k (mask j) = (n div 2 ^ k mod 2 ^ j) * 2 ^ k" for n :: nat
proof -
  have "n AND push_bit k (mask j) = push_bit k (take_bit j (drop_bit k n))"
    by (rule bit_eqI) (auto simp: bit_simps)
  then show ?thesis by (simp add: push_bit_eq_mult take_bit_eq_mod drop_bit_eq_div)
qed

lemma masked_bytes:
  assumes "(n::nat) < 256"
  shows "n AND 255 = n" "n AND 240 = n div 16 * 16" "n AND 192 = n div 64 * 64" "n AND 254 = n div 2 * 2"
  using and_high_bits [of n 0 8] and_high_bits [of n 4 4] and_high_bits [of n 6 2] and_high_bits [of n 1 7] assms
  by (simp_all add: mask_eq_exp_minus_1 push_bit_eq_mult div_less_iff_less_mult)

lemma multiple_below: "0 < m \<Longrightarrow> q * m = n div m * m \<longleftrightarrow> q * m \<le> n \<and> n < Suc q * m" for n :: nat
proof -
  assume m: "0 < m"
  then have "q * m = n div m * m \<longleftrightarrow> q \<le> n div m \<and> n div m < Suc q" by auto
  also have "\<dots> \<longleftrightarrow> q * m \<le> n \<and> n < Suc q * m"
    using less_eq_div_iff_mult_less_eq [OF m] div_less_iff_less_mult [OF m] by blast
  finally show ?thesis .
qed

lemma masked_ranges:
  fixes n :: nat
  shows "16 = n div 16 * 16 \<longleftrightarrow> 16 \<le> n \<and> n < 32" "64 = n div 64 * 64 \<longleftrightarrow> 64 \<le> n \<and> n < 128"
    "224 = n div 16 * 16 \<longleftrightarrow> 224 \<le> n \<and> n < 240" "240 = n div 16 * 16 \<longleftrightarrow> 240 \<le> n \<and> n < 256"
    "128 = n div 64 * 64 \<longleftrightarrow> 128 \<le> n \<and> n < 192" "252 = n div 2 * 2 \<longleftrightarrow> 252 \<le> n \<and> n < 254"
  using multiple_below [of 16 1 n] multiple_below [of 64 1 n] multiple_below [of 16 14 n] multiple_below [of 16 15 n]
    multiple_below [of 64 2 n] multiple_below [of 2 126 n] by simp_all

lemma byte_ranges:
  fixes n :: nat
  assumes "n < 256"
  shows "n AND 240 = 16 \<longleftrightarrow> 16 \<le> n \<and> n < 32" "n AND 192 = 64 \<longleftrightarrow> 64 \<le> n \<and> n < 128"
    "n AND 240 = 224 \<longleftrightarrow> 224 \<le> n \<and> n < 240" "n AND 240 = 240 \<longleftrightarrow> 240 \<le> n \<and> n < 256"
    "n AND 192 = 128 \<longleftrightarrow> 128 \<le> n \<and> n < 192" "n AND 254 = 252 \<longleftrightarrow> 252 \<le> n \<and> n < 254"
  unfolding masked_bytes [OF assms] using masked_ranges [of n] by (simp_all only: eq_commute [of "n div _ * _"])

lemma To4_mapped: "To4 (mapped4 [a, b, c, d]) = Some [a, b, c, d]"
  by (simp add: To4_def mapped4_def numeral_nat)

lemma cidr4:
  "Contains ([x, y, z, w], 4) (mapped4 [a, b, c, d]) \<longleftrightarrow> x AND 240 = a AND 240"
  "Contains ([x, y, z, w], 8) (mapped4 [a, b, c, d]) \<longleftrightarrow> x AND 255 = a AND 255"
  "Contains ([x, y, z, w], 10) (mapped4 [a, b, c, d]) \<longleftrightarrow> x AND 255 = a AND 255 \<and> y AND 192 = b AND 192"
  "Contains ([x, y, z, w], 12) (mapped4 [a, b, c, d]) \<longleftrightarrow> x AND 255 = a AND 255 \<and> y AND 240 = b AND 240"
  "Contains ([x, y, z, w], 16) (mapped4 [a, b, c, d]) \<longleftrightarrow> x AND 255 = a AND 255 \<and> y AND 255 = b AND 255"
  "Contains ([x, y, z, w], 24) (mapped4 [a, b, c, d]) \<longleftrightarrow>
     x AND 255 = a AND 255 \<and> y AND 255 = b AND 255 \<and> z AND 255 = c AND 255"
  by (simp_all add: Contains_def To4_mapped cidr_mask_def upt_rec del: mask_byte.simps)
    (simp_all add: mask_byte.simps)

lemma cidr6_on_4: "length nn = 16 \<Longrightarrow> \<not> Contains (nn, k) (mapped4 [a, b, c, d])"
  by (simp add: Contains_def To4_mapped)

lemma contains4:
  assumes "a < 256" "b < 256" "c < 256" "d < 256"
  shows "isPrivateIP (mapped4 [a, b, c, d]) = reserved4 a b c"
proof -
  have v6: "Contains ([0, 0, 0, 0, 0, 0, 0, 0, 0, 0, 0, 0, 0, 0, 0, 1], 128) (mapped4 [a, b, c, d]) = False"
    "Contains ([254, 128, 0, 0, 0, 0, 0, 0, 0, 0, 0, 0, 0, 0, 0, 0], 10) (mapped4 [a, b, c, d]) = False"
    "Contains ([252, 0, 0, 0, 0, 0, 0, 0, 0, 0, 0, 0, 0, 0, 0, 0], 7) (mapped4 [a, b, c, d]) = False"
    "(False \<or> P) = P" "(P \<or> False) = P" for P
    by (simp_all add: cidr6_on_4)
  have lits: "(10::nat) AND 255 = 10" "(172::nat) AND 255 = 172" "(16::nat) AND 240 = 16" "(192::nat) AND 255 = 192"
    "(168::nat) AND 255 = 168" "(127::nat) AND 255 = 127" "(169::nat) AND 255 = 169" "(254::nat) AND 255 = 254"
    "(0::nat) AND 255 = 0" "(100::nat) AND 255 = 100" "(64::nat) AND 192 = 64" "(2::nat) AND 255 = 2" "(198::nat) AND 255 = 198"
    "(51::nat) AND 255 = 51" "(203::nat) AND 255 = 203" "(113::nat) AND 255 = 113" "(224::nat) AND 240 = 224" "(240::nat) AND 240 = 240"
    by simp_all
  have "isPrivateIP (mapped4 [a, b, c, d]) \<longleftrightarrow>
     a AND 255 = 10 \<or> (a AND 255 = 172 \<and> b AND 240 = 16) \<or> (a AND 255 = 192 \<and> b AND 255 = 168) \<or> a AND 255 = 127 \<or>
     (a AND 255 = 169 \<and> b AND 255 = 254) \<or> a AND 255 = 0 \<or> (a AND 255 = 100 \<and> b AND 192 = 64) \<or>
     (a AND 255 = 192 \<and> b AND 255 = 0 \<and> c AND 255 = 0) \<or> (a AND 255 = 192 \<and> b AND 255 = 0 \<and> c AND 255 = 2) \<or>
     (a AND 255 = 198 \<and> b AND 255 = 51 \<and> c AND 255 = 100) \<or> (a AND 255 = 203 \<and> b AND 255 = 0 \<and> c AND 255 = 113) \<or>
     a AND 240 = 224 \<or> a AND 240 = 240"
    unfolding isPrivateIP_def privateIPBlocks_def list_ex_Cons_iff list_ex_Nil_iff cidr4 v6 lits
    by (simp only: eq_commute)
  moreover have high: "(224 \<le> a \<and> a < 240 \<or> 240 \<le> a \<and> a < 256) = (224 \<le> a)" using assms(1) by linarith
  ultimately show ?thesis
    unfolding masked_bytes(1) [OF assms(1)] masked_bytes(1) [OF assms(2)] masked_bytes(1) [OF assms(3)]
      byte_ranges [OF assms(1)] byte_ranges [OF assms(2)] reserved4_def high by simp
qed

lemma sixteen:
  "length (b :: 'a list) = 16 \<Longrightarrow> \<exists>b0 b1 b2 b3 b4 b5 b6 b7 b8 b9 ba bb bc bd be bf.
     b = [b0, b1, b2, b3, b4, b5, b6, b7, b8, b9, ba, bb, bc, bd, be, bf]"
  by (auto simp: numeral_eq_Suc length_Suc_conv)

lemma contains6:
  assumes "length b = 16" and "\<forall>x \<in> set b. x < 256" and "To4 b = None"
  shows "isPrivateIP b = reserved6 b"
proof -
  obtain b0 b1 b2 b3 b4 b5 b6 b7 b8 b9 ba bb bc bd be bf
    where b: "b = [b0, b1, b2, b3, b4, b5, b6, b7, b8, b9, ba, bb, bc, bd, be, bf]"
    using sixteen [OF assms(1)] by blast
  have lt: "b0 < 256" "b1 < 256" "b2 < 256" "b3 < 256" "b4 < 256" "b5 < 256" "b6 < 256" "b7 < 256"
    "b8 < 256" "b9 < 256" "ba < 256" "bb < 256" "bc < 256" "bd < 256" "be < 256" "bf < 256"
    using assms(2) by (simp_all add: b)
  let ?l = "[0, 0, 0, 0, 0, 0, 0, 0, 0, 0, 0, 0, 0, 0, 0, 1] :: ip"
  let ?k = "[254, 128, 0, 0, 0, 0, 0, 0, 0, 0, 0, 0, 0, 0, 0, 0] :: ip" and ?u = "[252, 0, 0, 0, 0, 0, 0, 0, 0, 0, 0, 0, 0, 0, 0, 0] :: ip"
  have m: "cidr_mask 128 16 = [255, 255, 255, 255, 255, 255, 255, 255, 255, 255, 255, 255, 255, 255, 255, 255]" "cidr_mask 10 16 = [255, 192, 0, 0, 0, 0, 0, 0, 0, 0, 0, 0, 0, 0, 0, 0]" "cidr_mask 7 16 = [254, 0, 0, 0, 0, 0, 0, 0, 0, 0, 0, 0, 0, 0, 0, 0]"
    by (simp_all add: cidr_mask_def upt_rec)
  have eq: "Contains (nn, k) b \<longleftrightarrow> length nn = 16 \<and>
      list_all (\<lambda>((n, m), i). n AND m = i AND m) (zip (zip nn (cidr_mask k 16)) b)" for nn k
    using assms(1,3) by (auto simp: Contains_def)
  have "isPrivateIP b \<longleftrightarrow> Contains (?l, 128) b \<or> Contains (?k, 10) b \<or> Contains (?u, 7) b"
    by (simp add: isPrivateIP_def privateIPBlocks_def eq)
  moreover have "Contains (?l, 128) b \<longleftrightarrow> b = ?l"
    unfolding eq unfolding m b by (simp add: lt [THEN masked_bytes(1)]) blast
  moreover have "Contains (?k, 10) b \<longleftrightarrow> b0 = 254 \<and> b1 AND 192 = 128"
    unfolding eq unfolding m b by (simp add: masked_bytes(1) [OF lt(1)])
  moreover have "Contains (?u, 7) b \<longleftrightarrow> b0 AND 254 = 252"
    unfolding eq unfolding m b by simp
  ultimately show ?thesis unfolding byte_ranges [OF lt(1)] byte_ranges [OF lt(2)] by (simp add: reserved6_def b)
qed

section \<open>Parsed addresses\<close>

definition bytes_ok :: "ip \<Rightarrow> bool" where
  "bytes_ok b \<longleftrightarrow> (\<forall>x \<in> set b. x < 256)"

lemma ip4_field_bound: "ip4_field s = Some n \<Longrightarrow> n < 256"
  by (auto simp: ip4_field_def split: if_splits option.splits)

lemma parse_ip4_ok: "parse_ip4 s = Some b \<Longrightarrow> \<exists>w x y z. b = [w, x, y, z] \<and> w < 256 \<and> x < 256 \<and> y < 256 \<and> z < 256"
proof -
  assume "parse_ip4 s = Some b"
  then obtain w x y z where "map ip4_field (split_char CHR ''.'' s) = [Some w, Some x, Some y, Some z]" "b = [w, x, y, z]"
    by (auto simp: parse_ip4_def split: list.splits option.splits)
  then show ?thesis using ip4_field_bound by (auto simp: map_eq_Cons_conv)
qed

lemma hex_val_bound: "hex_val c = Some d \<Longrightarrow> d < 16"
  by (auto simp: hex_val_def Let_def split: if_splits)

lemma hex_group_bound: "hex_group acc g = Some v \<Longrightarrow> v < (acc + 1) * 16 ^ length g"
proof (induction g arbitrary: acc)
  case (Cons c g)
  then obtain d where d: "hex_val c = Some d" "hex_group (acc * 16 + d) g = Some v" by (auto split: option.splits)
  have "v < (acc * 16 + d + 1) * 16 ^ length g" by (rule Cons.IH [OF d(2)])
  also have "\<dots> \<le> ((acc + 1) * 16) * 16 ^ length g"
    using hex_val_bound [OF d(1)] by (intro mult_right_mono) auto
  finally show ?case by (simp add: algebra_simps)
qed simp

lemma group_bytes: "hex_group 0 g = Some v \<Longrightarrow> length g \<le> 4 \<Longrightarrow> v div 256 < 256 \<and> v mod 256 < 256"
proof -
  assume v: "hex_group 0 g = Some v" and l: "length g \<le> 4"
  have "v < 16 ^ length g" using hex_group_bound [OF v] by simp
  also have "\<dots> \<le> 16 ^ 4" using l by (intro power_increasing) auto
  finally show ?thesis by simp
qed

lemma ip6_groups_ok:
  "ip6_groups n acc ell s = Some (b, e) \<Longrightarrow> bytes_ok acc \<Longrightarrow> length acc \<le> 16 \<Longrightarrow> even (length acc) \<Longrightarrow>
   (\<forall>k. ell = Some k \<longrightarrow> k \<le> length acc) \<Longrightarrow> bytes_ok b \<and> length b \<le> 16 \<and> (\<forall>k. e = Some k \<longrightarrow> k \<le> length b)"
proof (induction n arbitrary: acc ell s)
  case (Suc n)
  define g where "g = takeWhile is_hex s"
  define r where "r = dropWhile is_hex s"
  have g: "length acc < 16" "g \<noteq> []" "length g \<le> 4"
    using Suc.prems(1) by (auto simp: g_def Let_def split: if_splits)
  show ?case
  proof (cases "r \<noteq> [] \<and> hd r = CHR ''.''")
    case True
    then obtain a where "length acc + 4 \<le> 16" "parse_ip4 s = Some a" "b = acc @ a" "e = ell"
      using Suc.prems(1) g by (auto simp: g_def [symmetric] r_def [symmetric] Let_def not_less split: if_splits option.splits)
    then show ?thesis using parse_ip4_ok [of s a] Suc.prems(2,5) by (auto simp: bytes_ok_def)
  next
    case False
    then obtain v where v: "hex_group 0 g = Some v"
      using Suc.prems(1) g by (auto simp: g_def [symmetric] r_def [symmetric] Let_def split: if_splits option.splits)
    define acc' where "acc' = acc @ [v div 256, v mod 256]"
    have acc': "bytes_ok acc'" "length acc' \<le> 16" "even (length acc')" "length acc \<le> length acc'"
      using group_bytes [OF v g(3)] Suc.prems(2,4) g(1) by (auto simp: acc'_def bytes_ok_def elim!: evenE)
    have cases: "(b, e) = (acc', ell) \<or> (b, e) = (acc', Some (length acc')) \<or>
        ip6_groups n acc' (Some (length acc')) (tl (tl r)) = Some (b, e) \<or> ip6_groups n acc' ell (tl r) = Some (b, e)"
      using Suc.prems(1) False v g
      by (auto simp: g_def [symmetric] r_def [symmetric] acc'_def Let_def split: if_splits)
    have ell: "\<forall>k. ell = Some k \<longrightarrow> k \<le> length acc'" using Suc.prems(5) acc'(4) by auto
    from cases show ?thesis
    proof (elim disjE)
      assume "ip6_groups n acc' (Some (length acc')) (tl (tl r)) = Some (b, e)"
      then show ?thesis using Suc.IH acc' by blast
    next
      assume "ip6_groups n acc' ell (tl r) = Some (b, e)"
      then show ?thesis using Suc.IH acc' ell by blast
    qed (use acc' ell in auto)
  qed
qed simp

lemma expand_ip6_ok:
  "expand_ip6 (b, e) = Some ip \<Longrightarrow> bytes_ok b \<Longrightarrow> length b \<le> 16 \<Longrightarrow> (\<forall>k. e = Some k \<longrightarrow> k \<le> length b) \<Longrightarrow>
   bytes_ok ip \<and> length ip = 16"
  by (auto simp: expand_ip6_def bytes_ok_def split: if_splits option.splits dest!: in_set_takeD in_set_dropD)

lemma ParseIP_ok: "ParseIP s = Some ip \<Longrightarrow> bytes_ok ip \<and> length ip = 16"
proof -
  have z: "bytes_ok (replicate 16 0) \<and> length (replicate 16 (0::nat)) = 16" by (simp add: bytes_ok_def)
  have g: "ip6_groups 9 [] ell t = Some p \<Longrightarrow> expand_ip6 p = Some q \<Longrightarrow> (\<forall>k. ell = Some k \<longrightarrow> k = 0) \<Longrightarrow>
      bytes_ok q \<and> length q = 16" for ell t p q
    using ip6_groups_ok [of 9 "[]" ell t "fst p" "snd p"] expand_ip6_ok [of "fst p" "snd p" q] by (auto simp: bytes_ok_def)
  have "parse_ip6 s = Some q \<Longrightarrow> bytes_ok q \<and> length q = 16" for q
    using z g by (auto simp: parse_ip6_def split: if_splits option.splits)
  moreover have "parse_ip4 s = Some q \<Longrightarrow> bytes_ok (mapped4 q) \<and> length (mapped4 q) = 16" for q
    using parse_ip4_ok [of s q] by (auto simp: mapped4_def bytes_ok_def)
  ultimately show "ParseIP s = Some ip \<Longrightarrow> bytes_ok ip \<and> length ip = 16"
    by (auto simp: ParseIP_def split: option.splits if_splits)
qed

text \<open>The specification of a blocked address: by octets for IPv4, mapped or not, else by prefix.\<close>

definition blocked_address :: "ip \<Rightarrow> bool" where
  "blocked_address ip =
     (case To4 ip of Some b \<Rightarrow> reserved4 (b ! 0) (b ! 1) (b ! 2) | None \<Rightarrow> reserved6 ip)"

lemma To4_Some:
  assumes "To4 ip = Some b" and "length ip = 16"
  shows "ip = mapped4 b \<and> length b = 4"
proof -
  have "take 10 ip = replicate 10 0" "ip ! 10 = 255" "ip ! 11 = 255" "b = drop 12 ip"
    using assms by (auto simp: To4_def split: if_splits)
  moreover have "ip = take 10 ip @ ip ! 10 # ip ! 11 # drop 12 ip"
  proof -
    have "drop 10 ip = ip ! 10 # drop 11 ip" "drop 11 ip = ip ! 11 # drop 12 ip"
      using Cons_nth_drop_Suc [of 10 ip] Cons_nth_drop_Suc [of 11 ip] assms(2) by simp_all
    then show ?thesis using append_take_drop_id [of 10 ip] by simp
  qed
  ultimately show ?thesis using assms(2) by (simp add: mapped4_def)
qed

lemma isPrivateIP_blocked: "bytes_ok ip \<Longrightarrow> length ip = 16 \<Longrightarrow> isPrivateIP ip = blocked_address ip"
proof (cases "To4 ip")
  case None
  assume "bytes_ok ip" "length ip = 16"
  with None show ?thesis by (simp add: blocked_address_def contains6 bytes_ok_def)
next
  case (Some b)
  assume ok: "bytes_ok ip" "length ip = 16"
  from To4_Some [OF Some ok(2)] have ip: "ip = mapped4 b" "length b = 4" by auto
  then obtain w x y z where b: "b = [w, x, y, z]" by (auto simp: numeral_eq_Suc length_Suc_conv)
  have "w < 256" "x < 256" "y < 256" "z < 256" using ok(1) by (simp_all add: ip b mapped4_def bytes_ok_def)
  from contains4 [OF this] show ?thesis by (simp add: blocked_address_def ip(1) b To4_mapped)
qed

lemma ssrfControl_iff:
  "ssrfControl network address = None \<longleftrightarrow>
     network \<in> {''tcp'', ''tcp4'', ''tcp6''} \<and>
     (\<exists>host port ip. SplitHostPort address = Some (host, port) \<and> ParseIP host = Some ip \<and> \<not> blocked_address ip)"
  using isPrivateIP_blocked ParseIP_ok
  by (auto simp: ssrfControl_def split: option.splits prod.splits if_splits)

text \<open>C25: the dialer's callback lets a connection through exactly when it is TCP to a literal address
  outside the reserved ranges, an IPv4 address written in IPv6 form included: everything else, an
  unparsable address, a zone or a missing port included, is refused.\<close>
theorem ssrf_control_exact:
  "ssrfControl network address = None \<longleftrightarrow>
     network \<in> {''tcp'', ''tcp4'', ''tcp6''} \<and>
     (\<exists>host port ip. SplitHostPort address = Some (host, port) \<and> ParseIP host = Some ip \<and> \<not> blocked_address ip)"
  by (rule ssrfControl_iff)

text \<open>
  The list has no entry for the unspecified address, so a connection to it is let through, and it
  reaches the local machine.
\<close>

lemma unspecified_address_dialled: "ssrfControl ''tcp6'' ''[::]:8080'' = None"
proof -
  have "SplitHostPort ''[::]:8080'' = Some (''::'', ''8080'')" "ParseIP ''::'' = Some (replicate 16 0)" by code_simp+
  moreover have "\<not> blocked_address (replicate 16 0)"
  proof -
    have "replicate 16 0 \<noteq> [0, 0, 0, 0, 0, 0, 0, 0, 0, 0, 0, 0, 0, 0, 0, 1::nat]" by code_simp
    then show ?thesis by (simp add: blocked_address_def To4_def reserved6_def)
  qed
  ultimately show ?thesis unfolding ssrfControl_iff by simp
qed

section \<open>Dialing\<close>

text \<open>
  The dialer and the transport the proxy uses. \<open>net.Dialer\<close> resolves the host and tries the addresses
  in turn, calling \<open>Control\<close> on each before it connects; \<open>connect\<close> says which connection attempts succeed.
\<close>

record Dialer =
  dl_Timeout :: duration
  dl_KeepAlive :: duration
  dl_Control :: "string \<Rightarrow> string \<Rightarrow> ssrf_error option"

definition safeDialer :: Dialer where
  "safeDialer = \<lparr>dl_Timeout = 30 * second, dl_KeepAlive = 30 * second, dl_Control = ssrfControl\<rparr>"

datatype dial_attempt = Refused_By_Control ssrf_error | Connect_Failed | Connected

definition attempt :: "Dialer \<Rightarrow> (string \<Rightarrow> bool) \<Rightarrow> string \<Rightarrow> string \<Rightarrow> dial_attempt" where
  "attempt d connect network address =
     (case dl_Control d network address of
        Some x \<Rightarrow> Refused_By_Control x
      | None \<Rightarrow> if connect address then Connected else Connect_Failed)"

fun Dial :: "Dialer \<Rightarrow> (string \<Rightarrow> bool) \<Rightarrow> string \<Rightarrow> string list \<Rightarrow> string option" where
  "Dial d connect network [] = None"
| "Dial d connect network (a # as) = (if attempt d connect network a = Connected then Some a else Dial d connect network as)"

record Transport =
  tr_DialContext :: "(string \<Rightarrow> bool) \<Rightarrow> string \<Rightarrow> string list \<Rightarrow> string option"
  tr_MinVersion :: int
  tr_TLSHandshakeTimeout :: duration
  tr_IdleConnTimeout :: duration
  tr_MaxIdleConns :: int
  tr_MaxIdleConnsPerHost :: int

definition safeTransport :: Transport where
  "safeTransport =
     \<lparr>tr_DialContext = Dial safeDialer, tr_MinVersion = 771, tr_TLSHandshakeTimeout = 10 * second, tr_IdleConnTimeout = 90 * second,
      tr_MaxIdleConns = 100, tr_MaxIdleConnsPerHost = 10\<rparr>"

definition safeConnectDial :: "(string \<Rightarrow> bool) \<Rightarrow> string \<Rightarrow> string list \<Rightarrow> string option" where
  "safeConnectDial = Dial safeDialer"

lemma Dial_admitted: "Dial d connect network addrs = Some a \<Longrightarrow> a \<in> set addrs \<and> dl_Control d network a = None"
  by (induction addrs) (auto simp: attempt_def split: if_splits option.splits)

text \<open>Whatever a name resolves to, at the first look or at a later one, plain requests and tunnels reach no reserved address.\<close>

lemma safe_dial_admitted:
  assumes "tr_DialContext safeTransport connect network addrs = Some a \<or> safeConnectDial connect network addrs = Some a"
  obtains host port ip where "a \<in> set addrs" "SplitHostPort a = Some (host, port)" "ParseIP host = Some ip" "\<not> blocked_address ip"
proof -
  from assms have "Dial safeDialer connect network addrs = Some a" by (auto simp: safeTransport_def safeConnectDial_def)
  from Dial_admitted [OF this] have "a \<in> set addrs" "ssrfControl network a = None" by (simp_all add: safeDialer_def)
  then show ?thesis unfolding ssrfControl_iff using that by blast
qed

end
