(* ===== verification/Host_Names.thy ===== *)
theory Host_Names
  imports Json
begin

text \<open>
  Host names of requests: \<open>net/url\<close> as far as \<open>normalizeHost\<close> of \<open>internal/httpproxy/proxy.go\<close> uses
  it, that function, and canonical header names.
\<close>

section \<open>Package url\<close>

definition is_alnum :: "char \<Rightarrow> bool" where
  "is_alnum c \<longleftrightarrow> is_upper c \<or> is_lower c \<or> is_digit c"

definition host_char :: "char \<Rightarrow> bool" where
  "host_char c \<longleftrightarrow> is_alnum c \<or> 128 \<le> char_code c \<or>
     c \<in> set (''!$&()*+,;=:[]<>-_.~'' @ [QUOTE, DQUOTE])"

definition hex2 :: "char \<Rightarrow> char \<Rightarrow> nat option" where
  "hex2 a b = (case (hex_val a, hex_val b) of (Some x, Some y) \<Rightarrow> Some (16 * x + y) | _ \<Rightarrow> None)"

text \<open>
  \<open>unescape\<close> with a test for plain characters and one for escaped bytes; a percent sign without two
  hexadecimal digits is an error.
\<close>

fun unescape :: "(char \<Rightarrow> bool) \<Rightarrow> (nat \<Rightarrow> bool) \<Rightarrow> string \<Rightarrow> string option" where
  "unescape plain esc [] = Some []"
| "unescape plain esc (c # r) =
     (if c = CHR ''%'' then
        (case r of
           a # b # t \<Rightarrow>
             (case hex2 a b of
                None \<Rightarrow> None
              | Some v \<Rightarrow> if esc v then map_option (Cons (char_of v)) (unescape plain esc t) else None)
         | _ \<Rightarrow> None)
      else if plain c then map_option (Cons c) (unescape plain esc r) else None)"

text \<open>In a host only bytes above 127 and the percent sign itself may be escaped.\<close>

definition unescape_host :: "string \<Rightarrow> string option" where
  "unescape_host = unescape host_char (\<lambda>v. 128 \<le> v \<or> v = 37)"

definition unescape_zone :: "string \<Rightarrow> string option" where
  "unescape_zone = unescape host_char (\<lambda>v. v = 37 \<or> v = 32 \<or> host_char (char_of v))"

definition unescape_any :: "string \<Rightarrow> string option" where
  "unescape_any = unescape (\<lambda>c. True) (\<lambda>v. True)"

definition validOptionalPort :: "string \<Rightarrow> bool" where
  "validOptionalPort p \<longleftrightarrow> p = [] \<or> (hd p = CHR '':'' \<and> list_all is_digit (tl p))"

text \<open>Splits at the last occurrence of a character: what is before it, and the rest from it on.\<close>

definition split_last :: "char \<Rightarrow> string \<Rightarrow> (string \<times> string) option" where
  "split_last c s =
     (if c \<notin> set s then None
      else let t = takeWhile (\<lambda>x. x \<noteq> c) (rev s) in Some (take (length s - length t - 1) s, c # rev t))"

definition parse_host :: "string \<Rightarrow> string option" where
  "parse_host host =
     (if has_prefix host ''['' then
        (case split_last CHR '']'' host of
           None \<Rightarrow> None
         | Some (a, b) \<Rightarrow>
             if \<not> validOptionalPort (tl b) then None
             else case index_str a ''%25'' of
               None \<Rightarrow> unescape_host host
             | Some z \<Rightarrow>
                 (case (unescape_host (take z a), unescape_zone (drop z a), unescape_host b) of
                    (Some x, Some y, Some w) \<Rightarrow> Some (x @ y @ w) | _ \<Rightarrow> None))
      else case split_last CHR '':'' host of
        Some (a, b) \<Rightarrow> if validOptionalPort b then unescape_host host else None
      | None \<Rightarrow> unescape_host host)"

definition valid_userinfo :: "string \<Rightarrow> bool" where
  "valid_userinfo u \<longleftrightarrow> list_all (\<lambda>c. is_alnum c \<or> c \<in> set (''-._:~!$&()*+,;=%@'' @ [QUOTE])) u"

definition parse_authority :: "string \<Rightarrow> string option" where
  "parse_authority a =
     (case split_last CHR ''@'' a of
        None \<Rightarrow> parse_host a
      | Some (userinfo, h) \<Rightarrow>
          (case parse_host (tl h) of
             None \<Rightarrow> None
           | Some host \<Rightarrow>
               if valid_userinfo userinfo \<and> list_all (\<lambda>x. unescape_any x \<noteq> None)
                    (case cut_char CHR '':'' userinfo of None \<Rightarrow> [userinfo] | Some (u, p) \<Rightarrow> [u, p])
               then Some host else None))"

definition strip_port :: "string \<Rightarrow> string" where
  "strip_port h =
     (let h' = (case split_last CHR '':'' h of
                  Some (a, b) \<Rightarrow> if validOptionalPort b then a else h | None \<Rightarrow> h)
      in if has_prefix h' ''['' \<and> has_suffix h' '']'' then butlast (tl h') else h')"

definition cut_or :: "char \<Rightarrow> string \<Rightarrow> string \<times> string" where
  "cut_or c s = (case cut_char c s of None \<Rightarrow> (s, []) | Some p \<Rightarrow> p)"

text \<open>\<open>url.Parse("//" + authority)\<close> and \<open>Hostname\<close>: \<open>None\<close> is a parse error.\<close>

definition url_hostname :: "string \<Rightarrow> string option" where
  "url_hostname authority =
     (let (u, frag) = cut_or CHR ''#'' authority
      in if list_ex (\<lambda>c. char_code c < 32 \<or> char_code c = 127) u \<or> unescape_any frag = None then None
         else let (rest, query) = cut_or CHR ''?'' u
              in if has_prefix rest ''/'' then map_option (\<lambda>_. []) (unescape_any rest)
                 else let (auth, path) = cut_or CHR ''/'' rest
                      in if unescape_any path = None then None else map_option strip_port (parse_authority auth))"

section \<open>normalizeHost\<close>

definition normalizeHost :: "string \<Rightarrow> string" where
  "normalizeHost authority0 =
     (let authority = trim_space authority0
      in if authority = [] then []
         else case url_hostname authority of
           Some host \<Rightarrow>
             if host \<noteq> [] then trim_suffix (to_lower host) ''.'' else trim_suffix (to_lower authority) ''.''
         | None \<Rightarrow> trim_suffix (to_lower authority) ''.'')"

section \<open>Header names\<close>

definition token_char :: "char \<Rightarrow> bool" where
  "token_char c \<longleftrightarrow> is_alnum c \<or> c \<in> set (''!#$%&*+-.^_`|~'' @ [QUOTE])"

fun canonical_chars :: "bool \<Rightarrow> string \<Rightarrow> string" where
  "canonical_chars up [] = []"
| "canonical_chars up (c # r) =
     (if up then upper_char c else lower_char c) # canonical_chars (c = CHR ''-'') r"

text \<open>\<open>CanonicalMIMEHeaderKey\<close>: a name with a byte that is no token character stays as it is.\<close>

definition canonical_key :: "string \<Rightarrow> string" where
  "canonical_key k = (if list_all token_char k then canonical_chars True k else k)"

section \<open>Plain names\<close>

text \<open>A name of letters, digits, hyphens and dots, as DNS has them.\<close>

definition dns_char :: "char \<Rightarrow> bool" where
  "dns_char c \<longleftrightarrow> is_alnum c \<or> c = CHR ''-'' \<or> c = CHR ''.''"

definition dns_name :: "string \<Rightarrow> bool" where
  "dns_name h \<longleftrightarrow> h \<noteq> [] \<and> list_all dns_char h"

definition port_suffix :: "string \<Rightarrow> bool" where
  "port_suffix p \<longleftrightarrow> p = [] \<or> (\<exists>d. p = CHR '':'' # d \<and> list_all is_digit d)"

lemma dns_char_not:
  "dns_char c \<Longrightarrow> c \<noteq> CHR ''#'' \<and> c \<noteq> CHR ''?'' \<and> c \<noteq> CHR ''/'' \<and> c \<noteq> CHR ''@'' \<and> c \<noteq> CHR ''['' \<and> c \<noteq> CHR '']'' \<and>
     c \<noteq> CHR '':'' \<and> c \<noteq> CHR ''%'' \<and> 32 < char_code c \<and> char_code c < 127"
  by (auto simp: dns_char_def is_alnum_def is_upper_def is_lower_def is_digit_def char_code_def)

lemma digit_not: "is_digit c \<Longrightarrow> dns_char c"
  by (simp add: dns_char_def is_alnum_def)

lemma authority_chars:
  assumes "dns_name h" and "port_suffix p" and "c \<in> set (h @ p)"
  shows "dns_char c \<or> c = CHR '':''"
  using assms digit_not by (auto simp: dns_name_def port_suffix_def list_all_iff)

lemma unescape_plain: "list_all (\<lambda>c. plain c \<and> c \<noteq> CHR ''%'') s \<Longrightarrow> unescape plain esc s = Some s"
  by (induction s) auto

lemma dns_host_char: "dns_char c \<or> c = CHR '':'' \<Longrightarrow> host_char c \<and> c \<noteq> CHR ''%''"
  using dns_char_not [of c] by (auto simp: dns_char_def host_char_def)

lemma split_last_append: "c \<notin> set b \<Longrightarrow> split_last c (a @ c # b) = Some (a, c # b)"
proof -
  assume b: "c \<notin> set b"
  have "takeWhile (\<lambda>x. x \<noteq> c) (rev b @ c # rev a) = rev b"
    using b by (subst takeWhile_append2) auto
  then show ?thesis by (simp add: split_last_def Let_def)
qed

lemma split_last_None: "c \<notin> set s \<Longrightarrow> split_last c s = None"
  by (simp add: split_last_def)

lemma cut_or_free: "c \<notin> set s \<Longrightarrow> cut_or c s = (s, [])"
  by (simp add: cut_or_def cut_char_None [THEN iffD2])

lemma parse_host_dns:
  assumes "dns_name h" and "port_suffix p"
  shows "parse_host (h @ p) = Some (h @ p)"
proof -
  have u: "unescape_host (h @ p) = Some (h @ p)"
    unfolding unescape_host_def using authority_chars [OF assms] dns_host_char
    by (intro unescape_plain) (auto simp: list_all_iff)
  obtain x xs where h: "h = x # xs" "dns_char x" using assms(1) by (cases h) (auto simp: dns_name_def)
  then have nb: "\<not> has_prefix (h @ p) ''[''" using dns_char_not [of x] by auto
  have colon: "CHR '':'' \<notin> set h" using assms(1) dns_char_not by (auto simp: dns_name_def list_all_iff)
  from assms(2) consider "p = []" | d where "p = CHR '':'' # d" "list_all is_digit d" by (auto simp: port_suffix_def)
  then show ?thesis
  proof cases
    case 1
    then show ?thesis using u nb colon by (simp add: parse_host_def split_last_None)
  next
    case 2
    then have "CHR '':'' \<notin> set d" using digit_not dns_char_not by (fastforce simp: list_all_iff)
    with 2 u nb show ?thesis by (simp add: parse_host_def split_last_append validOptionalPort_def)
  qed
qed

lemma strip_port_dns:
  assumes "dns_name h" and "port_suffix p"
  shows "strip_port (h @ p) = h"
proof -
  obtain x xs where h: "h = x # xs" "dns_char x" using assms(1) by (cases h) (auto simp: dns_name_def)
  then have nb: "\<not> has_prefix h ''[''" using dns_char_not [of x] by auto
  have colon: "CHR '':'' \<notin> set h" using assms(1) dns_char_not by (auto simp: dns_name_def list_all_iff)
  from assms(2) consider "p = []" | d where "p = CHR '':'' # d" "list_all is_digit d" by (auto simp: port_suffix_def)
  then show ?thesis
  proof cases
    case 1
    then show ?thesis using nb colon by (simp add: strip_port_def split_last_None)
  next
    case 2
    then have "CHR '':'' \<notin> set d" using digit_not dns_char_not by (fastforce simp: list_all_iff)
    with 2 nb show ?thesis by (simp add: strip_port_def split_last_append validOptionalPort_def)
  qed
qed

lemma url_hostname_dns:
  assumes "dns_name h" and "port_suffix p"
  shows "url_hostname (h @ p) = Some h"
proof -
  have c: "c \<notin> set (h @ p)" if "\<not> dns_char c" "c \<noteq> CHR '':''" for c
    using authority_chars [OF assms, of c] that by blast
  have free: "CHR ''#'' \<notin> set (h @ p)" "CHR ''?'' \<notin> set (h @ p)" "CHR ''/'' \<notin> set (h @ p)" "CHR ''@'' \<notin> set (h @ p)"
    using c dns_char_not by blast+
  have ctl: "\<not> list_ex (\<lambda>c. char_code c < 32 \<or> char_code c = 127) (h @ p)"
  proof -
    have "\<not> (char_code x < 32 \<or> char_code x = 127)" if "x \<in> set (h @ p)" for x
    proof -
      have "dns_char x \<or> x = CHR '':''" using authority_chars [OF assms that] .
      then show ?thesis using dns_char_not [of x] by (auto simp: char_code_def)
    qed
    then show ?thesis unfolding list_ex_iff by blast
  qed
  have slash: "\<not> has_prefix (h @ p) ''/''"
    using free(3) assms(1) by (cases h) (auto simp: dns_name_def)
  show ?thesis
    unfolding url_hostname_def cut_or_free [OF free(1)] Let_def prod.case cut_or_free [OF free(2)] cut_or_free [OF free(3)]
    using ctl slash by (simp add: unescape_any_def parse_authority_def split_last_None [OF free(4)]
        parse_host_dns [OF assms] strip_port_dns [OF assms])
qed

text \<open>Printable ASCII text has no white space at its ends.\<close>

lemma lead_len_none: "s \<noteq> [] \<Longrightarrow> \<forall>r \<in> set rs. r \<noteq> [] \<and> hd r \<noteq> hd s \<Longrightarrow> lead_len rs s = 0"
proof (induction rs)
  case (Cons r rs)
  then obtain x xs y ys where "s = x # xs" "r = y # ys" "y \<noteq> x" by (cases s; cases r) auto
  with Cons show ?case by simp
qed simp

definition printable :: "char \<Rightarrow> bool" where
  "printable c \<longleftrightarrow> 32 < char_code c \<and> char_code c < 127"

lemma trim_left_printable:
  assumes "s = [] \<or> printable (hd s)" and "\<forall>r \<in> set rs. r \<noteq> [] \<and> \<not> printable (hd r)"
  shows "trim_left_runes rs s = s"
proof (cases s)
  case (Cons x xs)
  then have "lead_len rs s = 0" using assms by (intro lead_len_none) auto
  then show ?thesis by (subst trim_left_runes.simps) simp
qed (simp add: trim_left_runes.simps)

lemma trim_space_ends:
  assumes "s = [] \<or> printable (hd s) \<and> printable (last s)"
  shows "trim_space s = s"
proof -
  have h: "\<forall>r \<in> set space_runes. r \<noteq> [] \<and> \<not> printable (hd r)"
    "\<forall>r \<in> set (map rev space_runes). r \<noteq> [] \<and> \<not> printable (hd r)"
    by (simp_all add: space_runes_def printable_def char_code_def)
  have "s = [] \<or> printable (hd s)" "rev s = [] \<or> printable (hd (rev s))" using assms by (auto simp: hd_rev)
  from trim_left_printable [OF this(1) h(1)] trim_left_printable [OF this(2) h(2)] show ?thesis by (simp add: trim_space_def)
qed

lemma trim_space_printable: "list_all printable s \<Longrightarrow> trim_space s = s"
  by (rule trim_space_ends) (cases s, auto simp: list_all_iff)

lemma authority_printable:
  assumes "dns_name h" and "port_suffix p"
  shows "list_all printable (h @ p)"
proof -
  have "printable c" if "c \<in> set (h @ p)" for c
    using authority_chars [OF assms that] dns_char_not [of c] by (auto simp: printable_def char_code_def)
  then show ?thesis by (simp add: list_all_iff)
qed

text \<open>Letter case, the port and a trailing dot do not matter.\<close>

lemma normalizeHost_dns:
  assumes "dns_name h" and "port_suffix p"
  shows "normalizeHost (h @ p) = trim_suffix (to_lower h) ''.''"
  using assms(1) url_hostname_dns [OF assms] unfolding normalizeHost_def trim_space_printable [OF authority_printable [OF assms]]
  by (simp add: dns_name_def)

end
