(* ===== verification/Ca.thy ===== *)
theory Ca
  imports Types Paths Json
begin

text \<open>
  \<open>internal/httpproxy/ca.go\<close>: the certificate authority of the intercepting proxy. The files are an
  explicit store from paths to contents and permission bits. The certificate and key formats
  (packages \<open>x509\<close>, \<open>pem\<close>, \<open>rsa\<close>, \<open>tls\<close>), the random source and the outcome of each file operation are the
  fields of \<open>ca_sys\<close>; what the certificate library promises about a freshly created certificate is the
  predicate \<open>x509_library\<close>. The file watcher is a sequence of events. Days are added in the calendar of the
  local time zone, as \<open>AddDate\<close> does.
\<close>

text \<open>Permission bits in decimal: 384 is octal 600, 420 is octal 644.\<close>

named_theorems ca_defs

section \<open>Certificates and files\<close>

record x509 =
  xc_is_ca :: bool
  xc_cert_sign :: bool
  xc_not_before :: time
  xc_not_after :: time

record ca_template =
  ct_serial :: nat
  ct_organization :: string
  ct_common_name :: string
  ct_cert :: x509

type_synonym cert_chain = "bytes list" \<comment> \<open>the field \<open>Certificate\<close> of a \<open>tls.Certificate\<close>\<close>
type_synonym store = "string \<rightharpoonup> bytes \<times> nat"

text \<open>A write that fails leaves some content behind.\<close>

datatype write_outcome = Write_Ok | Write_Failed bytes

record ca_sys =
  cy_now :: time
  cy_zone :: "time \<Rightarrow> duration" \<comment> \<open>the offset of local time at an instant\<close>
  cy_mkdir :: bool
  cy_gen_key :: "bytes option"
  cy_serial :: "nat option"
  cy_create :: "ca_template \<Rightarrow> bytes \<Rightarrow> bytes option"
  cy_pem_cert :: "bytes \<Rightarrow> bytes"
  cy_pem_key :: "bytes \<Rightarrow> bytes"
  cy_write_cert :: write_outcome
  cy_write_key :: write_outcome
  cy_chmod :: bool
  cy_key_pair :: "bytes \<Rightarrow> bytes \<Rightarrow> cert_chain option"
  cy_parse :: "bytes \<Rightarrow> x509 option"
  cy_watcher :: bool
  cy_watch_dir :: bool

definition day :: duration where "day = 86400 * second"

text \<open>
  \<open>time.Now().AddDate(0, 0, n)\<close>: the same time of day in the local zone n dates on. \<open>time.Date\<close> looks the offset
  up for the local time as if it were UTC, and a second time for the instant this gives.
\<close>

definition AddDate :: "ca_sys \<Rightarrow> int \<Rightarrow> time" where
  "AddDate s n =
     (let local = cy_now s + cy_zone s (cy_now s) + n * day;
          offset = cy_zone s local
      in local - (if offset = 0 then 0 else cy_zone s (local - offset)))"

definition write_file :: "write_outcome \<Rightarrow> string \<Rightarrow> bytes \<Rightarrow> nat \<Rightarrow> store \<Rightarrow> store" where
  "write_file w path content mode fs =
     (let m = (case fs path of None \<Rightarrow> mode | Some (_, m) \<Rightarrow> m)
      in fs(path \<mapsto> (case w of Write_Ok \<Rightarrow> (content, m) | Write_Failed b \<Rightarrow> (b, m))))"

definition LoadX509KeyPair :: "ca_sys \<Rightarrow> store \<Rightarrow> string \<Rightarrow> string \<Rightarrow> cert_chain option" where
  "LoadX509KeyPair s fs certPath keyPath =
     (case (fs certPath, fs keyPath) of (Some (c, _), Some (k, _)) \<Rightarrow> cy_key_pair s c k | _ \<Rightarrow> None)"

section \<open>The manager\<close>

definition DefaultCAValidityDays :: int where "DefaultCAValidityDays = 365"
definition DefaultCAOrganization :: string where "DefaultCAOrganization = ''claw-wrap''"
definition RotationBuffer :: int where "RotationBuffer = 30"

record CAManager =
  mg_cert_path :: string
  mg_key_path :: string
  mg_config :: CAConfig
  mg_external :: bool
  mg_cert :: "cert_chain option"
  mg_watcher_init :: bool

datatype ca_error =
    Chain_Empty | Parse_Certificate | Not_CA | No_Cert_Sign | Not_Yet_Valid | Expired
  | Key_Stat | Key_Mode nat | Load_Pair
  | CA_Validation ca_error | External_Missing ca_error
  | CA_Mkdir | CA_Gen_Key | CA_Gen_Serial | CA_Create | CA_Write_Cert | CA_Write_Key | CA_Chmod | CA_Load_Generated
  | Watcher_Create | Watcher_Add

definition DefaultCAPath :: "path_env \<Rightarrow> string" where
  "DefaultCAPath e = CADir e"

definition NewCAManager :: "path_env \<Rightarrow> CAConfig \<Rightarrow> CAManager" where
  "NewCAManager e cfg =
     (let path = (if ca_path cfg = [] then DefaultCAPath e else ca_path cfg);
          certFile = (if ca_cert_file cfg = [] then ''ca.crt'' else ca_cert_file cfg);
          keyFile = (if ca_key_file cfg = [] then ''ca.key'' else ca_key_file cfg)
      in \<lparr>mg_cert_path = path_join [path, certFile], mg_key_path = path_join [path, keyFile], mg_config = cfg,
          mg_external = ca_external cfg, mg_cert = None, mg_watcher_init = False\<rparr>)"

definition validateCA :: "ca_sys \<Rightarrow> cert_chain \<Rightarrow> ca_error option" where
  "validateCA s cert =
     (case cert of [] \<Rightarrow> Some Chain_Empty
      | der # _ \<Rightarrow>
        (case cy_parse s der of
           None \<Rightarrow> Some Parse_Certificate
         | Some x \<Rightarrow>
             if \<not> xc_is_ca x then Some Not_CA
             else if \<not> xc_cert_sign x then Some No_Cert_Sign
             else if cy_now s < xc_not_before x then Some Not_Yet_Valid
             else if xc_not_after x < cy_now s then Some Expired
             else None))"

definition needsRotation :: "ca_sys \<Rightarrow> cert_chain \<Rightarrow> bool" where
  "needsRotation s cert =
     (case cert of [] \<Rightarrow> True
      | der # _ \<Rightarrow>
        (case cy_parse s der of
           None \<Rightarrow> True
         | Some x \<Rightarrow> xc_not_after x < AddDate s RotationBuffer))"

definition NeedsRotation :: "ca_sys \<Rightarrow> CAManager \<Rightarrow> bool" where
  "NeedsRotation s m = (case mg_cert m of None \<Rightarrow> True | Some cert \<Rightarrow> needsRotation s cert)"

definition loadCA :: "ca_sys \<Rightarrow> CAManager \<Rightarrow> store \<Rightarrow> ca_error + cert_chain" where
  "loadCA s m fs =
     (let load = (case LoadX509KeyPair s fs (mg_cert_path m) (mg_key_path m) of None \<Rightarrow> Inl Load_Pair | Some c \<Rightarrow> Inr c)
      in if mg_external m then load
         else case fs (mg_key_path m) of
           None \<Rightarrow> Inl Key_Stat
         | Some (_, perm) \<Rightarrow> if perm > 384 then Inl (Key_Mode perm) else load)"

definition validity_days :: "CAManager \<Rightarrow> int" where
  "validity_days m =
     (if ca_validity_days (mg_config m) \<le> 0 then DefaultCAValidityDays else ca_validity_days (mg_config m))"

definition ca_template_for :: "ca_sys \<Rightarrow> CAManager \<Rightarrow> nat \<Rightarrow> ca_template" where
  "ca_template_for s m serialNumber =
     (let org = (if ca_organization (mg_config m) = [] then DefaultCAOrganization else ca_organization (mg_config m))
      in \<lparr>ct_serial = serialNumber, ct_organization = org, ct_common_name = org @ '' CA'',
          ct_cert = \<lparr>xc_is_ca = True, xc_cert_sign = True, xc_not_before = cy_now s,
                     xc_not_after = AddDate s (validity_days m)\<rparr>\<rparr>)"

definition save_ca :: "ca_sys \<Rightarrow> CAManager \<Rightarrow> bytes \<Rightarrow> bytes \<Rightarrow> store \<Rightarrow> ca_error option \<times> store" where
  "save_ca s m key der fs =
     (let fs1 = write_file (cy_write_cert s) (mg_cert_path m) (cy_pem_cert s der) 420 fs
      in if cy_write_cert s \<noteq> Write_Ok then (Some CA_Write_Cert, fs1)
         else let fs2 = write_file (cy_write_key s) (mg_key_path m) (cy_pem_key s key) 384 fs1
              in if cy_write_key s \<noteq> Write_Ok then (Some CA_Write_Key, fs2(mg_cert_path m := None))
                 else if \<not> cy_chmod s then (Some CA_Chmod, fs2(mg_cert_path m := None, mg_key_path m := None))
                 else (None, fs2(mg_key_path m := map_option (\<lambda>(c, _). (c, 384)) (fs2 (mg_key_path m)))))"

definition generateAndSaveCA :: "ca_sys \<Rightarrow> CAManager \<Rightarrow> store \<Rightarrow> (ca_error + cert_chain) \<times> CAManager \<times> store" where
  "generateAndSaveCA s m fs =
     (if \<not> cy_mkdir s then (Inl CA_Mkdir, m, fs)
      else case cy_gen_key s of
        None \<Rightarrow> (Inl CA_Gen_Key, m, fs)
      | Some key \<Rightarrow>
        (case cy_serial s of
           None \<Rightarrow> (Inl CA_Gen_Serial, m, fs)
         | Some serialNumber \<Rightarrow>
           (case cy_create s (ca_template_for s m serialNumber) key of
              None \<Rightarrow> (Inl CA_Create, m, fs)
            | Some der \<Rightarrow>
              (case save_ca s m key der fs of
                 (Some e, fs') \<Rightarrow> (Inl e, m, fs')
               | (None, fs') \<Rightarrow>
                 (case LoadX509KeyPair s fs' (mg_cert_path m) (mg_key_path m) of
                    None \<Rightarrow> (Inl CA_Load_Generated, m, fs')
                  | Some cert \<Rightarrow> (Inr cert, m\<lparr>mg_cert := Some cert\<rparr>, fs'))))))"

definition EnsureCA :: "ca_sys \<Rightarrow> CAManager \<Rightarrow> store \<Rightarrow> (ca_error + cert_chain) \<times> CAManager \<times> store" where
  "EnsureCA s m fs =
     (case loadCA s m fs of
        Inr cert \<Rightarrow>
          (case validateCA s cert of
             Some e \<Rightarrow> (Inl (CA_Validation e), m, fs)
           | None \<Rightarrow>
               if \<not> mg_external m \<and> needsRotation s cert then generateAndSaveCA s m fs
               else (Inr cert, m\<lparr>mg_cert := Some cert\<rparr>, fs))
      | Inl e \<Rightarrow>
          if mg_external m then (Inl (External_Missing e), m, fs) else generateAndSaveCA s m fs)"

definition Certificate :: "CAManager \<Rightarrow> cert_chain option" where "Certificate m = mg_cert m"
definition CertPath :: "CAManager \<Rightarrow> string" where "CertPath m = mg_cert_path m"
definition External :: "CAManager \<Rightarrow> bool" where "External m = mg_external m"

section \<open>The watcher\<close>

definition StartWatcher :: "ca_sys \<Rightarrow> CAManager \<Rightarrow> ca_error option \<times> CAManager" where
  "StartWatcher s m =
     (if \<not> mg_external m then (None, m)
      else if mg_watcher_init m then (None, m)
      else if \<not> cy_watcher s then (Some Watcher_Create, m)
      else if \<not> cy_watch_dir s then (Some Watcher_Add, m)
      else (None, m\<lparr>mg_watcher_init := True\<rparr>))"

definition StopWatcher :: "CAManager \<Rightarrow> CAManager" where
  "StopWatcher m = m\<lparr>mg_watcher_init := False\<rparr>"

definition reloadCA :: "ca_sys \<Rightarrow> store \<Rightarrow> CAManager \<Rightarrow> ca_error option \<times> CAManager" where
  "reloadCA s fs m =
     (case loadCA s m fs of
        Inl e \<Rightarrow> (Some e, m)
      | Inr cert \<Rightarrow>
          (case validateCA s cert of
             Some e \<Rightarrow> (Some (CA_Validation e), m)
           | None \<Rightarrow> (None, m\<lparr>mg_cert := Some cert\<rparr>)))"

datatype fs_op = Op_Create | Op_Write | Op_Remove | Op_Rename | Op_Chmod

datatype watch_event = File_Event string "fs_op list" | Watch_Error

definition relevant_event :: "CAManager \<Rightarrow> watch_event \<Rightarrow> bool" where
  "relevant_event m ev =
     (case ev of
        Watch_Error \<Rightarrow> False
      | File_Event name ops \<Rightarrow>
          let eventFile = path_base name
          in (eventFile = path_base (mg_cert_path m) \<or> eventFile = path_base (mg_key_path m) \<or> eventFile = ''..data'') \<and>
             list_ex (\<lambda>x. x = Op_Write \<or> x = Op_Create \<or> x = Op_Chmod) ops)"

text \<open>
  \<open>watchLoop\<close>: each event comes with the machine and the files at its time; the loop ends when the
  watcher has been stopped or a channel is closed, which is the end of the list.
\<close>

fun watchLoop :: "(watch_event \<times> ca_sys \<times> store) list \<Rightarrow> CAManager \<Rightarrow> CAManager" where
  "watchLoop [] m = m"
| "watchLoop ((ev, s, fs) # evs) m =
     watchLoop evs (if relevant_event m ev then snd (reloadCA s fs m) else m)"

text \<open>\<open>sanitizePath\<close> goes through the runes; a byte that starts none becomes U+FFFD.\<close>

function sanitizePath :: "string \<Rightarrow> string" where
  "sanitizePath p =
     (if p = [] then []
      else if char_code (hd p) < 128 then
        (if char_code (hd p) < 32 \<or> char_code (hd p) = 127 then CHR ''?'' else hd p) # sanitizePath (tl p)
      else case rune_len p of
        None \<Rightarrow> [CHR 0xEF, CHR 0xBF, CHR 0xBD] @ sanitizePath (tl p)
      | Some n \<Rightarrow> take n p @ sanitizePath (drop n p))"
  by pat_completeness auto
termination
  by (relation "measure length") (auto dest: rune_len_bounds)

declare sanitizePath.simps [simp del]

lemmas [ca_defs] = validateCA_def needsRotation_def loadCA_def generateAndSaveCA_def EnsureCA_def save_ca_def
  LoadX509KeyPair_def write_file_def reloadCA_def

section \<open>The certificate in use\<close>

text \<open>
  What the certificate library promises: a created certificate parses back to the fields of its
  template, with times cut to seconds as the encoding has them, and a loaded key pair starts with the
  certificate of the PEM file. The offsets of a time zone lie within less than a day of each other.
\<close>

definition to_seconds :: "time \<Rightarrow> time" where
  "to_seconds t = t div second * second"

definition x509_library :: "ca_sys \<Rightarrow> bool" where
  "x509_library s \<longleftrightarrow>
     (\<forall>t u. cy_zone s t < cy_zone s u + day - second) \<and>
     (\<forall>t key der. cy_create s t key = Some der \<longrightarrow>
        cy_parse s der = Some ((ct_cert t)\<lparr>xc_not_before := to_seconds (xc_not_before (ct_cert t)),
                                          xc_not_after := to_seconds (xc_not_after (ct_cert t))\<rparr>) \<and>
        (\<forall>k chain. cy_key_pair s (cy_pem_cert s der) k = Some chain \<longrightarrow> (\<exists>rest. chain = der # rest)))"

definition lasts_until :: "ca_sys \<Rightarrow> cert_chain \<Rightarrow> time \<Rightarrow> bool" where
  "lasts_until s cert t = (case cert of [] \<Rightarrow> False | der # _ \<Rightarrow> (case cy_parse s der of None \<Rightarrow> False | Some x \<Rightarrow> t \<le> xc_not_after x))"

lemma to_seconds_bounds: "to_seconds t \<le> t" "t - second < to_seconds t"
proof -
  have "t = t div second * second + t mod second" by (simp add: minus_mod_eq_div_mult)
  moreover have "0 \<le> t mod second" "t mod second < second" by simp_all
  ultimately show "to_seconds t \<le> t" "t - second < to_seconds t" unfolding to_seconds_def by linarith+
qed

lemma validity_days_pos: "1 \<le> validity_days m"
  by (simp add: validity_days_def DefaultCAValidityDays_def)

lemma AddDate_offset:
  obtains u where "AddDate s n = cy_now s + cy_zone s (cy_now s) + n * day - cy_zone s u"
proof -
  let ?l = "cy_now s + cy_zone s (cy_now s) + n * day"
  show thesis using that [of ?l] that [of "?l - cy_zone s ?l"] by (cases "cy_zone s ?l = 0") (simp_all add: AddDate_def Let_def)
qed

lemma AddDate_later:
  assumes "x509_library s" and "1 \<le> n"
  shows "cy_now s + second < AddDate s n"
proof -
  obtain u where u: "AddDate s n = cy_now s + cy_zone s (cy_now s) + n * day - cy_zone s u" by (rule AddDate_offset)
  have "cy_zone s u < cy_zone s (cy_now s) + day - second" using assms(1) by (simp add: x509_library_def)
  moreover have "day \<le> n * day" using assms(2) by (simp add: day_def)
  ultimately show ?thesis using u by linarith
qed

lemma AddDate_mono:
  assumes "x509_library s" and "n \<le> k"
  shows "AddDate s n \<le> AddDate s k"
proof (cases "n = k")
  case False
  obtain u where u: "AddDate s n = cy_now s + cy_zone s (cy_now s) + n * day - cy_zone s u" by (rule AddDate_offset)
  obtain v where v: "AddDate s k = cy_now s + cy_zone s (cy_now s) + k * day - cy_zone s v" by (rule AddDate_offset)
  have "cy_zone s v < cy_zone s u + day - second" using assms(1) by (simp add: x509_library_def)
  moreover have "n * day + day \<le> k * day" using False assms(2) by (simp add: day_def)
  moreover have "0 < second" by simp
  ultimately show ?thesis using u v by linarith
qed simp

lemma save_ca_stores:
  assumes "save_ca s m key der fs = (None, fs')" and "mg_cert_path m \<noteq> mg_key_path m"
  shows "(\<exists>p. fs' (mg_cert_path m) = Some (cy_pem_cert s der, p)) \<and> fs' (mg_key_path m) = Some (cy_pem_key s key, 384)"
  using assms by (auto simp: save_ca_def write_file_def Let_def split: if_splits write_outcome.splits option.splits)

lemma generated_chain:
  assumes gen: "generateAndSaveCA s m fs = (Inr cert, m', fs')"
    and paths: "mg_cert_path m \<noteq> mg_key_path m" and lib: "x509_library s"
  shows "(\<exists>der rest. cert = der # rest \<and>
            cy_parse s der = Some \<lparr>xc_is_ca = True, xc_cert_sign = True, xc_not_before = to_seconds (cy_now s),
                                   xc_not_after = to_seconds (AddDate s (validity_days m))\<rparr>) \<and>
         m' = m\<lparr>mg_cert := Some cert\<rparr>"
proof -
  from gen obtain key serial der where
    c: "cy_create s (ca_template_for s m serial) key = Some der" and
    sv: "save_ca s m key der fs = (None, fs')" and
    ld: "LoadX509KeyPair s fs' (mg_cert_path m) (mg_key_path m) = Some cert" and
    m': "m' = m\<lparr>mg_cert := Some cert\<rparr>"
    by (auto simp: generateAndSaveCA_def split: if_splits option.splits prod.splits)
  from save_ca_stores [OF sv paths] ld have "cy_key_pair s (cy_pem_cert s der) (cy_pem_key s key) = Some cert"
    by (auto simp: LoadX509KeyPair_def)
  with lib c obtain rest where "cert = der # rest" unfolding x509_library_def by blast
  moreover from lib c have "cy_parse s der = Some \<lparr>xc_is_ca = True, xc_cert_sign = True, xc_not_before = to_seconds (cy_now s),
      xc_not_after = to_seconds (AddDate s (validity_days m))\<rparr>"
    unfolding x509_library_def by (auto simp: ca_template_for_def Let_def)
  ultimately show ?thesis using m' by blast
qed

lemma generated_valid:
  assumes gen: "generateAndSaveCA s m fs = (Inr cert, m', fs')"
    and paths: "mg_cert_path m \<noteq> mg_key_path m" and lib: "x509_library s"
  shows "validateCA s cert = None \<and> mg_cert m' = Some cert \<and>
         lasts_until s cert (AddDate s (min RotationBuffer (validity_days m)) - second)"
proof -
  from generated_chain [OF assms] obtain der rest where
    d: "cert = der # rest" "cy_parse s der = Some \<lparr>xc_is_ca = True, xc_cert_sign = True, xc_not_before = to_seconds (cy_now s),
        xc_not_after = to_seconds (AddDate s (validity_days m))\<rparr>" and m': "m' = m\<lparr>mg_cert := Some cert\<rparr>" by blast
  have "AddDate s (validity_days m) - second < to_seconds (AddDate s (validity_days m))" by (rule to_seconds_bounds)
  moreover have "cy_now s + second < AddDate s (validity_days m)" by (rule AddDate_later [OF lib validity_days_pos])
  moreover have "AddDate s (min RotationBuffer (validity_days m)) \<le> AddDate s (validity_days m)" by (rule AddDate_mono [OF lib]) simp
  ultimately have "cy_now s \<le> to_seconds (AddDate s (validity_days m))"
    "AddDate s (min RotationBuffer (validity_days m)) - second \<le> to_seconds (AddDate s (validity_days m))" by linarith+
  then show ?thesis using d m' to_seconds_bounds(1) [of "cy_now s"] by (simp add: validateCA_def lasts_until_def)
qed

lemma kept_lasts:
  assumes "validateCA s cert = None" and "\<not> needsRotation s cert" and "x509_library s"
  shows "lasts_until s cert (AddDate s (min RotationBuffer (validity_days m)) - second)"
proof -
  have "AddDate s (min RotationBuffer (validity_days m)) \<le> AddDate s RotationBuffer" by (rule AddDate_mono [OF assms(3)]) simp
  moreover have "0 < second" by simp
  ultimately have "AddDate s (min RotationBuffer (validity_days m)) - second \<le> AddDate s RotationBuffer" by linarith
  then show ?thesis using assms(1,2)
    by (auto simp: validateCA_def needsRotation_def lasts_until_def split: list.splits option.splits)
qed

lemma ensured_valid:
  assumes "EnsureCA s m fs = (Inr cert, m', fs')" and "mg_cert_path m \<noteq> mg_key_path m" and "x509_library s"
  shows "validateCA s cert = None \<and> mg_cert m' = Some cert \<and>
         (mg_external m \<or> lasts_until s cert (AddDate s (min RotationBuffer (validity_days m)) - second))"
  using assms generated_valid [of s m fs cert m' fs'] kept_lasts [of s cert m]
  by (auto simp: EnsureCA_def split: sum.splits option.splits if_splits)

lemma ensure_keeps_watcher: "mg_watcher_init (fst (snd (EnsureCA s m fs))) = mg_watcher_init m"
  by (simp add: EnsureCA_def generateAndSaveCA_def split: sum.splits option.splits prod.splits)

lemma reload_cert:
  "mg_cert (snd (reloadCA s fs m)) = mg_cert m \<or>
   (\<exists>cert. mg_cert (snd (reloadCA s fs m)) = Some cert \<and> validateCA s cert = None)"
  by (simp add: reloadCA_def split: sum.splits option.splits)

lemma watchLoop_cert:
  "mg_cert (watchLoop evs m) = mg_cert m \<or>
   (\<exists>(ev, s, fs) \<in> set evs. \<exists>cert. mg_cert (watchLoop evs m) = Some cert \<and> validateCA s cert = None)"
proof (induction evs m rule: watchLoop.induct)
  case (2 ev s fs evs m)
  let ?m = "if relevant_event m ev then snd (reloadCA s fs m) else m"
  show ?case using 2 reload_cert [of s fs m] by (auto split: if_splits)
qed simp


definition sample_ca_sys :: "time \<Rightarrow> ca_sys" where
  "sample_ca_sys now =
     \<lparr>cy_now = now, cy_zone = (\<lambda>_. 0), cy_mkdir = True, cy_gen_key = Some ''K'', cy_serial = Some 7,
      cy_create = (\<lambda>t k. if t = \<lparr>ct_serial = 7, ct_organization = ''claw-wrap'', ct_common_name = ''claw-wrap CA'',
          ct_cert = \<lparr>xc_is_ca = True, xc_cert_sign = True, xc_not_before = now, xc_not_after = now + 365 * day\<rparr>\<rparr> then Some ''DER'' else None),
      cy_pem_cert = (\<lambda>d. CHR ''C'' # d), cy_pem_key = (\<lambda>d. CHR ''P'' # d), cy_write_cert = Write_Ok, cy_write_key = Write_Ok,
      cy_chmod = True, cy_key_pair = (\<lambda>c k. Some [tl c]),
      cy_parse = (\<lambda>d. if d = ''DER'' then Some \<lparr>xc_is_ca = True, xc_cert_sign = True, xc_not_before = to_seconds now,
          xc_not_after = to_seconds (now + 365 * day)\<rparr> else None),
      cy_watcher = True, cy_watch_dir = True\<rparr>"

definition sample_ca_config :: CAConfig where
  "sample_ca_config = \<lparr>ca_path = ''/ca'', ca_cert_file = [], ca_key_file = [], ca_external = False, ca_validity_days = 0, ca_organization = []\<rparr>"


text \<open>
  The permission test compares numbers, not bits: octal 577, decimal 383, lets the group and everyone
  else read, write and execute the key and is below octal 600.
\<close>

lemma ca_key_mode_numeric:
  assumes "\<not> mg_external m" and "fs (mg_key_path m) = Some (k, 383)" and "fs (mg_cert_path m) = Some (c, p)"
    and "cy_key_pair s c k = Some chain"
  shows "loadCA s m fs = Inr chain"
  using assms by (simp add: loadCA_def LoadX509KeyPair_def)

end
