(* ===== verification/Http_Proxy.thy ===== *)
theory Http_Proxy
  imports Config Ssrf Host_Names Base64 Ca Github_App
begin

text \<open>
  \<open>internal/httpproxy/proxy.go\<close>, \<open>inject.go\<close> and the request checks of \<open>security.go\<close>: the forward proxy that
  authenticates its clients, applies the allow and deny rules of the first matching route and puts a
  credential into a header of the request. The library \<open>goproxy\<close> calls the handlers with a request and
  a context and forwards the request a handler returns without an answer; an answer is recorded by the
  arguments of \<open>goproxy.NewResponse\<close>. \<open>credentials.Resolve\<close> is passed as a function of a state, so
  that each reference of a template is resolved in the state the one before left.
\<close>

section \<open>Requests\<close>

type_synonym header = "(string, string list) gomap"

definition hdr_get :: "header \<Rightarrow> string \<Rightarrow> string" where
  "hdr_get h k = (case map_of h (canonical_key k) of Some (v # _) \<Rightarrow> v | _ \<Rightarrow> [])"

definition hdr_set :: "string \<Rightarrow> string \<Rightarrow> header \<Rightarrow> header" where
  "hdr_set k v h = map_set (canonical_key k) [v] h"

definition hdr_del :: "string \<Rightarrow> header \<Rightarrow> header" where
  "hdr_del k h = map_del (canonical_key k) h"

record req_url =
  ur_scheme :: string
  ur_host :: string
  ur_path :: string \<comment> \<open>decoded, as \<open>URL.Path\<close> is\<close>

record http_request =
  rq_method :: string
  rq_url :: "req_url option"
  rq_host :: string
  rq_header :: header
  rq_content_length :: int

record http_response =
  rs_status :: int
  rs_header :: header

record proxy_reply =
  rp_content_type :: string
  rp_status :: int
  rp_body :: string
  rp_headers :: "(string \<times> string) list" \<comment> \<open>set after \<open>NewResponse\<close>\<close>

definition NewResponse :: "string \<Rightarrow> int \<Rightarrow> string \<Rightarrow> proxy_reply" where
  "NewResponse ct status body = \<lparr>rp_content_type = ct, rp_status = status, rp_body = body, rp_headers = []\<rparr>"

section \<open>security.go\<close>

fun hasObsoleteLineFolding :: "string \<Rightarrow> bool" where
  "hasObsoleteLineFolding (a # b # r) =
     ((a = CR \<or> a = LF) \<and> (b = CHR '' '' \<or> b = TAB) \<or> hasObsoleteLineFolding (b # r))"
| "hasObsoleteLineFolding _ = False"

datatype request_error = ErrRequestSmuggling | Line_Folding string

definition checkRequestSmuggling :: "http_request \<Rightarrow> request_error option" where
  "checkRequestSmuggling req =
     (let te = hdr_get (rq_header req) ''Transfer-Encoding'';
          hasContentLength = (hdr_get (rq_header req) ''Content-Length'' \<noteq> [] \<or> rq_content_length req > 0)
      in if te \<noteq> [] \<and> hasContentLength then Some ErrRequestSmuggling
         else map_option (\<lambda>(name, _). Line_Folding name)
                (find (\<lambda>(name, values). list_ex hasObsoleteLineFolding values) (rq_header req)))"

definition validateRequestSecurity :: "http_request \<Rightarrow> request_error option" where
  "validateRequestSecurity req = checkRequestSmuggling req"

text \<open>
  The expression \<open>(?i)(key|token|secret|password|bearer|authorization|api[_-]?key)[=:\s]+\S+\<close>. Folding of
  letter case takes in the Kelvin sign for \<open>k\<close> and the long s for \<open>s\<close>.
\<close>

definition fold_char :: "char \<Rightarrow> regex" where
  "fold_char c =
     (let r = Chr (\<lambda>x. lower_char x = c)
      in if c = CHR ''k'' then Alt r (Lit [CHR 0xE2, CHR 0x84, CHR 0xAA])
         else if c = CHR ''s'' then Alt r (Lit [CHR 0xC5, CHR 0xBF]) else r)"

primrec fold_lit :: "string \<Rightarrow> regex" where
  "fold_lit [] = Eps"
| "fold_lit (c # s) = Cat (fold_char c) (fold_lit s)"

definition credentialRedactRe :: regex where
  "credentialRedactRe =
     Cat (Cap 1 (Alt (fold_lit ''key'') (Alt (fold_lit ''token'') (Alt (fold_lit ''secret'') (Alt (fold_lit ''password'')
       (Alt (fold_lit ''bearer'') (Alt (fold_lit ''authorization'')
         (Cat (fold_lit ''api'') (Cat (Opt (Chr (\<lambda>c. c = CHR ''_'' \<or> c = CHR ''-''))) (fold_lit ''key''))))))))))
     (Cat (Plus (Chr (\<lambda>c. c = CHR ''='' \<or> c = CHR '':'' \<or> is_space c))) (Plus (Chr (\<lambda>c. \<not> is_space c))))"

definition sanitizeForLog :: "string \<Rightarrow> string" where
  "sanitizeForLog s = replace_template credentialRedactRe s ''$1=[REDACTED]''"

datatype host_error = Host_Empty | Host_Private ip | Host_Lookup string | Host_Resolves_Private string ip

definition validateHostForSSRF :: "(string \<Rightarrow> ip list option) \<Rightarrow> string \<Rightarrow> host_error option" where
  "validateHostForSSRF lookupIP host =
     (let hostname = normalizeHost host
      in if hostname = [] then Some Host_Empty
         else case ParseIP hostname of
           Some i \<Rightarrow> if isPrivateIP i then Some (Host_Private i) else None
         | None \<Rightarrow>
             (case lookupIP hostname of
                None \<Rightarrow> Some (Host_Lookup hostname)
              | Some ips \<Rightarrow> map_option (Host_Resolves_Private hostname) (find isPrivateIP ips)))"

section \<open>inject.go\<close>

datatype 'e inject_error = Empty_Ref | Unknown_Credential string | Resolve_Failed string 'e

type_synonym ('e, 's) resolver = "ResolveInput \<Rightarrow> FetchOption list \<Rightarrow> 's \<Rightarrow> ('e + string) \<times> 's"

text \<open>The callback on one match.\<close>

definition resolve_match ::
  "('e, 's) resolver \<Rightarrow> (string, CredentialDef) gomap \<Rightarrow> FetchOption list \<Rightarrow> string \<Rightarrow> 's \<Rightarrow> ('e inject_error + string) \<times> 's" where
  "resolve_match resolve creds opts m st =
     (let name = trim_space (trim_suffix (trim_prefix m ''{{'') ''}}'')
      in if name = [] then (Inl Empty_Ref, st)
         else case map_of creds name of
           None \<Rightarrow> (Inl (Unknown_Credential name), st)
         | Some cred \<Rightarrow>
             (let (r, st') = resolve (cred_ResolveInput cred name) opts st
              in (case r of Inl e \<Rightarrow> Inl (Resolve_Failed name e) | Inr v \<Rightarrow> Inr v, st')))"

text \<open>The matches in order; after an error nothing more is resolved.\<close>

fun resolve_matches ::
  "('e, 's) resolver \<Rightarrow> (string, CredentialDef) gomap \<Rightarrow> FetchOption list \<Rightarrow> string list \<Rightarrow> 's \<Rightarrow>
   ('e inject_error + string list) \<times> 's" where
  "resolve_matches resolve creds opts [] st = (Inr [], st)"
| "resolve_matches resolve creds opts (m # ms) st =
     (case resolve_match resolve creds opts m st of
        (Inl e, st') \<Rightarrow> (Inl e, st')
      | (Inr v, st') \<Rightarrow>
          (case resolve_matches resolve creds opts ms st' of
             (Inl e, st'') \<Rightarrow> (Inl e, st'')
           | (Inr vs, st'') \<Rightarrow> (Inr (v # vs), st'')))"

fun splice_values :: "string \<Rightarrow> nat \<Rightarrow> (nat \<times> nat \<times> caps) list \<Rightarrow> string list \<Rightarrow> string" where
  "splice_values s pos ((i, j, c) # ms) (v # vs) = sub s pos i @ v @ splice_values s j ms vs"
| "splice_values s pos _ _ = drop pos s"

definition resolveHeaderValue ::
  "('e, 's) resolver \<Rightarrow> string \<Rightarrow> (string, CredentialDef) gomap \<Rightarrow> FetchOption list \<Rightarrow> 's \<Rightarrow> ('e inject_error + string) \<times> 's" where
  "resolveHeaderValue resolve template creds opts st =
     (let ms = find_all credentialRefRe template
      in case resolve_matches resolve creds opts (map (\<lambda>(i, j, c). sub template i j) ms) st of
           (Inl e, st') \<Rightarrow> (Inl e, st')
         | (Inr vs, st') \<Rightarrow> (Inr (splice_values template 0 ms vs), st'))"

definition hasCredentialRef :: "string \<Rightarrow> bool" where
  "hasCredentialRef s = match_string credentialRefRe s"

section \<open>The proxy\<close>

definition DefaultListenAddr :: string where "DefaultListenAddr = ''127.0.0.1:8080''"
definition proxyAuthUser :: string where "proxyAuthUser = ''claw''"
definition proxyAuthRealm :: string where "proxyAuthRealm = ''claw-wrap''"

record Proxy =
  px_listener :: "string option"
  px_cfg :: "HTTPProxyConfig option"
  px_ca :: CAManager
  px_creds :: "(string, CredentialDef) gomap"
  px_cred_opts :: "FetchOption list"
  px_auth_token :: string
  px_require_auth :: bool
  px_verbose :: bool
  px_mitm :: bool
  px_stopped :: bool

type_synonym Option = "Proxy \<Rightarrow> Proxy"

definition proxy_WithPassBinary :: "string \<Rightarrow> Option" where
  "proxy_WithPassBinary path p = p\<lparr>px_cred_opts := px_cred_opts p @ [WithPassBinary path]\<rparr>"

definition proxy_WithOPBinary :: "string \<Rightarrow> Option" where
  "proxy_WithOPBinary path p = p\<lparr>px_cred_opts := px_cred_opts p @ [WithOPBinary path]\<rparr>"

definition proxy_WithBWBinary :: "string \<Rightarrow> Option" where
  "proxy_WithBWBinary path p = p\<lparr>px_cred_opts := px_cred_opts p @ [WithBWBinary path]\<rparr>"

definition proxy_WithVaultBinary :: "string \<Rightarrow> Option" where
  "proxy_WithVaultBinary path p = p\<lparr>px_cred_opts := px_cred_opts p @ [WithVaultBinary path]\<rparr>"

definition WithAuthToken :: "string \<Rightarrow> Option" where
  "WithAuthToken token p = p\<lparr>px_auth_token := token\<rparr>"

definition WithRequireAuth :: "bool \<Rightarrow> Option" where
  "WithRequireAuth require p = p\<lparr>px_require_auth := require\<rparr>"

definition New :: "path_env \<Rightarrow> HTTPProxyConfig \<Rightarrow> (string, CredentialDef) gomap \<Rightarrow> Option list \<Rightarrow> Proxy" where
  "New e cfg creds opts =
     (let p = \<lparr>px_listener = None, px_cfg = Some cfg, px_ca = NewCAManager e (hp_ca cfg), px_creds = creds, px_cred_opts = [],
               px_auth_token = [], px_require_auth = True, px_verbose = False, px_mitm = False, px_stopped = False\<rparr>
      in (fold (\<lambda>opt q. opt q) opts p)\<lparr>px_verbose := (hp_log_level cfg = ''debug'')\<rparr>)"

datatype start_error =
    Token_Required | Invalid_Listen string | Not_Localhost string | Setup_MITM ca_error | Start_Watcher ca_error | Listen_Failed

definition setupMITM :: "ca_sys \<Rightarrow> Proxy \<Rightarrow> store \<Rightarrow> ca_error option \<times> Proxy \<times> store" where
  "setupMITM s p fs =
     (case EnsureCA s (px_ca p) fs of
        (Inl e, m, fs') \<Rightarrow> (Some e, p\<lparr>px_ca := m\<rparr>, fs')
      | (Inr cert, m, fs') \<Rightarrow> (None, p\<lparr>px_ca := m, px_mitm := True\<rparr>, fs'))"

text \<open>\<open>Start\<close>; the last argument says whether \<open>net.Listen\<close> succeeds on an address.\<close>

definition Start :: "ca_sys \<Rightarrow> (string \<Rightarrow> bool) \<Rightarrow> string \<Rightarrow> Proxy \<Rightarrow> store \<Rightarrow> start_error option \<times> Proxy \<times> store" where
  "Start s listen addr0 p fs =
     (let addr = (if addr0 = [] then DefaultListenAddr else addr0)
      in if px_require_auth p \<and> px_auth_token p = [] then (Some Token_Required, p, fs)
         else case SplitHostPort addr of
           None \<Rightarrow> (Some (Invalid_Listen addr), p, fs)
         | Some (host, port) \<Rightarrow>
             if host \<noteq> ''127.0.0.1'' \<and> host \<noteq> ''localhost'' \<and> host \<noteq> ''::1'' then (Some (Not_Localhost host), p, fs)
             else case setupMITM s p fs of
               (Some e, p1, fs1) \<Rightarrow> (Some (Setup_MITM e), p1, fs1)
             | (None, p1, fs1) \<Rightarrow>
                 (case StartWatcher s (px_ca p1) of
                    (Some e, m) \<Rightarrow> (Some (Start_Watcher e), p1\<lparr>px_ca := m\<rparr>, fs1)
                  | (None, m) \<Rightarrow>
                      if \<not> listen addr then (Some Listen_Failed, p1\<lparr>px_ca := StopWatcher m\<rparr>, fs1)
                      else (None, p1\<lparr>px_ca := m, px_listener := Some addr\<rparr>, fs1)))"

text \<open>\<open>makeLazyTLSConfig\<close>: the certificate of the moment, or an error when there is none.\<close>

definition makeLazyTLSConfig :: "Proxy \<Rightarrow> cert_chain option" where
  "makeLazyTLSConfig p = Certificate (px_ca p)"

definition CAPath :: "Proxy \<Rightarrow> string" where "CAPath p = CertPath (px_ca p)"

text \<open>\<open>Stop\<close>: the once-guard, and whether closing the listener succeeds.\<close>

definition Stop :: "bool \<Rightarrow> Proxy \<Rightarrow> bool \<times> Proxy" where
  "Stop close_ok p =
     (if px_stopped p then (True, p)
      else (px_listener p = None \<or> close_ok, p\<lparr>px_stopped := True, px_ca := StopWatcher (px_ca p)\<rparr>))"

definition ReloadConfig :: "HTTPProxyConfig \<Rightarrow> (string, CredentialDef) gomap \<Rightarrow> Proxy \<Rightarrow> Proxy" where
  "ReloadConfig cfg creds p =
     p\<lparr>px_cfg := Some cfg, px_creds := creds, px_verbose := (hp_log_level cfg = ''debug'')\<rparr>"

definition getConfig :: "Proxy \<Rightarrow> HTTPProxyConfig option" where "getConfig p = px_cfg p"

section \<open>Authentication\<close>

record proxyAuthState =
  as_connect_authenticated :: bool

record ProxyCtx =
  cx_req :: "http_request option"
  cx_user_data :: "proxyAuthState option"

definition markConnectAuthenticated :: "ProxyCtx \<Rightarrow> ProxyCtx" where
  "markConnectAuthenticated ctx = ctx\<lparr>cx_user_data := Some \<lparr>as_connect_authenticated = True\<rparr>\<rparr>"

definition isConnectAuthenticated :: "ProxyCtx option \<Rightarrow> bool" where
  "isConnectAuthenticated ctx =
     (case ctx of None \<Rightarrow> False
      | Some c \<Rightarrow> (case cx_user_data c of None \<Rightarrow> False | Some st \<Rightarrow> as_connect_authenticated st))"

text \<open>\<open>strings.EqualFold\<close> with a word whose only letter with a non-ASCII partner is \<open>s\<close>: the long s.\<close>

definition equal_fold_s :: "string \<Rightarrow> string \<Rightarrow> bool" where
  "equal_fold_s x w = equal_fold (replace_all x [CHR 0xC5, CHR 0xBF] ''s'') w"

definition parseProxyAuthorization :: "string \<Rightarrow> (string \<times> string) option" where
  "parseProxyAuthorization raw =
     (case cut_char CHR '' '' (trim_space raw) of
        None \<Rightarrow> None
      | Some (scheme, rest) \<Rightarrow>
          if \<not> equal_fold_s scheme ''Basic'' then None
          else case b64_decode StdEncoding rest of
            None \<Rightarrow> None
          | Some decoded \<Rightarrow> cut_char CHR '':'' decoded)"

definition secureEqual :: "string \<Rightarrow> string \<Rightarrow> bool" where
  "secureEqual a b = (if length a \<noteq> length b then False else a = b)"

definition isAuthenticatedProxyRequest :: "Proxy \<Rightarrow> http_request option \<Rightarrow> ProxyCtx option \<Rightarrow> bool" where
  "isAuthenticatedProxyRequest p req ctx =
     (if \<not> px_require_auth p then True
      else if isConnectAuthenticated ctx then True
      else case req of
        None \<Rightarrow> False
      | Some r \<Rightarrow>
          (case parseProxyAuthorization (hdr_get (rq_header r) ''Proxy-Authorization'') of
             None \<Rightarrow> False
           | Some (user, pass) \<Rightarrow>
               if \<not> secureEqual user proxyAuthUser then False else secureEqual pass (px_auth_token p)))"

definition proxyAuthRequiredResponse :: proxy_reply where
  "proxyAuthRequiredResponse =
     (NewResponse ''application/json'' 407
        (''{'' @ [DQUOTE] @ ''error'' @ [DQUOTE] @ '':'' @ [DQUOTE] @ ''proxy_auth_required'' @ [DQUOTE] @ ''}''))
       \<lparr>rp_headers := [(''Proxy-Authenticate'', ''Basic realm='' @ [DQUOTE] @ proxyAuthRealm @ [DQUOTE])]\<rparr>"

text \<open>What \<open>handleConnect\<close> tells the library to do with a \<open>CONNECT\<close>.\<close>

datatype connect_action = MitmConnect | ProxyAuthHijack string

definition proxyAuthRequiredConnectAction :: connect_action where
  "proxyAuthRequiredConnectAction =
     ProxyAuthHijack (''Proxy-Authenticate: Basic realm='' @ [DQUOTE] @ proxyAuthRealm @ [DQUOTE, CR, LF] @
       ''Content-Length: 0'' @ [CR, LF] @ ''Connection: close'' @ [CR, LF, CR, LF])"

definition handleConnect :: "Proxy \<Rightarrow> string \<Rightarrow> ProxyCtx \<Rightarrow> connect_action \<times> string \<times> ProxyCtx" where
  "handleConnect p host ctx =
     (if \<not> isAuthenticatedProxyRequest p (cx_req ctx) (Some ctx) then (proxyAuthRequiredConnectAction, host, ctx)
      else (MitmConnect, host, markConnectAuthenticated ctx))"

section \<open>Targets and routes\<close>

datatype target_error = No_URL | Missing_URL_Host | Empty_Target

definition canonicalRequestHost :: "http_request option \<Rightarrow> target_error + string" where
  "canonicalRequestHost req =
     (case req of None \<Rightarrow> Inl No_URL
      | Some r \<Rightarrow>
        (case rq_url r of
           None \<Rightarrow> Inl No_URL
         | Some u \<Rightarrow>
             if trim_space (ur_host u) = [] \<and> ur_scheme u \<noteq> [] then Inl Missing_URL_Host
             else let target = (if trim_space (ur_host u) = [] then rq_host r else ur_host u);
                      host = normalizeHost target
                  in if host = [] then Inl Empty_Target else Inr host))"

definition hostHeaderMismatched :: "http_request option \<Rightarrow> string \<Rightarrow> bool" where
  "hostHeaderMismatched req canonicalHost =
     (case req of None \<Rightarrow> False
      | Some r \<Rightarrow>
          if trim_space (rq_host r) = []
          then (case rq_url r of None \<Rightarrow> False | Some u \<Rightarrow> ur_scheme u = ''http'' \<and> ur_host u \<noteq> [])
          else normalizeHost (rq_host r) \<noteq> canonicalHost)"

definition matchHost :: "string \<Rightarrow> string \<Rightarrow> bool" where
  "matchHost pattern host \<longleftrightarrow> pattern = host"

definition matchHostWithRoute :: "ProxyRoute \<Rightarrow> string \<Rightarrow> bool" where
  "matchHostWithRoute route host =
     (case rt_host_regex route of Some re \<Rightarrow> match_string re host | None \<Rightarrow> rt_host route = host)"

definition findMatchingRoute :: "HTTPProxyConfig \<Rightarrow> string \<Rightarrow> ProxyRoute option" where
  "findMatchingRoute cfg host = find (\<lambda>route. matchHostWithRoute route host) (hp_routes cfg)"

definition matchPathRule :: "PathRule \<Rightarrow> string \<Rightarrow> string \<Rightarrow> bool" where
  "matchPathRule rule meth path =
     (if rule_method rule \<noteq> ''*'' \<and> rule_method rule \<noteq> meth then False
      else match_string (rule_pattern rule) path)"

definition url_path :: "http_request \<Rightarrow> string" where
  "url_path req = (case rq_url req of None \<Rightarrow> [] | Some u \<Rightarrow> ur_path u)"

definition isRequestAllowed :: "ProxyRoute \<Rightarrow> http_request \<Rightarrow> bool" where
  "isRequestAllowed route req =
     (if list_ex (\<lambda>rule. matchPathRule rule (rq_method req) (url_path req)) (rt_deny_rules route) then False
      else if rt_allow_rules route \<noteq> []
      then list_ex (\<lambda>rule. matchPathRule rule (rq_method req) (url_path req)) (rt_allow_rules route)
      else True)"

section \<open>The handlers\<close>

definition json_error :: "int \<Rightarrow> string \<Rightarrow> proxy_reply" where
  "json_error status e =
     NewResponse ''application/json'' status (''{'' @ [DQUOTE] @ ''error'' @ [DQUOTE] @ '':'' @ [DQUOTE] @ e @ [DQUOTE] @ ''}'')"

definition strip_proxy_headers :: "http_request \<Rightarrow> http_request" where
  "strip_proxy_headers req =
     req\<lparr>rq_header := hdr_del ''Proxy-Connection'' (hdr_del ''Proxy-Authorization'' (rq_header req))\<rparr>"

definition inject_credentials ::
  "('e, 's) resolver \<Rightarrow> Proxy \<Rightarrow> InjectSpec \<Rightarrow> http_request \<Rightarrow> 's \<Rightarrow> http_request \<times> proxy_reply option \<times> 's" where
  "inject_credentials resolve p spec req st =
     (if is_header spec \<noteq> [] \<and> is_value spec \<noteq> [] then
        (case resolveHeaderValue resolve (is_value spec) (px_creds p) (px_cred_opts p) st of
           (Inl e, st') \<Rightarrow> (req, Some (json_error 502 ''credential_resolution_failed''), st')
         | (Inr v, st') \<Rightarrow> (req\<lparr>rq_header := hdr_set (is_header spec) v (rq_header req)\<rparr>, None, st'))
      else (req, None, st))"

text \<open>Everything after authentication.\<close>

definition route_request ::
  "('e, 's) resolver \<Rightarrow> Proxy \<Rightarrow> HTTPProxyConfig \<Rightarrow> http_request \<Rightarrow> 's \<Rightarrow> http_request \<times> proxy_reply option \<times> 's" where
  "route_request resolve p cfg req st =
     (case canonicalRequestHost (Some req) of
        Inl e \<Rightarrow> (req, Some (json_error 400 ''invalid_target_host''), st)
      | Inr canonicalHost \<Rightarrow>
          if hostHeaderMismatched (Some req) canonicalHost then (req, Some (json_error 400 ''host_mismatch''), st)
          else if validateRequestSecurity req \<noteq> None then (req, Some (json_error 400 ''invalid_request''), st)
          else case findMatchingRoute cfg canonicalHost of
            None \<Rightarrow> (req, None, st)
          | Some route \<Rightarrow>
              if \<not> isRequestAllowed route req then (req, Some (json_error 403 ''request denied by policy''), st)
              else inject_credentials resolve p (rt_inject route) req st)"

definition handleRequest ::
  "('e, 's) resolver \<Rightarrow> Proxy \<Rightarrow> http_request \<Rightarrow> ProxyCtx option \<Rightarrow> 's \<Rightarrow> http_request \<times> proxy_reply option \<times> 's" where
  "handleRequest resolve p req ctx st =
     (case getConfig p of
        None \<Rightarrow> (req, Some (json_error 503 ''proxy_disabled''), st)
      | Some cfg \<Rightarrow>
          if \<not> hp_enabled cfg then (req, Some (json_error 503 ''proxy_disabled''), st)
          else if \<not> isAuthenticatedProxyRequest p (Some req) ctx then (req, Some proxyAuthRequiredResponse, st)
          else route_request resolve p cfg (strip_proxy_headers req) st)"

text \<open>\<open>handleResponse\<close>; the configuration is never nil in a proxy made by \<open>New\<close>.\<close>

definition handleResponse :: "Proxy \<Rightarrow> http_response option \<Rightarrow> http_response option" where
  "handleResponse p resp =
     (case resp of None \<Rightarrow> None
      | Some r \<Rightarrow>
          let strip = (case getConfig p of None \<Rightarrow> [] | Some cfg \<Rightarrow> hp_strip_response_headers cfg)
          in Some (r\<lparr>rs_header := fold hdr_del strip (rs_header r)\<rparr>))"

section \<open>Set-up\<close>

definition Enabled :: "Proxy \<Rightarrow> bool" where
  "Enabled p = (case getConfig p of None \<Rightarrow> False | Some cfg \<Rightarrow> hp_enabled cfg)"

definition ListenAddr :: "Proxy \<Rightarrow> string" where
  "ListenAddr p =
     (case getConfig p of None \<Rightarrow> DefaultListenAddr
      | Some cfg \<Rightarrow> if hp_listen cfg = [] then DefaultListenAddr else hp_listen cfg)"

definition SetupFromConfig :: "path_env \<Rightarrow> Config \<Rightarrow> Proxy option" where
  "SetupFromConfig e cfg =
     (case GetHTTPProxyConfig cfg of
        None \<Rightarrow> None
      | Some httpCfg \<Rightarrow>
          if \<not> hp_enabled httpCfg then None
          else Some (New e httpCfg (c_credentials cfg)
                       [proxy_WithPassBinary (GetPassBinary e cfg), proxy_WithOPBinary (GetOPBinary cfg),
                        proxy_WithBWBinary (GetBWBinary cfg), proxy_WithVaultBinary (GetVaultBinary cfg)]))"

definition StartFromConfig ::
  "path_env \<Rightarrow> ca_sys \<Rightarrow> (string \<Rightarrow> bool) \<Rightarrow> Config \<Rightarrow> store \<Rightarrow> (start_error + Proxy option) \<times> store" where
  "StartFromConfig e s listen cfg fs =
     (case SetupFromConfig e cfg of
        None \<Rightarrow> (Inr None, fs)
      | Some proxy \<Rightarrow>
          (case Start s listen (ListenAddr proxy) proxy fs of
             (Some err, p, fs') \<Rightarrow> (Inl err, fs')
           | (None, p, fs') \<Rightarrow> (Inr (Some p), fs')))"

text \<open>\<open>credentials.Resolve\<close> as a resolver: the n-th resolution meets the n-th clock reading and fetch.\<close>

definition credentials_resolver ::
  "sys \<Rightarrow> github_sys \<Rightarrow> (nat \<Rightarrow> resolve_env) \<Rightarrow> (resolve_error, nat \<times> cred_state) resolver" where
  "credentials_resolver s g env i opts st =
     (let (r, st') = Resolve s g (env (fst st)) i opts (snd st) in (r, (Suc (fst st), st')))"

end
