(* ===== verification/Key_Files.thy ===== *)
theory Key_Files
  imports Auth Host_Names System
begin

text \<open>
  The files that hold the daemon's own secrets: the signing secret of \<open>internal/auth/auth.go\<close>, which the
  wrapper reads, and the proxy token of \<open>internal/daemon/daemon.go\<close>. Both are written to a temporary
  file that is renamed into place. The file system is a map from paths to nodes; the outcome of each
  system call is a field of \<open>key_env\<close>.
\<close>

section \<open>Files\<close>

datatype fs_node =
    Fs_File bytes int int \<comment> \<open>content, permission bits, owner\<close>
  | Fs_Link string
  | Fs_Other \<comment> \<open>a directory, a device\<close>

type_synonym fs = "string \<rightharpoonup> fs_node"

record key_env =
  ke_uid :: int
  ke_mkdir :: bool
  ke_temp :: "string option" \<comment> \<open>the name \<open>os.CreateTemp\<close> returns\<close>
  ke_chmod :: bool
  ke_write :: "nat option" \<comment> \<open>\<open>Some n\<close>: fails after n bytes\<close>
  ke_sync :: bool
  ke_close :: bool
  ke_rename :: bool
  ke_remove :: bool

datatype key_error =
    Key_Mkdir | Key_Symlink | Key_Temp | Key_Chmod | Key_Write | Key_Sync | Key_Close | Key_Rename
  | Key_Not_Found | Key_Open | Key_Handle | Key_Stat | Key_Not_Regular | Key_Mode int | Key_Owner int | Key_Read
  | Key_Decode | Key_Empty | Key_Size nat | Key_Random

definition is_link :: "fs \<Rightarrow> string \<Rightarrow> bool" where
  "is_link fs path = (case fs path of Some (Fs_Link _) \<Rightarrow> True | _ \<Rightarrow> False)"

text \<open>The deferred \<open>os.Remove\<close> of the temporary file.\<close>

definition drop_temp :: "key_env \<Rightarrow> string \<Rightarrow> fs \<Rightarrow> fs" where
  "drop_temp e tmp fs = (if ke_remove e then fs(tmp := None) else fs)"

definition rename_ok :: "key_env \<Rightarrow> string \<Rightarrow> fs \<Rightarrow> bool" where
  "rename_ok e path fs \<longleftrightarrow> ke_rename e \<and> fs path \<noteq> Some Fs_Other"

text \<open>The temporary file is made with mode 0600, its mode is set, the text written, and it is renamed.\<close>

definition replace_file :: "key_env \<Rightarrow> bool \<Rightarrow> string \<Rightarrow> bytes \<Rightarrow> int \<Rightarrow> fs \<Rightarrow> key_error option \<times> fs" where
  "replace_file e sync path text mode fs =
     (if \<not> ke_mkdir e then (Some Key_Mkdir, fs)
      else if is_link fs path then (Some Key_Symlink, fs)
      else case ke_temp e of
        None \<Rightarrow> (Some Key_Temp, fs)
      | Some tmp \<Rightarrow>
          if \<not> ke_chmod e then (Some Key_Chmod, drop_temp e tmp (fs(tmp \<mapsto> Fs_File [] 384 (ke_uid e))))
          else case ke_write e of
            Some n \<Rightarrow> (Some Key_Write, drop_temp e tmp (fs(tmp \<mapsto> Fs_File (take n text) mode (ke_uid e))))
          | None \<Rightarrow>
              let fs1 = fs(tmp \<mapsto> Fs_File text mode (ke_uid e))
              in if sync \<and> \<not> ke_sync e then (Some Key_Sync, drop_temp e tmp fs1)
                 else if \<not> ke_close e then (Some Key_Close, drop_temp e tmp fs1)
                 else if \<not> rename_ok e path fs1 then (Some Key_Rename, drop_temp e tmp fs1)
                 else (None, fs1(tmp := None, path \<mapsto> Fs_File text mode (ke_uid e))))"

section \<open>The signing secret\<close>

text \<open>\<open>rand.Read\<close>: the bytes it fills the buffer with, or a failure.\<close>

definition GenerateSecret :: "(nat \<Rightarrow> bytes option) \<Rightarrow> bytes option" where
  "GenerateSecret rand = rand SecretSize"

definition GenerateNonce :: "(nat \<Rightarrow> bytes option) \<Rightarrow> string option" where
  "GenerateNonce rand = map_option (b64_encode StdEncoding) (rand NonceSize)"

definition WriteSecretWithMode :: "key_env \<Rightarrow> string \<Rightarrow> bytes \<Rightarrow> int \<Rightarrow> fs \<Rightarrow> key_error option \<times> fs" where
  "WriteSecretWithMode e path secret mode fs =
     replace_file e False path (b64_encode StdEncoding secret @ [LF]) mode fs"

definition WriteSecret :: "key_env \<Rightarrow> string \<Rightarrow> bytes \<Rightarrow> fs \<Rightarrow> key_error option \<times> fs" where
  "WriteSecret e path secret fs = WriteSecretWithMode e path secret 384 fs"

text \<open>
  \<open>LoadSecret\<close> looks at the path twice: \<open>fs0\<close> is the file system at the test for a link, the second
  argument what \<open>os.ReadFile\<close> returns afterwards.
\<close>

definition LoadSecret :: "fs \<Rightarrow> (string \<Rightarrow> open_error + bytes) \<Rightarrow> string \<Rightarrow> key_error + bytes" where
  "LoadSecret fs0 read_file path =
     (if is_link fs0 path then Inl Key_Symlink
      else case read_file path of
        Inl x \<Rightarrow> if x = ENOENT then Inl Key_Not_Found else Inl Key_Read
      | Inr data \<Rightarrow>
          (case b64_decode StdEncoding (trim_space data) of None \<Rightarrow> Inl Key_Decode | Some secret \<Rightarrow> Inr secret))"

text \<open>\<open>os.ReadFile\<close> on a path that is not a link.\<close>

definition read_node :: "fs \<Rightarrow> string \<Rightarrow> open_error + bytes" where
  "read_node fs path =
     (case fs path of None \<Rightarrow> Inl ENOENT | Some (Fs_File d m u) \<Rightarrow> Inr d | Some _ \<Rightarrow> Inl (Errno 21))"

section \<open>The proxy token\<close>

definition proxyAuthTokenBytes :: nat where "proxyAuthTokenBytes = 32"

definition generateProxyAuthToken :: "(nat \<Rightarrow> bytes option) \<Rightarrow> string option" where
  "generateProxyAuthToken rand = map_option (b64_encode RawURLEncoding) (rand proxyAuthTokenBytes)"

definition validateProxyAuthToken :: "string \<Rightarrow> key_error option" where
  "validateProxyAuthToken token =
     (if token = [] then Some Key_Empty
      else case b64_decode RawURLEncoding token of
        None \<Rightarrow> Some Key_Decode
      | Some decoded \<Rightarrow> if length decoded \<noteq> proxyAuthTokenBytes then Some (Key_Size (length decoded)) else None)"

text \<open>\<open>os.Geteuid\<close> and whether \<open>Stat\<close> and \<open>ReadAll\<close> on the opened file succeed come with the environment.\<close>

record token_env =
  te_euid :: int
  te_open :: bool
  te_handle :: bool
  te_stat :: bool
  te_read :: bool

definition loadProxyAuthToken :: "token_env \<Rightarrow> string \<Rightarrow> fs \<Rightarrow> key_error + string" where
  "loadProxyAuthToken e path fs =
     (case fs path of
        None \<Rightarrow> Inl Key_Not_Found
      | Some (Fs_Link _) \<Rightarrow> Inl Key_Symlink
      | Some node \<Rightarrow>
          if \<not> te_open e then Inl Key_Open
          else if \<not> te_handle e then Inl Key_Handle
          else if \<not> te_stat e then Inl Key_Stat
          else (case node of
              Fs_File d mode uid \<Rightarrow>
                if mode \<noteq> 384 then Inl (Key_Mode mode)
                else if uid \<noteq> te_euid e then Inl (Key_Owner uid)
                else if \<not> te_read e then Inl Key_Read
                else let token = trim_space d
                     in (case validateProxyAuthToken token of Some x \<Rightarrow> Inl x | None \<Rightarrow> Inr token)
            | _ \<Rightarrow> Inl Key_Not_Regular))"

definition writeProxyAuthToken :: "key_env \<Rightarrow> string \<Rightarrow> string \<Rightarrow> fs \<Rightarrow> key_error option \<times> fs" where
  "writeProxyAuthToken e path token fs =
     (case validateProxyAuthToken token of
        Some x \<Rightarrow> (Some x, fs)
      | None \<Rightarrow> replace_file e True path (token @ [LF]) 384 fs)"


section \<open>Base64 texts\<close>

lemma b64_val_printable: "b64_val e c = Some n \<Longrightarrow> printable c"
  by (auto simp: b64_val_def printable_def is_upper_def is_lower_def is_digit_def char_code_def Let_def split: if_splits)

lemma b64_char_printable [simp]: "n < 64 \<Longrightarrow> printable (b64_char e n)"
  by (rule b64_val_printable) (rule b64_val_char)

lemma b64_printable: "c \<in> set (b64_encode e s) \<Longrightarrow> printable c"
proof (induction e s rule: b64_encode.induct)
  case (2 e a)
  then show ?case by (auto simp: printable_def [of "CHR ''=''"] char_code_def [of "CHR ''=''"] split: if_splits)
next
  case (3 e a b)
  then show ?case by (auto simp: printable_def [of "CHR ''=''"] char_code_def [of "CHR ''=''"] split: if_splits)
qed auto

lemma b64_encode_not_Nil: "s \<noteq> [] \<Longrightarrow> b64_encode e s \<noteq> []"
  by (induction e s rule: b64_encode.induct) simp_all

text \<open>A line that begins and ends with a printable character loses its end only.\<close>

lemma trim_space_newline:
  assumes "s \<noteq> []" and "printable (hd s)" and "printable (last s)"
  shows "trim_space (s @ [LF]) = s"
proof -
  have h: "\<forall>r \<in> set space_runes. r \<noteq> [] \<and> \<not> printable (hd r)"
    "\<forall>r \<in> set (map rev space_runes). r \<noteq> [] \<and> \<not> printable (hd r)"
    by (simp_all add: space_runes_def printable_def char_code_def)
  have left: "trim_left_runes space_runes (s @ [LF]) = s @ [LF]"
    using assms(1,2) by (intro trim_left_printable [OF _ h(1)]) simp
  have right: "trim_left_runes (map rev space_runes) (rev s) = rev s"
    using assms(1,3) by (intro trim_left_printable [OF _ h(2)]) (simp add: hd_rev)
  have l: "lead_len (map rev space_runes) (LF # rev s) = 1" by (simp add: space_runes_def)
  have "trim_left_runes (map rev space_runes) (LF # rev s) = trim_left_runes (map rev space_runes) (rev s)"
    by (subst trim_left_runes.simps) (simp add: l)
  then show ?thesis using left right by (simp add: trim_space_def)
qed

lemma trim_space_line: "list_all printable s \<Longrightarrow> trim_space (s @ [LF]) = s"
proof (cases "s = []")
  case True
  have "trim_space [LF] = []" by code_simp
  with True show ?thesis by simp
next
  case False
  assume "list_all printable s"
  with False have "printable (hd s)" "printable (last s)" by (simp_all add: list_all_iff)
  with False show ?thesis by (rule trim_space_newline)
qed

lemma b64_line: "trim_space (b64_encode e s @ [LF]) = b64_encode e s"
  by (rule trim_space_line) (auto simp: list_all_iff dest: b64_printable)

section \<open>Properties\<close>

text \<open>A write that fails leaves what was at the path, and one that succeeds replaces it as a whole.\<close>

lemma replace_file_atomic:
  assumes "replace_file e sync path text mode fs = (r, fs')" and "ke_temp e \<noteq> Some path"
  shows "(if r = None then fs' path = Some (Fs_File text mode (ke_uid e)) \<and> \<not> is_link fs path else fs' path = fs path) \<and>
     (\<forall>q. q \<noteq> path \<longrightarrow> Some q \<noteq> ke_temp e \<longrightarrow> fs' q = fs q)"
  using assms by (auto simp: replace_file_def drop_temp_def Let_def split: if_splits option.splits)

text \<open>The secret the daemon writes is the secret the wrapper loads, with the requested permissions; a
  write that fails at any step leaves the wrapper with what it would have loaded before.\<close>

lemma secret_file_roundtrip:
  assumes "WriteSecretWithMode e path secret mode fs = (r, fs')" and "ke_temp e \<noteq> Some path"
  shows "LoadSecret fs' (read_node fs') path = (if r = None then Inr secret else LoadSecret fs (read_node fs) path) \<and>
     (r = None \<longrightarrow> (\<exists>text. fs' path = Some (Fs_File text mode (ke_uid e))))"
proof -
  note a = replace_file_atomic [OF assms(1) [unfolded WriteSecretWithMode_def] assms(2)]
  show ?thesis
  proof (cases r)
    case None
    with a show ?thesis by (auto simp: LoadSecret_def is_link_def read_node_def b64_line b64_decode_encode)
  next
    case (Some x)
    with a show ?thesis by (simp add: LoadSecret_def is_link_def read_node_def)
  qed
qed

definition sample_key_env :: key_env where
  "sample_key_env = \<lparr>ke_uid = 0, ke_mkdir = True, ke_temp = Some ''/run/.t1'', ke_chmod = True, ke_write = None, ke_sync = True,
     ke_close = True, ke_rename = True, ke_remove = True\<rparr>"

lemma secret_file_roundtrip_witness:
  "\<exists>fs'. WriteSecretWithMode sample_key_env ''/run/auth'' ''key'' 416 Map.empty = (None, fs') \<and>
     LoadSecret fs' (read_node fs') ''/run/auth'' = Inr ''key''"
proof -
  obtain fs' where w: "WriteSecretWithMode sample_key_env ''/run/auth'' ''key'' 416 Map.empty = (None, fs')"
    by (simp add: WriteSecretWithMode_def replace_file_def sample_key_env_def is_link_def rename_ok_def Let_def)
  have "ke_temp sample_key_env \<noteq> Some ''/run/auth''" by (simp add: sample_key_env_def)
  from secret_file_roundtrip [OF w this] w show ?thesis by auto
qed

text \<open>A generated token is valid, and the one written is the one loaded.\<close>

lemma generated_token_valid:
  assumes "generateProxyAuthToken rand = Some t" and "\<forall>n b. rand n = Some b \<longrightarrow> length b = n"
  shows "validateProxyAuthToken t = None \<and> list_all printable t"
proof -
  from assms obtain b where b: "rand proxyAuthTokenBytes = Some b" "t = b64_encode RawURLEncoding b" "length b = proxyAuthTokenBytes"
    by (auto simp: generateProxyAuthToken_def)
  then have "b \<noteq> []" by (auto simp: proxyAuthTokenBytes_def)
  with b b64_encode_not_Nil [of b RawURLEncoding] show ?thesis
    by (auto simp: validateProxyAuthToken_def b64_decode_encode list_all_iff dest: b64_printable)
qed

lemma token_file_roundtrip:
  assumes "writeProxyAuthToken ke path t fs = (None, fs')" and "ke_temp ke \<noteq> Some path" and "list_all printable t"
    and "te_euid te = ke_uid ke" "te_open te" "te_handle te" "te_stat te" "te_read te"
  shows "loadProxyAuthToken te path fs' = Inr t"
proof -
  from assms(1) have v: "validateProxyAuthToken t = None" and w: "replace_file ke True path (t @ [LF]) 384 fs = (None, fs')"
    by (auto simp: writeProxyAuthToken_def split: option.splits)
  from replace_file_atomic [OF w assms(2)] v assms(4-) trim_space_line [OF assms(3)] show ?thesis
    by (auto simp: loadProxyAuthToken_def Let_def)
qed

lemma loaded_token_valid: "loadProxyAuthToken te path fs = Inr t \<Longrightarrow> validateProxyAuthToken t = None"
  by (auto simp: loadProxyAuthToken_def Let_def split: option.splits fs_node.splits if_splits)

end
