(* ===== verification/Proxy_Laws.thy ===== *)
theory Proxy_Laws
  imports Http_Proxy Key_Files
begin

text \<open>
  What the forward proxy guarantees, stated over the text of the configuration: which host a route
  covers, which method and path a rule describes, and that a request leaves the proxy only as the
  first covering route permits it, with the credential of that route and without the proxy's own token.
\<close>

section \<open>What the configuration says\<close>

definition host_covers :: "string \<Rightarrow> string \<Rightarrow> bool" where
  "host_covers pattern host \<longleftrightarrow>
     (let p = trim_suffix (to_lower (trim_space pattern)) ''.''
      in if has_prefix p ''*.''
         then \<exists>label. host = label @ CHR ''.'' # drop 2 p \<and> label \<noteq> [] \<and> CHR ''.'' \<notin> set label
         else host = p)"

definition rule_covers :: "string \<Rightarrow> string \<Rightarrow> string \<Rightarrow> bool" where
  "rule_covers pattern meth path \<longleftrightarrow>
     (let t = trim_space pattern;
          (m, g) = (case cut_char CHR '' '' t of None \<Rightarrow> (''*'', t) | Some (a, b) \<Rightarrow> (to_upper a, b))
      in (m = ''*'' \<or> m = meth) \<and> glob g path)"

definition policy_permits :: "ProxyRoute \<Rightarrow> string \<Rightarrow> string \<Rightarrow> bool" where
  "policy_permits route meth path \<longleftrightarrow>
     (\<forall>d \<in> set (rt_deny route). \<not> rule_covers d meth path) \<and>
     (rt_allow route = [] \<or> (\<exists>a \<in> set (rt_allow route). rule_covers a meth path))"

text \<open>A route as the configuration file gives it: nothing compiled yet.\<close>

definition fresh_route :: "ProxyRoute \<Rightarrow> bool" where
  "fresh_route r \<longleftrightarrow> rt_host_regex r = None \<and> rt_allow_rules r = [] \<and> rt_deny_rules r = []"

section \<open>Compiled routes mean their text\<close>

lemma rule_compiled:
  assumes "compilePathRule pattern = Inr rule"
  shows "matchPathRule rule meth path \<longleftrightarrow> rule_covers pattern meth path"
proof -
  have "rule_method rule = (case cut_char CHR '' '' (trim_space pattern) of None \<Rightarrow> ''*'' | Some (a, b) \<Rightarrow> to_upper a)"
    using assms by (auto simp: compilePathRule_def Let_def split: if_splits option.splits prod.splits)
  with path_rule_matches [OF assms refl, of path] show ?thesis
    by (auto simp: matchPathRule_def rule_covers_def Let_def split: option.splits)
qed

lemma map_left_Inr: "map_left f x = Inr y \<longleftrightarrow> x = Inr y"
  by (cases x) (simp_all add: map_left_def)

lemma rules_compiled:
  assumes "map_error (\<lambda>(j, p). map_left (e j) (compilePathRule p)) (enumerate 0 pats) = Inr rules"
  shows "list_all2 (\<lambda>p r. compilePathRule p = Inr r) pats rules"
proof -
  have "list_all2 (\<lambda>x y. (case x of (j, p) \<Rightarrow> map_left (e j) (compilePathRule p)) = Inr y) (enumerate 0 pats) rules"
    by (rule map_error_Inr [OF assms])
  then show ?thesis
    by (auto simp: list_all2_conv_all_nth nth_enumerate_eq map_left_Inr)
qed

lemma rules_ex:
  assumes "list_all2 (\<lambda>p r. compilePathRule p = Inr r) pats rules"
  shows "list_ex (\<lambda>r. matchPathRule r meth path) rules \<longleftrightarrow> (\<exists>p \<in> set pats. rule_covers p meth path)"
  using assms by (induction rule: list_all2_induct) (simp_all add: rule_compiled)

lemma route_compiled:
  assumes "route_validate names (i, r) = Inr r'" and "fresh_route r"
  shows "rt_inject r' = rt_inject r \<and> is_header (rt_inject r) \<noteq> [] \<and> is_value (rt_inject r) \<noteq> [] \<and>
         (matchHostWithRoute r' host \<longleftrightarrow> host_covers (rt_host r) host) \<and>
         (isRequestAllowed r' req \<longleftrightarrow> policy_permits r (rq_method req) (url_path req))"
proof -
  from assms(1) obtain re allow deny where
    re: "compileHostPattern (rt_host r) = Inr re" and
    al: "map_error (\<lambda>(j, p). map_left (RouteAllow i j) (compilePathRule p)) (enumerate 0 (rt_allow r)) = Inr allow" and
    dn: "map_error (\<lambda>(j, p). map_left (RouteDeny i j) (compilePathRule p)) (enumerate 0 (rt_deny r)) = Inr deny" and
    r': "r' = r\<lparr>rt_host_regex := Some re, rt_allow_rules := rt_allow_rules r @ allow, rt_deny_rules := rt_deny_rules r @ deny\<rparr>" and
    ne: "is_header (rt_inject r) \<noteq> []" "is_value (rt_inject r) \<noteq> []"
    by (simp add: route_validate_def split: if_splits sum.splits option.splits)
  have f: "rt_allow_rules r' = allow" "rt_deny_rules r' = deny" "rt_host_regex r' = Some re" "rt_inject r' = rt_inject r"
    using assms(2) r' by (simp_all add: fresh_route_def)
  have al2: "list_all2 (\<lambda>p r. compilePathRule p = Inr r) (rt_allow r) allow" by (rule rules_compiled [OF al])
  have host: "matchHostWithRoute r' host \<longleftrightarrow> host_covers (rt_host r) host"
    using host_pattern_matches [OF re refl, of host] f by (simp add: matchHostWithRoute_def host_covers_def Let_def)
  have "allow = [] \<longleftrightarrow> rt_allow r = []" using list_all2_lengthD [OF al2] by auto
  then have "isRequestAllowed r' req \<longleftrightarrow> policy_permits r (rq_method req) (url_path req)"
    using rules_ex [OF al2, of "rq_method req" "url_path req"] rules_ex [OF rules_compiled [OF dn], of "rq_method req" "url_path req"]
    by (auto simp: isRequestAllowed_def policy_permits_def f)
  then show ?thesis using host f(4) ne by blast
qed

lemma find_related:
  assumes "list_all2 R xs ys" and "\<And>x y. R x y \<Longrightarrow> P x \<longleftrightarrow> Q y"
  shows "rel_option R (find P xs) (find Q ys)"
  using assms(1) by (induction rule: list_all2_induct) (simp_all add: assms(2))

definition route_of :: "string list \<Rightarrow> ProxyRoute \<Rightarrow> ProxyRoute \<Rightarrow> bool" where
  "route_of names r r' \<longleftrightarrow> fresh_route r \<and> (\<exists>i. route_validate names (i, r) = Inr r')"

lemma routes_compiled:
  assumes "validateHTTPProxy names cfg = Inr cfg'" and "\<forall>r \<in> set (hp_routes cfg). fresh_route r"
  shows "list_all2 (route_of names) (hp_routes cfg) (hp_routes cfg')"
proof -
  let ?rs = "hp_routes cfg"
  from assms(1) have "map_error (route_validate names) (enumerate 0 ?rs) = Inr (hp_routes cfg')"
    by (auto simp: validateHTTPProxy_def Let_def split: if_splits option.splits sum.splits)
  then have "list_all2 (\<lambda>x y. route_validate names x = Inr y) (enumerate 0 ?rs) (hp_routes cfg')" by (rule map_error_Inr)
  then have "list_all2 (\<lambda>r r'. r \<in> set ?rs \<and> (\<exists>i. route_validate names (i, r) = Inr r')) (map snd (enumerate 0 ?rs)) (hp_routes cfg')"
    by (auto simp: list_all2_map1 list_all2_conv_all_nth nth_enumerate_eq)
  then show ?thesis using assms(2) by (auto simp: route_of_def elim!: list_all2_mono)
qed

lemma first_route:
  assumes "validateHTTPProxy names cfg = Inr cfg'" and "\<forall>r \<in> set (hp_routes cfg). fresh_route r"
  shows "rel_option (route_of names) (find (\<lambda>r. host_covers (rt_host r) host) (hp_routes cfg)) (findMatchingRoute cfg' host)"
  unfolding findMatchingRoute_def
  by (rule find_related [OF routes_compiled [OF assms]]) (auto simp: route_of_def route_compiled)

section \<open>The target host\<close>


lemma strip_fields [simp]:
  "rq_url (strip_proxy_headers req) = rq_url req" "rq_host (strip_proxy_headers req) = rq_host req"
  "rq_method (strip_proxy_headers req) = rq_method req" "url_path (strip_proxy_headers req) = url_path req"
  by (simp_all add: strip_proxy_headers_def url_path_def)

lemma dns_not_blank:
  assumes "dns_name h" and "port_suffix p"
  shows "trim_space (h @ p) = h @ p" "h @ p \<noteq> []"
  using trim_space_printable [OF authority_printable [OF assms]] assms by (auto simp: dns_name_def)

lemma canonical_host_dns:
  assumes "rq_url req = Some u" "ur_host u = h @ port" "dns_name h" "port_suffix port" "canonicalRequestHost (Some req) = Inr host"
  shows "host = trim_suffix (to_lower h) ''.''"
  using assms(1,2,5) dns_not_blank [OF assms(3,4)] normalizeHost_dns [OF assms(3,4)]
  by (simp add: canonicalRequestHost_def Let_def split: if_splits)

lemma forwarded_cases:
  assumes "handleRequest resolve p req ctx st = (req', None, st')"
  shows "\<exists>cfg host. px_cfg p = Some cfg \<and> hp_enabled cfg \<and> isAuthenticatedProxyRequest p (Some req) ctx \<and>
     canonicalRequestHost (Some (strip_proxy_headers req)) = Inr host \<and>
     \<not> hostHeaderMismatched (Some (strip_proxy_headers req)) host \<and>
     validateRequestSecurity (strip_proxy_headers req) = None \<and>
     (case findMatchingRoute cfg host of
        None \<Rightarrow> req' = strip_proxy_headers req \<and> st' = st
      | Some route \<Rightarrow> isRequestAllowed route (strip_proxy_headers req) \<and>
          inject_credentials resolve p (rt_inject route) (strip_proxy_headers req) st = (req', None, st'))"
  using assms by (auto simp: handleRequest_def getConfig_def route_request_def split: option.splits if_splits sum.splits)

lemma injected:
  assumes "inject_credentials resolve p spec req st = (req', None, st')" "is_header spec \<noteq> []" "is_value spec \<noteq> []"
  shows "\<exists>v. resolveHeaderValue resolve (is_value spec) (px_creds p) (px_cred_opts p) st = (Inr v, st') \<and>
     req' = req\<lparr>rq_header := hdr_set (is_header spec) v (rq_header req)\<rparr>"
  using assms by (auto simp: inject_credentials_def split: sum.splits prod.splits)

section \<open>Properties\<close>

text \<open>A header value with a line break followed by a blank, which an older parser reads as a continuation.\<close>

definition folded :: "string \<Rightarrow> bool" where
  "folded v \<longleftrightarrow> (\<exists>i. Suc i < length v \<and> (v ! i = CR \<or> v ! i = LF) \<and> (v ! Suc i = CHR '' '' \<or> v ! Suc i = TAB))"

lemma folded_Cons:
  "folded (a # b # r) \<longleftrightarrow> (a = CR \<or> a = LF) \<and> (b = CHR '' '' \<or> b = TAB) \<or> folded (b # r)" (is "?L \<longleftrightarrow> ?R")
proof
  assume ?L
  then obtain i where i: "Suc i < length (a # b # r)" "(a # b # r) ! i = CR \<or> (a # b # r) ! i = LF"
    "(a # b # r) ! Suc i = CHR '' '' \<or> (a # b # r) ! Suc i = TAB" unfolding folded_def by blast
  show ?R
  proof (cases i)
    case (Suc k)
    with i show ?thesis unfolding folded_def by auto
  qed (use i in auto)
next
  assume ?R
  then show ?L
  proof
    assume "(a = CR \<or> a = LF) \<and> (b = CHR '' '' \<or> b = TAB)"
    then show ?L unfolding folded_def by (intro exI [of _ 0]) simp
  next
    assume "folded (b # r)"
    then obtain i where "Suc i < length (b # r)" "(b # r) ! i = CR \<or> (b # r) ! i = LF"
      "(b # r) ! Suc i = CHR '' '' \<or> (b # r) ! Suc i = TAB" unfolding folded_def by blast
    then show ?L unfolding folded_def by (intro exI [of _ "Suc i"]) simp
  qed
qed

lemma hasObsoleteLineFolding_iff: "hasObsoleteLineFolding v \<longleftrightarrow> folded v"
proof (induction v rule: hasObsoleteLineFolding.induct)
  case (1 a b r)
  have "folded (a # b # r) \<longleftrightarrow> (a = CR \<or> a = LF) \<and> (b = CHR '' '' \<or> b = TAB) \<or> folded (b # r)"
    by (rule folded_Cons)
  with 1 show ?case by simp
qed (auto simp: folded_def)

text \<open>The request is meant for one host, and its length is given in one way.\<close>

definition one_host :: "string \<Rightarrow> http_request \<Rightarrow> bool" where
  "one_host host req \<longleftrightarrow>
     (if trim_space (rq_host req) = [] then \<forall>u. rq_url req = Some u \<longrightarrow> ur_scheme u = ''http'' \<longrightarrow> ur_host u = []
      else normalizeHost (rq_host req) = host)"

definition one_length :: "http_request \<Rightarrow> bool" where
  "one_length req \<longleftrightarrow>
     (hdr_get (rq_header req) ''Transfer-Encoding'' = [] \<or>
      hdr_get (rq_header req) ''Content-Length'' = [] \<and> rq_content_length req \<le> 0) \<and>
     (\<forall>(name, values) \<in> set (rq_header req). \<forall>v \<in> set values. \<not> folded v)"

lemma host_matches: "\<not> hostHeaderMismatched (Some req) host \<Longrightarrow> one_host host req"
  by (auto simp: hostHeaderMismatched_def one_host_def split: if_splits)

lemma no_smuggling: "validateRequestSecurity req = None \<Longrightarrow> one_length req"
  by (auto simp: validateRequestSecurity_def checkRequestSmuggling_def one_length_def Let_def find_None_iff
      list_ex_iff hasObsoleteLineFolding_iff split: if_splits)

lemma shows_token:
  "isAuthenticatedProxyRequest p (Some req) ctx \<Longrightarrow> px_require_auth p \<Longrightarrow> isConnectAuthenticated ctx \<or>
     parseProxyAuthorization (hdr_get (rq_header req) ''Proxy-Authorization'') = Some (''claw'', px_auth_token p)"
  by (auto simp: isAuthenticatedProxyRequest_def secureEqual_def proxyAuthUser_def split: if_splits option.splits)


definition sample_route :: ProxyRoute where
  "sample_route =
     \<lparr>rt_host = ''api.example.com'', rt_inject = \<lparr>is_header = ''authorization'', is_value = ''Bearer {{ gh }}''\<rparr>,
      rt_allow = [''GET /repos/*''], rt_deny = [''DELETE /x''], rt_host_regex = None, rt_allow_rules = [], rt_deny_rules = []\<rparr>"

definition sample_http :: HTTPProxyConfig where
  "sample_http =
     \<lparr>hp_enabled = True, hp_listen = [], hp_require_auth = None, hp_log_level = ''errors'', hp_ca = sample_ca_config,
      hp_strip_response_headers = [], hp_routes = [sample_route]\<rparr>"

definition sample_request :: http_request where
  "sample_request =
     \<lparr>rq_method = ''GET'', rq_url = Some \<lparr>ur_scheme = ''https'', ur_host = ''API.example.com:443'', ur_path = ''/repos/a''\<rparr>,
      rq_host = ''api.example.com'', rq_header = [(''Accept'', [''x'']), (''Proxy-Authorization'', [''Basic Y2xhdzp0b2s=''])],
      rq_content_length = 0\<rparr>"

definition sample_http_proxy :: "HTTPProxyConfig \<Rightarrow> Proxy" where
  "sample_http_proxy cfg =
     (New sample_path_env cfg [(''gh'', zero_cred)] [WithAuthToken ''tok''])"

definition label_resolver :: "(unit, nat) resolver" where
  "label_resolver i opts n = (Inr (''secret-'' @ ri_label i), Suc n)"

definition sample_compiled :: HTTPProxyConfig where
  "sample_compiled = projr (validateHTTPProxy [''gh''] sample_http)"

lemma sample_compiled: "validateHTTPProxy [''gh''] sample_http = Inr sample_compiled"
proof -
  have "\<not> isl (validateHTTPProxy [''gh''] sample_http)" by code_simp
  then show ?thesis by (simp add: sample_compiled_def)
qed

lemma sample_forwarded: "fst (snd (handleRequest label_resolver (sample_http_proxy sample_compiled) sample_request None 0)) = None"
  by code_simp


text \<open>C24: where authentication is required, nothing is forwarded and no credential is looked up for a
  request outside an authenticated tunnel unless its \<open>Proxy-Authorization\<close> decodes to the fixed user
  and the token, and a tunnel is opened under the same condition only; anything else is answered.\<close>
theorem proxy_requires_token:
  assumes "px_require_auth p"
  shows "(handleRequest resolve p req ctx st = (req', answer, st') \<longrightarrow> answer = None \<or> st' \<noteq> st \<longrightarrow>
            isConnectAuthenticated ctx \<or>
            parseProxyAuthorization (hdr_get (rq_header req) ''Proxy-Authorization'') = Some (''claw'', px_auth_token p)) \<and>
         (handleConnect p host c = (MitmConnect, host', c') \<longrightarrow>
            isConnectAuthenticated (Some c) \<or>
            (\<exists>r. cx_req c = Some r \<and>
               parseProxyAuthorization (hdr_get (rq_header r) ''Proxy-Authorization'') = Some (''claw'', px_auth_token p)))"
proof (intro conjI impI)
  assume h: "handleRequest resolve p req ctx st = (req', answer, st')" and a: "answer = None \<or> st' \<noteq> st"
  then have "isAuthenticatedProxyRequest p (Some req) ctx"
    by (auto simp: handleRequest_def split: option.splits if_splits)
  then show "isConnectAuthenticated ctx \<or>
      parseProxyAuthorization (hdr_get (rq_header req) ''Proxy-Authorization'') = Some (''claw'', px_auth_token p)"
    using assms shows_token by blast
next
  assume "handleConnect p host c = (MitmConnect, host', c')"
  then have "isAuthenticatedProxyRequest p (cx_req c) (Some c)"
    by (auto simp: handleConnect_def proxyAuthRequiredConnectAction_def split: if_splits)
  then show "isConnectAuthenticated (Some c) \<or> (\<exists>r. cx_req c = Some r \<and>
      parseProxyAuthorization (hdr_get (rq_header r) ''Proxy-Authorization'') = Some (''claw'', px_auth_token p))"
    using assms by (auto simp: isAuthenticatedProxyRequest_def secureEqual_def proxyAuthUser_def split: if_splits option.splits)
qed

theorem proxy_requires_token_witness:
  "isConnectAuthenticated None \<or>
   parseProxyAuthorization (hdr_get (rq_header sample_request) ''Proxy-Authorization'') =
     Some (''claw'', px_auth_token (sample_http_proxy sample_compiled))"
proof -
  let ?p = "sample_http_proxy sample_compiled"
  obtain req' a st' where h: "handleRequest label_resolver ?p sample_request None 0 = (req', a, st')" by (metis surj_pair)
  note sample_forwarded
  moreover have "px_require_auth ?p" by (simp add: sample_http_proxy_def New_def Let_def WithAuthToken_def)
  ultimately show ?thesis using proxy_requires_token [of ?p label_resolver sample_request None 0 req' a st'] h by simp
qed

lemma basic_parses:
  assumes "CHR '':'' \<notin> set user"
  shows "parseProxyAuthorization (''Basic '' @ b64_encode StdEncoding (user @ CHR '':'' # pass)) = Some (user, pass)"
proof -
  let ?b = "b64_encode StdEncoding (user @ CHR '':'' # pass)"
  have ne: "?b \<noteq> []" by (rule b64_encode_not_Nil) simp
  then have "printable (last ?b)" by (intro b64_printable [of _ StdEncoding "user @ CHR '':'' # pass"]) simp
  then have "trim_space (''Basic '' @ ?b) = ''Basic '' @ ?b"
    using ne by (intro trim_space_ends) (simp add: printable_def char_code_def)
  moreover have "cut_char CHR '' '' (''Basic'' @ CHR '' '' # ?b) = Some (''Basic'', ?b)" by (rule cut_char_append) simp
  moreover have "equal_fold_s ''Basic'' ''Basic''" by code_simp
  ultimately show ?thesis using assms by (simp add: parseProxyAuthorization_def cut_char_append)
qed

text \<open>A client that sends the fixed user and some token in the Basic scheme, as the wrapped tools do
  with the proxy URL they are given, is accepted exactly when the token is the proxy's, and never when
  the header is missing.\<close>

lemma proxy_token_roundtrip:
  assumes "px_require_auth p" and "\<not> isConnectAuthenticated ctx"
  shows "(hdr_get (rq_header req) ''Proxy-Authorization'' = ''Basic '' @ b64_encode StdEncoding (''claw:'' @ token) \<longrightarrow>
            (isAuthenticatedProxyRequest p (Some req) ctx \<longleftrightarrow> token = px_auth_token p)) \<and>
         (hdr_get (rq_header req) ''Proxy-Authorization'' = [] \<longrightarrow> \<not> isAuthenticatedProxyRequest p (Some req) ctx)"
proof -
  have "CHR '':'' \<notin> set ''claw''" by simp
  note b = basic_parses [OF this, of token]
  have n: "parseProxyAuthorization [] = None" by code_simp
  show ?thesis using assms b n
    by (auto simp: isAuthenticatedProxyRequest_def secureEqual_def proxyAuthUser_def)
qed

lemma proxy_token_roundtrip_witness:
  "isAuthenticatedProxyRequest (sample_http_proxy sample_http) (Some sample_request) None"
proof -
  have "px_require_auth (sample_http_proxy sample_http)" "px_auth_token (sample_http_proxy sample_http) = ''tok''"
    by (simp_all add: sample_http_proxy_def New_def Let_def WithAuthToken_def)
  moreover have "hdr_get (rq_header sample_request) ''Proxy-Authorization'' = ''Basic '' @ b64_encode StdEncoding (''claw:'' @ ''tok'')" by code_simp
  ultimately show ?thesis
    using proxy_token_roundtrip [of "sample_http_proxy sample_http" None sample_request "''tok''"] by (simp add: isConnectAuthenticated_def)
qed



text \<open>Response headers: exactly the configured ones are removed.\<close>

lemma response_headers_stripped:
  assumes "px_cfg p = Some cfg"
  shows "handleResponse p (Some r) = Some (r\<lparr>rs_header := fold hdr_del (hp_strip_response_headers cfg) (rs_header r)\<rparr>) \<and>
     map_of (fold hdr_del hs h) k = (if k \<in> canonical_key ` set hs then None else map_of h k)"
proof -
  have "map_of (fold hdr_del hs h) k = (if k \<in> canonical_key ` set hs then None else map_of h k)"
    by (induction hs arbitrary: h) (auto simp: hdr_del_def)
  then show ?thesis using assms by (simp add: handleResponse_def getConfig_def Let_def)
qed

text \<open>\<open>StartFromConfig\<close> passes no token, and \<open>New\<close> requires one: with the proxy enabled it always fails.\<close>

lemma start_from_config_fails:
  assumes "c_http_proxy cfg = Some h" and "hp_enabled h"
  shows "StartFromConfig e s listen cfg fs = (Inl Token_Required, fs)"
  using assms by (simp add: StartFromConfig_def SetupFromConfig_def GetHTTPProxyConfig_def New_def Let_def Start_def
      proxy_WithPassBinary_def proxy_WithOPBinary_def proxy_WithBWBinary_def proxy_WithVaultBinary_def)

end
