(* ===== verification/Audit_Log.thy ===== *)
theory Audit_Log
  imports Wire
begin

text \<open>
  \<open>internal/audit/audit.go\<close> and \<open>syslog.go\<close>: the audit log, one JSON line per tool run, to a file, to
  standard output, to syslog, or to several of them. A \<open>json.Encoder\<close> keeps the first error of its
  writer and returns it on every later call, so a sink carries that flag. The outcome of each system
  call is an argument.
\<close>

section \<open>Entries\<close>

record Entry =
  en_timestamp :: string
  en_tool :: string
  en_args :: "string list"
  en_cwd :: string
  en_caller_pid :: int
  en_caller_exe :: string
  en_exit_code :: int
  en_timeout :: bool
  en_duration_ms :: int
  en_output_hash :: string
  en_output_bytes :: int

definition json_Entry :: "Entry \<Rightarrow> json" where
  "json_Entry e =
     JObj ([(''ts'', JStr (en_timestamp e)), (''tool'', JStr (en_tool e))] @ opt_strs ''args'' (en_args e) @
       [(''cwd'', JStr (en_cwd e)), (''caller_pid'', JNum (format_int (en_caller_pid e))),
        (''caller_exe'', JStr (en_caller_exe e)), (''exit_code'', JNum (format_int (en_exit_code e)))] @
       opt_bool ''timeout'' (en_timeout e) @ opt_int ''duration_ms'' (en_duration_ms e) @
       opt_str ''output_hash'' (en_output_hash e) @ [(''output_bytes'', JNum (format_int (en_output_bytes e)))])"

text \<open>Strings without HTML escaping (\<open>SetEscapeHTML(false)\<close>).\<close>

function plain_body :: "string \<Rightarrow> string" where
  "plain_body s =
     (if s = [] then []
      else if char_code (hd s) < 128 then
        (if hd s = CHR ''<'' \<or> hd s = CHR ''>'' \<or> hd s = CHR ''&'' then [hd s] else json_escape (hd s)) @ plain_body (tl s)
      else case rune_len s of
        None \<Rightarrow> BACKSLASH # ''ufffd'' @ plain_body (tl s)
      | Some n \<Rightarrow>
        (if take n s = line_sep then BACKSLASH # ''u2028''
         else if take n s = para_sep then BACKSLASH # ''u2029'' else take n s)
        @ plain_body (drop n s))"
  by pat_completeness auto
termination
  by (relation "measure length") (auto dest: rune_len_bounds)

declare plain_body.simps [simp del]

definition plain_string :: "string \<Rightarrow> string" where
  "plain_string s = [DQUOTE] @ plain_body s @ [DQUOTE]"

fun plain_print :: "json \<Rightarrow> string" where
  "plain_print JNull = ''null''"
| "plain_print (JBool b) = (if b then ''true'' else ''false'')"
| "plain_print (JNum n) = n"
| "plain_print (JStr s) = plain_string s"
| "plain_print (JArr vs) = ''['' @ join '','' (map plain_print vs) @ '']''"
| "plain_print (JObj ms) = ''{'' @ join '','' (map (\<lambda>(k, v). plain_string k @ '':'' @ plain_print v) ms) @ ''}''"

section \<open>Sinks\<close>

datatype sink = Sink_File string | Sink_Stdout | Sink_Syslog

record audit_world =
  aw_out :: "sink \<Rightarrow> bytes"
  aw_latched :: "sink \<Rightarrow> bool"
  aw_closed :: "sink \<Rightarrow> bool"
  aw_syslog :: "(string \<times> string) list" \<comment> \<open>facility and text\<close>

datatype Logger = Nop | FileLogger string | StreamLogger | SyslogLogger string | MultiLogger "Logger list"

datatype audit_failure = Audit_Mkdir | Audit_Symlink | Audit_Open | Audit_Chmod | Audit_Syslog | Audit_Write | Audit_Closed

text \<open>What opening a logger meets.\<close>

record audit_env =
  ae_mkdir :: bool
  ae_symlink :: bool
  ae_open :: bool
  ae_chmod :: bool
  ae_syslog :: bool

definition NewFileLogger :: "audit_env \<Rightarrow> string \<Rightarrow> audit_world \<Rightarrow> (audit_failure + Logger) \<times> audit_world" where
  "NewFileLogger e path w =
     (if \<not> ae_mkdir e then (Inl Audit_Mkdir, w)
      else if ae_symlink e then (Inl Audit_Symlink, w)
      else if \<not> ae_open e then (Inl Audit_Open, w)
      else if \<not> ae_chmod e then (Inl Audit_Chmod, w)
      else (Inr (FileLogger path),
            w\<lparr>aw_latched := (aw_latched w)(Sink_File path := False), aw_closed := (aw_closed w)(Sink_File path := False)\<rparr>))"

definition NewStreamLogger :: "audit_world \<Rightarrow> Logger \<times> audit_world" where
  "NewStreamLogger w = (StreamLogger, w\<lparr>aw_latched := (aw_latched w)(Sink_Stdout := False)\<rparr>)"

definition parseFacility :: "string \<Rightarrow> string" where
  "parseFacility name =
     (if name \<in> set [''local1'', ''local2'', ''local3'', ''local4'', ''local5'', ''local6'', ''local7''] then name else ''local0'')"

definition newSyslogLogger :: "audit_env \<Rightarrow> string \<Rightarrow> audit_world \<Rightarrow> (audit_failure + Logger) \<times> audit_world" where
  "newSyslogLogger e facility w =
     (if \<not> ae_syslog e then (Inl Audit_Syslog, w)
      else (Inr (SyslogLogger (parseFacility facility)), w\<lparr>aw_closed := (aw_closed w)(Sink_Syslog := False)\<rparr>))"

text \<open>\<open>Encode\<close> on a sink: the third argument is the outcome of the write, \<open>Some n\<close> when it failed after n bytes.\<close>

definition encode_line :: "sink \<Rightarrow> Entry \<Rightarrow> nat option \<Rightarrow> audit_world \<Rightarrow> audit_failure option \<times> audit_world" where
  "encode_line k entry outcome w =
     (let line = plain_print (json_Entry entry) @ [LF]
      in if aw_latched w k then (Some Audit_Write, w)
         else if aw_closed w k then (Some Audit_Closed, w\<lparr>aw_latched := (aw_latched w)(k := True)\<rparr>)
         else case outcome of
           None \<Rightarrow> (None, w\<lparr>aw_out := (aw_out w)(k := aw_out w k @ line)\<rparr>)
         | Some n \<Rightarrow> (Some Audit_Write, w\<lparr>aw_out := (aw_out w)(k := aw_out w k @ take n line),
                                       aw_latched := (aw_latched w)(k := True)\<rparr>))"

definition syslog_Log :: "string \<Rightarrow> Entry \<Rightarrow> bool \<Rightarrow> audit_world \<Rightarrow> audit_failure option \<times> audit_world" where
  "syslog_Log facility entry ok w =
     (if \<not> ok \<or> aw_closed w Sink_Syslog then (Some Audit_Write, w)
      else (None, w\<lparr>aw_syslog := aw_syslog w @ [(facility, json_print (json_Entry entry))]\<rparr>))"

fun Log :: "(sink \<Rightarrow> nat option) \<Rightarrow> Logger \<Rightarrow> Entry \<Rightarrow> audit_world \<Rightarrow> audit_failure option \<times> audit_world"
  and Log_all :: "(sink \<Rightarrow> nat option) \<Rightarrow> Logger list \<Rightarrow> Entry \<Rightarrow> audit_world \<Rightarrow> audit_failure option \<times> audit_world" where
  "Log oc Nop entry w = (None, w)"
| "Log oc (FileLogger path) entry w = encode_line (Sink_File path) entry (oc (Sink_File path)) w"
| "Log oc StreamLogger entry w = encode_line Sink_Stdout entry (oc Sink_Stdout) w"
| "Log oc (SyslogLogger facility) entry w = syslog_Log facility entry (oc Sink_Syslog = None) w"
| "Log oc (MultiLogger ls) entry w = Log_all oc ls entry w"
| "Log_all oc [] entry w = (None, w)"
| "Log_all oc (l # ls) entry w =
     (let (e1, w1) = Log oc l entry w; (e2, w2) = Log_all oc ls entry w1
      in (if e1 = None then e2 else e1, w2))"

text \<open>\<open>Close\<close>: a stream stays open; the second argument says which closes fail.\<close>

fun Close :: "(sink \<Rightarrow> bool) \<Rightarrow> Logger \<Rightarrow> audit_world \<Rightarrow> audit_failure option \<times> audit_world"
  and Close_all :: "(sink \<Rightarrow> bool) \<Rightarrow> Logger list \<Rightarrow> audit_world \<Rightarrow> audit_failure option \<times> audit_world" where
  "Close bad Nop w = (None, w)"
| "Close bad (FileLogger path) w =
     (if bad (Sink_File path) then Some Audit_Closed else None, w\<lparr>aw_closed := (aw_closed w)(Sink_File path := True)\<rparr>)"
| "Close bad StreamLogger w = (None, w)"
| "Close bad (SyslogLogger facility) w =
     (if bad Sink_Syslog then Some Audit_Closed else None, w\<lparr>aw_closed := (aw_closed w)(Sink_Syslog := True)\<rparr>)"
| "Close bad (MultiLogger ls) w = Close_all bad ls w"
| "Close_all bad [] w = (None, w)"
| "Close_all bad (l # ls) w =
     (let (e1, w1) = Close bad l w; (e2, w2) = Close_all bad ls w1 in (if e1 = None then e2 else e1, w2))"

definition syslog_part :: "audit_env \<Rightarrow> AuditConfig \<Rightarrow> Logger list \<Rightarrow> audit_world \<Rightarrow> (audit_failure + Logger list) \<times> audit_world" where
  "syslog_part e cfg loggers w =
     (if \<not> au_syslog cfg then (Inr loggers, w)
      else case newSyslogLogger e (au_syslog_facility cfg) w of
        (Inl x, w') \<Rightarrow> if loggers \<noteq> [] then (Inr loggers, w') else (Inl x, w')
      | (Inr sl, w') \<Rightarrow> (Inr (loggers @ [sl]), w'))"

definition combine_loggers :: "Logger list \<Rightarrow> Logger" where
  "combine_loggers ls = (case ls of [] \<Rightarrow> Nop | [l] \<Rightarrow> l | _ \<Rightarrow> MultiLogger ls)"

definition audit_New :: "audit_env \<Rightarrow> AuditConfig option \<Rightarrow> audit_world \<Rightarrow> (audit_failure + Logger) \<times> audit_world" where
  "audit_New e cfgo w =
     (case cfgo of
        None \<Rightarrow> (Inr Nop, w)
      | Some cfg \<Rightarrow>
          if \<not> au_enabled cfg then (Inr Nop, w)
          else let (r1, w1) = (if au_file cfg \<noteq> [] then NewFileLogger e (au_file cfg) w else (Inr Nop, w))
               in case r1 of
                    Inl x \<Rightarrow> (Inl x, w1)
                  | Inr fl \<Rightarrow>
                      let ls1 = (if au_file cfg \<noteq> [] then [fl] else []);
                          (ls2, w2) = (if au_stdout cfg then (let (sl, w') = NewStreamLogger w1 in (ls1 @ [sl], w')) else (ls1, w1))
                      in case syslog_part e cfg ls2 w2 of
                           (Inl x, w3) \<Rightarrow> (Inl x, w3)
                         | (Inr ls, w3) \<Rightarrow> (Inr (combine_loggers ls), w3))"

section \<open>One line per entry\<close>

lemma hex_digit_no_LF: "n < 16 \<Longrightarrow> hex_digit n \<noteq> LF"
proof -
  assume "n < 16"
  then have "char_code (hex_digit n) = (if n < 10 then 48 + n else 87 + n)" by (simp add: hex_digit_def char_code_def)
  then show ?thesis by (auto simp: char_code_def split: if_splits)
qed

lemma json_escape_no_LF: "LF \<notin> set (json_escape c)"
proof -
  have "char_code c div 16 < 16" "char_code c mod 16 < 16" using char_code_bound [of c] by (simp_all add: less_mult_imp_div_less)
  then have h: "hex_digit (char_code c div 16) \<noteq> LF" "hex_digit (char_code c mod 16) \<noteq> LF" by (auto dest: hex_digit_no_LF)
  show ?thesis using h h [symmetric] by (simp add: json_escape_def)
qed

lemma plain_body_no_LF: "LF \<notin> set (plain_body s)"
proof (induction s rule: plain_body.induct)
  case (1 s)
  show ?case
  proof (cases "s = []")
    case True
    then show ?thesis by (subst plain_body.simps) simp
  next
    case ne: False
    show ?thesis
    proof (cases "char_code (hd s) < 128")
      case True
      with 1 ne json_escape_no_LF [of "hd s"] show ?thesis by (subst plain_body.simps) auto
    next
      case False
      show ?thesis
      proof (cases "rune_len s")
        case None
        with 1(2) ne False show ?thesis by (subst plain_body.simps) auto
      next
        case (Some n)
        have "LF \<notin> set (take n s)" using rune_len_bytes [OF Some, of LF] by (auto simp: char_code_def)
        with 1(3) ne False Some show ?thesis by (subst plain_body.simps) auto
      qed
    qed
  qed
qed

lemma plain_string_no_LF: "LF \<notin> set (plain_string s)"
  using plain_body_no_LF by (simp add: plain_string_def)

lemma format_int_no_LF: "LF \<notin> set (format_int n)"
  using nat_digits_is_digit [of LF] by (auto simp: format_int_def is_digit_def char_code_def)

lemma set_join: "set (join sep xs) \<subseteq> set sep \<union> (\<Union>x \<in> set xs. set x)"
  by (induction sep xs rule: join.induct) auto

lemma join_no_LF: "\<forall>x \<in> set xs. LF \<notin> set x \<Longrightarrow> LF \<notin> set (join '','' xs)"
  using set_join [of "'',''" xs] by auto

lemma plain_print_entry_no_LF: "LF \<notin> set (plain_print (json_Entry e))"
proof -
  have a: "LF \<notin> set (plain_print (JArr (map JStr xs)))" for xs
    using join_no_LF [of "map plain_string xs"] plain_string_no_LF by (simp add: comp_def)
  show ?thesis
    unfolding json_Entry_def plain_print.simps
    using join_no_LF [of "map (\<lambda>(k, v). plain_string k @ '':'' @ plain_print v) ms" for ms] a plain_string_no_LF format_int_no_LF
    by (auto simp: opt_strs_def opt_bool_def opt_int_def opt_str_def simp del: plain_print.simps(5))
qed

fun log_run :: "Logger \<Rightarrow> (Entry \<times> (sink \<Rightarrow> nat option)) list \<Rightarrow> audit_world \<Rightarrow> audit_world" where
  "log_run l [] w = w"
| "log_run l ((e, oc) # es) w = log_run l es (snd (Log oc l e w))"

definition audit_line :: "Entry \<Rightarrow> string" where
  "audit_line e = plain_print (json_Entry e) @ [LF]"

lemma split_lines: "(\<forall>x \<in> set xs. LF \<notin> set x) \<Longrightarrow> split_char LF (concat (map (\<lambda>x. x @ [LF]) xs)) = xs @ [[]]"
  by (induction xs) (simp_all add: split_char_append)

section \<open>Several sinks\<close>

text \<open>Each sink gets the entry, and what happens at one of them is not seen by the others.\<close>

fun logger_sink :: "Logger \<Rightarrow> sink option" where
  "logger_sink (FileLogger p) = Some (Sink_File p)"
| "logger_sink StreamLogger = Some Sink_Stdout"
| "logger_sink (SyslogLogger f) = Some Sink_Syslog"
| "logger_sink _ = None"

definition sink_view :: "sink \<Rightarrow> audit_world \<Rightarrow> bytes \<times> bool \<times> bool \<times> (string \<times> string) list" where
  "sink_view k w = (aw_out w k, aw_latched w k, aw_closed w k, if k = Sink_Syslog then aw_syslog w else [])"

lemma log_frame:
  "logger_sink l = Some j \<Longrightarrow> j \<noteq> k \<Longrightarrow> sink_view k (snd (Log oc l e w)) = sink_view k w"
  by (cases l) (auto simp: sink_view_def encode_line_def syslog_Log_def Let_def split: option.splits)

lemma log_local:
  "logger_sink l = Some k \<Longrightarrow> sink_view k w = sink_view k w' \<Longrightarrow>
   sink_view k (snd (Log oc l e w)) = sink_view k (snd (Log oc l e w'))"
  by (cases l) (auto simp: sink_view_def encode_line_def syslog_Log_def Let_def split: option.splits)

lemma log_all_frame:
  "list_all (\<lambda>l. \<exists>j. logger_sink l = Some j \<and> j \<noteq> k) ls \<Longrightarrow> sink_view k (snd (Log_all oc ls e w)) = sink_view k w"
proof (induction ls arbitrary: w)
  case (Cons l ls)
  then show ?case using log_frame [of l _ k oc e w] by (auto simp: Let_def case_prod_beta)
qed simp

lemma log_all_view:
  assumes "l \<in> set ls" and "logger_sink l = Some k" and "distinct (map logger_sink ls)" and "None \<notin> logger_sink ` set ls"
  shows "sink_view k (snd (Log_all oc ls e w)) = sink_view k (snd (Log oc l e w))"
  using assms
proof (induction ls arbitrary: w)
  case (Cons h ls)
  show ?case
  proof (cases "h = l")
    case True
    have "list_all (\<lambda>l. \<exists>j. logger_sink l = Some j \<and> j \<noteq> k) ls"
      unfolding list_all_iff
    proof
      fix x assume x: "x \<in> set ls"
      then obtain j where j: "logger_sink x = Some j" using Cons.prems(4) by (cases "logger_sink x") force+
      moreover have "logger_sink x \<noteq> Some k" using Cons.prems(2,3) True x by force
      ultimately show "\<exists>j. logger_sink x = Some j \<and> j \<noteq> k" by simp
    qed
    from log_all_frame [OF this] True show ?thesis by (simp add: Let_def case_prod_beta)
  next
    case False
    obtain j where j: "logger_sink h = Some j" using Cons.prems(4) by (cases "logger_sink h") auto
    have "j \<noteq> k" using Cons.prems(1-3) False j by force
    have "sink_view k (snd (Log_all oc (h # ls) e w)) = sink_view k (snd (Log_all oc ls e (snd (Log oc h e w))))"
      by (simp add: Let_def case_prod_beta)
    also have "\<dots> = sink_view k (snd (Log oc l e (snd (Log oc h e w))))" using Cons False by simp
    also have "\<dots> = sink_view k (snd (Log oc l e w))" by (rule log_local [OF Cons.prems(2) log_frame [OF j \<open>j \<noteq> k\<close>]])
    finally show ?thesis .
  qed
qed simp

lemma log_combined: "snd (Log oc (combine_loggers ls) e w) = snd (Log_all oc ls e w)"
proof (cases ls)
  case (Cons l ls')
  then show ?thesis by (cases ls') (simp_all add: combine_loggers_def Let_def case_prod_beta)
qed (simp add: combine_loggers_def)

lemma log_run_view:
  assumes "l \<in> set ls" and "logger_sink l = Some k" and "distinct (map logger_sink ls)" and "None \<notin> logger_sink ` set ls"
  shows "sink_view k w = sink_view k w' \<Longrightarrow> sink_view k (log_run (combine_loggers ls) es w) = sink_view k (log_run l es w')"
proof (induction es arbitrary: w w')
  case (Cons x es)
  obtain e oc where x: "x = (e, oc)" by (metis surj_pair)
  have "sink_view k (snd (Log oc (combine_loggers ls) e w)) = sink_view k (snd (Log oc l e w'))"
    using log_all_view [OF assms, of oc e w] log_local [OF assms(2) Cons.prems, of oc e] by (simp add: log_combined)
  from Cons.IH [OF this] show ?case by (simp add: x)
qed simp

text \<open>The loggers a configuration asks for, in the order they are opened.\<close>

definition configured_loggers :: "audit_env \<Rightarrow> AuditConfig \<Rightarrow> Logger list" where
  "configured_loggers e cfg =
     (if au_file cfg \<noteq> [] then [FileLogger (au_file cfg)] else []) @ (if au_stdout cfg then [StreamLogger] else []) @
     (if au_syslog cfg \<and> ae_syslog e then [SyslogLogger (parseFacility (au_syslog_facility cfg))] else [])"

lemma configured_distinct:
  "distinct (map logger_sink (configured_loggers e cfg))" "None \<notin> logger_sink ` set (configured_loggers e cfg)"
  by (auto simp: configured_loggers_def)

lemma audit_New_loggers:
  assumes "audit_New e (Some cfg) w0 = (Inr l, w)" and "au_enabled cfg"
  shows "l = combine_loggers (configured_loggers e cfg) \<and>
    (au_file cfg \<noteq> [] \<longrightarrow> \<not> aw_latched w (Sink_File (au_file cfg)) \<and> \<not> aw_closed w (Sink_File (au_file cfg))) \<and>
    (au_stdout cfg \<longrightarrow> \<not> aw_latched w Sink_Stdout \<and> aw_closed w Sink_Stdout = aw_closed w0 Sink_Stdout) \<and>
    (au_syslog cfg \<and> ae_syslog e \<longrightarrow> \<not> aw_closed w Sink_Syslog)"
  using assms
  by (cases "au_file cfg \<noteq> []"; cases "au_stdout cfg"; cases "au_syslog cfg"; cases "ae_syslog e")
    (auto simp: audit_New_def configured_loggers_def NewFileLogger_def NewStreamLogger_def syslog_part_def newSyslogLogger_def
      Let_def split: if_splits)

text \<open>The writes to a sink that succeed, and what its text is then.\<close>

definition written :: "sink \<Rightarrow> (Entry \<times> (sink \<Rightarrow> nat option)) list \<Rightarrow> bool" where
  "written k es \<longleftrightarrow> list_all (\<lambda>(e, oc). oc k = None) es"

definition one_line_each :: "(Entry \<times> (sink \<Rightarrow> nat option)) list \<Rightarrow> bytes \<Rightarrow> bytes \<Rightarrow> bool" where
  "one_line_each es old new \<longleftrightarrow>
     (\<exists>added. new = old @ added \<and> split_char LF added = map (\<lambda>(e, oc). plain_print (json_Entry e)) es @ [[]])"

lemma encode_run:
  assumes "l = FileLogger path \<and> k = Sink_File path \<or> l = StreamLogger \<and> k = Sink_Stdout"
    and "written k es" and "\<not> aw_latched w k" and "\<not> aw_closed w k"
  shows "aw_out (log_run l es w) k = aw_out w k @ concat (map (audit_line \<circ> fst) es)"
  using assms
proof (induction es arbitrary: w)
  case (Cons x es)
  obtain e oc where x: "x = (e, oc)" by (metis surj_pair)
  have s: "snd (Log oc l e w) = w\<lparr>aw_out := (aw_out w)(k := aw_out w k @ audit_line e)\<rparr>"
    using Cons.prems by (auto simp: x written_def encode_line_def audit_line_def Let_def)
  have "aw_out (log_run l es (snd (Log oc l e w))) k = aw_out (snd (Log oc l e w)) k @ concat (map (audit_line \<circ> fst) es)"
    using Cons.prems by (intro Cons.IH) (simp_all add: written_def s)
  then show ?case by (simp add: x s comp_def)
qed simp

lemma syslog_run:
  assumes "written Sink_Syslog es" and "\<not> aw_closed w Sink_Syslog"
  shows "aw_syslog (log_run (SyslogLogger f) es w) = aw_syslog w @ map (\<lambda>(e, oc). (f, json_print (json_Entry e))) es"
  using assms by (induction es arbitrary: w) (auto simp: written_def syslog_Log_def)

lemma lines_each: "one_line_each es old (old @ concat (map (audit_line \<circ> fst) es))"
proof -
  let ?ls = "map (\<lambda>(e, oc). plain_print (json_Entry e)) es"
  have "concat (map (audit_line \<circ> fst) es) = concat (map (\<lambda>x. x @ [LF]) ?ls)"
    by (simp add: audit_line_def comp_def case_prod_beta)
  moreover have "split_char LF (concat (map (\<lambda>x. x @ [LF]) ?ls)) = ?ls @ [[]]"
    by (rule split_lines) (auto simp: plain_print_entry_no_LF)
  ultimately show ?thesis unfolding one_line_each_def by metis
qed

text \<open>C37: take the logger the configuration gives and any sequence of entries. Every configured sink
  whose own writes succeed, whatever happens at the others, holds exactly one record for every entry, in
  order: cut at its line breaks, the text added to the file and to standard output is the entries one by
  one, and syslog has one message for each, under the configured facility. This holds whatever the
  arguments, paths and tool names in the entries contain, so no caller can forge or split a line.\<close>
theorem audit_one_line_per_run:
  assumes "audit_New e (Some cfg) w0 = (Inr l, w)" and "au_enabled cfg" and "\<not> aw_closed w0 Sink_Stdout"
  shows "(au_file cfg \<noteq> [] \<and> written (Sink_File (au_file cfg)) es \<longrightarrow>
       one_line_each es (aw_out w (Sink_File (au_file cfg))) (aw_out (log_run l es w) (Sink_File (au_file cfg)))) \<and>
     (au_stdout cfg \<and> written Sink_Stdout es \<longrightarrow>
       one_line_each es (aw_out w Sink_Stdout) (aw_out (log_run l es w) Sink_Stdout)) \<and>
     (au_syslog cfg \<and> ae_syslog e \<and> written Sink_Syslog es \<longrightarrow>
       aw_syslog (log_run l es w) =
         aw_syslog w @ map (\<lambda>(x, oc). (parseFacility (au_syslog_facility cfg), json_print (json_Entry x))) es)"
proof -
  note n = audit_New_loggers [OF assms(1,2)]
  have v: "sink_view k (log_run l es w) = sink_view k (log_run h es w)"
    if "h \<in> set (configured_loggers e cfg)" "logger_sink h = Some k" for h k
    using log_run_view [OF that configured_distinct refl] n by simp
  let ?f = "Sink_File (au_file cfg)"
  have "one_line_each es (aw_out w ?f) (aw_out (log_run l es w) ?f)" if f: "au_file cfg \<noteq> []" "written ?f es"
  proof -
    have "aw_out (log_run l es w) ?f = aw_out (log_run (FileLogger (au_file cfg)) es w) ?f"
      using v [of "FileLogger (au_file cfg)" ?f] f by (simp add: configured_loggers_def sink_view_def)
    also have "\<dots> = aw_out w ?f @ concat (map (audit_line \<circ> fst) es)"
      by (rule encode_run [where path = "au_file cfg"]) (use f n in simp_all)
    finally show ?thesis by (simp add: lines_each)
  qed
  moreover have "one_line_each es (aw_out w Sink_Stdout) (aw_out (log_run l es w) Sink_Stdout)" if f: "au_stdout cfg" "written Sink_Stdout es"
  proof -
    have "aw_out (log_run l es w) Sink_Stdout = aw_out (log_run StreamLogger es w) Sink_Stdout"
      using v [of StreamLogger Sink_Stdout] f by (simp add: configured_loggers_def sink_view_def)
    also have "\<dots> = aw_out w Sink_Stdout @ concat (map (audit_line \<circ> fst) es)"
      by (rule encode_run [where path = "[]"]) (use f n assms(3) in simp_all)
    finally show ?thesis by (simp add: lines_each)
  qed
  moreover have "aw_syslog (log_run l es w) = aw_syslog w @ map (\<lambda>(x, oc). (parseFacility (au_syslog_facility cfg), json_print (json_Entry x))) es"
    if f: "au_syslog cfg" "ae_syslog e" "written Sink_Syslog es"
    using v [of "SyslogLogger (parseFacility (au_syslog_facility cfg))" Sink_Syslog] f n
    by (simp add: configured_loggers_def sink_view_def syslog_run)
  ultimately show ?thesis by blast
qed

definition empty_audit_world :: audit_world where
  "empty_audit_world = \<lparr>aw_out = (\<lambda>_. []), aw_latched = (\<lambda>_. False), aw_closed = (\<lambda>_. False), aw_syslog = []\<rparr>"

definition sample_entry :: Entry where
  "sample_entry = \<lparr>en_timestamp = ''2024-02-29T22:59:59Z'', en_tool = ''gh'', en_args = [''a'' @ [LF] @ ''b''], en_cwd = ''/w'',
     en_caller_pid = 7, en_caller_exe = [], en_exit_code = 0, en_timeout = False, en_duration_ms = 0, en_output_hash = [],
     en_output_bytes = 0\<rparr>"

definition all_sinks :: AuditConfig where
  "all_sinks = \<lparr>au_enabled = True, au_file = ''/a'', au_stdout = True, au_include_args = None, au_include_output_hash = None,
     au_include_duration = None, au_syslog = True, au_syslog_facility = ''local3''\<rparr>"

definition good_env :: audit_env where
  "good_env = \<lparr>ae_mkdir = True, ae_symlink = False, ae_open = True, ae_chmod = True, ae_syslog = True\<rparr>"

text \<open>The write to the file fails: standard output and syslog have the entry all the same.\<close>

theorem audit_one_line_per_run_witness:
  "\<exists>l w. audit_New good_env (Some all_sinks) empty_audit_world = (Inr l, w) \<and>
     one_line_each [(sample_entry, (\<lambda>_. None)(Sink_File ''/a'' := Some 3))] [] (aw_out (log_run l [(sample_entry, (\<lambda>_. None)(Sink_File ''/a'' := Some 3))] w) Sink_Stdout) \<and>
     aw_syslog (log_run l [(sample_entry, (\<lambda>_. None)(Sink_File ''/a'' := Some 3))] w) = [(''local3'', json_print (json_Entry sample_entry))]"
proof -
  obtain l w where n: "audit_New good_env (Some all_sinks) empty_audit_world = (Inr l, w)" "aw_out w Sink_Stdout = []" "aw_syslog w = []"
    by (simp add: audit_New_def good_env_def all_sinks_def NewFileLogger_def NewStreamLogger_def syslog_part_def newSyslogLogger_def
        empty_audit_world_def)
  have c: "au_enabled all_sinks" "au_stdout all_sinks" "au_syslog all_sinks" "ae_syslog good_env" "parseFacility (au_syslog_facility all_sinks) = ''local3''"
    by (simp_all add: all_sinks_def good_env_def parseFacility_def)
  have "\<not> aw_closed empty_audit_world Sink_Stdout" by (simp add: empty_audit_world_def)
  moreover have "written Sink_Stdout [(sample_entry, (\<lambda>_. None)(Sink_File ''/a'' := Some 3))]"
    "written Sink_Syslog [(sample_entry, (\<lambda>_. None)(Sink_File ''/a'' := Some 3))]" by (simp_all add: written_def)
  ultimately show ?thesis
    using audit_one_line_per_run [OF n(1) c(1), of "[(sample_entry, (\<lambda>_. None)(Sink_File ''/a'' := Some 3))]"] c n
    by (intro exI [of _ l] exI [of _ w]) (simp del: log_run.simps)
qed

text \<open>
  A \<open>json.Encoder\<close> that has failed once never writes again: after one failed write the rest of the
  run is missing from the file, whatever the disk does later.
\<close>

lemma audit_latches_first_error:
  "aw_latched w (Sink_File path) \<Longrightarrow> log_run (FileLogger path) es w = w"
  by (induction es arbitrary: w) (auto simp: encode_line_def Let_def)

lemma audit_failed_write_latches:
  "\<not> aw_latched w k \<Longrightarrow> \<not> aw_closed w k \<Longrightarrow> aw_latched (snd (encode_line k e (Some n) w)) k"
  by (simp add: encode_line_def Let_def)

end
