(* ===== verification/Tool_Env.thy ===== *)
theory Tool_Env
  imports Config Interpolate System Secure_Files "HOL-Library.Multiset"
begin

text \<open>
  What a tool is started with: the environment (\<open>buildEnvironment\<close> of
  \<open>internal/daemon/executor.go\<close>) and the rendered configuration file (\<open>setupConfigFile\<close>, and
  \<open>renderTemplate\<close> of \<open>daemon.go\<close>). \<open>credentials.Resolve\<close> is a function of the place it is called from
  and the name: a run resolves each name at most once per environment variable and per position in
  the list of a configuration file, so such a function covers any behaviour of the backends over time.
\<close>

section \<open>Refused names\<close>

definition deniedEnvVars :: "string list" where
  "deniedEnvVars =
     [''BASH_ENV'', ''ENV'', ''CDPATH'', ''SHELLOPTS'', ''BASHOPTS'', ''SHELL'', ''IFS'', ''GLOBIGNORE'', ''PROMPT_COMMAND'',
      ''PYTHONPATH'', ''PYTHONSTARTUP'', ''PYTHONHOME'', ''PERL5LIB'', ''PERL5OPT'', ''RUBYLIB'', ''RUBYOPT'', ''NODE_OPTIONS'',
      ''NODE_PATH'', ''JAVA_TOOL_OPTIONS'', ''_JAVA_OPTIONS'', ''JAVA_OPTIONS'',
      ''GIT_SSH_COMMAND'', ''EDITOR'', ''VISUAL'', ''PAGER'',
      ''http_proxy'', ''https_proxy'', ''HTTP_PROXY'', ''HTTPS_PROXY'', ''ftp_proxy'', ''FTP_PROXY'', ''all_proxy'', ''ALL_PROXY'',
      ''no_proxy'', ''NO_PROXY'',
      ''CURL_CA_BUNDLE'', ''SSL_CERT_FILE'', ''SSL_CERT_DIR'', ''GIT_PROXY_COMMAND'', ''GIT_CONFIG_GLOBAL'', ''GIT_CONFIG_SYSTEM'',
      ''GIT_EXEC_PATH'', ''GIT_TEMPLATE_DIR'']"

definition deniedEnvPrefixes :: "string list" where
  "deniedEnvPrefixes = [''LD_'', ''DYLD_'', ''BASH_FUNC_'']"

definition isDeniedEnvVar :: "string \<Rightarrow> bool" where
  "isDeniedEnvVar key \<longleftrightarrow> key \<in> set deniedEnvVars \<or> list_ex (has_prefix key) deniedEnvPrefixes"

section \<open>Credentials for one run\<close>

datatype resolve_site = At_Config nat | At_Env string

type_synonym 'e site_resolver = "resolve_site \<Rightarrow> string \<Rightarrow> 'e + string"

datatype 'e cred_failure = Undefined_Credential string | Resolve_Error 'e | Empty_Value string

text \<open>The closure \<open>credResolver\<close> and the loop body of \<open>setupConfigFile\<close>.\<close>

definition resolve_at :: "'e site_resolver \<Rightarrow> Config \<Rightarrow> resolve_site \<Rightarrow> string \<Rightarrow> 'e cred_failure + string" where
  "resolve_at resolve cfg site name =
     (case map_of (c_credentials cfg) name of
        None \<Rightarrow> Inl (Undefined_Credential name)
      | Some credDef \<Rightarrow>
          (case resolve site name of
             Inl e \<Rightarrow> Inl (Resolve_Error e)
           | Inr v \<Rightarrow> if v = [] then Inl (Empty_Value name) else Inr v))"

text \<open>The values one environment entry resolved, which the run keeps to redact them.\<close>

definition used_names :: "string \<Rightarrow> string list \<Rightarrow> string list" where
  "used_names v names =
     (if ClassifyEnvValue v names = ''credential'' then [v]
      else if ClassifyEnvValue v names = ''interpolate'' then FindCredentialRefs v else [])"

definition used_values :: "(string \<Rightarrow> 'e + string) \<Rightarrow> string list \<Rightarrow> string list" where
  "used_values r ns = List.map_filter (\<lambda>n. case r n of Inl _ \<Rightarrow> None | Inr v \<Rightarrow> Some v) ns"

section \<open>The proxy URL\<close>

definition hex_upper :: "nat \<Rightarrow> char" where
  "hex_upper n = (if n < 10 then char_of (48 + n) else char_of (55 + n))"

text \<open>\<open>url.escape\<close> with the bytes a position of the URL leaves as they are.\<close>

definition unreserved :: "char \<Rightarrow> bool" where
  "unreserved c \<longleftrightarrow> is_upper c \<or> is_lower c \<or> is_digit c \<or> c \<in> set ''-_.~''"

definition url_escape :: "string \<Rightarrow> string \<Rightarrow> string" where
  "url_escape safe s =
     concat (map (\<lambda>c. if unreserved c \<or> c \<in> set safe then [c]
                      else [CHR ''%'', hex_upper (char_code c div 16), hex_upper (char_code c mod 16)]) s)"

definition escape_userinfo :: "string \<Rightarrow> string" where
  "escape_userinfo = url_escape ''$&+,;=''"

definition escape_host :: "string \<Rightarrow> string" where
  "escape_host = url_escape (''!$&()*+,;=:[]<>'' @ [QUOTE, DQUOTE])"

datatype env_failure_kind = No_Listen_Address | No_Proxy_Token

definition buildAuthenticatedProxyURL :: "string \<Rightarrow> string \<Rightarrow> env_failure_kind + string" where
  "buildAuthenticatedProxyURL listenAddr token =
     (if trim_space listenAddr = [] then Inl No_Listen_Address
      else if token = [] then Inl No_Proxy_Token
      else Inr (''http://'' @ escape_userinfo ''claw'' @ '':'' @ escape_userinfo token @ ''@'' @ escape_host listenAddr))"

section \<open>The environment\<close>

type_synonym envmap = "(string, string) gomap"

text \<open>The base; the second argument is \<open>user.Current\<close>, home directory and name.\<close>

definition env_or_user :: "sys \<Rightarrow> string \<Rightarrow> string option \<Rightarrow> envmap \<Rightarrow> envmap" where
  "env_or_user s k u m =
     (if getenv s k \<noteq> [] then map_set k (getenv s k) m
      else case u of None \<Rightarrow> m | Some v \<Rightarrow> map_set k v m)"

definition base_env :: "sys \<Rightarrow> (string \<times> string) option \<Rightarrow> envmap" where
  "base_env s user =
     (let m0 = map_set ''PATH'' (if getenv s ''PATH'' = [] then ''/usr/local/bin:/usr/bin:/bin'' else getenv s ''PATH'') [];
          m1 = env_or_user s ''HOME'' (map_option fst user) m0;
          m2 = env_or_user s ''USER'' (map_option snd user) m1
      in env_or_user s ''COLORTERM'' None (env_or_user s ''TERM'' None m2))"

fun tool_env_loop ::
  "'e site_resolver \<Rightarrow> Config \<Rightarrow> envmap \<Rightarrow> envmap \<Rightarrow> string list \<Rightarrow> string list \<Rightarrow>
   (string \<times> string \<times> 'e cred_failure) + envmap \<times> string list \<times> string list" where
  "tool_env_loop resolve cfg [] m forced secrets = Inr (m, forced, secrets)"
| "tool_env_loop resolve cfg ((envVar, value) # rest) m forced secrets =
     (let names = CredentialNamesSet (c_credentials cfg); r = resolve_at resolve cfg (At_Env envVar)
      in case ResolveEnvValue value names r of
           Inl e \<Rightarrow> Inl (envVar, e)
         | Inr resolved \<Rightarrow>
             tool_env_loop resolve cfg rest (map_set envVar resolved m) (envVar # forced)
               (secrets @ used_values r (used_names value names)))"

definition forced_env_loop :: "envmap \<Rightarrow> envmap \<Rightarrow> envmap" where
  "forced_env_loop forcedEnv m = fold (\<lambda>(k, v). map_set k v) forcedEnv m"

definition request_env_allowed :: "ToolDef \<Rightarrow> string list \<Rightarrow> string \<Rightarrow> bool" where
  "request_env_allowed tool forced k \<longleftrightarrow>
     \<not> isDeniedEnvVar k \<and> k \<notin> set forced \<and>
     (case td_request_env tool of None \<Rightarrow> True | Some allow \<Rightarrow> k \<in> set allow)"

fun request_env_loop :: "ToolDef \<Rightarrow> string list \<Rightarrow> envmap \<Rightarrow> envmap \<Rightarrow> bool \<Rightarrow> envmap \<times> bool" where
  "request_env_loop tool forced [] m termFromReq = (m, termFromReq)"
| "request_env_loop tool forced ((k, v) # rest) m termFromReq =
     (if request_env_allowed tool forced k
      then request_env_loop tool forced rest (map_set k v m) (termFromReq \<or> k = ''TERM'')
      else request_env_loop tool forced rest m termFromReq)"

definition term_fallback :: "bool \<Rightarrow> bool \<Rightarrow> string list \<Rightarrow> envmap \<Rightarrow> envmap" where
  "term_fallback effectivePTY termFromReq forced m =
     (let termValue = trim_space (case map_of m ''TERM'' of None \<Rightarrow> [] | Some v \<Rightarrow> v)
      in if termValue = [] then map_set ''TERM'' (if effectivePTY then ''xterm-256color'' else ''dumb'') m
         else if effectivePTY \<and> equal_fold termValue ''dumb'' \<and> \<not> termFromReq \<and> ''TERM'' \<notin> set forced
         then map_set ''TERM'' ''xterm-256color'' m
         else m)"

definition proxy_env :: "path_env \<Rightarrow> Config \<Rightarrow> string \<Rightarrow> envmap \<Rightarrow> envmap" where
  "proxy_env pe cfg proxyURL m =
     (let caPath = (if GetHTTPProxyCAPath cfg = [] then CADir pe else GetHTTPProxyCAPath cfg);
          certFile = path_join [caPath, ''ca.crt'']
      in fold (\<lambda>(k, v). map_set k v)
           [(''HTTP_PROXY'', proxyURL), (''HTTPS_PROXY'', proxyURL), (''http_proxy'', proxyURL), (''https_proxy'', proxyURL),
            (''SSL_CERT_FILE'', certFile), (''NODE_EXTRA_CA_CERTS'', certFile), (''REQUESTS_CA_BUNDLE'', certFile),
            (''CURL_CA_BUNDLE'', certFile)] m)"

datatype 'e build_error = Env_Value "string \<times> string \<times> 'e cred_failure" | Proxy_URL env_failure_kind

text \<open>The last part: the proxy variables, and the token kept for redaction.\<close>

definition add_proxy ::
  "path_env \<Rightarrow> Config \<Rightarrow> ToolDef \<Rightarrow> string \<Rightarrow> envmap \<Rightarrow> string list \<Rightarrow> 'e build_error + envmap \<times> string list" where
  "add_proxy pe cfg tool token m secrets =
     (if td_use_proxy tool \<and> GetHTTPProxyEnabled cfg then
        if GetHTTPProxyRequireAuth cfg then
          (case buildAuthenticatedProxyURL (GetHTTPProxyListen cfg) token of
             Inl e \<Rightarrow> Inl (Proxy_URL e)
           | Inr proxyURL \<Rightarrow> Inr (proxy_env pe cfg proxyURL m, secrets @ [token]))
        else Inr (proxy_env pe cfg (''http://'' @ GetHTTPProxyListen cfg) m, secrets)
      else Inr (m, secrets))"

text \<open>The part that reads the request's environment, the terminal type, and the configuration directory.\<close>

definition request_part :: "ToolDef \<Rightarrow> ProxyRequest \<Rightarrow> string \<Rightarrow> string list \<Rightarrow> envmap \<Rightarrow> envmap" where
  "request_part tool req configDir forced m2 =
     (let (m3, termFromReq) = request_env_loop tool forced (pr_env req) m2 False;
          m4 = term_fallback (pr_use_pty req \<and> GetUsePTY tool) termFromReq forced m3
      in if configDir \<noteq> [] then map_set ''XDG_CONFIG_HOME'' configDir m4 else m4)"

definition buildEnvironment ::
  "sys \<Rightarrow> (string \<times> string) option \<Rightarrow> 'e site_resolver \<Rightarrow> Config \<Rightarrow> ToolDef \<Rightarrow> ProxyRequest \<Rightarrow> string \<Rightarrow> string \<Rightarrow>
   string list \<Rightarrow> 'e build_error + envmap \<times> string list" where
  "buildEnvironment s user resolve cfg tool req configDir token secrets0 =
     (case tool_env_loop resolve cfg (td_env tool) (base_env s user) [] secrets0 of
        Inl e \<Rightarrow> Inl (Env_Value e)
      | Inr (m1, forced1, secrets) \<Rightarrow>
          let m2 = forced_env_loop (td_forced_env tool) m1;
              forced = map fst (td_forced_env tool) @ forced1
          in add_proxy (sy_paths s) cfg tool token (request_part tool req configDir forced m2) secrets)"

text \<open>
  The slice handed to \<open>exec.Cmd\<close>, one entry per key in some iteration order, and what the tool sees: of
  several entries for one name \<open>os/exec\<close> keeps the last.
\<close>

definition env_slice :: "envmap \<Rightarrow> string list" where
  "env_slice m = map (\<lambda>(k, v). k @ ''='' @ v) m"

definition tool_getenv :: "string list \<Rightarrow> string \<Rightarrow> string option" where
  "tool_getenv env k =
     map_option (\<lambda>e. drop (length k + 1) e) (find (\<lambda>e. has_prefix e (k @ ''='')) (rev env))"

section \<open>The configuration file\<close>

definition yamlEscapeValue :: "string \<Rightarrow> string" where
  "yamlEscapeValue v = [QUOTE] @ replace_all v [QUOTE] [QUOTE, QUOTE] @ [QUOTE]"

definition render_one :: "string \<times> string \<Rightarrow> string \<Rightarrow> string" where
  "render_one nv content =
     (let escaped = yamlEscapeValue (snd nv);
          c1 = replace_all content (''{{ .'' @ fst nv @ '' }}'') escaped
      in replace_all c1 (''{{ .'' @ replace_all (fst nv) ''-'' ''_'' @ '' }}'') escaped)"

definition renderTemplate :: "string \<Rightarrow> (string, string) gomap \<Rightarrow> string" where
  "renderTemplate template values = fold render_one values template"

record config_env =
  ce_mkdtemp :: "string option"
  ce_mkdir :: bool
  ce_write :: bool

datatype 'e config_file_error =
    Create_Temp_Dir | Create_Subdir | Config_Credential string "'e cred_failure" | Write_Config

fun config_values ::
  "'e site_resolver \<Rightarrow> Config \<Rightarrow> nat \<Rightarrow> string list \<Rightarrow> (string, string) gomap \<Rightarrow> string list \<Rightarrow>
   (string \<times> 'e cred_failure) + (string, string) gomap \<times> string list" where
  "config_values resolve cfg i [] m secrets = Inr (m, secrets)"
| "config_values resolve cfg i (n # ns) m secrets =
     (case resolve_at resolve cfg (At_Config i) n of
        Inl e \<Rightarrow> Inl (n, e)
      | Inr v \<Rightarrow> config_values resolve cfg (Suc i) ns (map_set n v m) (secrets @ [v]))"

text \<open>
  The result is the directory made, the file written with its content (mode 0600), and the values to
  redact. The directory is known to the caller also when a later step fails, so that it is removed.
\<close>

definition setupConfigFile ::
  "config_env \<Rightarrow> 'e site_resolver \<Rightarrow> Config \<Rightarrow> ToolDef \<Rightarrow>
   'e config_file_error option \<times> string \<times> (string \<times> string) option \<times> string list" where
  "setupConfigFile e resolve cfg tool =
     (case td_config_file tool of
        None \<Rightarrow> (None, [], None, [])
      | Some cf \<Rightarrow>
        (case ce_mkdtemp e of
           None \<Rightarrow> (Some Create_Temp_Dir, [], None, [])
         | Some tempDir \<Rightarrow>
             if \<not> ce_mkdir e then (Some Create_Subdir, tempDir, None, [])
             else case config_values resolve cfg 0 (cf_credentials cf) [] [] of
               Inl (n, x) \<Rightarrow> (Some (Config_Credential n x), tempDir, None, [])
             | Inr (vals, secrets) \<Rightarrow>
                 let path = path_join [path_join [tempDir, cf_xdg_subdir cf], cf_filename cf];
                     content = renderTemplate (cf_template cf) vals
                 in if ce_write e then (None, tempDir, Some (path, content), secrets)
                    else (Some Write_Config, tempDir, None, secrets)))"

section \<open>What a caller can change\<close>

definition plain_keys :: "envmap \<Rightarrow> bool" where
  "plain_keys m \<longleftrightarrow> (\<forall>k \<in> fst ` set m. CHR ''='' \<notin> set k)"

definition env_ok :: "envmap \<Rightarrow> bool" where
  "env_ok m \<longleftrightarrow> gomap_ok m \<and> plain_keys m"

lemma env_ok_Nil: "env_ok []"
  by (simp add: env_ok_def plain_keys_def)

lemma env_ok_set: "env_ok m \<Longrightarrow> CHR ''='' \<notin> set k \<Longrightarrow> env_ok (map_set k v m)"
  unfolding env_ok_def by (simp add: plain_keys_def) (auto simp: map_set_def)

lemma env_ok_fold: "env_ok m \<Longrightarrow> plain_keys es \<Longrightarrow> env_ok (fold (\<lambda>(k, v). map_set k v) es m)"
  by (induction es arbitrary: m) (auto simp: plain_keys_def env_ok_set)

lemma env_ok_base: "env_ok (base_env s u)"
  by (simp add: base_env_def env_or_user_def Let_def env_ok_set env_ok_Nil split: option.splits)

lemma env_ok_tool:
  "tool_env_loop resolve cfg es m f sec = Inr (m', f', sec') \<Longrightarrow> env_ok m \<Longrightarrow> plain_keys es \<Longrightarrow> env_ok m'"
  by (induction resolve cfg es m f sec rule: tool_env_loop.induct)
    (auto simp: plain_keys_def Let_def env_ok_set split: sum.splits)

lemma env_ok_request: "env_ok m \<Longrightarrow> plain_keys es \<Longrightarrow> env_ok (fst (request_env_loop tool f es m t))"
  by (induction tool f es m t rule: request_env_loop.induct) (auto simp: plain_keys_def env_ok_set)

lemma env_ok_term: "env_ok m \<Longrightarrow> env_ok (term_fallback e t f m)"
  by (simp add: term_fallback_def Let_def env_ok_set)

lemma env_ok_proxy: "env_ok m \<Longrightarrow> env_ok (proxy_env pe cfg u m)"
  unfolding proxy_env_def Let_def by (rule env_ok_fold) (simp_all add: plain_keys_def)

text \<open>The entries of the slice answer look-ups as the map does, in any order.\<close>

lemma entry_prefix:
  assumes "CHR ''='' \<notin> set k" and "CHR ''='' \<notin> set k'"
  shows "has_prefix (k' @ CHR ''='' # v) (k @ ''='') \<longleftrightarrow> k' = k"
proof
  have t: "takeWhile (\<lambda>c. c \<noteq> CHR ''='') (x @ CHR ''='' # r) = x" if "CHR ''='' \<notin> set x" for x r :: string
    using that by (subst takeWhile_append2) auto
  assume "has_prefix (k' @ CHR ''='' # v) (k @ ''='')"
  then obtain r where "k' @ CHR ''='' # v = k @ CHR ''='' # r" by (auto simp: has_prefix_iff)
  from arg_cong [OF this, of "takeWhile (\<lambda>c. c \<noteq> CHR ''='')"] show "k' = k" using t assms by simp
next
  assume "k' = k"
  then show "has_prefix (k' @ CHR ''='' # v) (k @ ''='')" by (auto simp: has_prefix_iff)
qed

lemma find_slice:
  assumes "CHR ''='' \<notin> set k"
  shows "plain_keys l \<Longrightarrow>
   map_option (\<lambda>e. drop (length k + 1) e) (find (\<lambda>e. has_prefix e (k @ ''='')) (env_slice l)) = map_of l k"
proof (induction l)
  case (Cons p l)
  obtain k' v where p: "p = (k', v)" by (cases p)
  with Cons.prems have k': "CHR ''='' \<notin> set k'" "plain_keys l" by (simp_all add: plain_keys_def)
  have s: "env_slice (p # l) = (k' @ CHR ''='' # v) # env_slice l" by (simp add: env_slice_def p)
  show ?case using Cons.IH [OF k'(2)] entry_prefix [OF assms k'(1), of v] unfolding s by (auto simp: p)
qed (simp add: env_slice_def)

lemma map_of_distinct_eq:
  assumes "gomap_ok m" and "mset l = mset m"
  shows "map_of (rev l) k = map_of m k"
proof -
  have "set l = set m" "mset (map fst l) = mset (map fst m)" using assms(2) mset_eq_setD by (blast, simp)
  then have d: "distinct (map fst (rev l))" using assms(1) mset_eq_imp_distinct_iff [of "map fst l" "map fst m"]
    by (simp add: gomap_ok_def rev_map [symmetric])
  show ?thesis
  proof (cases "map_of m k")
    case (Some v)
    then have "(k, v) \<in> set (rev l)" using \<open>set l = set m\<close> map_of_SomeD by fastforce
    with d show ?thesis by (simp add: Some)
  next
    case None
    then have "k \<notin> fst ` set (rev l)" using \<open>set l = set m\<close> by (simp add: map_of_eq_None_iff)
    then show ?thesis by (simp add: None map_of_eq_None_iff)
  qed
qed

lemma tool_sees_map:
  assumes "env_ok m" and "mset l = mset m" and "CHR ''='' \<notin> set k"
  shows "tool_getenv (env_slice l) k = map_of m k"
proof -
  have "plain_keys (rev l)" using assms(1,2) mset_eq_setD [OF assms(2)] by (simp add: env_ok_def plain_keys_def)
  from find_slice [OF assms(3) this] have "tool_getenv (env_slice l) k = map_of (rev l) k"
    by (simp add: tool_getenv_def env_slice_def rev_map)
  then show ?thesis using map_of_distinct_eq [OF _ assms(2)] assms(1) by (simp add: env_ok_def)
qed

text \<open>Two environments that agree on a set of names, and the steps that keep it so.\<close>

definition agree_on :: "(string \<Rightarrow> bool) \<Rightarrow> envmap \<Rightarrow> envmap \<Rightarrow> bool" where
  "agree_on K m m' \<longleftrightarrow> (\<forall>k. K k \<longrightarrow> map_of m k = map_of m' k)"

lemma agree_set: "agree_on K m m' \<Longrightarrow> agree_on K (map_set k v m) (map_set k v m')"
  by (simp add: agree_on_def)

lemma agree_fold: "agree_on K m m' \<Longrightarrow> agree_on K (fold (\<lambda>(k, v). map_set k v) es m) (fold (\<lambda>(k, v). map_set k v) es m')"
  by (induction es arbitrary: m m') (auto simp: agree_set)

lemma agree_proxy: "agree_on K m m' \<Longrightarrow> agree_on K (proxy_env pe cfg u m) (proxy_env pe cfg u m')"
  unfolding proxy_env_def Let_def by (rule agree_fold)

lemma request_unchanged:
  "\<not> request_env_allowed tool f k \<Longrightarrow> map_of (fst (request_env_loop tool f es m t)) k = map_of m k"
  by (induction tool f es m t rule: request_env_loop.induct) auto

lemma request_term: "\<not> request_env_allowed tool f ''TERM'' \<Longrightarrow> snd (request_env_loop tool f es m t) = t"
  by (induction tool f es m t rule: request_env_loop.induct) auto

lemma term_unchanged: "k \<noteq> ''TERM'' \<Longrightarrow> map_of (term_fallback e t f m) k = map_of m k"
  by (simp add: term_fallback_def Let_def)

lemma agree_term:
  assumes "agree_on K m m'" and "K ''TERM'' \<Longrightarrow> t = t'"
  shows "agree_on K (term_fallback e t f m) (term_fallback e t' f m')"
proof -
  have "map_of (term_fallback e t f m) k = map_of (term_fallback e t' f m') k" if "K k" for k
  proof (cases "k = ''TERM''")
    case True
    with that assms have "map_of m ''TERM'' = map_of m' ''TERM''" "t = t'" by (simp_all add: agree_on_def)
    with True show ?thesis by (simp add: term_fallback_def Let_def)
  next
    case False
    with that assms show ?thesis by (simp add: term_unchanged agree_on_def)
  qed
  then show ?thesis by (simp add: agree_on_def)
qed

lemma forced_names:
  "tool_env_loop resolve cfg es m f sec = Inr (m', f', sec') \<Longrightarrow> set f' = fst ` set es \<union> set f"
  by (induction resolve cfg es m f sec rule: tool_env_loop.induct) (auto simp: Let_def split: sum.splits)

definition protected_name :: "ToolDef \<Rightarrow> string \<Rightarrow> bool" where
  "protected_name tool k \<longleftrightarrow>
     isDeniedEnvVar k \<or> k \<in> fst ` set (td_env tool) \<or> k \<in> fst ` set (td_forced_env tool) \<or>
     (\<exists>allow. td_request_env tool = Some allow \<and> k \<notin> set allow)"

lemma env_ok_part: "env_ok m \<Longrightarrow> plain_keys (pr_env req) \<Longrightarrow> env_ok (request_part tool req dir f m)"
  by (simp add: request_part_def Let_def case_prod_beta env_ok_set env_ok_term env_ok_request)

lemma agree_part:
  "agree_on (\<lambda>k. \<not> request_env_allowed tool f k) (request_part tool req dir f m) (request_part tool (req\<lparr>pr_env := env'\<rparr>) dir f m)"
proof -
  let ?r = "\<lambda>es. request_env_loop tool f es m False" and ?K = "\<lambda>k. \<not> request_env_allowed tool f k"
  have "agree_on ?K (fst (?r (pr_env req))) (fst (?r env'))" by (simp add: agree_on_def request_unchanged)
  then have "agree_on ?K (term_fallback e (snd (?r (pr_env req))) f (fst (?r (pr_env req)))) (term_fallback e (snd (?r env')) f (fst (?r env')))" for e
    by (rule agree_term) (simp add: request_term)
  then show ?thesis by (simp add: request_part_def Let_def case_prod_beta agree_set)
qed

lemma built_env:
  fixes resolve :: "'e site_resolver"
  assumes "buildEnvironment s u resolve cfg tool req dir tok sec0 = Inr (m, sec)"
    and "tool_env_loop resolve cfg (td_env tool) (base_env s u) [] sec0 = Inr (m1, f1, sec1)"
    and "plain_keys (pr_env req)" "plain_keys (td_env tool)" "plain_keys (td_forced_env tool)"
    and "p = request_part tool req dir (map fst (td_forced_env tool) @ f1) (forced_env_loop (td_forced_env tool) m1)"
  shows "env_ok p \<and> add_proxy (sy_paths s) cfg tool tok p sec1 = (Inr (m, sec) :: 'e build_error + envmap \<times> string list)"
proof -
  have "env_ok m1" by (rule env_ok_tool [OF assms(2) env_ok_base assms(4)])
  then have "env_ok (forced_env_loop (td_forced_env tool) m1)" unfolding forced_env_loop_def using assms(5) by (rule env_ok_fold)
  then have "env_ok p" unfolding assms(6) using assms(3) by (rule env_ok_part)
  then show ?thesis using assms(1,2,6) by (simp add: buildEnvironment_def Let_def)
qed

lemma add_proxy_agree:
  assumes "add_proxy pe cfg tool tok m sec = Inr (m1, s1)" and "add_proxy pe cfg tool tok m' sec = Inr (m2, s2)"
    and "agree_on K m m'" and "env_ok m" and "env_ok m'"
  shows "agree_on K m1 m2 \<and> s1 = s2 \<and> env_ok m1 \<and> env_ok m2"
  using assms agree_proxy [OF assms(3)] env_ok_proxy by (auto simp: add_proxy_def split: if_splits sum.splits)

text \<open>C6: a request whose variable names contain no equals sign has no influence on a name that is
  refused, that the configuration sets, or that is missing from a configured allowlist: for two such
  requests that differ only in their environment, and a configuration whose names have no equals sign
  either, the tool sees the same value, or none, whatever order the entries are passed in, and the values
  kept for redaction are the same. The code does not check that names have no equals sign, and the lemma
  below shows that a request that breaks it gets round all three rules.\<close>
theorem request_env_confined:
  fixes resolve :: "'e site_resolver"
  assumes b1: "buildEnvironment s u resolve cfg tool req dir tok sec0 = Inr (m1, sec1)"
    and b2: "buildEnvironment s u resolve cfg tool (req\<lparr>pr_env := env'\<rparr>) dir tok sec0 = Inr (m2, sec2)"
    and plain: "plain_keys (pr_env req)" "plain_keys env'" "plain_keys (td_env tool)" "plain_keys (td_forced_env tool)"
    and k: "protected_name tool k" "CHR ''='' \<notin> set k"
    and order: "mset l1 = mset m1" "mset l2 = mset m2"
  shows "tool_getenv (env_slice l1) k = tool_getenv (env_slice l2) k \<and> sec1 = sec2"
proof -
  from b1 obtain m0 f1 s1 where
    l: "tool_env_loop resolve cfg (td_env tool) (base_env s u) [] sec0 = Inr (m0, f1, s1)"
    by (auto simp: buildEnvironment_def split: sum.splits)
  let ?f = "map fst (td_forced_env tool) @ f1"
  let ?K = "\<lambda>k. \<not> request_env_allowed tool ?f k"
  have K: "?K k" using k(1) forced_names [OF l] by (auto simp: protected_name_def request_env_allowed_def)
  have pl2: "plain_keys (pr_env (req\<lparr>pr_env := env'\<rparr>))" using plain(2) by simp
  note x1 = built_env [OF b1 l plain(1,3,4) refl] and x2 = built_env [OF b2 l pl2 plain(3,4) refl]
  from add_proxy_agree [OF x1 [THEN conjunct2] x2 [THEN conjunct2] agree_part x1 [THEN conjunct1] x2 [THEN conjunct1]]
  have r: "agree_on ?K m1 m2" "sec1 = sec2" "env_ok m1" "env_ok m2" by simp_all
  show ?thesis using tool_sees_map [OF r(3) order(1) k(2)] tool_sees_map [OF r(4) order(2) k(2)] r(1,2) K by (simp add: agree_on_def)
qed

definition sample_tool :: ToolDef where
  "sample_tool = zero_tool\<lparr>td_binary := ''/bin/gh'', td_forced_env := [(''TOKEN'', ''real'')]\<rparr>"

definition env_request :: "envmap \<Rightarrow> ProxyRequest" where
  "env_request e = zero_ProxyRequest\<lparr>pr_env := e\<rparr>"

theorem request_env_confined_witness:
  "\<exists>m1 m2 sec. buildEnvironment (sample_sys [] (\<lambda>_. Cmd_Deadline)) None (\<lambda>_ _. Inl ()) zero_config sample_tool
        (env_request [(''TOKEN'', ''evil''), (''LANG'', ''C'')]) [] [] [] = Inr (m1, sec) \<and>
     buildEnvironment (sample_sys [] (\<lambda>_. Cmd_Deadline)) None (\<lambda>_ _. Inl ()) zero_config sample_tool
        (env_request []) [] [] [] = Inr (m2, sec) \<and>
     tool_getenv (env_slice m1) ''TOKEN'' = tool_getenv (env_slice m2) ''TOKEN''"
proof -
  let ?s = "sample_sys [] (\<lambda>_. Cmd_Deadline)"
  let ?b = "\<lambda>r. buildEnvironment ?s None (\<lambda>_ _. Inl ()) zero_config sample_tool r [] [] []"
  let ?e = "[(''TOKEN'', ''evil''), (''LANG'', ''C'')]"
  have i: "\<not> isl (?b (env_request ?e))" "\<not> isl (?b ((env_request ?e)\<lparr>pr_env := []\<rparr>))" by code_simp+
  obtain m1 s1 where b1: "?b (env_request ?e) = Inr (m1, s1)" using i(1) by (metis isl_def obj_sumE surj_pair)
  obtain m2 s2 where b2: "?b ((env_request ?e)\<lparr>pr_env := []\<rparr>) = Inr (m2, s2)" using i(2) by (metis isl_def obj_sumE surj_pair)
  have p: "plain_keys (pr_env (env_request ?e))" "plain_keys []" "plain_keys (td_env sample_tool)" "plain_keys (td_forced_env sample_tool)"
    by (simp_all add: plain_keys_def env_request_def sample_tool_def zero_tool_def)
  have k: "protected_name sample_tool ''TOKEN''" "CHR ''='' \<notin> set ''TOKEN''" by (simp_all add: protected_name_def sample_tool_def)
  from request_env_confined [OF b1 b2 p k refl refl] b1 b2 show ?thesis by (auto simp: env_request_def)
qed

text \<open>
  An equals sign in a request's name defeats the three tests, which compare whole names: the entry it
  makes is read as one for the name before the sign, also when that is refused or set by the
  configuration, and depending on the order it is the one the tool sees.
\<close>

lemma equals_sign_defeats_env_rules:
  "request_env_allowed sample_tool [''TOKEN''] ''TOKEN=evil'' \<and> \<not> isDeniedEnvVar ''BASH_ENV=/tmp/x'' \<and>
   tool_getenv (env_slice [(''TOKEN'', ''real''), (''TOKEN=evil'', [])]) ''TOKEN'' = Some ''evil='' \<and>
   tool_getenv (env_slice [(''BASH_ENV=/tmp/x'', [])]) ''BASH_ENV'' = Some ''/tmp/x=''"
  by (intro conjI) code_simp+

section \<open>Every injected value is kept for redaction\<close>

lemma config_values_kept:
  "config_values resolve cfg i ns m sec = Inr (m', sec') \<Longrightarrow>
   set sec \<subseteq> set sec' \<and> (\<forall>v. v \<in> snd ` set m' \<longrightarrow> v \<in> snd ` set m \<or> v \<in> set sec')"
proof (induction resolve cfg i ns m sec rule: config_values.induct)
  case (2 resolve cfg i n ns m sec)
  then obtain v where v: "resolve_at resolve cfg (At_Config i) n = Inr v" "config_values resolve cfg (Suc i) ns (map_set n v m) (sec @ [v]) = Inr (m', sec')"
    by (auto split: sum.splits)
  have "snd ` set (map_set n v m) \<subseteq> insert v (snd ` set m)" by (auto simp: map_set_def)
  with 2(1) [OF v] show ?case by (simp add: subset_iff) blast
qed simp

lemma tool_env_kept:
  assumes "tool_env_loop resolve cfg es m f sec = Inr (m', f', sec')"
  shows "set sec \<subseteq> set sec' \<and> (\<forall>(var, value) \<in> set es. \<forall>n \<in> set (used_names value (CredentialNamesSet (c_credentials cfg))).
     \<forall>v. resolve_at resolve cfg (At_Env var) n = Inr v \<longrightarrow> v \<in> set sec')"
  using assms
proof (induction resolve cfg es m f sec rule: tool_env_loop.induct)
  case (2 resolve cfg var val rest m f sec)
  let ?names = "CredentialNamesSet (c_credentials cfg)" and ?r = "resolve_at resolve cfg (At_Env var)"
  from 2(2) obtain res where res: "ResolveEnvValue val ?names ?r = Inr res"
    and l: "tool_env_loop resolve cfg rest (map_set var res m) (var # f) (sec @ used_values ?r (used_names val ?names)) = Inr (m', f', sec')"
    by (auto simp: Let_def split: sum.splits)
  note ih = 2(1) [OF refl refl res l]
  have "v \<in> set sec'" if n: "n \<in> set (used_names val ?names)" "?r n = Inr v" for n v
  proof -
    have "v \<in> set (used_values ?r (used_names val ?names))" using n by (force simp: used_values_def List.map_filter_def)
    with ih show ?thesis by auto
  qed
  with ih show ?case by auto
qed simp

lemma built_env_kept:
  assumes "buildEnvironment s u resolve cfg tool req dir tok sec0 = Inr (m, sec)"
  shows "set sec0 \<subseteq> set sec \<and>
    (\<forall>(var, value) \<in> set (td_env tool). \<forall>n \<in> set (used_names value (CredentialNamesSet (c_credentials cfg))).
       \<forall>v. resolve_at resolve cfg (At_Env var) n = Inr v \<longrightarrow> v \<in> set sec) \<and>
    (td_use_proxy tool \<and> GetHTTPProxyEnabled cfg \<and> GetHTTPProxyRequireAuth cfg \<longrightarrow> tok \<in> set sec)"
proof -
  from assms obtain m1 f1 sec1 where l: "tool_env_loop resolve cfg (td_env tool) (base_env s u) [] sec0 = Inr (m1, f1, sec1)"
    by (auto simp: buildEnvironment_def split: sum.splits)
  have "set sec1 \<subseteq> set sec \<and> (td_use_proxy tool \<and> GetHTTPProxyEnabled cfg \<and> GetHTTPProxyRequireAuth cfg \<longrightarrow> tok \<in> set sec)"
    using assms l by (auto simp: buildEnvironment_def add_proxy_def Let_def case_prod_beta split: if_splits sum.splits)
  with tool_env_kept [OF l] show ?thesis by fastforce
qed

end
