(* ===== verification/Executor.thy ===== *)
theory Executor
  imports Tool_Env OutputBuf Framing Audit_Log Hmac Go_Time
begin

text \<open>
  \<open>internal/daemon/executor.go\<close>: one run of a tool. Everything before the process is started is the
  function \<open>run_start\<close>; from then on the output pumpers, the reader of the caller's messages, the waiter
  and the timer run side by side, and a run is a sequence of events, each of which is one critical
  section of one of them (\<open>exec_do\<close>). The outcome of every system call is part of the event.
\<close>

section \<open>State\<close>

datatype unix_signal = SIGINT | SIGTERM | SIGHUP | SIGKILL

record ToolExecutor =
  ex_req :: ProxyRequest
  ex_tool :: ToolDef
  ex_cfg :: Config
  ex_timeout :: duration
  ex_threshold :: int
  ex_max_out :: int
  ex_read_to :: duration
  ex_write_to :: duration
  ex_msg_size :: int
  ex_token :: string
  ex_logger :: Logger
  ex_caller_pid :: int
  ex_caller_exe :: string
  ex_start :: time
  ex_config_dir :: string
  ex_work_dir :: string
  ex_secrets :: "string list"
  ex_use_pty :: bool
  ex_pgid :: int
  ex_stdin :: bool \<comment> \<open>\<open>stdinPipe\<close> is not nil\<close>
  ex_stdin_closed :: bool
  ex_stdoutR :: bool \<comment> \<open>the read ends of the output pipes are open\<close>
  ex_stderrR :: bool
  ex_stdout_buf :: "OutputBuffer option"
  ex_stderr_buf :: "OutputBuffer option"
  ex_pty_buf :: "OutputBuffer option"
  ex_pty_master :: bool
  ex_draining :: bool

text \<open>What a run does to the world: messages and files, what the tool reads, signals, commands, the audit log.\<close>

record exec_world =
  xw_out :: out_world
  xw_stdin :: bytes
  xw_winsize :: "(int \<times> int) option"
  xw_kills :: "(int \<times> unix_signal) list"
  xw_started :: "(string \<times> string list \<times> string \<times> string list) list" \<comment> \<open>binary, arguments, directory, environment\<close>
  xw_audit :: audit_world

text \<open>The error is \<open>%q\<close> of a tool name, which has no character to escape.\<close>

definition NewToolExecutor ::
  "ProxyRequest \<Rightarrow> ToolDef \<Rightarrow> Config \<Rightarrow> string \<Rightarrow> Logger \<Rightarrow> int \<Rightarrow> string \<Rightarrow> string + ToolExecutor" where
  "NewToolExecutor req tool cfg proxyAuthToken logger callerPID callerExe =
     (if td_use_proxy tool \<and> GetHTTPProxyEnabled cfg \<and> GetHTTPProxyRequireAuth cfg \<and> proxyAuthToken = []
      then Inl (''proxy auth token required for tool '' @ [DQUOTE] @ pr_tool req @ [DQUOTE] @ '' with use_proxy enabled'')
      else Inr \<lparr>ex_req = req, ex_tool = tool, ex_cfg = cfg, ex_timeout = tool_GetTimeout tool (GetTimeout cfg),
                ex_threshold = GetInlineThreshold cfg, ex_max_out = GetMaxOutputSize cfg, ex_read_to = GetReadMessageTimeout cfg,
                ex_write_to = GetWriteTimeout cfg, ex_msg_size = GetMaxStdinMessageSize cfg, ex_token = proxyAuthToken,
                ex_logger = logger, ex_caller_pid = callerPID, ex_caller_exe = callerExe, ex_start = zero_time,
                ex_config_dir = [], ex_work_dir = [], ex_secrets = [], ex_use_pty = False, ex_pgid = 0, ex_stdin = False,
                ex_stdin_closed = False, ex_stdoutR = False, ex_stderrR = False, ex_stdout_buf = None, ex_stderr_buf = None, ex_pty_buf = None, ex_pty_master = False,
                ex_draining = False\<rparr>)"

section \<open>Messages and signals\<close>

definition sendMessage :: "bool \<Rightarrow> ResponseMessage \<Rightarrow> exec_world \<Rightarrow> exec_world" where
  "sendMessage ok m w =
     (if ok then w\<lparr>xw_out := (xw_out w)\<lparr>ow_sent := ow_sent (xw_out w) @ [m]\<rparr>\<rparr> else w)"

definition exec_sendError :: "bool \<Rightarrow> string \<Rightarrow> exec_world \<Rightarrow> exec_world" where
  "exec_sendError ok message w = sendMessage ok (empty_response\<lparr>rm_type := MsgTypeError, rm_message := message\<rparr>) w"

definition sendDone :: "bool \<Rightarrow> int \<Rightarrow> bool \<Rightarrow> exec_world \<Rightarrow> exec_world" where
  "sendDone ok exitCode timeout w =
     sendMessage ok (empty_response\<lparr>rm_type := MsgTypeDone, rm_exit_code := exitCode, rm_timeout := timeout\<rparr>) w"

definition killProcessGroup :: "ToolExecutor \<Rightarrow> unix_signal \<Rightarrow> exec_world \<Rightarrow> exec_world" where
  "killProcessGroup e sig w = (if ex_pgid e = 0 then w else w\<lparr>xw_kills := xw_kills w @ [(- ex_pgid e, sig)]\<rparr>)"

definition signal_of :: "string \<Rightarrow> unix_signal option" where
  "signal_of sig =
     (if sig = ''SIGINT'' then Some SIGINT else if sig = ''SIGTERM'' then Some SIGTERM
      else if sig = ''SIGHUP'' then Some SIGHUP else None)"

datatype handle_error =
    Invalid_Signal string | Unhandled_Signal string | Close_Stdin | Decode_Stdin | Write_Stdin | Write_Pty | Set_Winsize

definition forwardSignal :: "ToolExecutor \<Rightarrow> string \<Rightarrow> exec_world \<Rightarrow> handle_error option \<times> exec_world" where
  "forwardSignal e sig w =
     (if sig \<notin> set ValidSignals then (Some (Invalid_Signal sig), w)
      else case signal_of sig of
        None \<Rightarrow> (Some (Unhandled_Signal sig), w)
      | Some s \<Rightarrow> (None, killProcessGroup e s w))"

text \<open>The first argument: whether the system call a message leads to succeeds.\<close>

definition handleWrapperMessage ::
  "bool \<Rightarrow> WrapperMessage \<Rightarrow> ToolExecutor \<Rightarrow> exec_world \<Rightarrow> handle_error option \<times> ToolExecutor \<times> exec_world" where
  "handleWrapperMessage io m e w =
     (if wm_type m = MsgTypeStdin then
        if wm_eof m then
          if ex_stdin e then
            (if io then (None, e\<lparr>ex_stdin := False, ex_stdin_closed := True\<rparr>, w) else (Some Close_Stdin, e, w))
          else (None, e, w)
        else (case b64_decode StdEncoding (wm_data m) of
                None \<Rightarrow> (Some Decode_Stdin, e, w)
              | Some d \<Rightarrow>
                  if ex_stdin e then
                    (if io \<and> \<not> ex_stdin_closed e then (None, e, w\<lparr>xw_stdin := xw_stdin w @ d\<rparr>) else (Some Write_Stdin, e, w))
                  else (None, e, w))
      else if wm_type m = MsgTypeSignal then (let (r, w') = forwardSignal e (wm_signal m) w in (r, e, w'))
      else (None, e, w))"

definition handlePTYWrapperMessage ::
  "bool \<Rightarrow> WrapperMessage \<Rightarrow> ToolExecutor \<Rightarrow> exec_world \<Rightarrow> handle_error option \<times> ToolExecutor \<times> exec_world" where
  "handlePTYWrapperMessage io m e w =
     (if wm_type m = MsgTypeStdin then
        if wm_eof m then (None, e, w)
        else (case b64_decode StdEncoding (wm_data m) of
                None \<Rightarrow> (Some Decode_Stdin, e, w)
              | Some d \<Rightarrow> if io then (None, e, w\<lparr>xw_stdin := xw_stdin w @ d\<rparr>) else (Some Write_Pty, e, w))
      else if wm_type m = MsgTypeSignal then (let (r, w') = forwardSignal e (wm_signal m) w in (r, e, w'))
      else if wm_type m = MsgTypeWinSize then
        (if io then (None, e, w\<lparr>xw_winsize := Some (wm_rows m, wm_cols m)\<rparr>) else (Some Set_Winsize, e, w))
      else (None, e, w))"

section \<open>Starting\<close>

definition audit_hash_on :: "Config \<Rightarrow> bool" where
  "audit_hash_on cfg =
     (case GetAuditConfig (Some cfg) of None \<Rightarrow> False | Some a \<Rightarrow> au_enabled a \<and> GetIncludeOutputHash a)"

definition new_stream :: "ToolExecutor \<Rightarrow> string \<Rightarrow> int \<Rightarrow> OutputBuffer" where
  "new_stream e stream threshold =
     (let b = NewOutputBuffer stream threshold (ex_max_out e);
          b' = SetRedactor b (NewOutputRedactorWithSecrets (td_redact_output (ex_tool e)) (ex_secrets e))
      in if audit_hash_on (ex_cfg e) then SetTee b' [] else b')"

record start_env =
  se_stdout_pipe :: bool
  se_stderr_pipe :: bool
  se_stdin_pipe :: bool
  se_start :: "int option" \<comment> \<open>the process id\<close>

datatype start_failure = Stdout_Pipe | Stderr_Pipe | Stdin_Pipe | Start_Failed | Pty_Start

definition command_of :: "ToolExecutor \<Rightarrow> string list \<Rightarrow> string \<times> string list \<times> string \<times> string list" where
  "command_of e env = (td_binary (ex_tool e), nil_slice (pr_args (ex_req e)), ex_work_dir e, env)"

definition startProcessWithPTY ::
  "start_env \<Rightarrow> string list \<Rightarrow> ToolExecutor \<Rightarrow> exec_world \<Rightarrow> start_failure option \<times> ToolExecutor \<times> exec_world" where
  "startProcessWithPTY se env e w =
     (case se_start se of
        None \<Rightarrow> (Some Pty_Start, e, w)
      | Some pid \<Rightarrow>
          (None, e\<lparr>ex_pty_master := True, ex_pgid := pid, ex_pty_buf := Some (new_stream e ''stdout'' 0)\<rparr>,
           w\<lparr>xw_started := xw_started w @ [command_of e env],
             xw_winsize := map_option (\<lambda>ws. (ws_rows ws, ws_cols ws)) (pr_window_size (ex_req e))\<rparr>))"

definition startProcess ::
  "start_env \<Rightarrow> string list \<Rightarrow> ToolExecutor \<Rightarrow> exec_world \<Rightarrow> start_failure option \<times> ToolExecutor \<times> exec_world" where
  "startProcess se env e0 w =
     (let e = e0\<lparr>ex_use_pty := (pr_use_pty (ex_req e0) \<and> GetUsePTY (ex_tool e0))\<rparr>
      in if ex_use_pty e then startProcessWithPTY se env e w
         else if \<not> se_stdout_pipe se then (Some Stdout_Pipe, e, w)
         else if \<not> se_stderr_pipe se then (Some Stderr_Pipe, e, w)
         else if GetUseStdin (ex_tool e) \<and> \<not> se_stdin_pipe se
         then (Some Stdin_Pipe, e\<lparr>ex_stdoutR := True, ex_stderrR := True\<rparr>, w)
         else let e1 = e\<lparr>ex_stdoutR := True, ex_stderrR := True, ex_stdin := GetUseStdin (ex_tool e), ex_stdout_buf := Some (new_stream e ''stdout'' (ex_threshold e)),
                         ex_stderr_buf := Some (new_stream e ''stderr'' (ex_threshold e))\<rparr>
              in case se_start se of
                   None \<Rightarrow> (Some Start_Failed, e1, w)
                 | Some pid \<Rightarrow> (None, e1\<lparr>ex_pgid := pid\<rparr>, w\<lparr>xw_started := xw_started w @ [command_of e env]\<rparr>))"

record 'e run_env =
  rn_now :: time
  rn_sys :: sys
  rn_user :: "(string \<times> string) option"
  rn_dir_missing :: bool
  rn_config :: config_env
  rn_resolve :: "'e site_resolver"
  rn_order :: "envmap \<Rightarrow> envmap" \<comment> \<open>the iteration order of the environment map\<close>
  rn_start :: start_env
  rn_send_ok :: bool
  rn_stuck :: "string list" \<comment> \<open>the files \<open>cleanup\<close> fails to remove\<close>

datatype 'e run_error =
    Relative_Dir string | Dir_Missing string | Run_Config "'e config_file_error" | Run_Env "'e build_error" | Run_Start start_failure

definition config_written :: "(string \<times> string) option \<Rightarrow> exec_world \<Rightarrow> exec_world" where
  "config_written cfile w =
     (case cfile of None \<Rightarrow> w
      | Some (p, c) \<Rightarrow> w\<lparr>xw_out := (xw_out w)\<lparr>ow_files := map_set p c (ow_files (xw_out w))\<rparr>\<rparr>)"

definition run_dir :: "ToolExecutor \<Rightarrow> string" where
  "run_dir e = (if td_working_dir (ex_tool e) \<noteq> [] then td_working_dir (ex_tool e) else pr_cwd (ex_req e))"

text \<open>\<open>Run\<close> up to the running process.\<close>

definition run_start ::
  "'e run_env \<Rightarrow> ToolExecutor \<Rightarrow> exec_world \<Rightarrow> 'e run_error option \<times> ToolExecutor \<times> exec_world" where
  "run_start r e0 w =
     (let dir = run_dir e0;
          e1 = e0\<lparr>ex_start := rn_now r, ex_work_dir := dir\<rparr>
      in if \<not> is_abs dir then (Some (Relative_Dir dir), e1, exec_sendError (rn_send_ok r) ''invalid working directory'' w)
         else if rn_dir_missing r then (Some (Dir_Missing dir), e1, exec_sendError (rn_send_ok r) ''invalid working directory'' w)
         else case setupConfigFile (rn_config r) (rn_resolve r) (ex_cfg e1) (ex_tool e1) of
           (cerr, cdir, cfile, csecrets) \<Rightarrow>
             let e2 = e1\<lparr>ex_config_dir := cdir, ex_secrets := ex_secrets e1 @ csecrets\<rparr>;
                 w2 = config_written cfile w
             in case cerr of
                  Some x \<Rightarrow> (Some (Run_Config x), e2, exec_sendError (rn_send_ok r) ''internal error'' w2)
                | None \<Rightarrow>
                    (case buildEnvironment (rn_sys r) (rn_user r) (rn_resolve r) (ex_cfg e2) (ex_tool e2) (ex_req e2)
                            (ex_config_dir e2) (ex_token e2) (ex_secrets e2) of
                       Inl x \<Rightarrow> (Some (Run_Env x), e2, exec_sendError (rn_send_ok r) ''internal error'' w2)
                     | Inr (m, secrets) \<Rightarrow>
                         (case startProcess (rn_start r) (env_slice (rn_order r m)) (e2\<lparr>ex_secrets := secrets\<rparr>) w2 of
                            (Some x, e3, w3) \<Rightarrow> (Some (Run_Start x), e3, exec_sendError (rn_send_ok r) ''failed to start tool'' w3)
                          | (None, e3, w3) \<Rightarrow> (None, e3, w3))))"

section \<open>The end of a run\<close>

text \<open>\<open>streamFile\<close> sends a file in pieces of 32 KiB; the first argument is the piece at which a read or a send fails.\<close>

function pieces :: "nat \<Rightarrow> bytes \<Rightarrow> bytes list" where
  "pieces n d = (if d = [] \<or> n = 0 then [] else take n d # pieces n (drop n d))"
  by pat_completeness auto
termination
  by (relation "measure (\<lambda>(n, d). length d)") auto

declare pieces.simps [simp del]

record stream_env =
  sv_open :: bool
  sv_fail :: "nat option"

datatype final_error = Finalize_Error ob_error | Stream_Open | Stream_Piece

definition streamFile :: "stream_env \<Rightarrow> string \<Rightarrow> string \<Rightarrow> out_world \<Rightarrow> final_error option \<times> out_world" where
  "streamFile sv path streamType w =
     (case map_of (ow_files w) path of
        None \<Rightarrow> (Some Stream_Open, w)
      | Some content \<Rightarrow>
          if \<not> sv_open sv then (Some Stream_Open, w)
          else let ps = pieces 32768 content;
                   sent = (case sv_fail sv of None \<Rightarrow> ps | Some n \<Rightarrow> take n ps);
                   msg = (\<lambda>d. empty_response\<lparr>rm_type := streamType, rm_data := b64_encode StdEncoding d\<rparr>)
               in (case sv_fail sv of None \<Rightarrow> None | Some n \<Rightarrow> Some Stream_Piece, w\<lparr>ow_sent := ow_sent w @ map msg sent\<rparr>))"

record final_env =
  fn_write :: write_env
  fn_close :: bool
  fn_stream :: stream_env
  fn_remove :: bool

definition finalizeStream ::
  "final_env \<Rightarrow> OutputBuffer option \<Rightarrow> string \<Rightarrow> out_world \<Rightarrow> final_error option \<times> OutputBuffer option \<times> out_world" where
  "finalizeStream f bo streamType w =
     (case bo of
        None \<Rightarrow> (None, None, w)
      | Some b \<Rightarrow>
        (case Finalize (fn_write f) (fn_close f) b w of
           (Inl x, b', w') \<Rightarrow> (Some (Finalize_Error x), Some b', w')
         | (Inr path, b', w') \<Rightarrow>
             if path = [] then (None, Some b', w')
             else case streamFile (fn_stream f) path streamType w' of
               (Some x, w'') \<Rightarrow> (Some x, Some b', w'')
             | (None, w'') \<Rightarrow>
                 (None, Some b', if fn_remove f then w''\<lparr>ow_files := map_del path (ow_files w'')\<rparr> else w'')))"

definition finalizeOutput :: "final_env \<Rightarrow> final_env \<Rightarrow> ToolExecutor \<Rightarrow> out_world \<Rightarrow> ToolExecutor \<times> out_world" where
  "finalizeOutput f1 f2 e w =
     (if ex_use_pty e then
        (let (x, b, w1) = finalizeStream f1 (ex_pty_buf e) MsgTypeStdout w in (e\<lparr>ex_pty_buf := b\<rparr>, w1))
      else let (x1, b1, w1) = finalizeStream f1 (ex_stdout_buf e) MsgTypeStdout w;
               (x2, b2, w2) = finalizeStream f2 (ex_stderr_buf e) MsgTypeStderr w1
           in (e\<lparr>ex_stdout_buf := b1, ex_stderr_buf := b2\<rparr>, w2))"

definition hex_string :: "bytes \<Rightarrow> string" where
  "hex_string b = concat (map (\<lambda>c. [hex_digit (char_code c div 16), hex_digit (char_code c mod 16)]) b)"

definition buf_accumulated :: "OutputBuffer option \<Rightarrow> int" where
  "buf_accumulated bo = (case bo of None \<Rightarrow> 0 | Some b \<Rightarrow> Accumulated b)"

definition buf_hash :: "OutputBuffer option \<Rightarrow> bytes option" where
  "buf_hash bo = (case bo of None \<Rightarrow> None | Some b \<Rightarrow> map_option sha256 (ob_tee b))"

definition output_hash :: "ToolExecutor \<Rightarrow> string" where
  "output_hash e =
     (case (if ex_use_pty e then buf_hash (ex_pty_buf e) else None) of
        Some h \<Rightarrow> ''sha256:'' @ hex_string h
      | None \<Rightarrow>
        (case buf_hash (ex_stdout_buf e) of
           None \<Rightarrow> []
         | Some h \<Rightarrow>
             ''sha256:'' @ hex_string (sha256 (h @ (case buf_hash (ex_stderr_buf e) of None \<Rightarrow> [] | Some h' \<Rightarrow> h')))))"

definition audit_entry :: "AuditConfig \<Rightarrow> time \<Rightarrow> int \<Rightarrow> bool \<Rightarrow> ToolExecutor \<Rightarrow> Entry" where
  "audit_entry a now exitCode timeout e =
     \<lparr>en_timestamp = format_rfc3339 (ex_start e), en_tool = pr_tool (ex_req e),
      en_args = (if GetIncludeArgs a then nil_slice (pr_args (ex_req e)) else []), en_cwd = ex_work_dir e,
      en_caller_pid = ex_caller_pid e, en_caller_exe = ex_caller_exe e, en_exit_code = exitCode, en_timeout = timeout,
      en_duration_ms = (if GetIncludeDuration a then (now - ex_start e) div 1000000 else 0),
      en_output_hash = (if GetIncludeOutputHash a then output_hash e else []),
      en_output_bytes = (if ex_use_pty e \<and> ex_pty_buf e \<noteq> None then buf_accumulated (ex_pty_buf e)
                         else wrap64 (buf_accumulated (ex_stdout_buf e) + buf_accumulated (ex_stderr_buf e)))\<rparr>"

definition emitAuditEntry ::
  "(sink \<Rightarrow> nat option) \<Rightarrow> time \<Rightarrow> int \<Rightarrow> bool \<Rightarrow> ToolExecutor \<Rightarrow> exec_world \<Rightarrow> exec_world" where
  "emitAuditEntry oc now exitCode timeout e w =
     (case GetAuditConfig (Some (ex_cfg e)) of
        None \<Rightarrow> w
      | Some a \<Rightarrow>
          if \<not> au_enabled a then w
          else w\<lparr>xw_audit := snd (Log oc (ex_logger e) (audit_entry a now exitCode timeout e) (xw_audit w))\<rparr>)"

definition clean_buffer :: "string list \<Rightarrow> OutputBuffer option \<Rightarrow> out_world \<Rightarrow> OutputBuffer option \<times> out_world" where
  "clean_buffer stuck bo w =
     (case bo of None \<Rightarrow> (None, w) | Some b \<Rightarrow> (let (b', w') = OB_Cleanup stuck b w in (Some b', w')))"

text \<open>\<open>os.RemoveAll\<close>, which goes on after a file it cannot remove and leaves that file.\<close>

definition remove_all :: "string list \<Rightarrow> string \<Rightarrow> out_world \<Rightarrow> out_world" where
  "remove_all stuck dir w =
     w\<lparr>ow_files := filter (\<lambda>(p, _). p \<in> set stuck \<or> p \<noteq> dir \<and> \<not> has_prefix p (dir @ ''/'')) (ow_files w)\<rparr>"

text \<open>
  The errors of \<open>Close\<close>, \<open>Remove\<close> and \<open>RemoveAll\<close> are dropped or only logged: \<open>stuck\<close> are the files
  that stay for that reason.
\<close>

definition cleanup :: "string list \<Rightarrow> ToolExecutor \<Rightarrow> exec_world \<Rightarrow> ToolExecutor \<times> exec_world" where
  "cleanup stuck e w =
     (let e1 = e\<lparr>ex_stdin := False, ex_stdin_closed := (ex_stdin_closed e \<or> ex_stdin e), ex_stdoutR := False,
                 ex_stderrR := False, ex_pty_master := False\<rparr>;
          w1 = killProcessGroup e1 SIGKILL w;
          (bo, o1) = clean_buffer stuck (ex_stdout_buf e1) (xw_out w1);
          (be, o2) = clean_buffer stuck (ex_stderr_buf e1) o1;
          (bp, o3) = clean_buffer stuck (ex_pty_buf e1) o2;
          o4 = (if ex_config_dir e1 \<noteq> [] then remove_all stuck (ex_config_dir e1) o3 else o3)
      in (e1\<lparr>ex_stdout_buf := bo, ex_stderr_buf := be, ex_pty_buf := bp\<rparr>, w1\<lparr>xw_out := o4\<rparr>))"

section \<open>The running tool\<close>

datatype stream = Stdout | Stderr | Pty

datatype phase = Running | Exited int | Terminating | Finished | Cleaned

record exec_state =
  xs_ex :: ToolExecutor
  xs_world :: exec_world
  xs_phase :: phase
  xs_pumping :: "stream list"
  xs_reading :: bool

definition started_state :: "ToolExecutor \<Rightarrow> exec_world \<Rightarrow> exec_state" where
  "started_state e w =
     \<lparr>xs_ex = e, xs_world = w, xs_phase = Running, xs_pumping = (if ex_use_pty e then [Pty] else [Stdout, Stderr]), xs_reading = True\<rparr>"

primrec stream_buf :: "stream \<Rightarrow> ToolExecutor \<Rightarrow> OutputBuffer option" where
  "stream_buf Stdout e = ex_stdout_buf e"
| "stream_buf Stderr e = ex_stderr_buf e"
| "stream_buf Pty e = ex_pty_buf e"

primrec set_stream_buf :: "stream \<Rightarrow> OutputBuffer \<Rightarrow> ToolExecutor \<Rightarrow> ToolExecutor" where
  "set_stream_buf Stdout b e = e\<lparr>ex_stdout_buf := Some b\<rparr>"
| "set_stream_buf Stderr b e = e\<lparr>ex_stderr_buf := Some b\<rparr>"
| "set_stream_buf Pty b e = e\<lparr>ex_pty_buf := Some b\<rparr>"

text \<open>One turn of a pumper: a chunk is written; at the size limit the process group is killed and the pumper ends.\<close>

definition pump_chunk :: "stream \<Rightarrow> write_env \<Rightarrow> bytes \<Rightarrow> exec_state \<Rightarrow> exec_state" where
  "pump_chunk s we d st =
     (case stream_buf s (xs_ex st) of
        None \<Rightarrow> st
      | Some b \<Rightarrow>
          let (err, b', o') = OB_Write we b (xw_out (xs_world st)) d;
              st' = st\<lparr>xs_ex := set_stream_buf s b' (xs_ex st), xs_world := (xs_world st)\<lparr>xw_out := o'\<rparr>\<rparr>
          in if err = Some ErrOutputLimitExceeded
             then st'\<lparr>xs_world := killProcessGroup (xs_ex st') SIGKILL (xs_world st'), xs_pumping := remove1 s (xs_pumping st')\<rparr>
             else st')"

definition stdoutPumper :: "write_env \<Rightarrow> bytes \<Rightarrow> exec_state \<Rightarrow> exec_state" where
  "stdoutPumper = pump_chunk Stdout"

definition stderrPumper :: "write_env \<Rightarrow> bytes \<Rightarrow> exec_state \<Rightarrow> exec_state" where
  "stderrPumper = pump_chunk Stderr"

definition ptyOutputPumper :: "write_env \<Rightarrow> bytes \<Rightarrow> exec_state \<Rightarrow> exec_state" where
  "ptyOutputPumper = pump_chunk Pty"

primrec pumper :: "stream \<Rightarrow> write_env \<Rightarrow> bytes \<Rightarrow> exec_state \<Rightarrow> exec_state" where
  "pumper Stdout = stdoutPumper"
| "pumper Stderr = stderrPumper"
| "pumper Pty = ptyOutputPumper"

lemma pumper_chunk [simp]: "pumper s = pump_chunk s"
  by (cases s) (simp_all add: stdoutPumper_def stderrPumper_def ptyOutputPumper_def)

text \<open>
  One turn of the reader of the caller's messages: a message and the outcome of the call it leads to, or
  \<open>None\<close> when the read fails, which ends the reader and in pipe mode closes the tool's input.
\<close>

definition stdinPumper :: "(bool \<times> WrapperMessage) option \<Rightarrow> exec_state \<Rightarrow> exec_state" where
  "stdinPumper r st =
     (case r of
        None \<Rightarrow> st\<lparr>xs_reading := False,
                 xs_ex := (if ex_stdin (xs_ex st) then (xs_ex st)\<lparr>ex_stdin_closed := True\<rparr> else xs_ex st)\<rparr>
      | Some (io, m) \<Rightarrow>
          (let (x, e, w) = handleWrapperMessage io m (xs_ex st) (xs_world st) in st\<lparr>xs_ex := e, xs_world := w\<rparr>))"

definition ptyInputPumper :: "(bool \<times> WrapperMessage) option \<Rightarrow> exec_state \<Rightarrow> exec_state" where
  "ptyInputPumper r st =
     (case r of
        None \<Rightarrow> st\<lparr>xs_reading := False\<rparr>
      | Some (io, m) \<Rightarrow>
          (let (x, e, w) = handlePTYWrapperMessage io m (xs_ex st) (xs_world st) in st\<lparr>xs_ex := e, xs_world := w\<rparr>))"

text \<open>What the end of a run meets: the outcomes for the two streams, the audit log, the clock, the last message.\<close>

record end_env =
  ed_first :: final_env
  ed_second :: final_env
  ed_audit :: "sink \<Rightarrow> nat option"
  ed_now :: time
  ed_send_ok :: bool

datatype exec_event =
    Chunk stream write_env bytes
  | Stream_End stream
  | Read_Message "(bool \<times> WrapperMessage) option"
  | Exit int
  | Wait_Failed bool
  | Complete end_env
  | Context_Kill
  | Deadline
  | Still_Running
  | Complete_Timeout end_env
  | Clean "string list"

text \<open>\<open>finalizeOutput\<close>, \<open>emitAuditEntry\<close> and \<open>sendDone\<close>, the common end of both paths.\<close>

definition finish :: "end_env \<Rightarrow> int \<Rightarrow> bool \<Rightarrow> exec_state \<Rightarrow> exec_state" where
  "finish ed exitCode timeout st =
     (let (e, o1) = finalizeOutput (ed_first ed) (ed_second ed) (xs_ex st) (xw_out (xs_world st));
          w1 = (xs_world st)\<lparr>xw_out := o1\<rparr>;
          w2 = emitAuditEntry (ed_audit ed) (ed_now ed) exitCode timeout e w1
      in st\<lparr>xs_ex := e, xs_world := sendDone (ed_send_ok ed) exitCode timeout w2, xs_phase := Finished\<rparr>)"

text \<open>From now on the pumpers read under an idle deadline; the deadline itself shows as an event \<open>Stream_End\<close>.\<close>

definition setOutputDrainDeadline :: "exec_state \<Rightarrow> exec_state" where
  "setOutputDrainDeadline st = st\<lparr>xs_ex := (xs_ex st)\<lparr>ex_draining := True\<rparr>\<rparr>"

text \<open>
  \<open>runIOLoop\<close>: the process has exited, or waiting for it failed otherwise; then the end, once the pumpers
  are done or five seconds have passed.
\<close>

definition runIOLoop_exit :: "int \<Rightarrow> exec_state \<Rightarrow> exec_state" where
  "runIOLoop_exit code st = setOutputDrainDeadline (st\<lparr>xs_phase := Exited code\<rparr>)"

definition runIOLoop_error :: "bool \<Rightarrow> exec_state \<Rightarrow> exec_state" where
  "runIOLoop_error ok st = st\<lparr>xs_world := exec_sendError ok ''process error'' (xs_world st), xs_phase := Finished\<rparr>"

definition runIOLoop_end :: "end_env \<Rightarrow> int \<Rightarrow> exec_state \<Rightarrow> exec_state" where
  "runIOLoop_end ed code st = finish ed code False st"

text \<open>\<open>handleTimeout\<close>: the polite signal, the forced one after five seconds, the end.\<close>

definition handleTimeout_term :: "exec_state \<Rightarrow> exec_state" where
  "handleTimeout_term st = st\<lparr>xs_world := killProcessGroup (xs_ex st) SIGTERM (xs_world st), xs_phase := Terminating\<rparr>"

definition handleTimeout_kill :: "exec_state \<Rightarrow> exec_state" where
  "handleTimeout_kill st = st\<lparr>xs_world := killProcessGroup (xs_ex st) SIGKILL (xs_world st)\<rparr>"

definition handleTimeout_end :: "end_env \<Rightarrow> exec_state \<Rightarrow> exec_state" where
  "handleTimeout_end ed st = finish ed (- 1) True (setOutputDrainDeadline st)"

text \<open>\<open>exec.CommandContext\<close>: once the deadline of the context has passed the library kills the process itself.\<close>

definition context_kill :: "exec_state \<Rightarrow> exec_state" where
  "context_kill st = st\<lparr>xs_world := (xs_world st)\<lparr>xw_kills := xw_kills (xs_world st) @ [(ex_pgid (xs_ex st), SIGKILL)]\<rparr>\<rparr>"

text \<open>
  One event, \<open>None\<close> where it cannot happen. The pumpers and the reader may go on after the end of the
  run, when they did not finish within the time they are given.
\<close>

fun exec_do :: "exec_event \<Rightarrow> exec_state \<Rightarrow> exec_state option" where
  "exec_do (Chunk s we d) st = (if s \<in> set (xs_pumping st) then Some (pumper s we d st) else None)"
| "exec_do (Stream_End s) st =
     (if s \<in> set (xs_pumping st) then Some (st\<lparr>xs_pumping := remove1 s (xs_pumping st)\<rparr>) else None)"
| "exec_do (Read_Message r) st =
     (if xs_reading st then Some (if ex_use_pty (xs_ex st) then ptyInputPumper r st else stdinPumper r st) else None)"
| "exec_do (Exit code) st = (if xs_phase st = Running then Some (runIOLoop_exit code st) else None)"
| "exec_do (Wait_Failed ok) st = (if xs_phase st = Running then Some (runIOLoop_error ok st) else None)"
| "exec_do (Complete ed) st = (case xs_phase st of Exited code \<Rightarrow> Some (runIOLoop_end ed code st) | _ \<Rightarrow> None)"
| "exec_do Context_Kill st = (if xs_phase st = Running \<or> xs_phase st = Terminating then Some (context_kill st) else None)"
| "exec_do Deadline st = (if xs_phase st = Running then Some (handleTimeout_term st) else None)"
| "exec_do Still_Running st = (if xs_phase st = Terminating then Some (handleTimeout_kill st) else None)"
| "exec_do (Complete_Timeout ed) st = (if xs_phase st = Terminating then Some (handleTimeout_end ed st) else None)"
| "exec_do (Clean stuck) st =
     (if xs_phase st = Finished
      then (let (e, w) = cleanup stuck (xs_ex st) (xs_world st) in Some (st\<lparr>xs_ex := e, xs_world := w, xs_phase := Cleaned\<rparr>)) else None)"

lemmas exec_parts = runIOLoop_exit_def runIOLoop_error_def runIOLoop_end_def handleTimeout_term_def handleTimeout_kill_def
  handleTimeout_end_def context_kill_def setOutputDrainDeadline_def

fun exec_run :: "exec_event list \<Rightarrow> exec_state \<Rightarrow> exec_state option" where
  "exec_run [] st = Some st"
| "exec_run (ev # evs) st = (case exec_do ev st of None \<Rightarrow> None | Some st' \<Rightarrow> exec_run evs st')"

lemma exec_run_append:
  "exec_run (evs @ fs) st = (case exec_run evs st of None \<Rightarrow> None | Some st' \<Rightarrow> exec_run fs st')"
  by (induction evs arbitrary: st) (simp_all split: option.splits)

text \<open>The same runs as a relation, for rule induction.\<close>

inductive exec_reach :: "exec_state \<Rightarrow> exec_event list \<Rightarrow> exec_state \<Rightarrow> bool" for s0 where
  start: "exec_reach s0 [] s0"
| step: "exec_reach s0 evs st \<Longrightarrow> exec_do ev st = Some st' \<Longrightarrow> exec_reach s0 (evs @ [ev]) st'"

lemma exec_reach_run: "exec_reach s0 evs st \<longleftrightarrow> exec_run evs s0 = Some st"
proof
  assume "exec_reach s0 evs st" then show "exec_run evs s0 = Some st"
    by induction (simp_all add: exec_run_append)
next
  show "exec_run evs s0 = Some st \<Longrightarrow> exec_reach s0 evs st"
  proof (induction evs arbitrary: st rule: rev_induct)
    case (snoc ev evs)
    then obtain st1 where "exec_run evs s0 = Some st1" "exec_do ev st1 = Some st"
      by (auto simp: exec_run_append split: option.splits)
    with snoc.IH show ?case by (blast intro: exec_reach.step)
  qed (simp add: exec_reach.start)
qed

text \<open>The whole of \<open>Run\<close>, with its deferred \<open>cleanup\<close>, for one sequence of events.\<close>

definition Run :: "'e run_env \<Rightarrow> exec_event list \<Rightarrow> ToolExecutor \<Rightarrow> exec_world \<Rightarrow> (ToolExecutor \<times> exec_world) option" where
  "Run r evs e0 w0 =
     (case run_start r e0 w0 of
        (Some x, e, w) \<Rightarrow> Some (cleanup (rn_stuck r) e w)
      | (None, e, w) \<Rightarrow> map_option (\<lambda>st. (xs_ex st, xs_world st)) (exec_run (evs @ [Clean (rn_stuck r)]) (started_state e w)))"

end
