(* ===== verification/Executor_Laws.thy ===== *)
theory Executor_Laws
  imports Executor
begin

text \<open>
  What holds of every run of a tool, in whatever order its concurrent parts take their turns: which
  messages it sends at its end, and how it starts.
\<close>

section \<open>Messages of a buffer\<close>

definition sends_only :: "string \<Rightarrow> out_world \<Rightarrow> out_world \<Rightarrow> bool" where
  "sends_only t w w' \<longleftrightarrow> (\<exists>ms. ow_sent w' = ow_sent w @ ms \<and> (\<forall>m \<in> set ms. rm_type m = t))"

lemma sends_only_refl [intro]: "ow_sent w' = ow_sent w \<Longrightarrow> sends_only t w w'"
  by (simp add: sends_only_def)

lemma sends_only_trans: "sends_only t w w' \<Longrightarrow> sends_only t w' w'' \<Longrightarrow> sends_only t w w''"
  unfolding sends_only_def by (metis Un_iff append.assoc set_append)

lemma append_file_sent [simp]: "ow_sent (append_file f d w) = ow_sent w"
  by (simp add: append_file_def split: option.splits)

lemma emit_sends: "emit_data e b w d = (err, b', w') \<Longrightarrow> sends_only (ob_stream b) w w' \<and> ob_stream b' = ob_stream b"
  by (auto simp: emit_data_def sends_only_def empty_response_def split: if_splits option.splits)

lemma switch_sends: "switchToFileMode e b w = (err, b', w') \<Longrightarrow> ow_sent w' = ow_sent w \<and> ob_stream b' = ob_stream b"
  by (auto simp: switchToFileMode_def split: if_splits option.splits)

lemma place_sends:
  assumes "place_data e b w d = (err, b', w')"
  shows "sends_only (ob_stream b) w w' \<and> ob_stream b' = ob_stream b"
proof -
  let ?sw = "if ob_inlineMode b \<and> ob_threshold b > 0 \<and> wrap64 (ob_accumulated b + int (length d)) > ob_threshold b
         then switchToFileMode e b w else (None, b, w)"
  obtain x b1 w1 where s: "?sw = (x, b1, w1)" by (metis surj_pair)
  have 1: "ow_sent w1 = ow_sent w" "ob_stream b1 = ob_stream b" using s switch_sends [of e b w] by (auto split: if_splits)
  show ?thesis
  proof (cases x)
    case None
    with assms s have "emit_data e b1 w1 d = (err, b', w')" by (simp add: place_data_def)
    from emit_sends [OF this] 1 show ?thesis by (simp add: sends_only_def)
  next
    case (Some y)
    with assms s 1 show ?thesis by (auto simp: place_data_def)
  qed
qed

lemma writeLocked_sends: "writeLocked e b w d = (err, b', w') \<Longrightarrow> sends_only (ob_stream b) w w' \<and> ob_stream b' = ob_stream b"
  by (auto simp: writeLocked_def split: if_splits dest: place_sends)

lemma write_sends: "OB_Write e b w d = (err, b', w') \<Longrightarrow> sends_only (ob_stream b) w w' \<and> ob_stream b' = ob_stream b"
  by (auto simp: OB_Write_def Let_def split: if_splits option.splits prod.splits dest: writeLocked_sends)

lemma Finalize_sends:
  assumes "Finalize e c b w = (r, b', w')"
  shows "sends_only (ob_stream b) w w' \<and> ob_stream b' = ob_stream b"
proof -
  let ?fl = "case ob_redactor b of None \<Rightarrow> (None, b, w)
     | Some r \<Rightarrow> let (tl, r') = RedactChunk (Some r) [] True in writeLocked e (b\<lparr>ob_redactor := r'\<rparr>) w tl"
  obtain x b1 w1 where f: "?fl = (x, b1, w1)" by (metis surj_pair)
  have 1: "sends_only (ob_stream b) w w1 \<and> ob_stream b1 = ob_stream b"
    using f by (auto simp: Let_def split: option.splits prod.splits dest: writeLocked_sends)
  have "w' = w1" "ob_stream b' = ob_stream b1"
    using assms f by (auto simp: Finalize_def split: option.splits if_splits)
  with 1 show ?thesis by simp
qed

lemma streamFile_sends: "streamFile sv path t w = (x, w') \<Longrightarrow> sends_only t w w'"
  by (auto simp: streamFile_def sends_only_def Let_def empty_response_def split: option.splits if_splits)

text \<open>The buffer of a stream names that stream.\<close>

definition buf_is :: "string \<Rightarrow> OutputBuffer option \<Rightarrow> bool" where
  "buf_is t bo \<longleftrightarrow> (\<forall>b. bo = Some b \<longrightarrow> ob_stream b = t)"

lemma finalizeStream_sends:
  assumes "finalizeStream f bo t w = (x, bo', w')" and "buf_is t bo"
  shows "sends_only t w w' \<and> buf_is t bo'"
proof (cases bo)
  case (Some b)
  obtain r b1 w1 where fn: "Finalize (fn_write f) (fn_close f) b w = (r, b1, w1)" by (metis surj_pair)
  have 1: "sends_only t w w1" "ob_stream b1 = t" using Finalize_sends [OF fn] assms(2) Some by (simp_all add: buf_is_def)
  show ?thesis
  proof (cases r)
    case (Inl y)
    with assms Some fn 1 show ?thesis by (auto simp: finalizeStream_def buf_is_def)
  next
    case (Inr path)
    obtain y w2 where s: "streamFile (fn_stream f) path t w1 = (y, w2)" by (metis surj_pair)
    have "sends_only t w w2" using sends_only_trans [OF 1(1) streamFile_sends [OF s]] .
    then have "sends_only t w (w2\<lparr>ow_files := z\<rparr>)" for z by (simp add: sends_only_def)
    with \<open>sends_only t w w2\<close> assms Some fn Inr 1 s show ?thesis
      by (auto simp: finalizeStream_def buf_is_def split: if_splits option.splits)
  qed
qed (use assms in \<open>auto simp: finalizeStream_def buf_is_def\<close>)

section \<open>The messages that end a run\<close>

definition final_msgs :: "exec_world \<Rightarrow> ResponseMessage list" where
  "final_msgs w = filter (\<lambda>m. rm_type m = MsgTypeDone \<or> rm_type m = MsgTypeError) (ow_sent (xw_out w))"

definition streams_named :: "ToolExecutor \<Rightarrow> bool" where
  "streams_named e \<longleftrightarrow> buf_is ''stdout'' (ex_stdout_buf e) \<and> buf_is ''stderr'' (ex_stderr_buf e) \<and> buf_is ''stdout'' (ex_pty_buf e)"

lemma final_unchanged:
  assumes "sends_only t (xw_out w) o'" and "t = ''stdout'' \<or> t = ''stderr''"
  shows "final_msgs (w\<lparr>xw_out := o'\<rparr>) = final_msgs w"
  using assms by (auto simp: final_msgs_def sends_only_def filter_empty_conv msg_types)

lemma final_frame [simp]:
  "final_msgs (w\<lparr>xw_stdin := x\<rparr>) = final_msgs w" "final_msgs (w\<lparr>xw_winsize := y\<rparr>) = final_msgs w"
  "final_msgs (w\<lparr>xw_audit := a\<rparr>) = final_msgs w" "final_msgs (killProcessGroup e sig w) = final_msgs w"
  by (simp_all add: final_msgs_def killProcessGroup_def)

lemma streams_named_frame [simp]:
  "streams_named (e\<lparr>ex_stdin := a\<rparr>) = streams_named e" "streams_named (e\<lparr>ex_stdin_closed := b\<rparr>) = streams_named e"
  "streams_named (e\<lparr>ex_draining := c\<rparr>) = streams_named e"
  by (simp_all add: streams_named_def)

text \<open>What the events of a run say about its final message: the exit code last reported and the messages due.\<close>

definition done_msg :: "int \<Rightarrow> bool \<Rightarrow> ResponseMessage" where
  "done_msg code timeout = empty_response\<lparr>rm_type := MsgTypeDone, rm_exit_code := code, rm_timeout := timeout\<rparr>"

definition error_msg :: "string \<Rightarrow> ResponseMessage" where
  "error_msg message = empty_response\<lparr>rm_type := MsgTypeError, rm_message := message\<rparr>"

fun verdict_step :: "int \<times> ResponseMessage list \<Rightarrow> exec_event \<Rightarrow> int \<times> ResponseMessage list" where
  "verdict_step (c, ms) (Exit c') = (c', ms)"
| "verdict_step (c, ms) (Wait_Failed ok) = (c, ms @ (if ok then [error_msg ''process error''] else []))"
| "verdict_step (c, ms) (Complete ed) = (c, ms @ (if ed_send_ok ed then [done_msg c False] else []))"
| "verdict_step (c, ms) (Complete_Timeout ed) = (c, ms @ (if ed_send_ok ed then [done_msg (- 1) True] else []))"
| "verdict_step (c, ms) _ = (c, ms)"

definition verdict :: "exec_event list \<Rightarrow> ResponseMessage list" where
  "verdict evs = snd (foldl verdict_step (0, []) evs)"

definition last_exit :: "exec_event list \<Rightarrow> int" where
  "last_exit evs = fst (foldl verdict_step (0, []) evs)"

fun delivers :: "exec_event \<Rightarrow> bool" where
  "delivers (Wait_Failed ok) = ok"
| "delivers (Complete ed) = ed_send_ok ed"
| "delivers (Complete_Timeout ed) = ed_send_ok ed"
| "delivers _ = True"

definition msgs_inv :: "exec_event list \<Rightarrow> exec_state \<Rightarrow> bool" where
  "msgs_inv evs st \<longleftrightarrow> streams_named (xs_ex st) \<and> final_msgs (xs_world st) = verdict evs \<and>
     (case xs_phase st of
        Running \<Rightarrow> verdict evs = []
      | Exited c \<Rightarrow> verdict evs = [] \<and> last_exit evs = c
      | Terminating \<Rightarrow> verdict evs = []
      | _ \<Rightarrow> length (verdict evs) \<le> 1 \<and> (list_all delivers evs \<longrightarrow> length (verdict evs) = 1))"

lemma verdict_pair: "foldl verdict_step (0, []) evs = (last_exit evs, verdict evs)"
  by (simp add: verdict_def last_exit_def)

lemma verdict_snoc:
  "verdict (evs @ [ev]) = snd (verdict_step (last_exit evs, verdict evs) ev)"
  "last_exit (evs @ [ev]) = fst (verdict_step (last_exit evs, verdict evs) ev)"
  unfolding verdict_def [of "evs @ [ev]"] last_exit_def [of "evs @ [ev]"] by (simp_all add: verdict_pair)

text \<open>An event that sends no final message and leaves the phase as it is.\<close>

definition quiet :: "exec_event \<Rightarrow> bool" where
  "quiet ev \<longleftrightarrow> (\<forall>c ms. verdict_step (c, ms) ev = (c, ms)) \<and> delivers ev"

lemma quiet_simps [simp]:
  "quiet (Chunk s we d)" "quiet (Stream_End s)" "quiet (Read_Message r)" "quiet Context_Kill" "quiet Deadline" "quiet Still_Running" "quiet (Clean stuck)"
  by (simp_all add: quiet_def)

lemma quiet_verdict: "quiet ev \<Longrightarrow> verdict (evs @ [ev]) = verdict evs" "quiet ev \<Longrightarrow> last_exit (evs @ [ev]) = last_exit evs"
  by (simp_all add: verdict_snoc quiet_def)

lemma msgs_inv_same:
  assumes "msgs_inv evs st" and "quiet ev" and "streams_named (xs_ex st')" and "final_msgs (xs_world st') = final_msgs (xs_world st)"
    and "xs_phase st' = xs_phase st"
  shows "msgs_inv (evs @ [ev]) st'"
  using assms by (auto simp: msgs_inv_def quiet_verdict split: phase.splits)

lemma pump_named:
  assumes "streams_named (xs_ex st)"
  shows "streams_named (xs_ex (pump_chunk s we d st)) \<and> final_msgs (xs_world (pump_chunk s we d st)) = final_msgs (xs_world st) \<and>
     xs_phase (pump_chunk s we d st) = xs_phase st"
proof (cases "stream_buf s (xs_ex st)")
  case (Some b)
  obtain err b' o' where w: "OB_Write we b (xw_out (xs_world st)) d = (err, b', o')" by (metis surj_pair)
  have t: "ob_stream b = ''stdout'' \<or> ob_stream b = ''stderr''" using assms Some by (cases s) (auto simp: streams_named_def buf_is_def)
  have n: "streams_named (set_stream_buf s b' (xs_ex st))"
    using assms Some write_sends [OF w] by (cases s) (auto simp: streams_named_def buf_is_def)
  have "final_msgs ((xs_world st)\<lparr>xw_out := o'\<rparr>) = final_msgs (xs_world st)"
    by (rule final_unchanged [OF write_sends [OF w, THEN conjunct1] t])
  with n Some w show ?thesis by (simp add: pump_chunk_def Let_def)
qed (use assms in \<open>simp add: pump_chunk_def\<close>)

lemma handle_named:
  assumes "(if ex_use_pty e then handlePTYWrapperMessage else handleWrapperMessage) io m e w = (r, e', w')" and "streams_named e"
  shows "streams_named e' \<and> final_msgs w' = final_msgs w"
  using assms by (auto simp: handlePTYWrapperMessage_def handleWrapperMessage_def forwardSignal_def Let_def
      split: if_splits option.splits prod.splits)

lemma finalizeOutput_named:
  assumes "finalizeOutput f1 f2 e (xw_out w) = (e', o')" and "streams_named e"
  shows "streams_named e' \<and> final_msgs (w\<lparr>xw_out := o'\<rparr>) = final_msgs w"
proof (cases "ex_use_pty e")
  case True
  obtain x b w1 where f: "finalizeStream f1 (ex_pty_buf e) MsgTypeStdout (xw_out w) = (x, b, w1)" by (metis surj_pair)
  note s = finalizeStream_sends [OF f] and named = assms(2) [unfolded streams_named_def]
  with True assms f show ?thesis using final_unchanged [of MsgTypeStdout w w1]
    by (auto simp: finalizeOutput_def streams_named_def msg_types)
next
  case False
  obtain x1 b1 w1 where f1: "finalizeStream f1 (ex_stdout_buf e) MsgTypeStdout (xw_out w) = (x1, b1, w1)" by (metis surj_pair)
  obtain x2 b2 w2 where f2: "finalizeStream f2 (ex_stderr_buf e) MsgTypeStderr w1 = (x2, b2, w2)" by (metis surj_pair)
  have 1: "sends_only ''stdout'' (xw_out w) w1" "buf_is ''stdout'' b1"
    using finalizeStream_sends [OF f1] assms(2) by (simp_all add: streams_named_def msg_types)
  have 2: "sends_only ''stderr'' w1 w2" "buf_is ''stderr'' b2"
    using finalizeStream_sends [OF f2] assms(2) by (simp_all add: streams_named_def msg_types)
  have "final_msgs (w\<lparr>xw_out := w2\<rparr>) = final_msgs (w\<lparr>xw_out := w1\<rparr>)"
    using final_unchanged [of "''stderr''" "w\<lparr>xw_out := w1\<rparr>" w2] 2(1) by simp
  also have "\<dots> = final_msgs w" using final_unchanged [OF 1(1)] by simp
  finally show ?thesis using False assms f1 f2 1 2 by (auto simp: finalizeOutput_def streams_named_def)
qed

lemma audit_final [simp]: "final_msgs (emitAuditEntry oc now c t e w) = final_msgs w"
  by (simp add: emitAuditEntry_def split: option.splits)

lemma finish_final:
  assumes "streams_named (xs_ex st)"
  shows "streams_named (xs_ex (finish ed c t st)) \<and> xs_phase (finish ed c t st) = Finished \<and>
     final_msgs (xs_world (finish ed c t st)) = final_msgs (xs_world st) @ (if ed_send_ok ed then [done_msg c t] else [])"
proof -
  obtain e o1 where f: "finalizeOutput (ed_first ed) (ed_second ed) (xs_ex st) (xw_out (xs_world st)) = (e, o1)" by (metis surj_pair)
  have "final_msgs (sendDone ok c t w) = final_msgs w @ (if ok then [done_msg c t] else [])" for ok w
    by (simp add: final_msgs_def sendDone_def sendMessage_def done_msg_def)
  with finalizeOutput_named [OF f assms] f show ?thesis by (simp add: finish_def)
qed

lemma error_final: "final_msgs (exec_sendError ok m w) = final_msgs w @ (if ok then [error_msg m] else [])"
  by (simp add: final_msgs_def exec_sendError_def sendMessage_def error_msg_def)

lemma Cleanup_sends: "OB_Cleanup stuck b w = (b', w') \<Longrightarrow> ow_sent w' = ow_sent w \<and> ob_stream b' = ob_stream b"
  by (auto simp: OB_Cleanup_def Let_def split: if_splits option.splits)

lemma clean_buffer_sends:
  "clean_buffer stuck bo w = (bo', w') \<Longrightarrow> ow_sent w' = ow_sent w \<and> (buf_is t bo \<longrightarrow> buf_is t bo')"
  by (auto simp: clean_buffer_def buf_is_def split: option.splits prod.splits dest: Cleanup_sends)

lemma cleanup_named:
  assumes "cleanup stuck e w = (e', w')" and "streams_named e"
  shows "streams_named e' \<and> final_msgs w' = final_msgs w"
proof -
  let ?w = "killProcessGroup e SIGKILL w"
  have k: "killProcessGroup (e\<lparr>ex_stdin := x, ex_stdin_closed := y, ex_stdoutR := u, ex_stderrR := v, ex_pty_master := z\<rparr>) SIGKILL w = ?w"
    for x y z u v by (simp add: killProcessGroup_def)
  obtain bo o1 where 1: "clean_buffer stuck (ex_stdout_buf e) (xw_out ?w) = (bo, o1)" by (metis surj_pair)
  obtain be o2 where 2: "clean_buffer stuck (ex_stderr_buf e) o1 = (be, o2)" by (metis surj_pair)
  obtain bp o3 where 3: "clean_buffer stuck (ex_pty_buf e) o2 = (bp, o3)" by (metis surj_pair)
  have "ow_sent o3 = ow_sent (xw_out ?w)"
    using 1 2 3 clean_buffer_sends by metis
  then have "final_msgs (w1\<lparr>xw_out := remove_all stuck d o3\<rparr>) = final_msgs ?w" "final_msgs (w1\<lparr>xw_out := o3\<rparr>) = final_msgs ?w" for w1 d
    by (simp_all add: final_msgs_def remove_all_def)
  then show ?thesis
    using assms 1 2 3 clean_buffer_sends [OF 1] clean_buffer_sends [OF 2] clean_buffer_sends [OF 3]
    by (auto simp: cleanup_def k streams_named_def Let_def split: if_splits)
qed

lemma reader_named:
  assumes "streams_named (xs_ex st)"
  shows "streams_named (xs_ex (if ex_use_pty (xs_ex st) then ptyInputPumper r st else stdinPumper r st)) \<and>
     final_msgs (xs_world (if ex_use_pty (xs_ex st) then ptyInputPumper r st else stdinPumper r st)) = final_msgs (xs_world st) \<and>
     xs_phase (if ex_use_pty (xs_ex st) then ptyInputPumper r st else stdinPumper r st) = xs_phase st"
proof (cases r)
  case (Some q)
  obtain io m where q: "q = (io, m)" by (metis surj_pair)
  obtain x e w where h: "(if ex_use_pty (xs_ex st) then handlePTYWrapperMessage else handleWrapperMessage) io m (xs_ex st) (xs_world st) = (x, e, w)"
    by (metis surj_pair)
  from handle_named [OF h assms] h Some q show ?thesis by (auto simp: ptyInputPumper_def stdinPumper_def split: if_splits)
qed (use assms in \<open>simp add: ptyInputPumper_def stdinPumper_def\<close>)

lemma msgs_inv_do:
  assumes "msgs_inv evs st" and "exec_do ev st = Some st'"
  shows "msgs_inv (evs @ [ev]) st'"
proof -
  note inv = assms(1) [unfolded msgs_inv_def]
  have named: "streams_named (xs_ex st)" using inv by simp
  show ?thesis
  proof (cases ev)
    case (Chunk s we d)
    with assms pump_named [OF named, of s we d] show ?thesis
      by (intro msgs_inv_same [OF assms(1)]) (auto split: if_splits)
  next
    case (Stream_End s)
    with assms named show ?thesis by (intro msgs_inv_same [OF assms(1)]) (auto split: if_splits)
  next
    case (Read_Message r)
    with assms reader_named [OF named, of r] show ?thesis
      by (intro msgs_inv_same [OF assms(1)]) (auto split: if_splits)
  next
    case (Exit c)
    with assms show ?thesis by (auto simp: msgs_inv_def exec_parts verdict_snoc split: if_splits)
  next
    case (Wait_Failed ok)
    with assms show ?thesis by (auto simp: msgs_inv_def exec_parts error_final verdict_snoc split: if_splits)
  next
    case (Complete ed)
    then obtain c where c: "xs_phase st = Exited c" "st' = finish ed c False st"
      using assms(2) by (auto simp: exec_parts split: phase.splits)
    with inv have "verdict evs = []" "last_exit evs = c" by simp_all
    with c inv finish_final [OF named, of ed c False] Complete show ?thesis by (simp add: msgs_inv_def verdict_snoc)
  next
    case (Complete_Timeout ed)
    then have c: "xs_phase st = Terminating" "st' = finish ed (- 1) True (setOutputDrainDeadline st)"
      using assms(2) by (auto simp: handleTimeout_end_def split: if_splits)
    have "streams_named (xs_ex (setOutputDrainDeadline st))" using named by (simp add: exec_parts)
    from finish_final [OF this, of ed "- 1" True] c inv Complete_Timeout show ?thesis
      by (simp add: msgs_inv_def verdict_snoc setOutputDrainDeadline_def)
  next
    case Context_Kill
    with assms named show ?thesis
      by (intro msgs_inv_same [OF assms(1)]) (auto simp: exec_parts final_msgs_def split: if_splits)
  next
    case Deadline
    with assms named show ?thesis
      by (auto simp: msgs_inv_def exec_parts quiet_verdict split: if_splits)
  next
    case Still_Running
    with assms named show ?thesis by (intro msgs_inv_same [OF assms(1)]) (auto simp: exec_parts split: if_splits)
  next
    case (Clean stuck)
    obtain e w where c: "cleanup stuck (xs_ex st) (xs_world st) = (e, w)" by (metis surj_pair)
    with assms cleanup_named [OF c named] Clean show ?thesis
      by (auto simp: msgs_inv_def quiet_verdict split: if_splits)
  qed
qed

lemma msgs_inv_reach:
  assumes "exec_reach (started_state e w) evs st" and "streams_named e" and "final_msgs w = []"
  shows "msgs_inv evs st"
  using assms(1)
proof induction
  case start
  show ?case using assms(2,3) by (simp add: msgs_inv_def started_state_def verdict_def)
qed (rule msgs_inv_do)

section \<open>The start of a run\<close>

lemma new_stream_named [simp]: "ob_stream (new_stream e t th) = t"
  by (simp add: new_stream_def NewOutputBuffer_def SetRedactor_def SetTee_def Let_def)

lemma new_stream_fresh [simp]: "ob_tempPath (new_stream e t th) = []" "ob_inlineMode (new_stream e t th)"
  by (simp_all add: new_stream_def NewOutputBuffer_def SetRedactor_def SetTee_def Let_def)

definition fresh_executor :: "ToolExecutor \<Rightarrow> bool" where
  "fresh_executor e \<longleftrightarrow> ex_stdout_buf e = None \<and> ex_stderr_buf e = None \<and> ex_pty_buf e = None \<and> ex_pgid e = 0 \<and> ex_config_dir e = [] \<and> ex_secrets e = []"

lemma new_executor_fresh: "NewToolExecutor req tool cfg tok lg pid exe = Inr e \<Longrightarrow> fresh_executor e"
  by (auto simp: NewToolExecutor_def fresh_executor_def split: if_splits)

lemma startProcess_start:
  assumes "startProcess se env e w = (x, e', w')"
    and "ex_stdout_buf e = None" "ex_stderr_buf e = None" "ex_pty_buf e = None" "ex_pgid e = 0"
  shows "streams_named e' \<and> xw_out w' = xw_out w \<and> xw_kills w' = xw_kills w \<and>
     (case x of None \<Rightarrow> se_start se = Some (ex_pgid e') | Some _ \<Rightarrow> ex_pgid e' = 0)"
  using assms by (auto simp: startProcess_def startProcessWithPTY_def Let_def streams_named_def buf_is_def split: if_splits option.splits)

lemma run_start_ok:
  assumes "run_start r e0 w0 = (None, e, w)"
  obtains cd cf cs m sec where "is_abs (run_dir e0)" "\<not> rn_dir_missing r"
    "setupConfigFile (rn_config r) (rn_resolve r) (ex_cfg e0) (ex_tool e0) = (None, cd, cf, cs)"
    "buildEnvironment (rn_sys r) (rn_user r) (rn_resolve r) (ex_cfg e0) (ex_tool e0) (ex_req e0) cd (ex_token e0) (ex_secrets e0 @ cs) = Inr (m, sec)"
    "startProcess (rn_start r) (env_slice (rn_order r m))
       (e0\<lparr>ex_start := rn_now r, ex_work_dir := run_dir e0, ex_config_dir := cd, ex_secrets := sec\<rparr>) (config_written cf w0) = (None, e, w)"
  using assms by (auto simp: run_start_def Let_def split: if_splits option.splits sum.splits prod.splits)

lemma config_written_sent [simp]:
  "ow_sent (xw_out (config_written cf w)) = ow_sent (xw_out w)" "xw_kills (config_written cf w) = xw_kills w"
  by (simp_all add: config_written_def split: option.splits)

lemma run_started:
  assumes "run_start r e0 w0 = (None, e, w)" and "fresh_executor e0"
  shows "streams_named e \<and> ow_sent (xw_out w) = ow_sent (xw_out w0) \<and> xw_kills w = xw_kills w0 \<and> se_start (rn_start r) = Some (ex_pgid e)"
  using assms(1)
proof (rule run_start_ok)
  fix cd cf m sec
  assume p: "startProcess (rn_start r) (env_slice (rn_order r m))
       (e0\<lparr>ex_start := rn_now r, ex_work_dir := run_dir e0, ex_config_dir := cd, ex_secrets := sec\<rparr>) (config_written cf w0) = (None, e, w)"
  show ?thesis using startProcess_start [OF p] assms(2) by (simp add: fresh_executor_def)
qed

text \<open>A run that fails before the tool runs says so once.\<close>

lemma run_start_failed:
  assumes "run_start r e0 w0 = (Some x, e, w)" and "fresh_executor e0"
  shows "\<exists>m. final_msgs w = final_msgs w0 @ (if rn_send_ok r then [error_msg m] else [])"
proof -
  have c: "final_msgs (config_written cf w0) = final_msgs w0" for cf by (simp add: final_msgs_def)
  have s: "final_msgs w' = final_msgs w0"
    if "startProcess se env e2 (config_written cf w0) = (y, e', w')" "fresh_executor (e2\<lparr>ex_config_dir := [], ex_secrets := []\<rparr>)" for se env e2 cf y e' w'
    using startProcess_start [OF that(1)] that(2) by (simp add: fresh_executor_def final_msgs_def)
  show ?thesis using assms
    by (auto simp: run_start_def Let_def error_final c fresh_executor_def dest!: s split: if_splits option.splits sum.splits prod.splits)
qed

section \<open>One final message\<close>

text \<open>C19: whatever the order in which output, messages, exit and deadline arrive, a run sends at most one
  final message; it carries the exit code of the process, or -1 and the timeout flag when the deadline
  came first, and once the run is over it has been sent unless sending it failed.\<close>
theorem one_final_message:
  assumes "NewToolExecutor req tool cfg tok lg pid exe = Inr e0" and "run_start r e0 w0 = (None, e, w)"
    and "ow_sent (xw_out w0) = []" and "exec_run evs (started_state e w) = Some st"
  shows "final_msgs (xs_world st) = verdict evs \<and> length (verdict evs) \<le> 1 \<and>
     (xs_phase st = Finished \<or> xs_phase st = Cleaned \<longrightarrow> list_all delivers evs \<longrightarrow> length (verdict evs) = 1)"
proof -
  note st = run_started [OF assms(2) new_executor_fresh [OF assms(1)]]
  have "msgs_inv evs st"
    using assms(3,4) st by (intro msgs_inv_reach [of e w]) (auto simp: exec_reach_run final_msgs_def)
  then show ?thesis by (auto simp: msgs_inv_def split: phase.splits)
qed

definition sample_run :: "unit run_env" where
  "sample_run =
     \<lparr>rn_now = 0, rn_sys = sample_sys [] (\<lambda>_. Cmd_Deadline), rn_user = None, rn_dir_missing = False,
      rn_config = \<lparr>ce_mkdtemp = Some ''/tmp/c1'', ce_mkdir = True, ce_write = True\<rparr>, rn_resolve = (\<lambda>_ n. Inr (n @ ''-secret'')), rn_order = id,
      rn_start = \<lparr>se_stdout_pipe = True, se_stderr_pipe = True, se_stdin_pipe = True, se_start = Some 77\<rparr>, rn_send_ok = True, rn_stuck = []\<rparr>"

definition sample_world :: exec_world where
  "sample_world = \<lparr>xw_out = \<lparr>ow_sent = [], ow_files = []\<rparr>, xw_stdin = [], xw_winsize = None, xw_kills = [], xw_started = [], xw_audit = empty_audit_world\<rparr>"

definition sample_request :: ProxyRequest where
  "sample_request = zero_ProxyRequest\<lparr>pr_tool := ''gh'', pr_cwd := ''/tmp''\<rparr>"

definition sample_final :: final_env where
  "sample_final = \<lparr>fn_write = sample_env, fn_close = True, fn_stream = \<lparr>sv_open = True, sv_fail = None\<rparr>, fn_remove = True\<rparr>"

definition sample_end :: end_env where
  "sample_end = \<lparr>ed_first = sample_final, ed_second = sample_final, ed_audit = (\<lambda>_. None), ed_now = 0, ed_send_ok = True\<rparr>"

definition sample_events :: "exec_event list" where
  "sample_events = [Chunk Stdout sample_env ''hello'', Exit 3, Chunk Stderr sample_env ''late'', Stream_End Stdout, Complete sample_end, Clean []]"

lemma sample_start:
  obtains e0 e w where "NewToolExecutor sample_request zero_tool zero_config [] Nop 1 [] = Inr e0"
    "run_start sample_run e0 sample_world = (None, e, w)" "e0 = projr (NewToolExecutor sample_request zero_tool zero_config [] Nop 1 [])"
proof -
  have i: "\<not> isl (NewToolExecutor sample_request zero_tool zero_config [] Nop 1 [])" by code_simp
  then obtain e0 where n: "NewToolExecutor sample_request zero_tool zero_config [] Nop 1 [] = Inr e0" by (metis isl_def obj_sumE)
  have "fst (run_start sample_run (projr (NewToolExecutor sample_request zero_tool zero_config [] Nop 1 [])) sample_world) = None"
    by code_simp
  with n obtain e w where "run_start sample_run e0 sample_world = (None, e, w)" by (metis fst_conv sum.sel(2) surj_pair)
  with n that show thesis by simp
qed

theorem one_final_message_witness:
  "\<exists>e0 e w st. NewToolExecutor sample_request zero_tool zero_config [] Nop 1 [] = Inr e0 \<and>
     run_start sample_run e0 sample_world = (None, e, w) \<and>
     exec_run sample_events (started_state e w) = Some st \<and> final_msgs (xs_world st) = [done_msg 3 False]"
proof -
  obtain e0 e w where n: "NewToolExecutor sample_request zero_tool zero_config [] Nop 1 [] = Inr e0"
    and r: "run_start sample_run e0 sample_world = (None, e, w)"
    and e0: "e0 = projr (NewToolExecutor sample_request zero_tool zero_config [] Nop 1 [])"
    by (rule sample_start)
  have "(case run_start sample_run (projr (NewToolExecutor sample_request zero_tool zero_config [] Nop 1 [])) sample_world of
      (x, e, w) \<Rightarrow> exec_run sample_events (started_state e w)) \<noteq> None" by code_simp
  then have "exec_run sample_events (started_state e w) \<noteq> None" using r unfolding e0 [symmetric] by simp
  then obtain st where st: "exec_run sample_events (started_state e w) = Some st" by blast
  have "ow_sent (xw_out sample_world) = []" by (simp add: sample_world_def)
  moreover have "verdict sample_events = [done_msg 3 False]" by (simp add: verdict_def sample_events_def sample_end_def)
  ultimately show ?thesis using one_final_message [OF n r _ st] n r st by auto
qed

end
