(* ===== verification/Executor_Effects.thy ===== *)
theory Executor_Effects
  imports Executor_Laws
begin

text \<open>
  The signals a run sends: exactly those its events call for.
\<close>

section \<open>Signals\<close>

text \<open>
  The signals one event of a run calls for, written independently of the code that sends them: a message
  of the caller at most the one of three signals it names, and a kill only for a stream over its limit, a
  tool that outlives its deadline, the context, and the clean-up.
\<close>

definition to_group :: "int \<Rightarrow> unix_signal \<Rightarrow> (int \<times> unix_signal) list" where
  "to_group pgid s = (if pgid = 0 then [] else [(- pgid, s)])"

definition asked_signals :: "int \<Rightarrow> WrapperMessage \<Rightarrow> (int \<times> unix_signal) list" where
  "asked_signals pgid m =
     (if wm_type m \<noteq> MsgTypeSignal then []
      else if wm_signal m = ''SIGINT'' then to_group pgid SIGINT
      else if wm_signal m = ''SIGTERM'' then to_group pgid SIGTERM
      else if wm_signal m = ''SIGHUP'' then to_group pgid SIGHUP else [])"

definition over_limit :: "stream \<Rightarrow> write_env \<Rightarrow> bytes \<Rightarrow> exec_state \<Rightarrow> bool" where
  "over_limit s we d st =
     (case stream_buf s (xs_ex st) of
        None \<Rightarrow> False
      | Some b \<Rightarrow> fst (OB_Write we b (xw_out (xs_world st)) d) = Some ErrOutputLimitExceeded)"

fun signals_due :: "int \<Rightarrow> exec_event \<Rightarrow> exec_state \<Rightarrow> (int \<times> unix_signal) list" where
  "signals_due pgid (Read_Message (Some (io, m))) st = asked_signals pgid m"
| "signals_due pgid (Chunk s we d) st = (if over_limit s we d st then to_group pgid SIGKILL else [])"
| "signals_due pgid Deadline st = to_group pgid SIGTERM"
| "signals_due pgid Still_Running st = to_group pgid SIGKILL"
| "signals_due pgid (Clean stuck) st = to_group pgid SIGKILL"
| "signals_due pgid Context_Kill st = [(pgid, SIGKILL)]"
| "signals_due pgid _ st = []"

fun run_signals :: "int \<Rightarrow> exec_event list \<Rightarrow> exec_state \<Rightarrow> (int \<times> unix_signal) list" where
  "run_signals pgid [] st = []"
| "run_signals pgid (ev # evs) st =
     signals_due pgid ev st @ (case exec_do ev st of None \<Rightarrow> [] | Some st' \<Rightarrow> run_signals pgid evs st')"

lemma kill_group: "xw_kills (killProcessGroup e s w) = xw_kills w @ to_group (ex_pgid e) s"
  by (simp add: killProcessGroup_def to_group_def)

lemma forward_kills:
  assumes "forwardSignal e name w = (x, w')"
  shows "xw_kills w' = xw_kills w @ (if name = ''SIGINT'' then to_group (ex_pgid e) SIGINT
      else if name = ''SIGTERM'' then to_group (ex_pgid e) SIGTERM
      else if name = ''SIGHUP'' then to_group (ex_pgid e) SIGHUP else [])"
  using assms by (auto simp: forwardSignal_def signal_of_def kill_group ValidSignals_def split: if_splits)

lemma handle_kills:
  assumes "(if pty then handlePTYWrapperMessage else handleWrapperMessage) io m e w = (x, e', w')"
  shows "ex_pgid e' = ex_pgid e \<and> xw_kills w' = xw_kills w @ asked_signals (ex_pgid e) m"
proof (cases "wm_type m = MsgTypeSignal")
  case True
  obtain y w1 where f: "forwardSignal e (wm_signal m) w = (y, w1)" by (metis surj_pair)
  have "e' = e" "w' = w1" using assms True f
    by (auto simp: handlePTYWrapperMessage_def handleWrapperMessage_def msg_types split: if_splits)
  with forward_kills [OF f] True show ?thesis by (simp add: asked_signals_def)
next
  case False
  then show ?thesis using assms
    by (cases pty) (auto simp: asked_signals_def handlePTYWrapperMessage_def handleWrapperMessage_def split: if_splits option.splits)
qed

lemma reader_kills:
  "ex_pgid (xs_ex (if pty then ptyInputPumper r st else stdinPumper r st)) = ex_pgid (xs_ex st) \<and>
   xw_kills (xs_world (if pty then ptyInputPumper r st else stdinPumper r st)) =
     xw_kills (xs_world st) @ signals_due (ex_pgid (xs_ex st)) (Read_Message r) st"
proof (cases r)
  case (Some q)
  obtain io m where q: "q = (io, m)" by (metis surj_pair)
  obtain x e w where h: "(if pty then handlePTYWrapperMessage else handleWrapperMessage) io m (xs_ex st) (xs_world st) = (x, e, w)"
    by (metis surj_pair)
  from handle_kills [OF h] h Some q show ?thesis by (cases pty) (simp_all add: ptyInputPumper_def stdinPumper_def)
qed (simp add: ptyInputPumper_def stdinPumper_def)

lemma set_stream_pgid [simp]: "ex_pgid (set_stream_buf s b e) = ex_pgid e"
  by (cases s) simp_all

lemma pump_kills:
  "ex_pgid (xs_ex (pump_chunk s we d st)) = ex_pgid (xs_ex st) \<and>
   xw_kills (xs_world (pump_chunk s we d st)) =
     xw_kills (xs_world st) @ (if over_limit s we d st then to_group (ex_pgid (xs_ex st)) SIGKILL else [])"
  by (auto simp: pump_chunk_def over_limit_def Let_def kill_group split: option.splits prod.splits)

lemma finish_kills:
  "ex_pgid (xs_ex (finish ed c t st)) = ex_pgid (xs_ex st) \<and> xw_kills (xs_world (finish ed c t st)) = xw_kills (xs_world st)"
  by (auto simp: finish_def finalizeOutput_def sendDone_def sendMessage_def emitAuditEntry_def Let_def split: prod.splits option.splits)

lemma cleanup_kills:
  assumes "cleanup stuck e w = (e', w')"
  shows "ex_pgid e' = ex_pgid e \<and> xw_kills w' = xw_kills w @ to_group (ex_pgid e) SIGKILL"
  using assms by (auto simp: cleanup_def Let_def kill_group split: prod.splits)

lemma exec_do_kills:
  assumes "exec_do ev st = Some st'"
  shows "ex_pgid (xs_ex st') = ex_pgid (xs_ex st) \<and>
     xw_kills (xs_world st') = xw_kills (xs_world st) @ signals_due (ex_pgid (xs_ex st)) ev st"
proof (cases ev)
  case (Chunk s we d)
  with assms pump_kills [of s we d st] show ?thesis by (simp split: if_splits)
next
  case (Read_Message r)
  then have "st' = (if ex_use_pty (xs_ex st) then ptyInputPumper r st else stdinPumper r st)"
    using assms by (simp split: if_splits)
  with reader_kills [of "ex_use_pty (xs_ex st)" r st] Read_Message show ?thesis by simp
next
  case (Complete ed)
  with assms obtain c where "st' = finish ed c False st" by (auto simp: exec_parts split: phase.splits)
  with finish_kills [of ed c False st] Complete show ?thesis by simp
next
  case (Complete_Timeout ed)
  with assms have "st' = finish ed (- 1) True (setOutputDrainDeadline st)" by (auto simp: handleTimeout_end_def split: if_splits)
  with finish_kills [of ed "- 1" True "setOutputDrainDeadline st"] Complete_Timeout show ?thesis by (simp add: setOutputDrainDeadline_def)
next
  case (Clean stuck)
  obtain e w where c: "cleanup stuck (xs_ex st) (xs_world st) = (e, w)" by (metis surj_pair)
  then have "xs_ex st' = e" "xs_world st' = w" using assms Clean by (auto split: if_splits)
  with cleanup_kills [OF c] Clean show ?thesis by simp
next
  case (Wait_Failed ok)
  with assms show ?thesis by (auto simp: exec_parts exec_sendError_def sendMessage_def split: if_splits)
qed (use assms in \<open>auto simp: exec_parts kill_group split: if_splits\<close>)

lemma exec_run_kills:
  "exec_run evs st = Some st' \<Longrightarrow>
   xw_kills (xs_world st') = xw_kills (xs_world st) @ run_signals (ex_pgid (xs_ex st)) evs st"
proof (induction evs arbitrary: st)
  case (Cons ev evs)
  then obtain st1 where 1: "exec_do ev st = Some st1" "exec_run evs st1 = Some st'" by (auto split: option.splits)
  with Cons.IH [OF 1(2)] exec_do_kills [OF 1(1)] show ?case by simp
qed simp

text \<open>What the caller's messages can add: nothing but the three signals, to the group.\<close>

lemma asked_signals_mild: "(p, s) \<in> set (asked_signals pgid m) \<Longrightarrow> p = - pgid \<and> s \<in> {SIGINT, SIGTERM, SIGHUP}"
  by (auto simp: asked_signals_def to_group_def split: if_splits)

lemma run_signals_target: "(p, s) \<in> set (run_signals pgid evs st) \<Longrightarrow> p = - pgid \<or> p = pgid \<and> s = SIGKILL \<and> Context_Kill \<in> set evs"
proof (induction evs arbitrary: st)
  case (Cons ev evs)
  have "p = - pgid \<or> p = pgid \<and> s = SIGKILL \<and> ev = Context_Kill" if "(p, s) \<in> set (signals_due pgid ev st)"
    using that by (cases "(pgid, ev, st)" rule: signals_due.cases) (auto simp: to_group_def dest: asked_signals_mild split: if_splits)
  with Cons show ?case by (fastforce split: option.splits)
qed simp

text \<open>C21: the signals of a run are, in order, exactly the ones its events call for: an interrupt, a
  termination request or a hang-up when a message of the caller names it, and for no message any other; a
  termination request at the deadline; a kill when a stream goes over its limit, when the tool outlives
  the deadline and at the end. Each goes to the process group of the tool, but for the kill of the expired
  context, which goes to the process that leads the group.\<close>
theorem signals_stay_in_group:
  assumes "NewToolExecutor req tool cfg tok lg pid exe = Inr e0" and "run_start r e0 w0 = (None, e, w)"
    and "xw_kills w0 = []" and "exec_run evs (started_state e w) = Some st"
  shows "\<exists>pgid. se_start (rn_start r) = Some pgid \<and> xw_kills (xs_world st) = run_signals pgid evs (started_state e w) \<and>
     (\<forall>(p, s) \<in> set (xw_kills (xs_world st)). p = - pgid \<or> p = pgid \<and> s = SIGKILL \<and> Context_Kill \<in> set evs)"
proof -
  note s = run_started [OF assms(2) new_executor_fresh [OF assms(1)]]
  have "xw_kills (xs_world st) = run_signals (ex_pgid e) evs (started_state e w)"
    using exec_run_kills [OF assms(4)] s assms(3) by (simp add: started_state_def)
  with s show ?thesis by (auto dest: run_signals_target)
qed

definition signal_message :: "string \<Rightarrow> WrapperMessage" where
  "signal_message name = zero_WrapperMessage\<lparr>wm_type := MsgTypeSignal, wm_signal := name\<rparr>"

definition signal_events :: "exec_event list" where
  "signal_events = [Read_Message (Some (True, signal_message ''SIGKILL'')), Read_Message (Some (True, signal_message ''SIGINT'')), Exit 0, Complete sample_end, Clean []]"

theorem signals_stay_in_group_witness:
  "\<exists>e0 e w st. NewToolExecutor sample_request zero_tool zero_config [] Nop 1 [] = Inr e0 \<and>
     run_start sample_run e0 sample_world = (None, e, w) \<and> exec_run signal_events (started_state e w) = Some st \<and>
     xw_kills (xs_world st) = [(- 77, SIGINT), (- 77, SIGKILL)]"
proof -
  obtain e0 e w where n: "NewToolExecutor sample_request zero_tool zero_config [] Nop 1 [] = Inr e0"
    and r: "run_start sample_run e0 sample_world = (None, e, w)"
    and e0: "e0 = projr (NewToolExecutor sample_request zero_tool zero_config [] Nop 1 [])"
    by (rule sample_start)
  have "(case run_start sample_run (projr (NewToolExecutor sample_request zero_tool zero_config [] Nop 1 [])) sample_world of
      (x, e, w) \<Rightarrow> exec_run signal_events (started_state e w)) \<noteq> None" by code_simp
  then have "exec_run signal_events (started_state e w) \<noteq> None" using r unfolding e0 [symmetric] by simp
  then obtain st where st: "exec_run signal_events (started_state e w) = Some st" by blast
  have "xw_kills sample_world = []" "se_start (rn_start sample_run) = Some 77" by (simp_all add: sample_world_def sample_run_def)
  then have "xw_kills (xs_world st) = run_signals 77 signal_events (started_state e w)"
    using signals_stay_in_group [OF n r _ st] by auto
  moreover have "(case run_start sample_run (projr (NewToolExecutor sample_request zero_tool zero_config [] Nop 1 [])) sample_world of
      (x, e, w) \<Rightarrow> run_signals 77 signal_events (started_state e w)) = [(- 77, SIGINT), (- 77, SIGKILL)]" by code_simp
  then have "run_signals 77 signal_events (started_state e w) = [(- 77, SIGINT), (- 77, SIGKILL)]" using r unfolding e0 [symmetric] by simp
  ultimately show ?thesis using n r st by auto
qed

end
