(* ===== verification/Executor_Files.thy ===== *)
theory Executor_Files
  imports Executor_Effects
begin

text \<open>
  No file a run makes outlives it unless its removal fails: spill files of its output and the generated
  configuration.
\<close>

section \<open>Names of files\<close>

definition names :: "out_world \<Rightarrow> string set" where
  "names w = dom (map_of (ow_files w))"

definition temps :: "OutputBuffer option \<Rightarrow> string set" where
  "temps bo = (case bo of None \<Rightarrow> {} | Some b \<Rightarrow> if ob_tempPath b = [] then {} else {ob_tempPath b})"

definition tidy :: "OutputBuffer option \<Rightarrow> bool" where
  "tidy bo \<longleftrightarrow> (\<forall>b. bo = Some b \<longrightarrow> ob_inlineMode b \<longrightarrow> ob_tempPath b = [])"

text \<open>An operation on a buffer makes at most the file the buffer then remembers, and forgets none.\<close>

definition tracked :: "OutputBuffer option \<Rightarrow> out_world \<Rightarrow> OutputBuffer option \<Rightarrow> out_world \<Rightarrow> bool" where
  "tracked bo w bo' w' \<longleftrightarrow> names w' \<subseteq> names w \<union> temps bo' \<and> temps bo \<subseteq> temps bo' \<and> (tidy bo \<longrightarrow> tidy bo')"

lemma tracked_refl: "temps bo' = temps bo \<Longrightarrow> (tidy bo \<Longrightarrow> tidy bo') \<Longrightarrow> names w' \<subseteq> names w \<Longrightarrow> tracked bo w bo' w'"
  by (auto simp: tracked_def)

lemma tracked_trans: "tracked bo w bo1 w1 \<Longrightarrow> tracked bo1 w1 bo2 w2 \<Longrightarrow> tracked bo w bo2 w2"
  unfolding tracked_def by blast

lemma names_sent [simp]: "names (w\<lparr>ow_sent := x\<rparr>) = names w"
  by (simp add: names_def)

lemma names_append [simp]: "names (append_file f d w) = names w"
  by (auto simp: names_def append_file_def split: option.splits)

lemma names_set [simp]: "names (w\<lparr>ow_files := map_set f c (ow_files w)\<rparr>) = insert f (names w)"
  by (auto simp: names_def)

lemma names_del [simp]: "names (w\<lparr>ow_files := map_del f (ow_files w)\<rparr>) = names w - {f}"
  by (auto simp: names_def)

lemma emit_tracked: "emit_data e b w d = (x, b', w') \<Longrightarrow> tracked (Some b) w (Some b') w'"
  by (auto simp: emit_data_def temps_def tidy_def intro!: tracked_refl split: if_splits option.splits)

lemma switch_tracked:
  assumes "switchToFileMode e b w = (x, b', w')" and "we_create e \<noteq> Some []" and "ob_inlineMode b"
  shows "tidy (Some b) \<longrightarrow> tracked (Some b) w (Some b') w'"
  using assms by (auto simp: switchToFileMode_def tracked_def temps_def tidy_def split: if_splits option.splits)

lemma place_tracked:
  assumes "place_data e b w d = (x, b', w')" and "we_create e \<noteq> Some []" and "tidy (Some b)"
  shows "tracked (Some b) w (Some b') w'"
proof -
  let ?sw = "if ob_inlineMode b \<and> ob_threshold b > 0 \<and> wrap64 (ob_accumulated b + int (length d)) > ob_threshold b
         then switchToFileMode e b w else (None, b, w)"
  obtain y b1 w1 where s: "?sw = (y, b1, w1)" by (metis surj_pair)
  have 1: "tracked (Some b) w (Some b1) w1"
    using s switch_tracked [of e b w y b1 w1] assms(2,3) by (auto split: if_splits intro: tracked_refl)
  show ?thesis
  proof (cases y)
    case None
    with assms s have "emit_data e b1 w1 d = (x, b', w')" by (simp add: place_data_def)
    from tracked_trans [OF 1 emit_tracked [OF this]] show ?thesis .
  next
    case (Some z)
    with assms s 1 show ?thesis by (auto simp: place_data_def)
  qed
qed

lemma tracked_tee [simp]: "tracked (Some (b\<lparr>ob_tee := t\<rparr>)) w bo' w' = tracked (Some b) w bo' w'" "tidy (Some (b\<lparr>ob_tee := t\<rparr>)) = tidy (Some b)"
  and tracked_redactor [simp]: "tracked (Some (b\<lparr>ob_redactor := r\<rparr>)) w bo' w' = tracked (Some b) w bo' w'" "tidy (Some (b\<lparr>ob_redactor := r\<rparr>)) = tidy (Some b)"
  by (simp_all add: tracked_def temps_def tidy_def)

lemma writeLocked_tracked:
  assumes "writeLocked e b w d = (x, b', w')" and "we_create e \<noteq> Some []" and "tidy (Some b)"
  shows "tracked (Some b) w (Some b') w'"
proof -
  let ?b = "b\<lparr>ob_tee := map_option (\<lambda>t. t @ d) (ob_tee b)\<rparr>"
  have "tracked (Some b) w (Some b') w'" if "place_data e ?b w d = (x, b', w')"
    using place_tracked [OF that assms(2)] assms(3) by simp
  then show ?thesis using assms(1) by (auto simp: writeLocked_def intro: tracked_refl split: if_splits)
qed

lemma write_tracked:
  assumes "OB_Write e b w d = (x, b', w')" and "we_create e \<noteq> Some []" and "tidy (Some b)"
  shows "tracked (Some b) w (Some b') w'"
proof (cases "ob_redactor b")
  case None
  with assms writeLocked_tracked [of e b w d x b' w'] show ?thesis by (auto simp: OB_Write_def intro: tracked_refl split: if_splits)
next
  case (Some r)
  obtain d1 r1 where c: "RedactChunk (Some r) d False = (d1, r1)" by (metis surj_pair)
  have "tracked (Some b) w (Some b') w'" if "writeLocked e (b\<lparr>ob_redactor := r1\<rparr>) w d1 = (x, b', w')"
    using writeLocked_tracked [OF that assms(2)] assms(3) by simp
  moreover have "tracked (Some b) w (Some (b\<lparr>ob_redactor := r1\<rparr>)) w" by (intro tracked_refl) (simp_all add: temps_def)
  ultimately show ?thesis using assms(1) Some c by (auto simp: OB_Write_def Let_def intro: tracked_refl split: if_splits)
qed

lemma Finalize_tracked:
  assumes "Finalize e c b w = (r, b', w')" and "we_create e \<noteq> Some []" and "tidy (Some b)"
  shows "tracked (Some b) w (Some b') w'"
proof -
  let ?fl = "case ob_redactor b of None \<Rightarrow> (None, b, w)
     | Some r \<Rightarrow> let (tl, r') = RedactChunk (Some r) [] True in writeLocked e (b\<lparr>ob_redactor := r'\<rparr>) w tl"
  obtain x b1 w1 where f: "?fl = (x, b1, w1)" by (metis surj_pair)
  have 1: "tracked (Some b) w (Some b1) w1"
  proof (cases "ob_redactor b")
    case None
    with f show ?thesis by (auto intro: tracked_refl)
  next
    case (Some rd)
    obtain tl r1 where c: "RedactChunk (Some rd) [] True = (tl, r1)" by (metis surj_pair)
    with f Some have "writeLocked e (b\<lparr>ob_redactor := r1\<rparr>) w tl = (x, b1, w1)" by simp
    from writeLocked_tracked [OF this assms(2)] assms(3) show ?thesis by simp
  qed
  have "w' = w1" "temps (Some b') = temps (Some b1)" "tidy (Some b1) \<Longrightarrow> tidy (Some b')"
    using assms(1) f by (auto simp: Finalize_def temps_def tidy_def split: option.splits if_splits)
  with 1 show ?thesis by (auto simp: tracked_def)
qed

lemma streamFile_names: "streamFile sv path t w = (x, w') \<Longrightarrow> names w' = names w"
  by (auto simp: streamFile_def Let_def split: option.splits if_splits)

lemma finalizeStream_tracked:
  assumes "finalizeStream f bo t w = (x, bo', w')" and "we_create (fn_write f) \<noteq> Some []" and "tidy bo"
  shows "tracked bo w bo' w'"
proof (cases bo)
  case (Some b)
  obtain r b1 w1 where fn: "Finalize (fn_write f) (fn_close f) b w = (r, b1, w1)" by (metis surj_pair)
  note 1 = Finalize_tracked [OF fn assms(2) assms(3) [unfolded Some]]
  have n: "bo' = Some b1 \<and> names w' \<subseteq> names w1"
  proof (cases r)
    case (Inl y)
    with assms Some fn show ?thesis by (simp add: finalizeStream_def)
  next
    case (Inr path)
    obtain y w2 where s: "streamFile (fn_stream f) path t w1 = (y, w2)" by (metis surj_pair)
    have "bo' = Some b1 \<and> w' = (if path = [] then w1 else if y = None \<and> fn_remove f then w2\<lparr>ow_files := map_del path (ow_files w2)\<rparr> else w2)"
      using assms(1) Some fn Inr s by (cases y) (simp_all add: finalizeStream_def split: if_split_asm)
    with streamFile_names [OF s] show ?thesis by (simp add: subset_iff)
  qed
  with 1 Some show ?thesis by (auto simp: tracked_def)
qed (use assms in \<open>auto simp: finalizeStream_def intro: tracked_refl\<close>)

section \<open>The files of a run\<close>

definition inside :: "string \<Rightarrow> string \<Rightarrow> bool" where
  "inside dir p \<longleftrightarrow> dir \<noteq> [] \<and> (p = dir \<or> has_prefix p (dir @ ''/''))"

definition ex_temps :: "ToolExecutor \<Rightarrow> string set" where
  "ex_temps e = temps (ex_stdout_buf e) \<union> temps (ex_stderr_buf e) \<union> temps (ex_pty_buf e)"

definition ex_tidy :: "ToolExecutor \<Rightarrow> bool" where
  "ex_tidy e \<longleftrightarrow> tidy (ex_stdout_buf e) \<and> tidy (ex_stderr_buf e) \<and> tidy (ex_pty_buf e)"

text \<open>\<open>before\<close> are the files there were when the run began.\<close>

definition files_inv :: "string set \<Rightarrow> ToolExecutor \<Rightarrow> exec_world \<Rightarrow> bool" where
  "files_inv before e w \<longleftrightarrow> names (xw_out w) \<subseteq> before \<union> {p. inside (ex_config_dir e) p} \<union> ex_temps e \<and> ex_tidy e"

text \<open>\<open>os.CreateTemp\<close> does not return an empty name.\<close>

fun names_given :: "exec_event \<Rightarrow> bool" where
  "names_given (Chunk s we d) \<longleftrightarrow> we_create we \<noteq> Some []"
| "names_given (Complete ed) \<longleftrightarrow> we_create (fn_write (ed_first ed)) \<noteq> Some [] \<and> we_create (fn_write (ed_second ed)) \<noteq> Some []"
| "names_given (Complete_Timeout ed) \<longleftrightarrow> we_create (fn_write (ed_first ed)) \<noteq> Some [] \<and> we_create (fn_write (ed_second ed)) \<noteq> Some []"
| "names_given _ \<longleftrightarrow> True"

lemma files_inv_out:
  assumes "files_inv before e w" and "names (xw_out w') \<subseteq> names (xw_out w)" and "ex_config_dir e' = ex_config_dir e"
    and "ex_stdout_buf e' = ex_stdout_buf e" "ex_stderr_buf e' = ex_stderr_buf e" "ex_pty_buf e' = ex_pty_buf e"
  shows "files_inv before e' w'"
  using assms by (auto simp: files_inv_def ex_temps_def ex_tidy_def)

lemma killProcessGroup_out [simp]: "xw_out (killProcessGroup e s w) = xw_out w"
  by (simp add: killProcessGroup_def)

lemma handle_files:
  assumes "(if pty then handlePTYWrapperMessage else handleWrapperMessage) io m e w = (x, e', w')" and "files_inv before e w"
  shows "files_inv before e' w'"
proof -
  have "xw_out w' = xw_out w \<and> ex_config_dir e' = ex_config_dir e \<and> ex_stdout_buf e' = ex_stdout_buf e \<and>
      ex_stderr_buf e' = ex_stderr_buf e \<and> ex_pty_buf e' = ex_pty_buf e"
    using assms(1) by (cases pty)
      (auto simp: handlePTYWrapperMessage_def handleWrapperMessage_def forwardSignal_def Let_def split: if_splits option.splits prod.splits)
  then show ?thesis by (intro files_inv_out [OF assms(2)]) simp_all
qed

lemma pump_files:
  assumes "files_inv before (xs_ex st) (xs_world st)" and "we_create we \<noteq> Some []"
  shows "files_inv before (xs_ex (pump_chunk s we d st)) (xs_world (pump_chunk s we d st))"
proof (cases "stream_buf s (xs_ex st)")
  case (Some b)
  obtain err b' o' where w: "OB_Write we b (xw_out (xs_world st)) d = (err, b', o')" by (metis surj_pair)
  have t: "tidy (Some b)" using assms(1) Some by (cases s) (auto simp: files_inv_def ex_tidy_def)
  have "files_inv before (set_stream_buf s b' (xs_ex st)) ((xs_world st)\<lparr>xw_out := o'\<rparr>)"
    using assms(1) write_tracked [OF w assms(2) t] t Some
    by (cases s) (auto simp: files_inv_def ex_temps_def ex_tidy_def tracked_def)
  with Some w show ?thesis by (auto simp: pump_chunk_def Let_def files_inv_def)
qed (use assms in \<open>simp add: pump_chunk_def\<close>)

lemma finalizeOutput_files:
  assumes "finalizeOutput f1 f2 e (xw_out w) = (e', o')" and "files_inv before e w"
    and "we_create (fn_write f1) \<noteq> Some []" "we_create (fn_write f2) \<noteq> Some []"
  shows "files_inv before e' (w\<lparr>xw_out := o'\<rparr>)"
proof (cases "ex_use_pty e")
  case True
  obtain x b w1 where f: "finalizeStream f1 (ex_pty_buf e) MsgTypeStdout (xw_out w) = (x, b, w1)" by (metis surj_pair)
  have t: "tidy (ex_pty_buf e)" using assms(2) by (simp add: files_inv_def ex_tidy_def)
  have eq: "e' = e\<lparr>ex_pty_buf := b\<rparr>" "o' = w1" using assms(1) True f by (simp_all add: finalizeOutput_def)
  show ?thesis
    using assms(2) finalizeStream_tracked [OF f assms(3) t] t unfolding eq files_inv_def ex_temps_def ex_tidy_def tracked_def by simp blast
next
  case False
  obtain x1 b1 w1 where f1: "finalizeStream f1 (ex_stdout_buf e) MsgTypeStdout (xw_out w) = (x1, b1, w1)" by (metis surj_pair)
  obtain x2 b2 w2 where f2: "finalizeStream f2 (ex_stderr_buf e) MsgTypeStderr w1 = (x2, b2, w2)" by (metis surj_pair)
  have t: "tidy (ex_stdout_buf e)" "tidy (ex_stderr_buf e)" using assms(2) by (simp_all add: files_inv_def ex_tidy_def)
  have eq: "e' = e\<lparr>ex_stdout_buf := b1, ex_stderr_buf := b2\<rparr>" "o' = w2"
    using assms(1) False f1 f2 by (simp_all add: finalizeOutput_def)
  note 1 = finalizeStream_tracked [OF f1 assms(3) t(1)] finalizeStream_tracked [OF f2 assms(4) t(2)]
  show ?thesis
    using assms(2) 1 t unfolding eq files_inv_def ex_temps_def ex_tidy_def tracked_def by simp blast
qed

lemma finish_files:
  assumes "files_inv before (xs_ex st) (xs_world st)" and "we_create (fn_write (ed_first ed)) \<noteq> Some []" "we_create (fn_write (ed_second ed)) \<noteq> Some []"
  shows "files_inv before (xs_ex (finish ed c t st)) (xs_world (finish ed c t st))"
proof -
  obtain e o1 where f: "finalizeOutput (ed_first ed) (ed_second ed) (xs_ex st) (xw_out (xs_world st)) = (e, o1)" by (metis surj_pair)
  have "xw_out (emitAuditEntry oc now c t e w) = xw_out w" for oc now w
    by (simp add: emitAuditEntry_def split: option.splits)
  with finalizeOutput_files [OF f assms] f show ?thesis
    by (auto simp: finish_def sendDone_def sendMessage_def files_inv_def Let_def)
qed

lemma clean_buffer_names:
  assumes "clean_buffer stuck bo w = (bo', w')"
  shows "names w' \<subseteq> names w - (temps bo - set stuck) \<and> tidy bo'"
  using assms by (auto simp: clean_buffer_def temps_def tidy_def OB_Cleanup_def Let_def split: option.splits if_splits)

lemma remove_all_names: "names (remove_all stuck dir w) \<subseteq> names w - ({p. p = dir \<or> has_prefix p (dir @ ''/'')} - set stuck)"
proof
  fix p assume "p \<in> names (remove_all stuck dir w)"
  then have "p \<in> fst ` set (filter (\<lambda>(p, _). p \<in> set stuck \<or> p \<noteq> dir \<and> \<not> has_prefix p (dir @ ''/'')) (ow_files w))"
    by (simp add: names_def remove_all_def dom_map_of_conv_image_fst)
  then show "p \<in> names w - ({p. p = dir \<or> has_prefix p (dir @ ''/'')} - set stuck)"
    by (force simp: names_def dom_map_of_conv_image_fst)
qed

text \<open>The descriptors of a run: its end of the tool's input, the read ends of its output, the terminal.\<close>

definition pipes_closed :: "ToolExecutor \<Rightarrow> bool" where
  "pipes_closed e \<longleftrightarrow> \<not> ex_stdin e \<and> \<not> ex_stdoutR e \<and> \<not> ex_stderrR e \<and> \<not> ex_pty_master e"

lemma cleanup_files:
  assumes "cleanup stuck e w = (e', w')" and "files_inv before e w"
  shows "names (xw_out w') \<subseteq> before \<union> set stuck \<and> ex_tidy e' \<and> pipes_closed e'"
proof -
  obtain bo o1 where 1: "clean_buffer stuck (ex_stdout_buf e) (xw_out w) = (bo, o1)" by (metis surj_pair)
  obtain be o2 where 2: "clean_buffer stuck (ex_stderr_buf e) o1 = (be, o2)" by (metis surj_pair)
  obtain bp o3 where 3: "clean_buffer stuck (ex_pty_buf e) o2 = (bp, o3)" by (metis surj_pair)
  define o4 where "o4 = (if ex_config_dir e \<noteq> [] then remove_all stuck (ex_config_dir e) o3 else o3)"
  have "names o3 \<subseteq> names (xw_out w) - (ex_temps e - set stuck)"
    using clean_buffer_names [OF 1] clean_buffer_names [OF 2] clean_buffer_names [OF 3] by (auto simp: ex_temps_def)
  then have "names o4 \<subseteq> names (xw_out w) - ((ex_temps e \<union> {p. inside (ex_config_dir e) p}) - set stuck)"
    using remove_all_names [of stuck "ex_config_dir e" o3] by (auto simp: o4_def inside_def split: if_splits)
  with assms(2) have "names o4 \<subseteq> before \<union> set stuck" unfolding files_inv_def by blast
  moreover have "xw_out w' = o4 \<and> ex_tidy e' \<and> pipes_closed e'"
    using assms(1) 1 2 3 clean_buffer_names [OF 1] clean_buffer_names [OF 2] clean_buffer_names [OF 3]
    by (auto simp: cleanup_def Let_def o4_def ex_tidy_def pipes_closed_def)
  ultimately show ?thesis by simp
qed

lemma exec_sendError_names [simp]: "names (xw_out (exec_sendError ok m w)) = names (xw_out w)"
  by (simp add: exec_sendError_def sendMessage_def)

lemma files_inv_error [simp]: "files_inv before e (exec_sendError ok m w) = files_inv before e w"
  by (simp add: files_inv_def)

lemma files_inv_do:
  assumes "files_inv before (xs_ex st) (xs_world st)" and "exec_do ev st = Some st'" and "names_given ev"
    and "xs_phase st' \<noteq> Cleaned"
  shows "files_inv before (xs_ex st') (xs_world st')"
proof (cases ev)
  case (Chunk s we d)
  with assms pump_files [OF assms(1), of we s d] show ?thesis by (auto split: if_splits)
next
  case (Read_Message r)
  show ?thesis
  proof (cases r)
    case None
    with Read_Message assms(2) show ?thesis
      by (intro files_inv_out [OF assms(1)]) (auto simp: ptyInputPumper_def stdinPumper_def split: if_splits)
  next
    case (Some q)
    obtain io m where q: "q = (io, m)" by (metis surj_pair)
    obtain x e w where h: "(if ex_use_pty (xs_ex st) then handlePTYWrapperMessage else handleWrapperMessage) io m (xs_ex st) (xs_world st) = (x, e, w)"
      by (metis surj_pair)
    then have "xs_ex st' = e" "xs_world st' = w"
      using assms(2) Read_Message Some q by (auto simp: ptyInputPumper_def stdinPumper_def split: if_splits)
    with handle_files [OF h assms(1)] show ?thesis by simp
  qed
next
  case (Complete ed)
  with assms finish_files [OF assms(1), of ed] show ?thesis by (auto simp: runIOLoop_end_def split: phase.splits)
next
  case (Complete_Timeout ed)
  have "files_inv before (xs_ex (setOutputDrainDeadline st)) (xs_world (setOutputDrainDeadline st))"
    by (rule files_inv_out [OF assms(1)]) (simp_all add: setOutputDrainDeadline_def)
  from finish_files [OF this, of ed] assms Complete_Timeout show ?thesis by (auto simp: handleTimeout_end_def split: if_splits)
next
  case (Clean stuck)
  with assms(2,4) show ?thesis by (auto split: if_splits prod.splits)
next
  case (Stream_End t)
  with assms(1,2) show ?thesis by (auto split: if_splits)
next
  case (Exit c)
  with assms(2) show ?thesis by (intro files_inv_out [OF assms(1)]) (auto simp: exec_parts split: if_splits)
next
  case (Wait_Failed ok)
  with assms(1,2) show ?thesis by (auto simp: runIOLoop_error_def split: if_splits)
next
  case Context_Kill
  with assms(2) show ?thesis by (intro files_inv_out [OF assms(1)]) (auto simp: exec_parts split: if_splits)
next
  case Deadline
  with assms(2) show ?thesis by (intro files_inv_out [OF assms(1)]) (auto simp: exec_parts split: if_splits)
next
  case Still_Running
  with assms(2) show ?thesis by (intro files_inv_out [OF assms(1)]) (auto simp: exec_parts split: if_splits)
qed

text \<open>The clean-up is the last thing a run does to its own state.\<close>

lemma cleaned_for_good:
  assumes "exec_do ev st = Some st'" and "xs_phase st = Cleaned"
  shows "xs_phase st' = Cleaned"
proof (cases ev)
  case (Chunk s we d)
  with assms show ?thesis by (auto simp: pump_chunk_def Let_def split: if_splits option.splits prod.splits)
next
  case (Read_Message r)
  with assms show ?thesis by (auto simp: ptyInputPumper_def stdinPumper_def split: if_splits option.splits prod.splits)
qed (use assms in \<open>auto split: if_splits\<close>)

lemma files_inv_run:
  "exec_run evs st = Some st' \<Longrightarrow> list_all names_given evs \<Longrightarrow> files_inv before (xs_ex st) (xs_world st) \<Longrightarrow>
   xs_phase st' \<noteq> Cleaned \<Longrightarrow> files_inv before (xs_ex st') (xs_world st')"
proof (induction evs arbitrary: st' rule: rev_induct)
  case (snoc ev evs)
  then obtain st1 where 1: "exec_run evs st = Some st1" "exec_do ev st1 = Some st'" by (auto simp: exec_run_append split: option.splits)
  moreover have "xs_phase st1 \<noteq> Cleaned" using cleaned_for_good [OF 1(2)] snoc.prems(4) by blast
  ultimately show ?case using snoc files_inv_do [OF _ 1(2)] by auto
qed simp

text \<open>The files the start of a run makes: only the configuration file, below its own directory.\<close>

definition config_name_ok :: "config_env \<Rightarrow> ToolDef \<Rightarrow> bool" where
  "config_name_ok ce tool \<longleftrightarrow>
     (\<forall>cf. td_config_file tool = Some cf \<longrightarrow> validateConfigFileDef cf = None) \<and> (\<forall>d. ce_mkdtemp ce = Some d \<longrightarrow> abs_clean d)"

lemma setup_inside:
  assumes "setupConfigFile ce rs cfg tool = (x, cd, cf, cs)" and "config_name_ok ce tool" and "cf = Some (p, c)"
  shows "inside cd p"
proof -
  from assms obtain d where d: "td_config_file tool = Some d" "ce_mkdtemp ce = Some cd"
    "p = path_join [path_join [cd, cf_xdg_subdir d], cf_filename d]"
    by (auto simp: setupConfigFile_def Let_def split: option.splits if_splits sum.splits)
  have ok: "validateConfigFileDef d = None" "abs_clean cd" using assms(2) d by (auto simp: config_name_ok_def)
  have v: "validateSafeRelativePath (cf_xdg_subdir d) True = None" "validateSafeRelativePath (cf_filename d) False = None"
    using ok(1) by (auto simp: validateConfigFileDef_def split: option.splits)
  note s = safe_relative_path(1) [OF v(1)] safe_relative_path(1) [OF v(2)]
  have "p = (cd @ ''/'') @ cf_xdg_subdir d @ ''/'' @ cf_filename d"
    using path_join_safe [OF ok(2) s(1)] path_join_safe [OF abs_clean_extend [OF ok(2) s(1)] s(2)] d(3) by simp
  moreover have "cd \<noteq> []" using ok(2) by (auto simp: abs_clean_def)
  moreover have "has_prefix ((cd @ ''/'') @ t) (cd @ ''/'')" for t by (simp only: has_prefix_append)
  ultimately show ?thesis by (simp add: inside_def)
qed

lemma config_written_names:
  assumes "setupConfigFile ce rs cfg tool = (x, cd, cf, cs)" and "config_name_ok ce tool"
  shows "names (xw_out (config_written cf w)) \<subseteq> names (xw_out w) \<union> {p. inside cd p}"
  using setup_inside [OF assms] by (auto simp: config_written_def split: option.splits)

lemma startProcess_files:
  assumes "startProcess se env e w = (x, e', w')" and "ex_stdout_buf e = None" "ex_stderr_buf e = None" "ex_pty_buf e = None"
  shows "ex_config_dir e' = ex_config_dir e \<and> ex_tidy e' \<and> ex_temps e' = {} \<and> xw_out w' = xw_out w"
proof (cases "pr_use_pty (ex_req e) \<and> GetUsePTY (ex_tool e)")
  case True
  let ?e = "e\<lparr>ex_use_pty := True\<rparr>"
  from True assms(1) have s: "startProcessWithPTY se env ?e w = (x, e', w')" by (simp add: startProcess_def Let_def)
  show ?thesis
  proof (cases "se_start se")
    case None
    then have "e' = ?e" "w' = w" using s by (simp_all add: startProcessWithPTY_def)
    then show ?thesis using assms(2-4) by (simp add: ex_tidy_def ex_temps_def tidy_def temps_def)
  next
    case (Some pid)
    then show ?thesis using s assms(2-4) by (auto simp: startProcessWithPTY_def ex_tidy_def ex_temps_def tidy_def temps_def)
  qed
next
  case False
  let ?e = "e\<lparr>ex_use_pty := False\<rparr>"
  let ?e2 = "?e\<lparr>ex_stdoutR := True, ex_stderrR := True\<rparr>"
  let ?e1 = "?e2\<lparr>ex_stdin := GetUseStdin (ex_tool e), ex_stdout_buf := Some (new_stream ?e ''stdout'' (ex_threshold e)),
    ex_stderr_buf := Some (new_stream ?e ''stderr'' (ex_threshold e))\<rparr>"
  have "(e' = ?e \<or> e' = ?e2 \<or> e' = ?e1 \<or> (\<exists>pid. e' = ?e1\<lparr>ex_pgid := pid\<rparr>)) \<and> xw_out w' = xw_out w"
    using False assms(1) unfolding startProcess_def Let_def by (simp split: if_splits option.splits) auto
  then show ?thesis using assms(2-4) by (elim conjE disjE exE) (simp_all add: ex_tidy_def ex_temps_def tidy_def temps_def)
qed

lemma run_start_files:
  assumes "run_start r e0 w0 = (x, e, w)" and "fresh_executor e0" and "config_name_ok (rn_config r) (ex_tool e0)"
  shows "files_inv (names (xw_out w0)) e w"
proof -
  define e1 where "e1 = e0\<lparr>ex_start := rn_now r, ex_work_dir := run_dir e0\<rparr>"
  have e1: "ex_stdout_buf e1 = None" "ex_stderr_buf e1 = None" "ex_pty_buf e1 = None" "ex_cfg e1 = ex_cfg e0" "ex_tool e1 = ex_tool e0"
    using assms(2) by (simp_all add: e1_def fresh_executor_def)
  then have plain: "files_inv (names (xw_out w0)) e1 w0" by (auto simp: files_inv_def ex_tidy_def tidy_def)
  obtain ce cd cf cs where c: "setupConfigFile (rn_config r) (rn_resolve r) (ex_cfg e0) (ex_tool e0) = (ce, cd, cf, cs)" by (metis surj_pair)
  define e2 where "e2 = e1\<lparr>ex_config_dir := cd, ex_secrets := ex_secrets e1 @ cs\<rparr>"
  have two_sec: "files_inv (names (xw_out w0)) (e2\<lparr>ex_secrets := sec\<rparr>) (config_written cf w0)" for sec
    using config_written_names [OF c assms(3), of w0] e1 by (auto simp: files_inv_def e2_def ex_tidy_def ex_temps_def tidy_def temps_def)
  have two: "files_inv (names (xw_out w0)) e2 (config_written cf w0)"
    using two_sec [of "ex_secrets e2"] by simp
  have 3: "files_inv (names (xw_out w0)) e3 w3"
    if "startProcess se env (e2\<lparr>ex_secrets := sec\<rparr>) (config_written cf w0) = (y, e3, w3)" for se env sec y e3 w3
    using startProcess_files [OF that] two_sec [of sec] e1 by (auto simp: e2_def files_inv_def ex_temps_def temps_def)
  show ?thesis
    using assms(1) plain two unfolding run_start_def Let_def e1_def [symmetric] e1 c prod.case e2_def [symmetric]
    by (auto dest: 3 split: if_splits option.splits sum.splits prod.splits)
qed

text \<open>C20: when \<open>Run\<close> returns, in whatever way it ended and whatever failed on the way, every file that
  exists was there before it or is one whose removal failed, every pipe and the terminal are closed, and
  the last thing it did to the process group, if there was one, was to kill it.\<close>
theorem run_leaves_nothing:
  assumes "NewToolExecutor req tool cfg tok lg pid exe = Inr e0" and "config_name_ok (rn_config r) tool"
    and "list_all names_given evs" and "Run r evs e0 w0 = Some (e, w)"
  shows "names (xw_out w) \<subseteq> names (xw_out w0) \<union> set (rn_stuck r) \<and> pipes_closed e \<and>
     (ex_pgid e \<noteq> 0 \<longrightarrow> last (xw_kills w) = (- ex_pgid e, SIGKILL))"
proof -
  note fresh = new_executor_fresh [OF assms(1)]
  have tool: "ex_tool e0 = tool" using assms(1) by (auto simp: NewToolExecutor_def split: if_splits)
  obtain x e1 w1 where s: "run_start r e0 w0 = (x, e1, w1)" by (metis surj_pair)
  note inv = run_start_files [OF s fresh assms(2) [folded tool]]
  obtain e2 w2 where c: "cleanup (rn_stuck r) e2 w2 = (e, w)" and i2: "files_inv (names (xw_out w0)) e2 w2"
  proof (cases x)
    case (Some y)
    with assms(4) s that inv show thesis by (auto simp: Run_def)
  next
    case None
    with assms(4) s obtain st where "exec_run (evs @ [Clean (rn_stuck r)]) (started_state e1 w1) = Some st" "xs_ex st = e" "xs_world st = w"
      by (auto simp: Run_def)
    then obtain st1 where st1: "exec_run evs (started_state e1 w1) = Some st1" "cleanup (rn_stuck r) (xs_ex st1) (xs_world st1) = (e, w)" "xs_phase st1 = Finished"
      by (auto simp: exec_run_append Let_def split: option.splits if_splits prod.splits)
    have "files_inv (names (xw_out w0)) (xs_ex st1) (xs_world st1)"
      by (rule files_inv_run [OF st1(1) assms(3)]) (simp_all add: started_state_def inv st1(3))
    with st1(2) that show thesis by blast
  qed
  show ?thesis using cleanup_files [OF c i2] cleanup_kills [OF c] by (auto simp: to_group_def)
qed

definition config_tool :: ToolDef where
  "config_tool = zero_tool\<lparr>td_config_file := Some \<lparr>cf_xdg_subdir = ''gh'', cf_filename = ''hosts.yml'', cf_template = ''x: {{ .a }}'', cf_credentials = []\<rparr>\<rparr>"

theorem run_leaves_nothing_witness:
  "\<exists>e0 e w. NewToolExecutor sample_request config_tool zero_config [] Nop 1 [] = Inr e0 \<and>
     Run sample_run (butlast sample_events) e0 sample_world = Some (e, w) \<and> names (xw_out w) = {} \<and> pipes_closed e"
proof -
  let ?n = "NewToolExecutor sample_request config_tool zero_config [] Nop 1 []"
  have "\<not> isl ?n" by code_simp
  then obtain e0 where n: "?n = Inr e0" by (metis isl_def obj_sumE)
  have "Run sample_run (butlast sample_events) (projr ?n) sample_world \<noteq> None" by code_simp
  then obtain e w where r: "Run sample_run (butlast sample_events) e0 sample_world = Some (e, w)" using n by (auto simp: not_None_eq)
  have "validateConfigFileDef \<lparr>cf_xdg_subdir = ''gh'', cf_filename = ''hosts.yml'', cf_template = ''x: {{ .a }}'', cf_credentials = []\<rparr> = None" by code_simp
  moreover have "abs_clean ''/tmp/c1''" using abs_cleanI [of "[''tmp'', ''c1'']"] by (simp add: plain_part_def)
  ultimately have "config_name_ok (rn_config sample_run) config_tool"
    by (simp add: config_name_ok_def sample_run_def config_tool_def)
  moreover have "list_all names_given (butlast sample_events)" by (simp add: sample_events_def sample_end_def sample_final_def sample_env_def)
  moreover have "names (xw_out sample_world) = {}" "rn_stuck sample_run = []" by (simp_all add: names_def sample_world_def sample_run_def)
  ultimately show ?thesis using run_leaves_nothing [OF n _ _ r] n r by auto
qed

end
