(* ===== verification/Peer.thy ===== *)
theory Peer
  imports Prelude
begin

text \<open>
  The caller of a connection: \<open>internal/daemon/peercred_linux.go\<close>, \<open>peercred_darwin.go\<close> and
  \<open>peercred_unsupported.go\<close>. The answers of the system calls are arguments: the socket options, the
  links and files of \<open>/proc\<close>, and the buffer of the \<open>kern.procargs2\<close> sysctl.
\<close>

section \<open>Credentials of the peer\<close>

record Ucred =
  PID :: int
  UID :: int
  GID :: int

datatype peer_error =
    Peer_Conn | Peer_Control | Peer_Sockopt | Peer_Unavailable | Peer_Unsupported
  | Peer_Sysctl | Peer_Payload | Peer_Missing_Exe | Peer_Unterminated_Exe | Peer_Empty_Exe
  | Peer_Missing_Argv0 | Peer_Unterminated_Argv0 | Peer_Empty_Argv0
  | Peer_Readlink | Peer_Read | Peer_Empty_Cmdline

text \<open>
  \<open>pq_conn\<close>: \<open>SyscallConn\<close> succeeds; \<open>pq_control\<close>: \<open>Control\<close> succeeds, \<open>pq_called\<close> whether it ran its
  function; the rest are the answers of the socket options (\<open>SO_PEERCRED\<close>; \<open>LOCAL_PEERCRED\<close> with its
  group list, and \<open>LOCAL_PEERPID\<close>).
\<close>

record peer_query =
  pq_conn :: bool
  pq_control :: bool
  pq_called :: bool
  pq_ucred :: "Ucred option"
  pq_xucred :: "(int \<times> int list) option"
  pq_pid :: "int option"

definition int32 :: "int \<Rightarrow> int" where
  "int32 x = (x + 2147483648) mod 4294967296 - 2147483648"

definition control_outcome :: "peer_query \<Rightarrow> peer_error + Ucred \<Rightarrow> peer_error + Ucred" where
  "control_outcome q out =
     (if \<not> pq_conn q then Inl Peer_Conn
      else if \<not> pq_control q then Inl Peer_Control
      else if \<not> pq_called q then Inl Peer_Unavailable
      else out)"

definition linux_getPeerCredentials :: "peer_query \<Rightarrow> peer_error + Ucred" where
  "linux_getPeerCredentials q =
     control_outcome q (case pq_ucred q of None \<Rightarrow> Inl Peer_Sockopt | Some u \<Rightarrow> Inr \<lparr>PID = PID u, UID = UID u, GID = GID u\<rparr>)"

definition darwin_getPeerCredentials :: "peer_query \<Rightarrow> peer_error + Ucred" where
  "darwin_getPeerCredentials q =
     control_outcome q
       (case pq_xucred q of
          None \<Rightarrow> Inl Peer_Sockopt
        | Some (uid, groups) \<Rightarrow>
            (case pq_pid q of
               None \<Rightarrow> Inl Peer_Sockopt
             | Some pid \<Rightarrow> Inr \<lparr>PID = int32 pid, UID = uid, GID = (if 0 < length groups then groups ! 0 else 0)\<rparr>))"

definition unsupported_getPeerCredentials :: "peer_query \<Rightarrow> peer_error + Ucred" where
  "unsupported_getPeerCredentials q = Inl Peer_Unsupported"

section \<open>Linux: the proc file system\<close>

text \<open>\<open>links\<close> is \<open>os.Readlink\<close>, \<open>files\<close> is \<open>os.ReadFile\<close>.\<close>

definition linux_resolvePeerExecutable :: "(string \<Rightarrow> string option) \<Rightarrow> int \<Rightarrow> peer_error + string" where
  "linux_resolvePeerExecutable links pid =
     (case links (''/proc/'' @ format_int pid @ ''/exe'') of
        None \<Rightarrow> Inl Peer_Readlink
      | Some exe \<Rightarrow> if exe = [] then Inl Peer_Empty_Exe else Inr exe)"

definition linux_resolvePeerArgv0 :: "(string \<Rightarrow> bytes option) \<Rightarrow> int \<Rightarrow> peer_error + string" where
  "linux_resolvePeerArgv0 files pid =
     (case files (''/proc/'' @ format_int pid @ ''/cmdline'') of
        None \<Rightarrow> Inl Peer_Read
      | Some data \<Rightarrow>
          if data = [] then Inl Peer_Empty_Cmdline
          else let argv0 = (case cut_char NUL data of Some (before, after) \<Rightarrow> before | None \<Rightarrow> data)
               in if argv0 = [] then Inl Peer_Empty_Argv0 else Inr argv0)"

section \<open>Darwin: the process arguments buffer\<close>

text \<open>\<open>skip_nuls data pos\<close> is the loop that moves \<open>pos\<close> over zero bytes.\<close>

function skip_nuls :: "bytes \<Rightarrow> nat \<Rightarrow> nat" where
  "skip_nuls data pos = (if pos < length data \<and> data ! pos = NUL then skip_nuls data (pos + 1) else pos)"
  by auto
termination by (relation "measure (\<lambda>(data, pos). length data - pos)") auto

declare skip_nuls.simps [simp del]

text \<open>\<open>bytes.IndexByte(s, 0)\<close>\<close>

fun index_nul :: "bytes \<Rightarrow> nat option" where
  "index_nul [] = None"
| "index_nul (c # s) = (if c = NUL then Some 0 else map_option Suc (index_nul s))"

text \<open>The executable path and the position after it; \<open>raw[:4]\<close> holds argc, which is not used.\<close>

definition procargs_exe :: "bytes \<Rightarrow> peer_error + string \<times> nat" where
  "procargs_exe data =
     (let start = skip_nuls data 0
      in if length data \<le> start then Inl Peer_Missing_Exe
         else case index_nul (drop start data) of
           None \<Rightarrow> Inl Peer_Unterminated_Exe
         | Some endRel \<Rightarrow> Inr (take endRel (drop start data), start + endRel))"

definition darwin_resolvePeerExecutable :: "(int \<Rightarrow> bytes option) \<Rightarrow> int \<Rightarrow> peer_error + string" where
  "darwin_resolvePeerExecutable sysctl pid =
     (case sysctl pid of
        None \<Rightarrow> Inl Peer_Sysctl
      | Some raw \<Rightarrow>
          if length raw < 4 then Inl Peer_Payload
          else case procargs_exe (drop 4 raw) of
            Inl x \<Rightarrow> Inl x
          | Inr (exe, pos) \<Rightarrow> if exe = [] then Inl Peer_Empty_Exe else Inr exe)"

definition darwin_resolvePeerArgv0 :: "(int \<Rightarrow> bytes option) \<Rightarrow> int \<Rightarrow> peer_error + string" where
  "darwin_resolvePeerArgv0 sysctl pid =
     (case sysctl pid of
        None \<Rightarrow> Inl Peer_Sysctl
      | Some raw \<Rightarrow>
          if length raw < 4 then Inl Peer_Payload
          else let data = drop 4 raw
               in (case procargs_exe data of
                     Inl x \<Rightarrow> Inl x
                   | Inr (exe, pos0) \<Rightarrow>
                       let pos = skip_nuls data pos0
                       in if length data \<le> pos then Inl Peer_Missing_Argv0
                          else case index_nul (drop pos data) of
                            None \<Rightarrow> Inl Peer_Unterminated_Argv0
                          | Some argvEndRel \<Rightarrow>
                              let argv0 = take argvEndRel (drop pos data)
                              in if argv0 = [] then Inl Peer_Empty_Argv0 else Inr argv0))"

definition unsupported_resolvePeerExecutable :: "int \<Rightarrow> peer_error + string" where
  "unsupported_resolvePeerExecutable pid = Inl Peer_Unsupported"

definition unsupported_resolvePeerArgv0 :: "int \<Rightarrow> peer_error + string" where
  "unsupported_resolvePeerArgv0 pid = Inl Peer_Unsupported"

section \<open>Lemmas\<close>

lemma skip_nuls_pad:
  "skip_nuls (pre @ replicate k NUL @ rest) (length pre) = length pre + k + skip_nuls rest 0"
  if "rest = [] \<or> hd rest \<noteq> NUL"
  using that
proof (induction k arbitrary: pre)
  case 0
  then show ?case by (subst skip_nuls.simps, subst skip_nuls.simps) (cases rest; simp)
next
  case (Suc k)
  from Suc.IH [of "pre @ [NUL]"] Suc.prems show ?case by (subst skip_nuls.simps) (simp add: nth_append)
qed

lemma skip_nuls_stop: "s \<noteq> [] \<Longrightarrow> hd s \<noteq> NUL \<Longrightarrow> skip_nuls s 0 = 0"
  by (subst skip_nuls.simps) (cases s; simp)

lemma index_nul_append: "NUL \<notin> set s \<Longrightarrow> index_nul (s @ NUL # t) = Some (length s)"
  by (induction s) auto

lemma index_nul_None: "index_nul s = None \<longleftrightarrow> NUL \<notin> set s"
  by (induction s) auto

text \<open>The layout the kernel promises: argc, the path, its padding, the arguments, each ended by a zero byte.\<close>

definition procargs :: "bytes \<Rightarrow> nat \<Rightarrow> string \<Rightarrow> nat \<Rightarrow> string \<Rightarrow> bytes \<Rightarrow> bytes" where
  "procargs argc lead exe pad argv0 rest = argc @ replicate lead NUL @ exe @ replicate (Suc pad) NUL @ argv0 @ NUL # rest"

definition c_word :: "string \<Rightarrow> bool" where
  "c_word s \<longleftrightarrow> s \<noteq> [] \<and> NUL \<notin> set s"

lemma c_word_hd: "c_word s \<Longrightarrow> s \<noteq> [] \<and> hd (s @ t) \<noteq> NUL"
  by (cases s) (auto simp: c_word_def)

lemma procargs_exe_layout:
  assumes "c_word exe"
  shows "procargs_exe (replicate lead NUL @ exe @ NUL # rest) = Inr (exe, lead + length exe)"
proof -
  let ?t = "exe @ NUL # rest"
  have h: "?t \<noteq> []" "hd ?t \<noteq> NUL" using assms c_word_hd [of exe "NUL # rest"] by auto
  have s: "skip_nuls (replicate lead NUL @ ?t) 0 = lead"
    using skip_nuls_pad [of ?t "[]" lead] skip_nuls_stop [of ?t] h by simp
  from assms have "index_nul ?t = Some (length exe)" by (simp add: c_word_def index_nul_append)
  then show ?thesis using s by (simp add: procargs_exe_def)
qed

text \<open>From a buffer laid out as the kernel lays it out, the path of the executable and the first
  argument are read back exactly, whatever the padding, the argument count and the bytes that follow.\<close>

lemma procargs_roundtrip:
  assumes "sysctl pid = Some (procargs argc lead exe pad argv0 rest)" and "length argc = 4" and "c_word exe" and "c_word argv0"
  shows "darwin_resolvePeerExecutable sysctl pid = Inr exe \<and> darwin_resolvePeerArgv0 sysctl pid = Inr argv0"
proof -
  let ?data = "replicate lead NUL @ exe @ replicate (Suc pad) NUL @ argv0 @ NUL # rest"
  have d: "procargs argc lead exe pad argv0 rest = argc @ ?data" by (simp add: procargs_def)
  have e: "procargs_exe ?data = Inr (exe, lead + length exe)"
    using procargs_exe_layout [OF assms(3), of lead "replicate pad NUL @ argv0 @ NUL # rest"] by simp
  have h: "argv0 \<noteq> []" "hd (argv0 @ NUL # rest) \<noteq> NUL" using c_word_hd [OF assms(4), of "NUL # rest"] by auto
  have p: "skip_nuls ?data (lead + length exe) = lead + length exe + Suc pad"
    using skip_nuls_pad [of "argv0 @ NUL # rest" "replicate lead NUL @ exe" "Suc pad"] h
      skip_nuls_stop [of "argv0 @ NUL # rest"] by simp
  have i: "index_nul (argv0 @ NUL # rest) = Some (length argv0)" using assms(4) by (simp add: c_word_def index_nul_append)
  have dr: "drop (lead + length exe + Suc pad) ?data = argv0 @ NUL # rest"
    by (simp add: drop_append add.commute)
  have "length ?data = lead + length exe + Suc pad + length argv0 + 1 + length rest" by simp
  then have ln: "\<not> length ?data \<le> lead + length exe + Suc pad" by linarith
  have ne: "exe \<noteq> []" using assms(3) by (simp add: c_word_def)
  have dp: "drop 4 (procargs argc lead exe pad argv0 rest) = ?data" using assms(2) by (simp add: d)
  have l4: "\<not> length (procargs argc lead exe pad argv0 rest) < 4" using assms(2) by (simp add: d)
  have a: "darwin_resolvePeerExecutable sysctl pid = Inr exe"
    by (simp only: darwin_resolvePeerExecutable_def assms(1) option.case l4 dp e if_False sum.case prod.case ne)
  have b: "darwin_resolvePeerArgv0 sysctl pid = Inr argv0"
    by (simp only: darwin_resolvePeerArgv0_def assms(1) option.case l4 dp e if_False sum.case prod.case Let_def p ln dr i)
       (simp add: h)
  from a b show ?thesis ..
qed

definition sample_procargs :: "int \<Rightarrow> bytes option" where
  "sample_procargs pid = Some (procargs [CHR 0x01, NUL, NUL, NUL] 0 ''/usr/local/bin/claw-wrap'' 3 ''gh'' ''HOME=/'')"

lemma procargs_roundtrip_witness:
  "darwin_resolvePeerExecutable sample_procargs 7 = Inr ''/usr/local/bin/claw-wrap'' \<and> darwin_resolvePeerArgv0 sample_procargs 7 = Inr ''gh''"
  by (rule procargs_roundtrip) (auto simp: sample_procargs_def c_word_def)

text \<open>A buffer cut off before the end of the path yields no executable, so the caller is not identified.\<close>

lemma truncated_procargs_refused:
  assumes "sysctl pid = Some (argc @ exe)" and "length argc = 4" and "NUL \<notin> set exe"
  shows "\<exists>x. darwin_resolvePeerExecutable sysctl pid = Inl x"
proof -
  have "NUL \<notin> set (drop n exe)" for n using assms(3) by (meson in_set_dropD)
  then have "index_nul (drop n exe) = None" for n by (simp add: index_nul_None)
  then show ?thesis using assms(1,2) by (simp add: darwin_resolvePeerExecutable_def procargs_exe_def Let_def)
qed

end
