(* ===== verification/Admin_Wire.thy ===== *)
theory Admin_Wire
  imports Wire
begin

text \<open>
  The answers of the administrative commands \<open>list\<close> and \<open>check\<close> on the wire: the structs of
  \<open>internal/protocol/messages.go\<close> as \<open>encoding/json\<close> writes and reads them, the error object, and the
  untyped map the daemon reads a request into first.
\<close>

section \<open>Maps of structs\<close>

text \<open>A struct map is written in key order; each value is read into a fresh zero value.\<close>

definition json_map :: "('v \<Rightarrow> json) \<Rightarrow> (string, 'v) gomap \<Rightarrow> json" where
  "json_map enc m = JObj (map (\<lambda>(k, v). (k, enc v)) (sort_key fst m))"

fun dec_pairs :: "(json \<Rightarrow> 'v option) \<Rightarrow> (string \<times> json) list \<Rightarrow> (string, 'v) gomap \<Rightarrow> (string, 'v) gomap option" where
  "dec_pairs dec [] m = Some m"
| "dec_pairs dec ((k, j) # es) m = (case dec j of None \<Rightarrow> None | Some v \<Rightarrow> dec_pairs dec es (map_set k v m))"

definition dec_gomap :: "(json \<Rightarrow> 'v option) \<Rightarrow> json \<Rightarrow> (string, 'v) gomap \<Rightarrow> (string, 'v) gomap option" where
  "dec_gomap dec j old = (case j of JObj es \<Rightarrow> dec_pairs dec es old | JNull \<Rightarrow> Some [] | _ \<Rightarrow> None)"

section \<open>The answer of list\<close>

definition json_ToolInfo :: "ToolInfo \<Rightarrow> json" where
  "json_ToolInfo t = JObj [(''binary'', JStr (ti_binary t)), (''mode'', JStr (ti_mode t))]"

definition ToolInfo_field :: "string \<Rightarrow> json \<Rightarrow> ToolInfo \<Rightarrow> ToolInfo option" where
  "ToolInfo_field n j t =
     (if n = ''binary'' then map_option (\<lambda>v. t\<lparr>ti_binary := v\<rparr>) (dec_str j (ti_binary t))
      else map_option (\<lambda>v. t\<lparr>ti_mode := v\<rparr>) (dec_str j (ti_mode t)))"

definition dec_ToolInfo :: "json \<Rightarrow> ToolInfo option" where
  "dec_ToolInfo j = dec_struct [''binary'', ''mode''] ToolInfo_field j \<lparr>ti_binary = [], ti_mode = []\<rparr>"

definition json_AdminListResponse :: "AdminListResponse \<Rightarrow> json" where
  "json_AdminListResponse r = JObj ([(''tools'', json_map json_ToolInfo (al_tools r))] @ opt_str ''version'' (al_version r))"

definition AdminListResponse_field :: "string \<Rightarrow> json \<Rightarrow> AdminListResponse \<Rightarrow> AdminListResponse option" where
  "AdminListResponse_field n j r =
     (if n = ''tools'' then map_option (\<lambda>v. r\<lparr>al_tools := v\<rparr>) (dec_gomap dec_ToolInfo j (al_tools r))
      else map_option (\<lambda>v. r\<lparr>al_version := v\<rparr>) (dec_str j (al_version r)))"

definition unmarshal_AdminListResponse :: "string \<Rightarrow> AdminListResponse option" where
  "unmarshal_AdminListResponse =
     unmarshal (dec_struct [''tools'', ''version''] AdminListResponse_field) \<lparr>al_tools = [], al_version = []\<rparr>"

section \<open>The answer of check\<close>

definition json_CredentialInfo :: "CredentialInfo \<Rightarrow> json" where
  "json_CredentialInfo c = JObj ([(''status'', JStr (ci_status c))] @ opt_str ''preview'' (ci_preview c))"

definition CredentialInfo_field :: "string \<Rightarrow> json \<Rightarrow> CredentialInfo \<Rightarrow> CredentialInfo option" where
  "CredentialInfo_field n j c =
     (if n = ''status'' then map_option (\<lambda>v. c\<lparr>ci_status := v\<rparr>) (dec_str j (ci_status c))
      else map_option (\<lambda>v. c\<lparr>ci_preview := v\<rparr>) (dec_str j (ci_preview c)))"

definition dec_CredentialInfo :: "json \<Rightarrow> CredentialInfo option" where
  "dec_CredentialInfo j = dec_struct [''status'', ''preview''] CredentialInfo_field j \<lparr>ci_status = [], ci_preview = []\<rparr>"

definition json_HTTPProxyInfo :: "HTTPProxyInfo \<Rightarrow> json" where
  "json_HTTPProxyInfo h = JObj ([(''enabled'', JBool (hi_enabled h))] @ opt_str ''listen'' (hi_listen h) @
     opt_str ''ca_cert_path'' (hi_ca_cert_path h) @ opt_str ''auth_token_path'' (hi_auth_token_path h))"

definition HTTPProxyInfo_field :: "string \<Rightarrow> json \<Rightarrow> HTTPProxyInfo \<Rightarrow> HTTPProxyInfo option" where
  "HTTPProxyInfo_field n j h =
     (if n = ''enabled'' then map_option (\<lambda>v. h\<lparr>hi_enabled := v\<rparr>) (dec_bool j (hi_enabled h))
      else if n = ''listen'' then map_option (\<lambda>v. h\<lparr>hi_listen := v\<rparr>) (dec_str j (hi_listen h))
      else if n = ''ca_cert_path'' then map_option (\<lambda>v. h\<lparr>hi_ca_cert_path := v\<rparr>) (dec_str j (hi_ca_cert_path h))
      else map_option (\<lambda>v. h\<lparr>hi_auth_token_path := v\<rparr>) (dec_str j (hi_auth_token_path h)))"

definition zero_HTTPProxyInfo :: HTTPProxyInfo where
  "zero_HTTPProxyInfo = \<lparr>hi_enabled = False, hi_listen = [], hi_ca_cert_path = [], hi_auth_token_path = []\<rparr>"

definition dec_HTTPProxyInfo :: "json \<Rightarrow> HTTPProxyInfo option \<Rightarrow> HTTPProxyInfo option option" where
  "dec_HTTPProxyInfo j old =
     (case j of JNull \<Rightarrow> Some None
      | _ \<Rightarrow> map_option Some (dec_struct [''enabled'', ''listen'', ''ca_cert_path'', ''auth_token_path''] HTTPProxyInfo_field j
               (case old of None \<Rightarrow> zero_HTTPProxyInfo | Some h \<Rightarrow> h)))"

definition json_AdminCheckResponse :: "AdminCheckResponse \<Rightarrow> json" where
  "json_AdminCheckResponse r = JObj ([(''credentials'', json_map json_CredentialInfo (ac_credentials r))] @
     (case ac_http_proxy r of None \<Rightarrow> [] | Some h \<Rightarrow> [(''http_proxy'', json_HTTPProxyInfo h)]) @
     opt_str ''version'' (ac_version r))"

definition AdminCheckResponse_field :: "string \<Rightarrow> json \<Rightarrow> AdminCheckResponse \<Rightarrow> AdminCheckResponse option" where
  "AdminCheckResponse_field n j r =
     (if n = ''credentials'' then map_option (\<lambda>v. r\<lparr>ac_credentials := v\<rparr>) (dec_gomap dec_CredentialInfo j (ac_credentials r))
      else if n = ''http_proxy'' then map_option (\<lambda>v. r\<lparr>ac_http_proxy := v\<rparr>) (dec_HTTPProxyInfo j (ac_http_proxy r))
      else map_option (\<lambda>v. r\<lparr>ac_version := v\<rparr>) (dec_str j (ac_version r)))"

definition unmarshal_AdminCheckResponse :: "string \<Rightarrow> AdminCheckResponse option" where
  "unmarshal_AdminCheckResponse =
     unmarshal (dec_struct [''credentials'', ''http_proxy'', ''version''] AdminCheckResponse_field)
       \<lparr>ac_credentials = [], ac_http_proxy = None, ac_version = []\<rparr>"

section \<open>Errors and untyped requests\<close>

definition json_error_object :: "string \<Rightarrow> json" where
  "json_error_object msg = JObj [(''error'', JStr msg)]"

text \<open>\<open>map[string]string\<close>\<close>

definition unmarshal_strings :: "string \<Rightarrow> (string, string) gomap option" where
  "unmarshal_strings = unmarshal (\<lambda>j old. dec_map j old) []"

text \<open>\<open>map[string]interface{}\<close>: the last of several equal keys counts; \<open>null\<close> is an empty map.\<close>

definition unmarshal_any :: "string \<Rightarrow> (string \<times> json) list option" where
  "unmarshal_any s =
     (case json_parse s of
        Some (JObj es) \<Rightarrow> if any_ok (JObj es) then Some (rev es) else None
      | Some JNull \<Rightarrow> Some []
      | _ \<Rightarrow> None)"

definition key_present :: "(string \<times> json) list \<Rightarrow> string \<Rightarrow> bool" where
  "key_present m k = (case map_of m k of None \<Rightarrow> False | Some v \<Rightarrow> v \<noteq> JNull)"

section \<open>Round trips\<close>

lemma dec_pairs_values:
  assumes "\<forall>v. okv v \<longrightarrow> dec (enc v) = Some v" and "list_all (\<lambda>(k, v). okv v) es"
  shows "distinct (map fst (es @ m)) \<Longrightarrow> dec_pairs dec (map (\<lambda>(k, v). (k, enc v)) es) m = Some (rev es @ m)"
  using assms(2)
proof (induction es arbitrary: m)
  case (Cons e es)
  obtain k v where e: "e = (k, v)" by (cases e)
  have "k \<notin> fst ` set m" using Cons.prems by (simp add: e)
  then have "map_set k v m = (k, v) # m" by (auto simp: map_set_def filter_id_conv rev_image_eqI)
  moreover have "distinct (map fst (es @ (k, v) # m))" using Cons.prems by (auto simp: e)
  ultimately show ?case using Cons.IH [of "(k, v) # m"] Cons.prems assms(1) by (simp add: e)
qed simp

definition read_back :: "(string, 'v) gomap \<Rightarrow> (string, 'v) gomap" where
  "read_back m = rev (sort_key fst m)"

lemma map_of_read_back: "gomap_ok m \<Longrightarrow> map_of (read_back m) = map_of m"
  by (rule map_of_inject_set [THEN iffD2]) (simp_all add: read_back_def gomap_ok_def rev_map [symmetric] distinct_map)

lemma dec_gomap_json_map:
  assumes "\<forall>v. okv v \<longrightarrow> dec (enc v) = Some v" and "list_all (\<lambda>(k, v). okv v) m" and "gomap_ok m"
  shows "dec_gomap dec (json_map enc m) [] = Some (read_back m)"
  using dec_pairs_values [OF assms(1), of "sort_key fst m" "[]"] assms(2,3)
  by (simp add: dec_gomap_def json_map_def read_back_def gomap_ok_def list_all_iff distinct_map)

definition AdminListResponse_ok :: "AdminListResponse \<Rightarrow> bool" where
  "AdminListResponse_ok r \<longleftrightarrow> gomap_ok (al_tools r) \<and> utf8_valid (al_version r) \<and>
     list_all (\<lambda>(k, t). utf8_valid k \<and> utf8_valid (ti_binary t) \<and> utf8_valid (ti_mode t)) (al_tools r)"

definition AdminCheckResponse_ok :: "AdminCheckResponse \<Rightarrow> bool" where
  "AdminCheckResponse_ok r \<longleftrightarrow> gomap_ok (ac_credentials r) \<and> utf8_valid (ac_version r) \<and>
     list_all (\<lambda>(k, c). utf8_valid k \<and> utf8_valid (ci_status c) \<and> utf8_valid (ci_preview c)) (ac_credentials r) \<and>
     (case ac_http_proxy r of None \<Rightarrow> True
      | Some h \<Rightarrow> utf8_valid (hi_listen h) \<and> utf8_valid (hi_ca_cert_path h) \<and> utf8_valid (hi_auth_token_path h))"

lemma admin_name_valid [simp]:
  "utf8_valid ''tools''" "utf8_valid ''binary''" "utf8_valid ''mode''" "utf8_valid ''credentials''" "utf8_valid ''http_proxy''"
  "utf8_valid ''status''" "utf8_valid ''preview''" "utf8_valid ''enabled''" "utf8_valid ''listen''"
  "utf8_valid ''ca_cert_path''" "utf8_valid ''auth_token_path''" "utf8_valid ''error''"
  by (simp_all add: utf8_valid.simps char_code_def)

lemma dec_ToolInfo_json: "dec_ToolInfo (json_ToolInfo t) = Some t"
  by (simp add: dec_ToolInfo_def json_ToolInfo_def dec_struct_def find_field_def ToolInfo_field_def dec_str_def)

lemma dec_CredentialInfo_json: "dec_CredentialInfo (json_CredentialInfo c) = Some c"
  by (simp add: dec_CredentialInfo_def json_CredentialInfo_def dec_struct_def find_field_def CredentialInfo_field_def
      dec_str_def opt_str_def)

lemma dec_HTTPProxyInfo_json: "dec_HTTPProxyInfo (json_HTTPProxyInfo h) None = Some (Some h)"
  by (cases h) (simp add: dec_HTTPProxyInfo_def json_HTTPProxyInfo_def dec_struct_def find_field_def HTTPProxyInfo_field_def
      dec_str_def dec_bool_def opt_str_def zero_HTTPProxyInfo_def)

lemma flat_json_map: "\<forall>v. json_depth (enc v) \<le> 1 \<Longrightarrow> flat [(k, json_map enc m)]"
  by (auto simp: flat_def json_map_def intro!: foldr_max_le)

lemma json_map_valid:
  "list_all (\<lambda>(k, v). utf8_valid k \<and> json_valid (enc v)) m \<Longrightarrow> json_valid (json_map enc m)"
  by (auto simp: json_map_def list_all_iff)

lemma AdminListResponse_roundtrip:
  assumes "AdminListResponse_ok r"
  shows "unmarshal_AdminListResponse (json_print (json_AdminListResponse r)) = Some (r\<lparr>al_tools := read_back (al_tools r)\<rparr>)"
proof -
  let ?es = "[(''tools'', json_map json_ToolInfo (al_tools r))] @ opt_str ''version'' (al_version r)"
  have v: "list_all (\<lambda>(k, v). utf8_valid k \<and> json_valid v) ?es"
    using assms json_map_valid [of json_ToolInfo "al_tools r"] opt_valid(1) [of "''version''" "al_version r"]
    by (auto simp: AdminListResponse_ok_def json_ToolInfo_def list_all_iff)
  have f: "flat ?es"
    using flat_json_map [of json_ToolInfo "''tools''" "al_tools r"] by (simp add: json_ToolInfo_def flat_def opt_str_def)
  have t: "dec_gomap dec_ToolInfo (json_map json_ToolInfo (al_tools r)) [] = Some (read_back (al_tools r))"
    by (rule dec_gomap_json_map [of "\<lambda>_. True"]) (use assms in \<open>auto simp: AdminListResponse_ok_def dec_ToolInfo_json list_all_iff\<close>)
  show ?thesis
    unfolding unmarshal_AdminListResponse_def json_AdminListResponse_def unmarshal_print [OF v f]
    by (simp add: find_field_def AdminListResponse_field_def t dec_str_def opt_str_def)
qed

lemma AdminCheckResponse_roundtrip:
  assumes "AdminCheckResponse_ok r"
  shows "unmarshal_AdminCheckResponse (json_print (json_AdminCheckResponse r)) =
     Some (r\<lparr>ac_credentials := read_back (ac_credentials r)\<rparr>)"
proof -
  let ?h = "case ac_http_proxy r of None \<Rightarrow> [] | Some h \<Rightarrow> [(''http_proxy'', json_HTTPProxyInfo h)]"
  let ?es = "[(''credentials'', json_map json_CredentialInfo (ac_credentials r))] @ ?h @ opt_str ''version'' (ac_version r)"
  have hv: "list_all (\<lambda>(k, v). utf8_valid k \<and> json_valid v) ?h" "flat ?h"
    using assms by (auto simp: AdminCheckResponse_ok_def json_HTTPProxyInfo_def opt_str_def flat_def split: option.splits)
  have c: "json_valid (json_map json_CredentialInfo (ac_credentials r))"
    by (rule json_map_valid)
      (use assms in \<open>auto simp: AdminCheckResponse_ok_def json_CredentialInfo_def opt_str_def list_all_iff\<close>)
  have v: "list_all (\<lambda>(k, v). utf8_valid k \<and> json_valid v) ?es"
    using hv c opt_valid(1) [of "''version''" "ac_version r"] assms by (simp add: AdminCheckResponse_ok_def)
  have f: "flat ?es"
    using flat_json_map [of json_CredentialInfo "''credentials''" "ac_credentials r"] hv
    by (simp add: json_CredentialInfo_def flat_def opt_str_def)
  have t: "dec_gomap dec_CredentialInfo (json_map json_CredentialInfo (ac_credentials r)) [] = Some (read_back (ac_credentials r))"
    by (rule dec_gomap_json_map [of "\<lambda>_. True"])
      (use assms in \<open>auto simp: AdminCheckResponse_ok_def dec_CredentialInfo_json list_all_iff\<close>)
  show ?thesis
    unfolding unmarshal_AdminCheckResponse_def json_AdminCheckResponse_def unmarshal_print [OF v f]
    by (cases "ac_http_proxy r")
      (simp_all add: find_field_def AdminCheckResponse_field_def t dec_str_def opt_str_def dec_HTTPProxyInfo_json)
qed

end
