(* ===== verification/Daemon.thy ===== *)
theory Daemon
  imports Executor Http_Proxy Key_Files Peer Admin_Wire Replay Modes
begin

text \<open>
  \<open>internal/daemon/daemon.go\<close>: the daemon's state and options, its answers, and what it does with one
  connection: reading the request, identifying the caller, the administrative commands, and the
  request to run a tool up to and including the executor's \<open>Run\<close>.
\<close>

section \<open>State\<close>

definition defaultAuthFileMode :: int where "defaultAuthFileMode = 384"
definition defaultSocketFileMode :: int where "defaultSocketFileMode = 384"
definition defaultRuntimeDirMode :: int where "defaultRuntimeDirMode = 448"
definition sharedRuntimeDirMode :: int where "sharedRuntimeDirMode = 488"

type_synonym uint64 = "64 word"
type_synonym metrics = "(string, uint64) gomap"

record Daemon =
  dm_socketPath :: string
  dm_configPath :: string
  dm_allowedUID :: int
  dm_runtimeGID :: int
  dm_authFileMode :: int
  dm_socketFileMode :: int
  dm_allowedBinaries :: "string list"
  dm_version :: string
  dm_secret :: bytes
  dm_cfg :: "Config option"
  dm_connSem :: "nat \<times> int" \<comment> \<open>elements in the channel and its capacity\<close>
  dm_replayCache :: replay_cache
  dm_metrics :: metrics
  dm_httpProxy :: "Proxy option"
  dm_proxyAuthToken :: string
  dm_proxyAuthTokenPath :: string
  dm_auditLogger :: Logger
  dm_configWatcherInit :: bool
  dm_unverifiedLogged :: bool \<comment> \<open>\<open>unverifiedExeOnce\<close> has run\<close>

subsection \<open>Metrics\<close>

definition newSecurityMetrics :: metrics where "newSecurityMetrics = []"

definition metric :: "metrics \<Rightarrow> string \<Rightarrow> uint64" where
  "metric m key = (case map_of m key of None \<Rightarrow> 0 | Some n \<Rightarrow> n)"

definition Inc :: "string \<Rightarrow> metrics \<Rightarrow> metrics" where
  "Inc key m = map_set key (metric m key + 1) m"

definition Snapshot :: "metrics \<Rightarrow> metrics" where
  "Snapshot m = foldl (\<lambda>out (k, v). map_set k v out) [] m"

definition d_inc :: "string \<Rightarrow> Daemon \<Rightarrow> Daemon" where
  "d_inc key d = d\<lparr>dm_metrics := Inc key (dm_metrics d)\<rparr>"

text \<open>One tick of \<open>logMetricsLoop\<close>: the line it logs.\<close>

definition logMetrics :: "Daemon \<Rightarrow> string option" where
  "logMetrics d =
     (let s = Snapshot (dm_metrics d)
      in if s = [] then None
         else Some (''[INFO] security_metrics '' @ json_print (json_map (\<lambda>n. JNum (nat_digits (unat n))) s)))"

subsection \<open>Paths of executables\<close>

text \<open>\<open>links\<close> is \<open>filepath.EvalSymlinks\<close>; \<open>cwd\<close> the working directory of \<open>filepath.Abs\<close>.\<close>

definition path_abs :: "string option \<Rightarrow> string \<Rightarrow> string option" where
  "path_abs cwd p =
     (if is_abs p then Some (path_clean p)
      else case cwd of None \<Rightarrow> None | Some wd \<Rightarrow> Some (path_join [wd, p]))"

definition normalizeExecutablePath :: "(string \<Rightarrow> string option) \<Rightarrow> string option \<Rightarrow> string \<Rightarrow> string" where
  "normalizeExecutablePath links cwd p =
     (let p1 = (case links p of Some resolved \<Rightarrow> resolved | None \<Rightarrow> p);
          p2 = (case path_abs cwd p1 of Some a \<Rightarrow> a | None \<Rightarrow> p1)
      in path_clean p2)"

definition isAllowedBinary :: "(string \<Rightarrow> string option) \<Rightarrow> string option \<Rightarrow> string \<Rightarrow> Daemon \<Rightarrow> bool" where
  "isAllowedBinary links cwd exe d =
     list_ex (\<lambda>allowed. normalizeExecutablePath links cwd allowed = normalizeExecutablePath links cwd exe) (dm_allowedBinaries d)"

subsection \<open>Options and New\<close>

type_synonym daemon_option = "Daemon \<Rightarrow> Daemon"

definition daemon_WithSocketPath :: "string \<Rightarrow> daemon_option" where "daemon_WithSocketPath path d = d\<lparr>dm_socketPath := path\<rparr>"
definition WithConfigPath :: "string \<Rightarrow> daemon_option" where "WithConfigPath path d = d\<lparr>dm_configPath := path\<rparr>"
definition WithAllowedUID :: "int \<Rightarrow> daemon_option" where "WithAllowedUID uid d = d\<lparr>dm_allowedUID := uid\<rparr>"
definition WithRuntimeGID :: "int \<Rightarrow> daemon_option" where "WithRuntimeGID gid d = d\<lparr>dm_runtimeGID := gid\<rparr>"
definition WithAuthFileMode :: "int \<Rightarrow> daemon_option" where "WithAuthFileMode mode d = d\<lparr>dm_authFileMode := mode\<rparr>"
definition WithSocketFileMode :: "int \<Rightarrow> daemon_option" where "WithSocketFileMode mode d = d\<lparr>dm_socketFileMode := mode\<rparr>"
definition WithAllowedBinaries :: "string list \<Rightarrow> daemon_option" where "WithAllowedBinaries bs d = d\<lparr>dm_allowedBinaries := bs\<rparr>"
definition WithVersion :: "string \<Rightarrow> daemon_option" where "WithVersion v d = d\<lparr>dm_version := v\<rparr>"

text \<open>What \<open>New\<close> sees of its process: \<open>os.Executable\<close>, \<open>os.Args\<close>, the user, symbolic links.\<close>

record proc_env =
  pn_exe :: "string option"
  pn_args :: "string list"
  pn_uid :: int
  pn_links :: "string \<Rightarrow> string option"
  pn_cwd :: "string option"
  pn_paths :: path_env

definition own_binaries :: "proc_env \<Rightarrow> string list" where
  "own_binaries p =
     (let selfPath = (case pn_exe p of None \<Rightarrow> ''/usr/local/bin/claw-wrap''
                      | Some exe \<Rightarrow> (case pn_links p exe of Some resolved \<Rightarrow> resolved | None \<Rightarrow> ''/usr/local/bin/claw-wrap''))
      in case pn_args p of
           [] \<Rightarrow> [selfPath]
         | a # as \<Rightarrow>
             let arg0 = (case path_abs (pn_cwd p) a of Some x \<Rightarrow> x | None \<Rightarrow> a)
             in if arg0 \<noteq> selfPath then [selfPath, arg0] else [selfPath])"

text \<open>The replay cache and the connection slots of a daemon that has not run are nil; \<open>daemon_Run\<close> makes them.\<close>

definition daemon_New :: "proc_env \<Rightarrow> daemon_option list \<Rightarrow> Daemon" where
  "daemon_New p opts =
     fold (\<lambda>opt d. opt d) opts
       \<lparr>dm_socketPath = SocketPath (pn_paths p), dm_configPath = ConfigPath, dm_allowedUID = pn_uid p mod 4294967296,
        dm_runtimeGID = -1, dm_authFileMode = defaultAuthFileMode, dm_socketFileMode = defaultSocketFileMode,
        dm_allowedBinaries = own_binaries p, dm_version = [], dm_secret = [], dm_cfg = None, dm_connSem = (0, 0),
        dm_replayCache = NewReplayCache 0 0, dm_metrics = newSecurityMetrics, dm_httpProxy = None, dm_proxyAuthToken = [],
        dm_proxyAuthTokenPath = ProxyAuthTokenPath (pn_paths p), dm_auditLogger = Nop, dm_configWatcherInit = False,
        dm_unverifiedLogged = False\<rparr>"

definition daemon_getConfig :: "Daemon \<Rightarrow> Config option" where "daemon_getConfig d = dm_cfg d"

text \<open>
  The package's \<open>init\<close> replaces the function \<open>Resolve\<close> fetches sources with: the credential keeps its
  value and loses its expiry, which no caller in the daemon or the proxy looks at.
\<close>

definition init_fetchSourceCredential ::
  "sys \<Rightarrow> time \<Rightarrow> fetch_error fetch_env \<Rightarrow> string \<Rightarrow> FetchOption list \<Rightarrow> cred_state \<Rightarrow> (fetch_error + Credential) \<times> cred_state" where
  "init_fetchSourceCredential s now env source opts st =
     (case Fetch s now env source opts st of
        (Inl x, st') \<Rightarrow> (Inl x, st')
      | (Inr v, st') \<Rightarrow> (Inr \<lparr>cr_value = v, cr_expires_at = zero_time\<rparr>, st'))"

lemma init_fetch_same_value:
  "map_prod (map_sum id cr_value) id (init_fetchSourceCredential s now env source opts st) =
   map_prod (map_sum id cr_value) id (FetchCredential s now env source opts st)"
  by (auto simp: init_fetchSourceCredential_def Fetch_def split: prod.splits sum.splits)

section \<open>Answers\<close>

text \<open>
  A connection: what was written to it, its deadlines (\<open>None\<close>: none), whether it is closed. \<open>conn_io\<close>
  is the clock at each use and the outcome of the writes (\<open>Some n\<close>: fails after n bytes).
\<close>

record conn =
  cn_out :: bytes
  cn_read_deadline :: "time option"
  cn_write_deadline :: "time option"
  cn_closed :: bool

record conn_io =
  io_now :: time
  io_write1 :: "nat option"
  io_write2 :: "nat option"

text \<open>
  The write deadline around an answer. \<open>getConfig\<close> is not nil here: \<open>Run\<close> stores the configuration
  before the first connection.
\<close>

definition with_write_deadline :: "conn_io \<Rightarrow> Daemon \<Rightarrow> (conn \<Rightarrow> conn) \<Rightarrow> conn \<Rightarrow> conn" where
  "with_write_deadline io d body c =
     (case daemon_getConfig d of
        None \<Rightarrow> c
      | Some cfg \<Rightarrow>
          if GetWriteTimeout cfg > 0
          then (body (c\<lparr>cn_write_deadline := Some (io_now io + GetWriteTimeout cfg)\<rparr>))\<lparr>cn_write_deadline := None\<rparr>
          else body c)"

definition conn_write :: "nat option \<Rightarrow> bytes \<Rightarrow> conn \<Rightarrow> conn" where
  "conn_write outcome s c = c\<lparr>cn_out := cn_out c @ (case outcome of None \<Rightarrow> s | Some n \<Rightarrow> take n s)\<rparr>"

definition sendJSON :: "conn_io \<Rightarrow> Daemon \<Rightarrow> json \<Rightarrow> conn \<Rightarrow> conn" where
  "sendJSON io d v = with_write_deadline io d (conn_write (io_write1 io) (json_print v))"

definition sendError :: "conn_io \<Rightarrow> Daemon \<Rightarrow> string \<Rightarrow> conn \<Rightarrow> conn" where
  "sendError io d msg = sendJSON io d (json_error_object msg)"

definition error_message :: "string \<Rightarrow> ResponseMessage" where
  "error_message msg = empty_response\<lparr>rm_type := MsgTypeError, rm_message := msg\<rparr>"

definition sendProxyError :: "conn_io \<Rightarrow> Daemon \<Rightarrow> string \<Rightarrow> conn \<Rightarrow> conn" where
  "sendProxyError io d msg =
     with_write_deadline io d
       (\<lambda>c. c\<lparr>cn_out := cn_out c @ snd (Encode (\<lambda>m. Some (marshal_ResponseMessage m)) (io_write1 io) (io_write2 io) (error_message msg))\<rparr>)"

section \<open>Administrative requests\<close>

text \<open>What a connection meets: the peer, the file system's links, clock readings, the code, and the executor's run.\<close>

record 'e peer_env =
  pv_open_now :: time
  pv_header_now :: time
  pv_unix :: bool \<comment> \<open>the connection is a \<open>net.UnixConn\<close>\<close>
  pv_creds :: "peer_error + Ucred"
  pv_exe :: "int \<Rightarrow> peer_error + string"
  pv_gate_exe :: "int \<Rightarrow> peer_error + string" \<comment> \<open>the second look, by \<open>authorizeAdminCheckCaller\<close>\<close>
  pv_argv0 :: "int \<Rightarrow> peer_error + string"
  pv_links :: "string \<Rightarrow> string option"
  pv_cwd :: "string option"
  pv_io :: conn_io
  pv_auth_now :: time \<comment> \<open>clock at the signature check\<close>
  pv_replay_now :: time \<comment> \<open>clock at the replay check\<close>
  pv_mac :: mac_fun
  pv_path_env :: path_env
  pv_run :: "'e run_env"
  pv_events :: "exec_event list"

datatype check_gate = Gate_No_Exe peer_error | Gate_Exe string | Gate_No_Argv0 peer_error | Gate_Argv0 string

definition authorizeAdminCheckCaller :: "'e peer_env \<Rightarrow> int \<Rightarrow> Daemon \<Rightarrow> check_gate option" where
  "authorizeAdminCheckCaller p pid d =
     (case pv_gate_exe p pid of
        Inl x \<Rightarrow> Some (Gate_No_Exe x)
      | Inr exe \<Rightarrow>
          if \<not> isAllowedBinary (pv_links p) (pv_cwd p) exe d then Some (Gate_Exe exe)
          else case pv_argv0 p pid of
            Inl x \<Rightarrow> Some (Gate_No_Argv0 x)
          | Inr argv0 \<Rightarrow> if path_base argv0 \<noteq> ''claw-wrap'' then Some (Gate_Argv0 argv0) else None)"

definition list_tools :: "(string, ToolDef) gomap \<Rightarrow> (string, ToolInfo) gomap" where
  "list_tools tools =
     foldl (\<lambda>m (name, tool). map_set name \<lparr>ti_binary = td_binary tool, ti_mode = (if td_config_file tool \<noteq> None then ''config_file'' else ''env'')\<rparr> m)
       [] tools"

definition list_response :: "Daemon \<Rightarrow> Config \<Rightarrow> AdminListResponse" where
  "list_response d cfg = \<lparr>al_tools = list_tools (c_tools cfg), al_version = dm_version d\<rparr>"

text \<open>The loop over the credentials, in the map's iteration order; the resolver threads its state.\<close>

definition check_opts :: "path_env \<Rightarrow> Config \<Rightarrow> FetchOption list" where
  "check_opts e cfg = [WithPassBinary (GetPassBinary e cfg), WithOPBinary (GetOPBinary cfg), WithBWBinary (GetBWBinary cfg),
     WithVaultBinary (GetVaultBinary cfg), WithBypassCache]"

fun check_credentials ::
  "('e, 's) resolver \<Rightarrow> FetchOption list \<Rightarrow> (string, CredentialDef) gomap \<Rightarrow> 's \<Rightarrow> (string, CredentialInfo) gomap \<Rightarrow>
   (string, CredentialInfo) gomap \<times> 's" where
  "check_credentials resolve opts [] s acc = (acc, s)"
| "check_credentials resolve opts ((name, def) # creds) s acc =
     (let (r, s') = resolve (cred_ResolveInput def name) opts s;
          info = (case r of
                    Inl e \<Rightarrow> \<lparr>ci_status = ''failed'', ci_preview = []\<rparr>
                  | Inr v \<Rightarrow> if v = [] then \<lparr>ci_status = ''failed'', ci_preview = []\<rparr>
                             else \<lparr>ci_status = ''ok'', ci_preview = credentialPreview v\<rparr>)
      in check_credentials resolve opts creds s' (map_set name info acc))"

definition proxy_info :: "path_env \<Rightarrow> Daemon \<Rightarrow> Config \<Rightarrow> HTTPProxyInfo option" where
  "proxy_info e d cfg =
     (case c_http_proxy cfg of
        None \<Rightarrow> None
      | Some hp \<Rightarrow>
          if \<not> hp_enabled hp then None
          else let caPath = (if GetHTTPProxyCAPath cfg = [] then DefaultCAPath e else GetHTTPProxyCAPath cfg)
               in Some \<lparr>hi_enabled = True, hi_listen = GetHTTPProxyListen cfg, hi_ca_cert_path = path_join [caPath, ''ca.crt''],
                        hi_auth_token_path = (if GetRequireAuth hp then dm_proxyAuthTokenPath d else [])\<rparr>)"

definition check_response ::
  "path_env \<Rightarrow> ('e, 's) resolver \<Rightarrow> Daemon \<Rightarrow> Config \<Rightarrow> 's \<Rightarrow> AdminCheckResponse \<times> 's" where
  "check_response e resolve d cfg s =
     (let (creds, s') = check_credentials resolve (check_opts e cfg) (c_credentials cfg) s []
      in (\<lparr>ac_credentials = creds, ac_http_proxy = proxy_info e d cfg, ac_version = dm_version d\<rparr>, s'))"

definition replay_check :: "string \<Rightarrow> time \<Rightarrow> Daemon \<Rightarrow> bool \<times> Daemon" where
  "replay_check key now d = (let (seen, cache) = SeenOrStore key now (dm_replayCache d) in (seen, d\<lparr>dm_replayCache := cache\<rparr>))"

definition admin_key :: "int \<Rightarrow> string \<Rightarrow> string" where "admin_key uid h = format_int uid @ '':admin:'' @ h"
definition proxy_key :: "int \<Rightarrow> string \<Rightarrow> string" where "proxy_key uid h = format_int uid @ '':proxy:'' @ h"

definition handleAdminRequest ::
  "'x peer_env \<Rightarrow> ('e, 's) resolver \<Rightarrow> bytes \<Rightarrow> Config \<Rightarrow> int \<Rightarrow> int \<Rightarrow> 's \<Rightarrow> Daemon \<Rightarrow> conn \<Rightarrow> Daemon \<times> conn \<times> 's" where
  "handleAdminRequest p resolve data cfg uid pid s d c =
     (let io = pv_io p in
      case unmarshal_AdminRequest data of
        None \<Rightarrow> (d, sendError io d ''invalid request'' c, s)
      | Some req \<Rightarrow>
          if ar_version req \<noteq> ProtocolVersion then (d, sendError io d ''protocol version mismatch'' c, s)
          else if VerifyHMAC (pv_mac p) (pv_auth_now p) (dm_secret d) (ar_timestamp req) (''admin:'' @ ar_admin req) [] None
                    (ar_nonce req) (ar_hmac req) \<noteq> None
          then (d_inc ''auth_fail'' d, sendError io d ''authentication failed'' c, s)
          else case replay_check (admin_key uid (ar_hmac req)) (pv_replay_now p) d of
            (True, d1) \<Rightarrow> (d_inc ''replay_reject'' d1, sendError io d1 ''authentication failed'' c, s)
          | (False, d1) \<Rightarrow>
              if ar_admin req = ''check'' \<and> authorizeAdminCheckCaller p pid d1 \<noteq> None
              then (d_inc ''caller_verify_fail'' d1, sendError io d1 ''authentication failed'' c, s)
              else if ar_admin req = ''list'' then (d1, sendJSON io d1 (json_AdminListResponse (list_response d1 cfg)) c, s)
              else if ar_admin req = ''check'' then
                (let (resp, s') = check_response (pv_path_env p) resolve d1 cfg s
                 in (d1, sendJSON io d1 (json_AdminCheckResponse resp) c, s'))
              else (d1, sendError io d1 ''unknown admin command'' c, s))"

section \<open>Requests to run a tool\<close>

datatype outcome = Refused | Executed ToolExecutor "(ToolExecutor \<times> exec_world) option"

text \<open>\<open>w\<close> is the world the executor starts from; a result \<open>None\<close> of \<open>Run\<close> means the events were no run of it.\<close>

definition handleProxyRequest ::
  "'x peer_env \<Rightarrow> bytes \<Rightarrow> Config \<Rightarrow> int \<Rightarrow> string \<Rightarrow> int \<Rightarrow> exec_world \<Rightarrow> Daemon \<Rightarrow> conn \<Rightarrow> outcome \<times> Daemon \<times> conn" where
  "handleProxyRequest p data cfg callerPID callerExe uid w d c =
     (let io = pv_io p in
      case unmarshal_ProxyRequest data of
        None \<Rightarrow> (Refused, d, sendProxyError io d ''invalid request'' c)
      | Some req \<Rightarrow>
          if pr_version req \<noteq> ProtocolVersion then (Refused, d, sendProxyError io d ''protocol version mismatch'' c)
          else if VerifyHMACWithPTY (pv_mac p) (pv_auth_now p) (dm_secret d) (pr_timestamp req) (pr_tool req) (pr_cwd req)
                    (pr_args req) (pr_env req) (pr_nonce req) (pr_use_pty req) (pr_hmac req) \<noteq> None
          then (Refused, d_inc ''auth_fail'' d, sendProxyError io d ''authentication failed'' c)
          else case replay_check (proxy_key uid (pr_hmac req)) (pv_replay_now p) d of
            (True, d1) \<Rightarrow> (Refused, d_inc ''replay_reject'' d1, sendProxyError io d1 ''authentication failed'' c)
          | (False, d1) \<Rightarrow>
              (case map_of (c_tools cfg) (pr_tool req) of
                 None \<Rightarrow> (Refused, d1, sendProxyError io d1 ''unknown tool'' c)
               | Some tool \<Rightarrow>
                   (case checkToolArgs (nil_slice (pr_args req)) tool of
                      (False, msg) \<Rightarrow> (Refused, d_inc ''args_denied'' d1, sendProxyError io d1 (''blocked: '' @ msg) c)
                    | (True, msg) \<Rightarrow>
                        (case NewToolExecutor req tool cfg (dm_proxyAuthToken d1) (dm_auditLogger d1) callerPID callerExe of
                           Inl err \<Rightarrow> (Refused, d1, sendProxyError io d1 err c)
                         | Inr ex \<Rightarrow> (Executed ex (Run (pv_run p) (pv_events p) ex w), d1, c)))))"

section \<open>One connection\<close>

definition header_limit :: nat where "header_limit = 65536"

text \<open>The outcome of the read: \<open>Read_Bytes s\<close> is what was waiting on the socket, of which the buffer takes 64 KiB.\<close>

datatype read_outcome = Read_Timeout | Read_Failed | Read_Bytes bytes

text \<open>Who is calling: the checks between reading the request and dispatching it; \<open>Inl\<close> is the refusal sent.\<close>

definition verify_caller :: "'x peer_env \<Rightarrow> Config \<Rightarrow> Daemon \<Rightarrow> string + Ucred \<times> string" where
  "verify_caller p cfg d =
     (if \<not> pv_unix p then Inl ''internal error: not a unix connection''
      else case pv_creds p of
        Inl x \<Rightarrow> Inl ''failed to verify caller''
      | Inr u \<Rightarrow>
          if UID u \<noteq> dm_allowedUID d then Inl ''unauthorized caller''
          else case pv_exe p (PID u) of
            Inl x \<Rightarrow> if DenyUnverifiedCallerExe cfg then Inl ''unauthorized caller'' else Inr (u, [])
          | Inr exe \<Rightarrow>
              if \<not> isAllowedBinary (pv_links p) (pv_cwd p) exe d then Inl ''unauthorized caller'' else Inr (u, exe))"

definition dispatch ::
  "'x peer_env \<Rightarrow> ('e, 's) resolver \<Rightarrow> bytes \<Rightarrow> Config \<Rightarrow> exec_world \<Rightarrow> 's \<Rightarrow> Daemon \<Rightarrow> conn \<Rightarrow> outcome \<times> Daemon \<times> conn \<times> 's" where
  "dispatch p resolve payload cfg w s d c =
     (case unmarshal_any payload of
        None \<Rightarrow> (Refused, d, sendError (pv_io p) d ''invalid json'' c, s)
      | Some raw \<Rightarrow>
          let isProxy = key_present raw ''hmac'';
              errSend = (if isProxy then sendProxyError else sendError)
          in case verify_caller p cfg d of
               Inl msg \<Rightarrow> (Refused, d_inc ''caller_verify_fail'' d, errSend (pv_io p) d msg c, s)
             | Inr (u, callerExe) \<Rightarrow>
                 let d0 = (if callerExe = [] then d\<lparr>dm_unverifiedLogged := True\<rparr> else d)
                 in if key_present raw ''admin'' then
                      (case handleAdminRequest p resolve payload cfg (UID u) (PID u) s d0 c of (d1, c1, s1) \<Rightarrow> (Refused, d1, c1, s1))
                    else if isProxy then
                      (case handleProxyRequest p payload cfg (PID u) callerExe (UID u) w d0 c of (r, d1, c1) \<Rightarrow> (r, d1, c1, s))
                    else (Refused, d0, sendError (pv_io p) d0 ''invalid request: use proxy protocol'' c, s))"

definition set_deadlines :: "'x peer_env \<Rightarrow> Config \<Rightarrow> conn \<Rightarrow> conn" where
  "set_deadlines p cfg c =
     (let maxLife = GetMaxConnectionLifetime cfg;
          c1 = (if maxLife > 0
                then c\<lparr>cn_read_deadline := Some (pv_open_now p + maxLife), cn_write_deadline := Some (pv_open_now p + maxLife)\<rparr> else c)
      in c1\<lparr>cn_read_deadline := Some (pv_header_now p + GetReadHeaderTimeout cfg)\<rparr>)"

definition conn_body ::
  "'x peer_env \<Rightarrow> ('e, 's) resolver \<Rightarrow> read_outcome \<Rightarrow> Config \<Rightarrow> exec_world \<Rightarrow> 's \<Rightarrow> Daemon \<Rightarrow> conn \<Rightarrow> outcome \<times> Daemon \<times> conn \<times> 's" where
  "conn_body p resolve rd cfg w s d c =
     (case rd of
        Read_Timeout \<Rightarrow> (Refused, d_inc ''read_timeout'' d, sendError (pv_io p) d ''request read timeout'' c, s)
      | Read_Failed \<Rightarrow> (Refused, d, c, s)
      | Read_Bytes bs \<Rightarrow>
          let buf = take header_limit bs; c1 = c\<lparr>cn_read_deadline := None\<rparr>
          in if length buf = header_limit
             then (Refused, d_inc ''oversized_msg'' d, sendError (pv_io p) d ''request too large'' c1, s)
             else let payload = trim_space buf
                  in if payload = [] then (Refused, d, sendError (pv_io p) d ''empty request'' c1, s)
                     else dispatch p resolve payload cfg w s d c1)"

definition handleConnection ::
  "'x peer_env \<Rightarrow> ('e, 's) resolver \<Rightarrow> read_outcome \<Rightarrow> Config \<Rightarrow> exec_world \<Rightarrow> 's \<Rightarrow> Daemon \<Rightarrow> conn \<Rightarrow> outcome \<times> Daemon \<times> conn \<times> 's" where
  "handleConnection p resolve rd cfg w s d c =
     (case conn_body p resolve rd cfg w s d (set_deadlines p cfg c) of (r, d1, c1, s1) \<Rightarrow> (r, d1, c1\<lparr>cn_closed := True\<rparr>, s1))"

end
