(* ===== verification/Daemon_Life.thy ===== *)
theory Daemon_Life
  imports Daemon
begin

text \<open>
  The life of the daemon, from \<open>internal/daemon/daemon.go\<close>: start-up, the accept loop with its
  connection slots, reloading the configuration, the watcher of the configuration file, the HTTP
  proxy's start and stop, and shutdown. The outcomes of system calls are fields of \<open>life_env\<close>.
\<close>

section \<open>Environment and world\<close>

datatype sys_call =
    Call_Mkdir string int
  | Call_Chmod string int
  | Call_Chown string int
  | Call_Remove string \<comment> \<open>succeeds also when there is nothing to remove\<close>
  | Call_Listen string
  | Call_RemoveAll string

record life_env =
  le_paths :: path_env
  le_read_file :: "string \<Rightarrow> string option"
  le_yaml :: "string \<Rightarrow> Config option"
  le_compile :: "string \<Rightarrow> regex option"
  le_audit :: audit_env
  le_close_bad :: "sink \<Rightarrow> bool"
  le_rand :: "nat \<Rightarrow> bytes option"
  le_keys :: key_env
  le_token :: token_env
  le_token_keys :: key_env
  le_ca :: ca_sys
  le_proxy_listen :: "string \<Rightarrow> bool"
  le_proxy_close :: bool
  le_stat :: "string \<Rightarrow> (int \<times> int) option" \<comment> \<open>permission bits and group of a path\<close>
  le_call :: "sys_call \<Rightarrow> bool" \<comment> \<open>whether a call succeeds\<close>
  le_glob :: "string \<Rightarrow> string list option"
  le_sys :: sys
  le_watcher :: bool
  le_watch_add :: "string \<Rightarrow> bool"

record life_world =
  lw_fs :: fs
  lw_store :: store
  lw_creds :: cred_state
  lw_audit :: audit_world
  lw_calls :: "sys_call list"
  lw_watching :: "string option"

datatype life_error =
    Life_Runtime_Dir path_error | Life_Gid | Life_Auth_Mode int | Life_Socket_Mode int
  | Life_Load load_error | Life_Audit audit_failure | Life_Secret | Life_Write_Secret key_error
  | Life_Call sys_call | Life_Stat string
  | Life_Token key_error | Life_Proxy_Start start_error | Life_Proxy_Stop | Life_Watcher

type_synonym life = "Daemon \<times> life_world"

definition call :: "life_env \<Rightarrow> sys_call \<Rightarrow> life_world \<Rightarrow> bool \<times> life_world" where
  "call e k w = (le_call e k, w\<lparr>lw_calls := lw_calls w @ [k]\<rparr>)"

section \<open>Connection slots\<close>

text \<open>A send on the channel succeeds while it holds fewer elements than its capacity.\<close>

definition acquireConnSlot :: "Daemon \<Rightarrow> bool \<times> Daemon" where
  "acquireConnSlot d =
     (case dm_connSem d of (n, cap) \<Rightarrow> if int n < cap then (True, d\<lparr>dm_connSem := (Suc n, cap)\<rparr>) else (False, d))"

definition releaseConnSlot :: "Daemon \<Rightarrow> Daemon" where
  "releaseConnSlot d = (case dm_connSem d of (n, cap) \<Rightarrow> d\<lparr>dm_connSem := (n - 1, cap)\<rparr>)"

text \<open>One turn of the accept loop with a connection; \<open>True\<close> when a handler is started for it.\<close>

definition accept_conn :: "conn_io \<Rightarrow> Daemon \<Rightarrow> conn \<Rightarrow> bool \<times> Daemon \<times> conn" where
  "accept_conn io d c =
     (case acquireConnSlot d of
        (True, d1) \<Rightarrow> (True, d1, c)
      | (False, d1) \<Rightarrow>
          let d2 = d_inc ''rate_limited'' d1 in (False, d2, (sendError io d2 ''server busy'' c)\<lparr>cn_closed := True\<rparr>))"

text \<open>
  What \<open>Accept\<close> returns and what the loop does with it: an error of the closed listener ends \<open>Run\<close>, any
  other is logged.
\<close>

datatype accept_result = Accepted conn | Listener_Closed | Accept_Error
datatype accept_action = Run_Returns | Next_Accept | Start_Handler conn | Turned_Away conn

definition accept_turn :: "conn_io \<Rightarrow> accept_result \<Rightarrow> Daemon \<Rightarrow> accept_action \<times> Daemon" where
  "accept_turn io r d =
     (case r of
        Listener_Closed \<Rightarrow> (Run_Returns, d)
      | Accept_Error \<Rightarrow> (Next_Accept, d)
      | Accepted c \<Rightarrow>
          (case accept_conn io d c of
             (True, d1, c1) \<Rightarrow> (Start_Handler c1, d1)
           | (False, d1, c1) \<Rightarrow> (Turned_Away c1, d1)))"

section \<open>The HTTP proxy\<close>

definition ensureProxyAuthToken :: "life_env \<Rightarrow> life \<Rightarrow> key_error option \<times> life" where
  "ensureProxyAuthToken e l =
     (case l of (d, w) \<Rightarrow>
        if dm_proxyAuthToken d \<noteq> [] then (None, d, w)
        else case loadProxyAuthToken (le_token e) (dm_proxyAuthTokenPath d) (lw_fs w) of
          Inr token \<Rightarrow> (None, d\<lparr>dm_proxyAuthToken := token\<rparr>, w)
        | Inl x \<Rightarrow>
            if x \<noteq> Key_Not_Found then (Some x, d, w)
            else case generateProxyAuthToken (le_rand e) of
              None \<Rightarrow> (Some Key_Random, d, w)
            | Some token \<Rightarrow>
                (case writeProxyAuthToken (le_token_keys e) (dm_proxyAuthTokenPath d) token (lw_fs w) of
                   (Some y, fs) \<Rightarrow> (Some y, d, w\<lparr>lw_fs := fs\<rparr>)
                 | (None, fs) \<Rightarrow> (None, d\<lparr>dm_proxyAuthToken := token\<rparr>, w\<lparr>lw_fs := fs\<rparr>)))"

definition proxy_options :: "life_env \<Rightarrow> Config \<Rightarrow> HTTPProxyConfig \<Rightarrow> Daemon \<Rightarrow> Option list" where
  "proxy_options e cfg httpCfg d =
     [proxy_WithPassBinary (GetPassBinary (le_paths e) cfg), proxy_WithOPBinary (GetOPBinary cfg), proxy_WithBWBinary (GetBWBinary cfg),
      proxy_WithVaultBinary (GetVaultBinary cfg), WithAuthToken (dm_proxyAuthToken d), WithRequireAuth (GetRequireAuth httpCfg)]"

definition startHTTPProxy :: "life_env \<Rightarrow> Config \<Rightarrow> life \<Rightarrow> life_error option \<times> life" where
  "startHTTPProxy e cfg l =
     (case GetHTTPProxyConfig cfg of
        None \<Rightarrow> (None, l)
      | Some httpCfg \<Rightarrow>
          if \<not> hp_enabled httpCfg then (None, l)
          else case (if GetRequireAuth httpCfg then ensureProxyAuthToken e l else (None, l)) of
            (Some x, l1) \<Rightarrow> (Some (Life_Token x), l1)
          | (None, d1, w1) \<Rightarrow>
              let proxy = New (le_paths e) httpCfg (c_credentials cfg) (proxy_options e cfg httpCfg d1)
              in (case Start (le_ca e) (le_proxy_listen e) (ListenAddr proxy) proxy (lw_store w1) of
                    (Some x, p, st) \<Rightarrow> (Some (Life_Proxy_Start x), d1, w1\<lparr>lw_store := st\<rparr>)
                  | (None, p, st) \<Rightarrow> (None, d1\<lparr>dm_httpProxy := Some p\<rparr>, w1\<lparr>lw_store := st\<rparr>)))"

text \<open>\<open>False\<close> when closing the listener failed.\<close>

definition stopHTTPProxy :: "life_env \<Rightarrow> Daemon \<Rightarrow> bool \<times> Daemon" where
  "stopHTTPProxy e d =
     (case dm_httpProxy d of
        None \<Rightarrow> (True, d)
      | Some p \<Rightarrow> (fst (Stop (le_proxy_close e) p), d\<lparr>dm_httpProxy := None\<rparr>))"

section \<open>Reloading the configuration\<close>

definition auditConfigChanged :: "Config option \<Rightarrow> Config option \<Rightarrow> bool" where
  "auditConfigChanged old new =
     (if old = None \<and> new = None then False
      else if old = None \<or> new = None then True
      else case (GetAuditConfig old, GetAuditConfig new) of
        (None, None) \<Rightarrow> False
      | (Some oa, Some na) \<Rightarrow>
          au_enabled oa \<noteq> au_enabled na \<or> au_file oa \<noteq> au_file na \<or> au_stdout oa \<noteq> au_stdout na \<or>
          au_syslog oa \<noteq> au_syslog na \<or> au_syslog_facility oa \<noteq> au_syslog_facility na
      | _ \<Rightarrow> True)"

definition warnIfNoTools :: "Config \<Rightarrow> bool" where
  "warnIfNoTools cfg = (c_tools cfg = [])"

definition backend_settings :: "Config \<Rightarrow> cred_state \<Rightarrow> cred_state" where
  "backend_settings cfg st =
     (let st1 = st\<lparr>cs_age_identity_file := SetAgeIdentityFile (GetAgeIdentityFile cfg) (cs_age_identity_file st)\<rparr>;
          st2 = st1\<lparr>cs_op_token_file := SetOPTokenFile (GetOPTokenFile cfg) (cs_op_token_file st1)\<rparr>;
          st3 = SetCredentialCacheTTL (GetCredentialCacheTTL cfg) st2
      in st3\<lparr>cs_vault := SetVaultTokenFile (GetVaultTokenFile cfg) (SetVaultNamespace (GetVaultNamespace cfg)
               (SetVaultCACert (GetVaultCACert cfg) (SetVaultSkipVerify (GetVaultSkipVerify cfg)
                 (SetVaultAddr (GetVaultAddr cfg) (cs_vault st3)))))\<rparr>)"

text \<open>
  A reload ends well, with an error, in a nil dereference (\<open>oldCfg.Listen\<close> when the stored
  configuration has no \<open>http_proxy\<close> section), or not at all (the trimming loop of the replay cache).
\<close>

datatype reload = Reload_Ok | Reload_Error life_error | Reload_Panic | Reload_Hang

definition stop_for_reload :: "life_env \<Rightarrow> Proxy \<Rightarrow> Daemon \<Rightarrow> bool \<times> Daemon" where
  "stop_for_reload e p d =
     (case Stop (le_proxy_close e) p of
        (False, p') \<Rightarrow> (False, d\<lparr>dm_httpProxy := Some p'\<rparr>)
      | (True, p') \<Rightarrow> (True, d\<lparr>dm_httpProxy := None\<rparr>))"

definition needs_restart :: "HTTPProxyConfig \<Rightarrow> HTTPProxyConfig \<Rightarrow> bool" where
  "needs_restart oldCfg newCfg \<longleftrightarrow>
     hp_listen oldCfg \<noteq> hp_listen newCfg \<or> GetRequireAuth oldCfg \<noteq> GetRequireAuth newCfg \<or> ca_path (hp_ca oldCfg) \<noteq> ca_path (hp_ca newCfg)"

definition start_step :: "life_env \<Rightarrow> Config \<Rightarrow> life \<Rightarrow> reload \<times> life" where
  "start_step e newCfg l =
     (case startHTTPProxy e newCfg l of (Some x, l1) \<Rightarrow> (Reload_Error x, l1) | (None, l1) \<Rightarrow> (Reload_Ok, l1))"

definition reload_proxy :: "life_env \<Rightarrow> Config \<Rightarrow> life \<Rightarrow> reload \<times> life" where
  "reload_proxy e newCfg l =
     (case l of (d, w) \<Rightarrow>
      case dm_httpProxy d of
        None \<Rightarrow> if GetHTTPProxyEnabled newCfg then start_step e newCfg (d, w) else (Reload_Ok, d, w)
      | Some p \<Rightarrow>
          if \<not> GetHTTPProxyEnabled newCfg then
            (case stop_for_reload e p d of
               (False, d1) \<Rightarrow> (Reload_Error Life_Proxy_Stop, d1, w)
             | (True, d1) \<Rightarrow> (Reload_Ok, d1, w))
          else case (case dm_cfg d of None \<Rightarrow> None | Some c \<Rightarrow> GetHTTPProxyConfig c, GetHTTPProxyConfig newCfg) of
            (Some oldCfg, Some newHTTPCfg) \<Rightarrow>
              if needs_restart oldCfg newHTTPCfg then
                (case stop_for_reload e p d of
                   (False, d1) \<Rightarrow> (Reload_Error Life_Proxy_Stop, d1, w)
                 | (True, d1) \<Rightarrow> start_step e newCfg (d1, w))
              else (Reload_Ok, d\<lparr>dm_httpProxy := Some (ReloadConfig newHTTPCfg (c_credentials newCfg) p)\<rparr>, w)
          | _ \<Rightarrow> (Reload_Panic, d, w))"

definition reload_audit :: "life_env \<Rightarrow> Config \<Rightarrow> life \<Rightarrow> reload \<times> life" where
  "reload_audit e newCfg l =
     (case l of (d, w) \<Rightarrow>
        if \<not> auditConfigChanged (dm_cfg d) (Some newCfg) then (Reload_Ok, d, w)
        else let w1 = w\<lparr>lw_audit := snd (Close (le_close_bad e) (dm_auditLogger d) (lw_audit w))\<rparr>
             in (case audit_New (le_audit e) (GetAuditConfig (Some newCfg)) (lw_audit w1) of
                   (Inl x, aw) \<Rightarrow> (Reload_Error (Life_Audit x), d, w1\<lparr>lw_audit := aw\<rparr>)
                 | (Inr lg, aw) \<Rightarrow> (Reload_Ok, d\<lparr>dm_auditLogger := lg\<rparr>, w1\<lparr>lw_audit := aw\<rparr>)))"

definition install_config :: "Config \<Rightarrow> life \<Rightarrow> reload \<times> life" where
  "install_config newCfg l =
     (case l of (d, w) \<Rightarrow>
      let d1 = d\<lparr>dm_cfg := Some newCfg\<rparr>
      in case UpdateSettings (GetReplayCacheTTL newCfg) (GetReplayCacheMaxEntries newCfg) (dm_replayCache d1) of
           None \<Rightarrow> (Reload_Hang, d1, w)
         | Some cache \<Rightarrow> (Reload_Ok, d1\<lparr>dm_replayCache := cache\<rparr>, w\<lparr>lw_creds := backend_settings newCfg (lw_creds w)\<rparr>))"

definition reloadConfig :: "life_env \<Rightarrow> life \<Rightarrow> reload \<times> life" where
  "reloadConfig e l =
     (case Load (le_read_file e) (le_yaml e) (le_compile e) (dm_configPath (fst l)) of
        Inl x \<Rightarrow> (Reload_Error (Life_Load x), l)
      | Inr newCfg \<Rightarrow>
          (case reload_proxy e newCfg l of
             (Reload_Ok, l1) \<Rightarrow>
               (case reload_audit e newCfg l1 of
                  (Reload_Ok, l2) \<Rightarrow> install_config newCfg l2
                | (r, l2) \<Rightarrow> (r, l2))
           | (r, l1) \<Rightarrow> (r, l1)))"

section \<open>The watcher of the configuration file\<close>

definition configWatchDebounce :: duration where "configWatchDebounce = 500000000"

definition kubernetesDataLink :: string where "kubernetesDataLink = ''..data''"

definition path_dir :: "string \<Rightarrow> string" where
  "path_dir p = path_clean (rev (dropWhile (\<lambda>c. c \<noteq> CHR ''/'') (rev p)))"

definition startConfigWatcher :: "life_env \<Rightarrow> life \<Rightarrow> life_error option \<times> life" where
  "startConfigWatcher e l =
     (case l of (d, w) \<Rightarrow>
        if dm_configWatcherInit d then (None, d, w)
        else if \<not> le_watcher e then (Some Life_Watcher, d, w)
        else if \<not> le_watch_add e (path_dir (dm_configPath d)) then (Some Life_Watcher, d, w)
        else (None, d\<lparr>dm_configWatcherInit := True\<rparr>, w\<lparr>lw_watching := Some (path_dir (dm_configPath d))\<rparr>))"

definition stopConfigWatcher :: "life \<Rightarrow> life" where
  "stopConfigWatcher l =
     (case l of (d, w) \<Rightarrow>
        if \<not> dm_configWatcherInit d then (d, w)
        else (d\<lparr>dm_configWatcherInit := False\<rparr>, w\<lparr>lw_watching := None\<rparr>))"

datatype fs_op = Op_Create | Op_Write | Op_Remove | Op_Rename | Op_Chmod

datatype watch_event =
    Fs_Event string "fs_op list" time
  | Timer_Fires time
  | Watch_Error
  | Watch_End \<comment> \<open>stop requested or a channel closed\<close>

text \<open>The loop's debounce timer and whether it runs; \<open>True\<close> when the turn calls \<open>reloadConfig\<close>.\<close>

record watch_state =
  wt_timer :: "time option"
  wt_running :: bool

definition watch_init :: watch_state where "watch_init = \<lparr>wt_timer = None, wt_running = True\<rparr>"

definition relevant_event :: "string \<Rightarrow> string \<Rightarrow> fs_op list \<Rightarrow> bool" where
  "relevant_event configPath name ops \<longleftrightarrow>
     (path_base name = path_base configPath \<or> path_base name = kubernetesDataLink) \<and>
     (Op_Write \<in> set ops \<or> Op_Create \<in> set ops \<or> Op_Chmod \<in> set ops \<or> Op_Rename \<in> set ops)"

fun configWatchLoop :: "string \<Rightarrow> watch_event \<Rightarrow> watch_state \<Rightarrow> (bool \<times> watch_state) option" where
  "configWatchLoop configPath (Fs_Event name ops now) st =
     (if \<not> wt_running st then None
      else if relevant_event configPath name ops then Some (False, st\<lparr>wt_timer := Some (now + configWatchDebounce)\<rparr>)
      else Some (False, st))"
| "configWatchLoop configPath (Timer_Fires now) st =
     (case wt_timer st of
        None \<Rightarrow> None
      | Some t \<Rightarrow> if wt_running st \<and> t \<le> now then Some (True, st\<lparr>wt_timer := None\<rparr>) else None)"
| "configWatchLoop configPath Watch_Error st = (if wt_running st then Some (False, st) else None)"
| "configWatchLoop configPath Watch_End st = (if wt_running st then Some (False, st\<lparr>wt_running := False\<rparr>) else None)"

section \<open>Start-up and shutdown\<close>

definition runtimeDirMode :: "Daemon \<Rightarrow> int" where
  "runtimeDirMode d = (if 0 \<le> dm_runtimeGID d then sharedRuntimeDirMode else defaultRuntimeDirMode)"

definition applyRuntimePathOwnership :: "life_env \<Rightarrow> string \<Rightarrow> Daemon \<Rightarrow> life_world \<Rightarrow> life_error option \<times> life_world" where
  "applyRuntimePathOwnership e path d w =
     (if dm_runtimeGID d < 0 then (None, w)
      else case le_stat e path of
        None \<Rightarrow> (Some (Life_Stat path), w)
      | Some (mode, gid) \<Rightarrow>
          if gid = dm_runtimeGID d then (None, w)
          else case call e (Call_Chown path (dm_runtimeGID d)) w of
            (False, w1) \<Rightarrow> (Some (Life_Call (Call_Chown path (dm_runtimeGID d))), w1)
          | (True, w1) \<Rightarrow> (None, w1))"

definition applyRuntimeDirPermissions :: "life_env \<Rightarrow> string \<Rightarrow> Daemon \<Rightarrow> life_world \<Rightarrow> life_error option \<times> life_world" where
  "applyRuntimeDirPermissions e path d w =
     (case applyRuntimePathOwnership e path d w of
        (Some x, w1) \<Rightarrow> (Some x, w1)
      | (None, w1) \<Rightarrow>
          (case le_stat e path of
             None \<Rightarrow> (Some (Life_Stat path), w1)
           | Some (mode, gid) \<Rightarrow>
               if mode = runtimeDirMode d then (None, w1)
               else case call e (Call_Chmod path (runtimeDirMode d)) w1 of
                 (False, w2) \<Rightarrow> (Some (Life_Call (Call_Chmod path (runtimeDirMode d))), w2)
               | (True, w2) \<Rightarrow> (None, w2)))"

definition sweepStaleTempDirs :: "life_env \<Rightarrow> life_world \<Rightarrow> life_world" where
  "sweepStaleTempDirs e w =
     (case le_glob e (path_join [pe_tmp (le_paths e), ''claw-wrap-config-*'']) of
        None \<Rightarrow> w
      | Some ms \<Rightarrow> foldl (\<lambda>w m. snd (call e (Call_RemoveAll m) w)) w ms)"

text \<open>The calls of \<open>Run\<close> that may each end it, one after the other.\<close>

fun run_steps :: "(Daemon \<Rightarrow> life_world \<Rightarrow> life_error option \<times> life_world) list \<Rightarrow> Daemon \<Rightarrow> life_world \<Rightarrow> life_error option \<times> life_world" where
  "run_steps [] d w = (None, w)"
| "run_steps (f # fs) d w = (case f d w of (Some x, w1) \<Rightarrow> (Some x, w1) | (None, w1) \<Rightarrow> run_steps fs d w1)"

definition call_step :: "life_env \<Rightarrow> sys_call \<Rightarrow> Daemon \<Rightarrow> life_world \<Rightarrow> life_error option \<times> life_world" where
  "call_step e k d w = (case call e k w of (True, w1) \<Rightarrow> (None, w1) | (False, w1) \<Rightarrow> (Some (Life_Call k), w1))"

text \<open>Writing the secret, and the socket: the mode is set after \<open>Listen\<close>, which runs under umask 0177.\<close>

definition write_secret_step :: "life_env \<Rightarrow> string \<Rightarrow> Daemon \<Rightarrow> life_world \<Rightarrow> life_error option \<times> life_world" where
  "write_secret_step e path d w =
     (case WriteSecretWithMode (le_keys e) path (dm_secret d) (dm_authFileMode d) (lw_fs w) of
        (Some x, fs) \<Rightarrow> (Some (Life_Write_Secret x), w\<lparr>lw_fs := fs\<rparr>)
      | (None, fs) \<Rightarrow> (None, w\<lparr>lw_fs := fs\<rparr>))"

definition socket_steps :: "life_env \<Rightarrow> Config \<Rightarrow> Daemon \<Rightarrow> (Daemon \<Rightarrow> life_world \<Rightarrow> life_error option \<times> life_world) list" where
  "socket_steps e cfg d =
     (let secretPath = GetHMACSecretFile (le_paths e) cfg; runtimeDir = RuntimeDir (le_paths e)
      in [write_secret_step e secretPath,
          applyRuntimePathOwnership e secretPath,
          call_step e (Call_Mkdir runtimeDir (runtimeDirMode d)),
          applyRuntimeDirPermissions e runtimeDir,
          call_step e (Call_Remove (dm_socketPath d)),
          call_step e (Call_Listen (dm_socketPath d)),
          call_step e (Call_Chmod (dm_socketPath d) (dm_socketFileMode d)),
          applyRuntimePathOwnership e (dm_socketPath d)])"

definition run_guards :: "life_env \<Rightarrow> Daemon \<Rightarrow> life_error option" where
  "run_guards e d =
     (case ValidateRuntimeDirEnv (le_paths e) of
        Some x \<Rightarrow> Some (Life_Runtime_Dir x)
      | None \<Rightarrow>
          if dm_runtimeGID d < -1 then Some Life_Gid
          else if \<not> IsAllowedAuthFileMode (dm_authFileMode d) then Some (Life_Auth_Mode (dm_authFileMode d))
          else if \<not> IsAllowedSocketFileMode (dm_socketFileMode d) then Some (Life_Socket_Mode (dm_socketFileMode d))
          else None)"

text \<open>
  \<open>Run\<close> up to the accept loop. A failure of the HTTP proxy or of the watcher is only logged. The two
  deferred calls, \<open>CleanupBWSession\<close> and \<open>Close\<close> on the logger of this moment, are \<open>run_deferred\<close>.
\<close>

definition run_deferred :: "life_env \<Rightarrow> Logger \<Rightarrow> life_world \<Rightarrow> life_world" where
  "run_deferred e lg w =
     (let w1 = w\<lparr>lw_audit := snd (Close (le_close_bad e) lg (lw_audit w))\<rparr>; cs = lw_creds w1
      in case CleanupBWSession (le_sys e) (cs_bw cs, cs_trace cs) of
           ((bw, tr), dir) \<Rightarrow> w1\<lparr>lw_creds := cs\<lparr>cs_bw := bw, cs_trace := tr\<rparr>\<rparr>)"

definition daemon_started :: "life_env \<Rightarrow> Config \<Rightarrow> life \<Rightarrow> life" where
  "daemon_started e cfg l =
     (case l of (d, w) \<Rightarrow>
      let d1 = d\<lparr>dm_cfg := Some cfg\<rparr>;
          w1 = sweepStaleTempDirs e w;
          d2 = d1\<lparr>dm_connSem := (0, GetMaxConnections cfg),
                  dm_replayCache := NewReplayCache (GetReplayCacheTTL cfg) (GetReplayCacheMaxEntries cfg)\<rparr>
      in snd (startConfigWatcher e (snd (startHTTPProxy e cfg (d2, w1)))))"

definition daemon_Run :: "life_env \<Rightarrow> life \<Rightarrow> life_error option \<times> life" where
  "daemon_Run e l =
     (case l of (d, w) \<Rightarrow>
      case run_guards e d of
        Some x \<Rightarrow> (Some x, d, w)
      | None \<Rightarrow>
          (case Load (le_read_file e) (le_yaml e) (le_compile e) (dm_configPath d) of
             Inl x \<Rightarrow> (Some (Life_Load x), d, w)
           | Inr cfg \<Rightarrow>
               let w1 = w\<lparr>lw_creds := backend_settings cfg (lw_creds w)\<rparr>
               in (case audit_New (le_audit e) (GetAuditConfig (Some cfg)) (lw_audit w1) of
                     (Inl x, aw) \<Rightarrow> (Some (Life_Audit x), d, run_deferred e Nop (w1\<lparr>lw_audit := aw\<rparr>))
                   | (Inr lg, aw) \<Rightarrow>
                       let d1 = d\<lparr>dm_auditLogger := lg\<rparr>; w2 = w1\<lparr>lw_audit := aw\<rparr>
                       in (case GenerateSecret (le_rand e) of
                             None \<Rightarrow> (Some Life_Secret, d1, run_deferred e lg w2)
                           | Some secret \<Rightarrow>
                               let d2 = d1\<lparr>dm_secret := secret\<rparr>
                               in (case run_steps (socket_steps e cfg d2) d2 w2 of
                                     (Some x, w3) \<Rightarrow> (Some x, d2, run_deferred e lg w3)
                                   | (None, w3) \<Rightarrow> (None, daemon_started e cfg (d2, w3)))))))"

text \<open>A signal: \<open>SIGHUP\<close> reloads; another stops the watcher and the proxy and closes the listener (\<open>True\<close>).\<close>

definition handle_signal :: "life_env \<Rightarrow> unix_signal \<Rightarrow> life \<Rightarrow> bool \<times> reload \<times> life" where
  "handle_signal e sig l =
     (if sig = SIGHUP then (case reloadConfig e l of (r, l1) \<Rightarrow> (False, r, l1))
      else case stopConfigWatcher l of (d1, w1) \<Rightarrow> (True, Reload_Ok, snd (stopHTTPProxy e d1), w1))"

end
