(* ===== verification/Daemon_Laws.thy ===== *)
theory Daemon_Laws
  imports Daemon_Life
begin

text \<open>
  Which parts of the daemon's state one connection and one step of its life change: the lemmas that the
  theories on authorisation, reload and the life cycle share.
\<close>

section \<open>What one connection does\<close>

definition payload_of :: "read_outcome \<Rightarrow> bytes option" where
  "payload_of rd =
     (case rd of Read_Bytes bs \<Rightarrow> if length bs < header_limit \<and> trim_space bs \<noteq> [] then Some (trim_space bs) else None | _ \<Rightarrow> None)"

lemma conn_body_payload:
  "conn_body p resolve rd cfg w s d c =
     (case payload_of rd of
        Some pl \<Rightarrow> dispatch p resolve pl cfg w s d (c\<lparr>cn_read_deadline := None\<rparr>)
      | None \<Rightarrow> conn_body p resolve rd cfg w s d c)"
  by (auto simp: conn_body_def payload_of_def Let_def split: read_outcome.splits)

lemma not_payload_refused: "payload_of rd = None \<Longrightarrow> fst (conn_body p resolve rd cfg w s d c) = Refused"
  by (auto simp: conn_body_def payload_of_def Let_def split: read_outcome.splits if_splits)

text \<open>The replay cache, by itself.\<close>

lemma replay_check_eq: "replay_check key now d = (fst (SeenOrStore key now (dm_replayCache d)), d\<lparr>dm_replayCache := snd (SeenOrStore key now (dm_replayCache d))\<rparr>)"
  by (simp add: replay_check_def split_beta Let_def)

lemma handleProxyRequest_Executed:
  assumes "handleProxyRequest p data cfg pid exe uid w d c = (Executed ex run, d', c')"
  obtains req tool where "unmarshal_ProxyRequest data = Some req" and "pr_version req = ProtocolVersion"
    and "VerifyHMACWithPTY (pv_mac p) (pv_auth_now p) (dm_secret d) (pr_timestamp req) (pr_tool req) (pr_cwd req)
      (pr_args req) (pr_env req) (pr_nonce req) (pr_use_pty req) (pr_hmac req) = None"
    and "\<not> fst (SeenOrStore (proxy_key uid (pr_hmac req)) (pv_replay_now p) (dm_replayCache d))"
    and "d' = d\<lparr>dm_replayCache := snd (SeenOrStore (proxy_key uid (pr_hmac req)) (pv_replay_now p) (dm_replayCache d))\<rparr>"
    and "map_of (c_tools cfg) (pr_tool req) = Some tool" and "fst (checkToolArgs (nil_slice (pr_args req)) tool)"
    and "NewToolExecutor req tool cfg (dm_proxyAuthToken d) (dm_auditLogger d) pid exe = Inr ex"
    and "run = Run (pv_run p) (pv_events p) ex w"
  using assms unfolding handleProxyRequest_def replay_check_eq
  by (auto simp: Let_def split: option.splits if_splits bool.splits prod.splits sum.splits)

lemma verify_caller_Inr:
  assumes "verify_caller p cfg d = Inr (u, exe)"
  shows "pv_creds p = Inr u \<and> UID u = dm_allowedUID d \<and>
    (case pv_exe p (PID u) of Inr x \<Rightarrow> exe = x \<and> isAllowedBinary (pv_links p) (pv_cwd p) x d
     | Inl _ \<Rightarrow> exe = [] \<and> \<not> DenyUnverifiedCallerExe cfg)"
  using assms by (auto simp: verify_caller_def split: if_splits sum.splits)

lemma dispatch_Executed:
  assumes "dispatch p resolve pl cfg w s d c = (Executed ex run, d', c', s')"
  obtains u exe d0 where "verify_caller p cfg d = Inr (u, exe)"
    and "d0 = (if exe = [] then d\<lparr>dm_unverifiedLogged := True\<rparr> else d)"
    and "handleProxyRequest p pl cfg (PID u) exe (UID u) w d0 c = (Executed ex run, d', c')"
  using assms unfolding dispatch_def
  by (auto simp: Let_def split: option.splits sum.splits if_splits prod.splits)

lemma connection_Executed:
  assumes "handleConnection p resolve rd cfg w s d c = (Executed ex run, d', c', s')"
  obtains pl c0 c1 where "payload_of rd = Some pl" and "dispatch p resolve pl cfg w s d c0 = (Executed ex run, d', c1, s')"
proof -
  from assms obtain c1 where b: "conn_body p resolve rd cfg w s d (set_deadlines p cfg c) = (Executed ex run, d', c1, s')"
    by (auto simp: handleConnection_def split: prod.splits)
  then obtain pl where pl: "payload_of rd = Some pl"
    using not_payload_refused [of rd p resolve cfg w s d "set_deadlines p cfg c"] by (cases "payload_of rd") auto
  with b that show ?thesis by (subst (asm) conn_body_payload) auto
qed

section \<open>The state connections share\<close>

text \<open>
  Handlers run concurrently; what they do to the daemon are single atomic changes: a counter, a
  question to the replay cache, the once-flag. A handler's whole effect is a sequence of these.
\<close>

inductive shared_step :: "Daemon \<Rightarrow> Daemon \<Rightarrow> bool" where
  step_metric: "shared_step d (d_inc key d)"
| step_replay: "key \<noteq> '''' \<Longrightarrow> replay_step (dm_replayCache d) key now b cache \<Longrightarrow> shared_step d (d\<lparr>dm_replayCache := cache\<rparr>)"
| step_once: "shared_step d (d\<lparr>dm_unverifiedLogged := True\<rparr>)"

inductive_cases shared_stepE: "shared_step d d'"

lemma keys_not_empty [simp]: "admin_key uid h \<noteq> ''''" "proxy_key uid h \<noteq> ''''"
  by (simp_all add: admin_key_def proxy_key_def)

lemma replay_check_shared:
  assumes "replay_check key now d = (b, d')" and "key \<noteq> ''''"
  shows "shared_step d d'"
proof -
  have "replay_step (dm_replayCache d) key now b (snd (SeenOrStore key now (dm_replayCache d)))"
    using assms(1) by (intro replay_step.intros [OF refl]) (simp add: replay_check_eq prod_eq_iff)
  from step_replay [OF assms(2) this] show ?thesis using assms(1) by (simp add: replay_check_eq)
qed

lemma shared_inc: "shared_step d d' \<Longrightarrow> shared_step\<^sup>*\<^sup>* d (d_inc k d')"
  by (meson converse_rtranclp_into_rtranclp r_into_rtranclp step_metric)

lemma handleProxyRequest_shared:
  "handleProxyRequest p data cfg pid exe uid w d c = (r, d', c') \<Longrightarrow> shared_step\<^sup>*\<^sup>* d d'"
  unfolding handleProxyRequest_def Let_def
  by (auto simp: step_metric split: option.splits if_splits bool.splits prod.splits sum.splits
      dest!: replay_check_shared intro: shared_inc)

lemma handleAdminRequest_shared:
  "handleAdminRequest p resolve data cfg uid pid s d c = (d', c', s') \<Longrightarrow> shared_step\<^sup>*\<^sup>* d d'"
  unfolding handleAdminRequest_def Let_def
  by (auto simp: step_metric split: option.splits if_splits bool.splits prod.splits
      dest!: replay_check_shared intro: shared_inc)

lemma dispatch_shared:
  assumes "dispatch p resolve pl cfg w s d c = (r, d', c', s')"
  shows "shared_step\<^sup>*\<^sup>* d d'"
proof -
  have once: "shared_step\<^sup>*\<^sup>* (d\<lparr>dm_unverifiedLogged := True\<rparr>) x \<Longrightarrow> shared_step\<^sup>*\<^sup>* d x" for x
    by (metis converse_rtranclp_into_rtranclp step_once)
  show ?thesis
    using assms unfolding dispatch_def Let_def
    by (auto simp: step_metric split: option.splits sum.splits if_splits prod.splits
        dest!: handleProxyRequest_shared handleAdminRequest_shared intro: once step_once)
qed

lemma connection_shared:
  assumes "handleConnection p resolve rd cfg w s d c = (r, d', c', s')"
  shows "shared_step\<^sup>*\<^sup>* d d'"
proof -
  from assms obtain c1 where b: "conn_body p resolve rd cfg w s d (set_deadlines p cfg c) = (r, d', c1, s')"
    by (auto simp: handleConnection_def split: prod.splits)
  show ?thesis
  proof (cases "payload_of rd")
    case None
    with b show ?thesis by (auto simp: conn_body_def payload_of_def Let_def step_metric split: read_outcome.splits if_splits)
  next
    case (Some pl)
    with b show ?thesis by (subst (asm) conn_body_payload) (auto dest: dispatch_shared)
  qed
qed

end
