(* ===== verification/Lifecycle_Laws.thy ===== *)
theory Lifecycle_Laws
  imports Daemon_Laws
begin

text \<open>
  Laws of the daemon's life: what a reload changes, the invariant of every reachable state with the bound on connection slots, and what a started daemon has published.
\<close>

section \<open>What the parts of a reload change\<close>

definition token_ok :: "Daemon \<Rightarrow> bool" where
  "token_ok d \<longleftrightarrow> dm_proxyAuthToken d = [] \<or> validateProxyAuthToken (dm_proxyAuthToken d) = None"

text \<open>Starting or stopping the proxy touches only the proxy and its token.\<close>

definition proxy_only :: "Daemon \<Rightarrow> Daemon \<Rightarrow> bool" where
  "proxy_only d d' \<longleftrightarrow> (\<exists>x t. d' = d\<lparr>dm_httpProxy := x, dm_proxyAuthToken := t\<rparr>) \<and> (token_ok d \<longrightarrow> token_ok d')"

lemma proxy_only_refl [simp]: "proxy_only d d"
  unfolding proxy_only_def by (rule conjI, rule exI [of _ "dm_httpProxy d"], rule exI [of _ "dm_proxyAuthToken d"]) simp_all

lemma proxy_only_set [simp]: "proxy_only d (d\<lparr>dm_httpProxy := x\<rparr>)"
  unfolding proxy_only_def by (rule conjI, rule exI [of _ x], rule exI [of _ "dm_proxyAuthToken d"]) (simp_all add: token_ok_def)

lemma proxy_only_token: "validateProxyAuthToken t = None \<Longrightarrow> proxy_only d (d\<lparr>dm_proxyAuthToken := t\<rparr>)"
  unfolding proxy_only_def by (rule conjI, rule exI [of _ "dm_httpProxy d"], rule exI [of _ t]) (simp_all add: token_ok_def)

lemma proxy_only_trans: "proxy_only d d1 \<Longrightarrow> proxy_only d1 d2 \<Longrightarrow> proxy_only d d2"
  unfolding proxy_only_def by (elim conjE exE) (simp, blast)

lemma proxy_only_fields:
  "proxy_only d d' \<Longrightarrow> dm_cfg d' = dm_cfg d \<and> dm_replayCache d' = dm_replayCache d \<and> dm_connSem d' = dm_connSem d \<and>
     dm_auditLogger d' = dm_auditLogger d \<and> dm_metrics d' = dm_metrics d \<and> dm_secret d' = dm_secret d \<and> dm_configPath d' = dm_configPath d \<and>
     dm_authFileMode d' = dm_authFileMode d \<and> dm_socketFileMode d' = dm_socketFileMode d \<and> dm_runtimeGID d' = dm_runtimeGID d"
  by (auto simp: proxy_only_def)

lemma written_token_valid: "writeProxyAuthToken e path t fs = (None, fs') \<Longrightarrow> validateProxyAuthToken t = None"
  by (auto simp: writeProxyAuthToken_def split: option.splits)

lemma ensure_token:
  assumes "ensureProxyAuthToken e (d, w) = (r, d', w')"
  shows "proxy_only d d'" and "lw_creds w' = lw_creds w" and "lw_audit w' = lw_audit w"
  using assms unfolding ensureProxyAuthToken_def
  by (auto split: if_splits sum.splits option.splits prod.splits dest: written_token_valid loaded_token_valid intro!: proxy_only_token)

lemma start_proxy:
  assumes "startHTTPProxy e cfg (d, w) = (r, d', w')"
  shows "proxy_only d d' \<and> lw_creds w' = lw_creds w \<and> lw_audit w' = lw_audit w"
proof -
  have set: "proxy_only d d1 \<Longrightarrow> proxy_only d (d1\<lparr>dm_httpProxy := x\<rparr>)" for d1 x
    using proxy_only_trans proxy_only_set by blast
  show ?thesis
    using assms unfolding startHTTPProxy_def Let_def
    by (auto split: option.splits if_splits prod.splits dest: ensure_token intro: set)
qed

lemma stop_proxy: "stop_for_reload e p d = (b, d') \<Longrightarrow> proxy_only d d'"
  by (auto simp: stop_for_reload_def split: prod.splits bool.splits)

lemma reload_proxy_only:
  assumes "reload_proxy e cfg (d, w) = (r, d', w')"
  shows "proxy_only d d' \<and> lw_creds w' = lw_creds w \<and> lw_audit w' = lw_audit w \<and> r \<noteq> Reload_Hang"
  using assms unfolding reload_proxy_def start_step_def
  by (auto split: option.splits if_splits prod.splits bool.splits dest!: start_proxy stop_proxy intro: proxy_only_trans)

lemma reload_audit_only:
  assumes "reload_audit e cfg (d, w) = (r, d', w')"
  shows "\<exists>lg. d' = d\<lparr>dm_auditLogger := lg\<rparr> \<and> lw_creds w' = lw_creds w \<and> r \<noteq> Reload_Hang \<and> r \<noteq> Reload_Panic"
proof -
  have same: "d = d\<lparr>dm_auditLogger := dm_auditLogger d\<rparr>" by simp
  show ?thesis
    using assms unfolding reload_audit_def Let_def
    by (auto split: if_splits prod.splits sum.splits intro: exI [of _ "dm_auditLogger d"])
qed

section \<open>Reloading\<close>

text \<open>
  A reload that got past loading the file: its three parts in a row.
\<close>

lemma reload_parts:
  assumes "reloadConfig e (d, w) = (r, d', w')"
  shows "(\<exists>x. r = Reload_Error (Life_Load x) \<and> (d', w') = (d, w)) \<or>
    (\<exists>cfg r1 d1 w1. Load (le_read_file e) (le_yaml e) (le_compile e) (dm_configPath d) = Inr cfg \<and> reload_proxy e cfg (d, w) = (r1, d1, w1) \<and>
       (r1 \<noteq> Reload_Ok \<and> (r, d', w') = (r1, d1, w1) \<or>
        r1 = Reload_Ok \<and> (\<exists>r2 d2 w2. reload_audit e cfg (d1, w1) = (r2, d2, w2) \<and>
          (r2 \<noteq> Reload_Ok \<and> (r, d', w') = (r2, d2, w2) \<or> r2 = Reload_Ok \<and> install_config cfg (d2, w2) = (r, d', w')))))"
proof (cases "Load (le_read_file e) (le_yaml e) (le_compile e) (dm_configPath d)")
  case (Inl x)
  with assms show ?thesis by (auto simp: reloadConfig_def)
next
  case (Inr cfg)
  obtain r1 d1 w1 where p: "reload_proxy e cfg (d, w) = (r1, d1, w1)" by (metis surj_pair)
  obtain r2 d2 w2 where a: "reload_audit e cfg (d1, w1) = (r2, d2, w2)" by (metis surj_pair)
  from assms Inr p a show ?thesis
    by (cases r1; cases r2) (auto simp: reloadConfig_def)
qed

lemma install_parts:
  assumes "install_config cfg (d, w) = (r, d', w')" and "cache_ok (dm_replayCache d)"
  shows "r = Reload_Ok \<and> (\<exists>cache. d' = d\<lparr>dm_cfg := Some cfg, dm_replayCache := cache\<rparr> \<and> cache_ok cache \<and>
      ttl cache = GetReplayCacheTTL cfg \<and> maxEntries cache = GetReplayCacheMaxEntries cfg) \<and>
    w' = w\<lparr>lw_creds := backend_settings cfg (lw_creds w)\<rparr>"
proof -
  obtain cache where c: "UpdateSettings (GetReplayCacheTTL cfg) (GetReplayCacheMaxEntries cfg) (dm_replayCache d) = Some cache"
    "cache_ok cache" "ttl cache = default_ttl (GetReplayCacheTTL cfg)" "maxEntries cache = default_max (GetReplayCacheMaxEntries cfg)"
    using UpdateSettings_total [OF assms(2), of "GetReplayCacheTTL cfg" "GetReplayCacheMaxEntries cfg"] by blast
  have "0 < GetReplayCacheTTL cfg" "0 < GetReplayCacheMaxEntries cfg"
    by (auto simp: GetReplayCacheTTL_def GetReplayCacheMaxEntries_def config_defaults split: option.split)
  with c assms(1) show ?thesis by (auto simp: install_config_def default_ttl_def default_max_def Let_def)
qed

text \<open>C16: a reload ends, and it either installs the whole new configuration or keeps the old one.
  When it succeeds, the stored configuration, the settings of the replay cache and those of the
  credential backends are the ones of the file; when it fails or panics, these three are as before. The
  secret and the connection slots are never touched.\<close>
theorem reload_installs_or_keeps:
  assumes "reloadConfig e (d, w) = (r, d', w')" and "cache_ok (dm_replayCache d)"
  shows "r \<noteq> Reload_Hang \<and> dm_secret d' = dm_secret d \<and> dm_connSem d' = dm_connSem d \<and> cache_ok (dm_replayCache d') \<and>
    (if r = Reload_Ok
     then \<exists>cfg. Load (le_read_file e) (le_yaml e) (le_compile e) (dm_configPath d) = Inr cfg \<and> dm_cfg d' = Some cfg \<and>
       ttl (dm_replayCache d') = GetReplayCacheTTL cfg \<and> maxEntries (dm_replayCache d') = GetReplayCacheMaxEntries cfg \<and>
       lw_creds w' = backend_settings cfg (lw_creds w)
     else dm_cfg d' = dm_cfg d \<and> dm_replayCache d' = dm_replayCache d \<and> lw_creds w' = lw_creds w)"
  using reload_parts [OF assms(1)]
proof (elim disjE exE conjE, goal_cases)
  case (1 x)
  with assms(2) show ?case by simp
next
  case (2 cfg r1 d1 w1)
  with proxy_only_fields [of d d1] reload_proxy_only [of e cfg d w r1 d1 w1] assms(2) show ?case by simp
next
  case (3 cfg r1 d1 w1 r2 d2 w2)
  with proxy_only_fields [of d d1] reload_proxy_only [of e cfg d w r1 d1 w1] reload_audit_only [of e cfg d1 w1 r2 d2 w2] assms(2)
  show ?case by auto
next
  case (4 cfg r1 d1 w1 r2 d2 w2)
  note p = proxy_only_fields [of d d1] reload_proxy_only [of e cfg d w r1 d1 w1]
  note a = reload_audit_only [of e cfg d1 w1 r2 d2 w2]
  have "cache_ok (dm_replayCache d2)" "lw_creds w2 = lw_creds w" using 4 p a assms(2) by auto
  with install_parts [of cfg d2 w2 r d' w'] 4 p a show ?case by auto
qed

section \<open>Reachable states\<close>

definition daemon_ok :: "Daemon \<Rightarrow> bool" where
  "daemon_ok d \<longleftrightarrow> cache_ok (dm_replayCache d) \<and> token_ok d \<and> dm_cfg d \<noteq> None \<and> gomap_ok (dm_metrics d) \<and> -1 \<le> dm_runtimeGID d \<and>
     IsAllowedAuthFileMode (dm_authFileMode d) \<and> IsAllowedSocketFileMode (dm_socketFileMode d)"

text \<open>
  A daemon in operation and the number of handlers that run: start-up, the accept loop, the atomic
  changes of running handlers, the end of a handler, and reloads, in any order.
\<close>

inductive daemon_reach :: "life \<Rightarrow> nat \<Rightarrow> bool" where
  reach_start: "daemon_Run e (d, w) = (None, l) \<Longrightarrow> dm_proxyAuthToken d = [] \<Longrightarrow> gomap_ok (dm_metrics d) \<Longrightarrow> daemon_reach l 0"
| reach_accept: "daemon_reach (d, w) n \<Longrightarrow> accept_conn io d c = (True, d', c') \<Longrightarrow> daemon_reach (d', w) (Suc n)"
| reach_busy: "daemon_reach (d, w) n \<Longrightarrow> accept_conn io d c = (False, d', c') \<Longrightarrow> daemon_reach (d', w) n"
| reach_handler: "daemon_reach (d, w) (Suc n) \<Longrightarrow> shared_step d d' \<Longrightarrow> daemon_reach (d', w) (Suc n)"
| reach_done: "daemon_reach (d, w) (Suc n) \<Longrightarrow> daemon_reach (releaseConnSlot d, w) n"
| reach_reload: "daemon_reach (d, w) n \<Longrightarrow> reloadConfig e (d, w) = (r, l) \<Longrightarrow> r \<noteq> Reload_Panic \<Longrightarrow> daemon_reach l n"

lemma Inc_ok [simp]: "gomap_ok m \<Longrightarrow> gomap_ok (Inc key m)"
  by (simp add: Inc_def)

lemma proxy_only_ok: "proxy_only d d' \<Longrightarrow> daemon_ok d \<Longrightarrow> daemon_ok d'"
  using proxy_only_fields [of d d'] unfolding daemon_ok_def proxy_only_def by simp

lemma logger_ok: "daemon_ok (d\<lparr>dm_auditLogger := lg\<rparr>) = daemon_ok d"
  by (simp add: daemon_ok_def token_ok_def)

lemma shared_step_ok: "shared_step d d' \<Longrightarrow> daemon_ok d \<Longrightarrow> daemon_ok d' \<and> dm_connSem d' = dm_connSem d"
proof (induction rule: shared_step.induct)
  case (step_metric d key)
  then show ?case by (auto simp: daemon_ok_def d_inc_def token_ok_def)
next
  case (step_replay key d now b cache)
  then have "cache_ok cache" using rc.inv_step by (auto simp: daemon_ok_def)
  with step_replay show ?case by (auto simp: daemon_ok_def token_ok_def)
next
  case (step_once d)
  then show ?case by (auto simp: daemon_ok_def token_ok_def)
qed

lemma reload_ok:
  assumes "reloadConfig e (d, w) = (r, d', w')" and "daemon_ok d"
  shows "daemon_ok d' \<and> dm_connSem d' = dm_connSem d"
  using reload_parts [OF assms(1)]
proof (elim disjE exE conjE, goal_cases)
  case (1 x)
  with assms(2) show ?case by simp
next
  case (2 cfg r1 d1 w1)
  then have "proxy_only d d1" using reload_proxy_only by blast
  with 2 proxy_only_ok proxy_only_fields [of d d1] assms(2) show ?case by simp
next
  case (3 cfg r1 d1 w1 r2 d2 w2)
  then have p: "proxy_only d d1" using reload_proxy_only by blast
  obtain lg where "d2 = d1\<lparr>dm_auditLogger := lg\<rparr>" using reload_audit_only [of e cfg d1 w1 r2 d2 w2] 3 by blast
  with 3 p proxy_only_ok proxy_only_fields [OF p] assms(2) show ?case by (simp add: logger_ok)
next
  case (4 cfg r1 d1 w1 r2 d2 w2)
  then have p: "proxy_only d d1" using reload_proxy_only by blast
  obtain lg where a: "d2 = d1\<lparr>dm_auditLogger := lg\<rparr>" using reload_audit_only [of e cfg d1 w1 r2 d2 w2] 4 by blast
  then have ok: "daemon_ok d2" "dm_connSem d2 = dm_connSem d"
    using proxy_only_ok [OF p assms(2)] proxy_only_fields [OF p] by (simp_all add: logger_ok)
  then have "cache_ok (dm_replayCache d2)" by (simp add: daemon_ok_def)
  from install_parts [OF _ this, of cfg w2 r d' w'] 4 obtain cache where "d' = d2\<lparr>dm_cfg := Some cfg, dm_replayCache := cache\<rparr>" "cache_ok cache" by blast
  with ok show ?case by (simp add: daemon_ok_def token_ok_def)
qed

lemma run_guards_ok: "run_guards e d = None \<Longrightarrow> -1 \<le> dm_runtimeGID d \<and> IsAllowedAuthFileMode (dm_authFileMode d) \<and> IsAllowedSocketFileMode (dm_socketFileMode d)"
  by (auto simp: run_guards_def split: option.splits if_splits)

lemma started_ok:
  assumes "daemon_started e cfg (d, w) = (d', w')" and "token_ok d" "gomap_ok (dm_metrics d)" "run_guards e d = None"
  shows "daemon_ok d' \<and> dm_connSem d' = (0, GetMaxConnections cfg) \<and> dm_cfg d' = Some cfg \<and> dm_secret d' = dm_secret d"
proof -
  define d2 where "d2 = d\<lparr>dm_cfg := Some cfg, dm_connSem := (0, GetMaxConnections cfg),
    dm_replayCache := NewReplayCache (GetReplayCacheTTL cfg) (GetReplayCacheMaxEntries cfg)\<rparr>"
  obtain r d3 w3 where s: "startHTTPProxy e cfg (d2, sweepStaleTempDirs e w) = (r, d3, w3)" by (metis surj_pair)
  have f: "proxy_only d2 d3" using start_proxy [OF s] by blast
  have "daemon_ok d2" using assms(2-4) run_guards_ok [of e d] by (simp add: daemon_ok_def d2_def token_ok_def)
  then have 3: "daemon_ok d3" "dm_connSem d3 = (0, GetMaxConnections cfg)" "dm_cfg d3 = Some cfg" "dm_secret d3 = dm_secret d"
    using proxy_only_ok [OF f] proxy_only_fields [OF f] by (simp_all add: d2_def)
  have "d' = d3 \<or> d' = d3\<lparr>dm_configWatcherInit := True\<rparr>"
    using assms(1) s unfolding daemon_started_def d2_def
    by (auto simp: startConfigWatcher_def Let_def split: if_splits)
  with 3 show ?thesis by (auto simp: daemon_ok_def token_ok_def)
qed

lemma Run_started:
  assumes "daemon_Run e (d, w) = (None, l)"
  obtains cfg lg secret w3 where "run_guards e d = None"
    and "Load (le_read_file e) (le_yaml e) (le_compile e) (dm_configPath d) = Inr cfg" and "le_rand e SecretSize = Some secret"
    and "l = daemon_started e cfg (d\<lparr>dm_auditLogger := lg, dm_secret := secret\<rparr>, w3)"
    and "\<exists>w2. lw_fs w2 = lw_fs w \<and> run_steps (socket_steps e cfg (d\<lparr>dm_auditLogger := lg, dm_secret := secret\<rparr>))
      (d\<lparr>dm_auditLogger := lg, dm_secret := secret\<rparr>) w2 = (None, w3)"
proof -
  have g: "run_guards e d = None" using assms by (auto simp: daemon_Run_def split: option.splits)
  then obtain cfg where c: "Load (le_read_file e) (le_yaml e) (le_compile e) (dm_configPath d) = Inr cfg"
    using assms by (auto simp: daemon_Run_def split: sum.splits)
  obtain rl aw where a: "audit_New (le_audit e) (GetAuditConfig (Some cfg)) (lw_audit w) = (rl, aw)" by (metis surj_pair)
  with g c assms obtain lg where lg: "rl = Inr lg" by (cases rl) (auto simp: daemon_Run_def Let_def)
  from g c a lg assms obtain secret where se: "le_rand e SecretSize = Some secret"
    by (cases "le_rand e SecretSize") (auto simp: daemon_Run_def GenerateSecret_def Let_def)
  let ?d = "d\<lparr>dm_auditLogger := lg, dm_secret := secret\<rparr>" and ?w = "w\<lparr>lw_creds := backend_settings cfg (lw_creds w), lw_audit := aw\<rparr>"
  obtain x w3 where st: "run_steps (socket_steps e cfg ?d) ?d ?w = (x, w3)" by (metis surj_pair)
  with g c a lg se assms have x: "x = None" "l = daemon_started e cfg (?d, w3)"
    by (cases x; simp add: daemon_Run_def GenerateSecret_def Let_def)+
  have "lw_fs ?w = lw_fs w" by simp
  with st x(1) have "\<exists>w2. lw_fs w2 = lw_fs w \<and> run_steps (socket_steps e cfg ?d) ?d w2 = (None, w3)" by blast
  from that [OF g c se x(2) this] show ?thesis .
qed

lemma run_guards_fields: "run_guards e (d\<lparr>dm_auditLogger := lg, dm_secret := s\<rparr>) = run_guards e d"
  by (simp add: run_guards_def split: option.split)

lemma accept_sem:
  "accept_conn io d c = (b, d', c') \<Longrightarrow>
     (if b then dm_connSem d' = (Suc (fst (dm_connSem d)), snd (dm_connSem d)) \<and> int (fst (dm_connSem d)) < snd (dm_connSem d)
      else dm_connSem d' = dm_connSem d \<and> snd (dm_connSem d) \<le> int (fst (dm_connSem d)))"
  by (auto simp: accept_conn_def acquireConnSlot_def d_inc_def Let_def split: prod.splits if_splits)

lemma accept_ok: "accept_conn io d c = (b, d', c') \<Longrightarrow> daemon_ok d \<Longrightarrow> daemon_ok d'"
  by (auto simp: accept_conn_def acquireConnSlot_def d_inc_def Let_def daemon_ok_def token_ok_def split: prod.splits if_splits)

lemma release_ok: "daemon_ok (releaseConnSlot d) = daemon_ok d"
  by (simp add: releaseConnSlot_def daemon_ok_def token_ok_def split: prod.splits)

lemma reach_inv: "daemon_reach l n \<Longrightarrow> daemon_ok (fst l) \<and> fst (dm_connSem (fst l)) = n \<and> int n \<le> snd (dm_connSem (fst l)) \<and> 0 < snd (dm_connSem (fst l))"
proof (induction rule: daemon_reach.induct)
  case (reach_start e d w l)
  from reach_start(1) obtain cfg lg secret w3 where g: "run_guards e d = None"
    and l: "l = daemon_started e cfg (d\<lparr>dm_auditLogger := lg, dm_secret := secret\<rparr>, w3)"
    by (rule Run_started)
  let ?d = "d\<lparr>dm_auditLogger := lg, dm_secret := secret\<rparr>"
  have h: "token_ok ?d" "gomap_ok (dm_metrics ?d)" "run_guards e ?d = None"
    using reach_start(2,3) g by (simp_all add: token_ok_def run_guards_fields)
  have "0 < GetMaxConnections cfg" by (auto simp: GetMaxConnections_def DefaultMaxConnections_def split: option.split)
  with started_ok [OF _ h, of cfg w3 "fst l" "snd l"] l show ?case by simp
next
  case (reach_accept d w n io c d' c')
  with accept_sem [of io d c True d' c'] accept_ok [of io d c True d' c'] show ?case by simp
next
  case (reach_busy d w n io c d' c')
  with accept_sem [of io d c False d' c'] accept_ok [of io d c False d' c'] show ?case by simp
next
  case (reach_handler d w n d')
  with shared_step_ok [of d d'] show ?case by simp
next
  case (reach_done d w n)
  have "dm_connSem (releaseConnSlot d) = (fst (dm_connSem d) - 1, snd (dm_connSem d))" by (simp add: releaseConnSlot_def split: prod.splits)
  with reach_done release_ok [of d] show ?case by simp
next
  case (reach_reload d w n e r l)
  with reload_ok [of e d w r "fst l" "snd l"] show ?case by simp
qed

section \<open>Properties\<close>

text \<open>C15: in every state a running daemon can reach, through any interleaving of accepted and refused
  connections, the atomic changes of their handlers, their ends and reloads of the configuration, the
  state is well formed: the replay cache keeps its invariant, the proxy token is absent or decodes to 32
  bytes, the file modes are allowed ones, a configuration is present. The slots in use are exactly the
  handlers that run, never more than the capacity set at start-up.\<close>
theorem daemon_state_well_formed:
  assumes "daemon_reach (d, w) n"
  shows "cache_ok (dm_replayCache d) \<and> (dm_proxyAuthToken d = [] \<or> validateProxyAuthToken (dm_proxyAuthToken d) = None) \<and>
    IsAllowedAuthFileMode (dm_authFileMode d) \<and> IsAllowedSocketFileMode (dm_socketFileMode d) \<and> dm_cfg d \<noteq> None \<and>
    gomap_ok (dm_metrics d) \<and> fst (dm_connSem d) = n \<and> int n \<le> snd (dm_connSem d)"
  using reach_inv [OF assms] by (simp add: daemon_ok_def token_ok_def)

text \<open>C18: a free slot is never refused and a full table never overrun: in a reachable state a connection
  is given a handler exactly when fewer handlers run than the capacity; a refused one is answered, closed
  and changes nothing but a counter.\<close>
theorem connection_slots_exact:
  assumes "daemon_reach (d, w) n" and "accept_conn io d c = (b, d', c')"
  shows "(b \<longleftrightarrow> int n < snd (dm_connSem d)) \<and> (b \<longrightarrow> c' = c \<and> d' = d\<lparr>dm_connSem := (Suc n, snd (dm_connSem d))\<rparr>) \<and>
    (\<not> b \<longrightarrow> d' = d_inc ''rate_limited'' d \<and> cn_closed c')"
proof -
  have n: "fst (dm_connSem d) = n" using reach_inv [OF assms(1)] by simp
  with accept_sem [OF assms(2)] assms(2) show ?thesis
    by (auto simp: accept_conn_def acquireConnSlot_def Let_def split: prod.splits if_splits)
qed

definition sample_life :: life_env where
  "sample_life = \<lparr>le_paths = sample_path_env, le_read_file = (\<lambda>p. Some []), le_yaml = (\<lambda>s. Some sample_config), le_compile = (\<lambda>p. None),
     le_audit = \<lparr>ae_mkdir = True, ae_symlink = False, ae_open = True, ae_chmod = True, ae_syslog = True\<rparr>, le_close_bad = (\<lambda>s. False),
     le_rand = (\<lambda>n. Some (replicate n CHR ''r'')), le_keys = sample_key_env,
     le_token = \<lparr>te_euid = 0, te_open = True, te_handle = True, te_stat = True, te_read = True\<rparr>, le_token_keys = sample_key_env,
     le_ca = \<lparr>cy_now = 0, cy_zone = (\<lambda>_. 0), cy_mkdir = True, cy_gen_key = None, cy_serial = None, cy_create = (\<lambda>t k. None), cy_pem_cert = id, cy_pem_key = id,
       cy_write_cert = Write_Ok, cy_write_key = Write_Ok, cy_chmod = True, cy_key_pair = (\<lambda>c k. None), cy_parse = (\<lambda>c. None),
       cy_watcher = True, cy_watch_dir = True\<rparr>,
     le_proxy_listen = (\<lambda>a. True), le_proxy_close = True, le_stat = (\<lambda>p. Some (448, 0)), le_call = (\<lambda>k. True), le_glob = (\<lambda>p. Some []),
     le_sys = sample_sys [] (\<lambda>_. Cmd_Deadline), le_watcher = True, le_watch_add = (\<lambda>p. True)\<rparr>"

definition sample_life_world :: life_world where
  "sample_life_world = \<lparr>lw_fs = Map.empty, lw_store = Map.empty, lw_creds = zero_state, lw_audit = empty_audit_world, lw_calls = [], lw_watching = None\<rparr>"

definition fresh_daemon :: Daemon where
  "fresh_daemon = daemon_New \<lparr>pn_exe = Some ''/usr/bin/claw-wrap'', pn_args = [''claw-wrap''], pn_uid = 1000, pn_links = Some,
     pn_cwd = Some ''/'', pn_paths = sample_path_env\<rparr> []"

lemma sample_started: "fst (daemon_Run sample_life (fresh_daemon, sample_life_world)) = None"
  by code_simp

lemma sample_reach: "daemon_reach (snd (daemon_Run sample_life (fresh_daemon, sample_life_world))) 0"
proof (rule reach_start)
  show "daemon_Run sample_life (fresh_daemon, sample_life_world) = (None, snd (daemon_Run sample_life (fresh_daemon, sample_life_world)))"
    using sample_started by (simp add: prod_eq_iff)
qed (simp_all add: fresh_daemon_def daemon_New_def newSecurityMetrics_def gomap_ok_def)

theorem daemon_state_well_formed_witness:
  "\<exists>d w. daemon_Run sample_life (fresh_daemon, sample_life_world) = (None, d, w) \<and> cache_ok (dm_replayCache d) \<and> fst (dm_connSem d) = 0"
proof -
  obtain d w where l: "daemon_Run sample_life (fresh_daemon, sample_life_world) = (None, d, w)"
    using sample_started by (metis prod.collapse)
  with sample_reach have "daemon_reach (d, w) 0" by simp
  from daemon_state_well_formed [OF this] l show ?thesis by blast
qed

definition idle_conn :: conn where
  "idle_conn = \<lparr>cn_out = [], cn_read_deadline = None, cn_write_deadline = None, cn_closed = False\<rparr>"

theorem reload_installs_or_keeps_witness:
  "\<exists>d w. reloadConfig sample_life (fresh_daemon, sample_life_world) = (Reload_Ok, d, w) \<and> dm_secret d = dm_secret fresh_daemon \<and>
     (\<exists>cfg. Load (le_read_file sample_life) (le_yaml sample_life) (le_compile sample_life) (dm_configPath fresh_daemon) = Inr cfg \<and> dm_cfg d = Some cfg)"
proof -
  have "fst (reloadConfig sample_life (fresh_daemon, sample_life_world)) = Reload_Ok" by (code_simp, subst trim_loop.simps, simp)
  then obtain d w where r: "reloadConfig sample_life (fresh_daemon, sample_life_world) = (Reload_Ok, d, w)" by (metis prod.collapse)
  have "cache_ok (dm_replayCache fresh_daemon)" by (simp add: fresh_daemon_def daemon_New_def)
  from reload_installs_or_keeps [OF r this] r show ?thesis by auto
qed

theorem connection_slots_exact_witness:
  "\<exists>d w d' c'. daemon_Run sample_life (fresh_daemon, sample_life_world) = (None, d, w) \<and>
     accept_conn \<lparr>io_now = 0, io_write1 = None, io_write2 = None\<rparr> d idle_conn = (True, d', c') \<and> 0 < snd (dm_connSem d)"
proof -
  let ?io = "\<lparr>io_now = 0, io_write1 = None, io_write2 = None\<rparr>"
  obtain d w where l: "daemon_Run sample_life (fresh_daemon, sample_life_world) = (None, d, w)"
    using sample_started by (metis prod.collapse)
  with sample_reach have r: "daemon_reach (d, w) 0" by simp
  obtain b d' c' where a: "accept_conn ?io d idle_conn = (b, d', c')" by (metis surj_pair)
  have "b \<longleftrightarrow> 0 < snd (dm_connSem d)" using connection_slots_exact [OF r a] by simp
  moreover have "0 < snd (dm_connSem d)" using reach_inv [OF r] by simp
  ultimately show ?thesis using l a by auto
qed

section \<open>Start-up\<close>

lemma run_steps_ConsE:
  assumes "run_steps (f # fs) d w = (None, w')"
  obtains w1 where "f d w = (None, w1)" and "run_steps fs d w1 = (None, w')"
  using assms by (auto split: prod.splits option.splits)

lemma call_step_None: "call_step e k d w = (None, w') \<Longrightarrow> w' = w\<lparr>lw_calls := lw_calls w @ [k]\<rparr>"
  by (auto simp: call_step_def call_def split: prod.splits bool.splits)

lemma ownership_step: "applyRuntimePathOwnership e path d w = (x, w') \<Longrightarrow> lw_fs w' = lw_fs w \<and> (\<exists>ks. lw_calls w' = lw_calls w @ ks)"
  by (auto simp: applyRuntimePathOwnership_def call_def split: if_splits option.splits prod.splits bool.splits)

lemma dir_step: "applyRuntimeDirPermissions e path d w = (x, w') \<Longrightarrow> lw_fs w' = lw_fs w \<and> (\<exists>ks. lw_calls w' = lw_calls w @ ks)"
  using ownership_step [of e path d w]
  by (fastforce simp: applyRuntimeDirPermissions_def call_def split: if_splits option.splits prod.splits bool.splits)

lemma socket_steps_done:
  assumes "run_steps (socket_steps e cfg d) d w = (None, w')"
  shows "\<exists>fs1. WriteSecretWithMode (le_keys e) (GetHMACSecretFile (le_paths e) cfg) (dm_secret d) (dm_authFileMode d) (lw_fs w) = (None, fs1) \<and>
    lw_fs w' = fs1 \<and>
    (\<exists>pre post. lw_calls w' = pre @ [Call_Remove (dm_socketPath d), Call_Listen (dm_socketPath d), Call_Chmod (dm_socketPath d) (dm_socketFileMode d)] @ post)"
proof -
  let ?s = "GetHMACSecretFile (le_paths e) cfg" and ?r = "RuntimeDir (le_paths e)" and ?p = "dm_socketPath d"
  from assms obtain w1 w2 w3 w4 w5 w6 w7 where
    "write_secret_step e ?s d w = (None, w1)" "applyRuntimePathOwnership e ?s d w1 = (None, w2)"
    "call_step e (Call_Mkdir ?r (runtimeDirMode d)) d w2 = (None, w3)" "applyRuntimeDirPermissions e ?r d w3 = (None, w4)"
    "call_step e (Call_Remove ?p) d w4 = (None, w5)" "call_step e (Call_Listen ?p) d w5 = (None, w6)"
    "call_step e (Call_Chmod ?p (dm_socketFileMode d)) d w6 = (None, w7)" "applyRuntimePathOwnership e ?p d w7 = (None, w')"
    unfolding socket_steps_def Let_def by (elim run_steps_ConsE) auto
  note s = this
  have fs: "WriteSecretWithMode (le_keys e) ?s (dm_secret d) (dm_authFileMode d) (lw_fs w) = (None, lw_fs w1)"
    using s(1) by (auto simp: write_secret_step_def split: prod.splits option.splits)
  obtain post where "lw_calls w' = lw_calls w7 @ post" "lw_fs w' = lw_fs w7" using ownership_step [OF s(8)] by blast
  moreover have "lw_calls w7 = lw_calls w4 @ [Call_Remove ?p, Call_Listen ?p, Call_Chmod ?p (dm_socketFileMode d)]" "lw_fs w7 = lw_fs w4"
    using call_step_None [OF s(5)] call_step_None [OF s(6)] call_step_None [OF s(7)] by simp_all
  moreover have "lw_fs w4 = lw_fs w1"
    using dir_step [OF s(4)] call_step_None [OF s(3)] ownership_step [OF s(2)] by simp
  ultimately show ?thesis using fs by auto
qed

lemma token_write_fs:
  assumes "ensureProxyAuthToken e (d, w) = (r, d', w')" and "ke_temp (le_token_keys e) \<noteq> Some (dm_proxyAuthTokenPath d)"
    and "q \<noteq> dm_proxyAuthTokenPath d" and "ke_temp (le_token_keys e) \<noteq> Some q"
  shows "lw_fs w' q = lw_fs w q \<and> lw_calls w' = lw_calls w"
  using assms replace_file_atomic [of "le_token_keys e" True "dm_proxyAuthTokenPath d" _ 384 "lw_fs w"]
  unfolding ensureProxyAuthToken_def writeProxyAuthToken_def
  by (auto split: if_splits sum.splits option.splits prod.splits)

lemma start_proxy_fs:
  assumes "startHTTPProxy e cfg (d, w) = (r, d', w')" and "ke_temp (le_token_keys e) \<noteq> Some (dm_proxyAuthTokenPath d)"
    and "q \<noteq> dm_proxyAuthTokenPath d" and "ke_temp (le_token_keys e) \<noteq> Some q"
  shows "lw_fs w' q = lw_fs w q \<and> lw_calls w' = lw_calls w"
  using assms token_write_fs [of e d w _ _ _ q] unfolding startHTTPProxy_def Let_def
  by (auto split: option.splits if_splits prod.splits)

lemma sweep_calls: "lw_fs (sweepStaleTempDirs e w) = lw_fs w \<and> (\<exists>ks. lw_calls (sweepStaleTempDirs e w) = lw_calls w @ ks)"
proof -
  have "lw_fs (foldl (\<lambda>w m. snd (call e (Call_RemoveAll m) w)) w ms) = lw_fs w \<and>
    (\<exists>ks. lw_calls (foldl (\<lambda>w m. snd (call e (Call_RemoveAll m) w)) w ms) = lw_calls w @ ks)" for ms w
  proof (induction ms arbitrary: w)
    case (Cons a ms)
    from Cons.IH [of "snd (call e (Call_RemoveAll a) w)"] show ?case by (simp add: call_def) blast
  qed simp
  then show ?thesis by (simp add: sweepStaleTempDirs_def split: option.split)
qed

lemma started_fs:
  assumes "daemon_started e cfg (d, w) = (d', w')" and "ke_temp (le_token_keys e) \<noteq> Some (dm_proxyAuthTokenPath d)"
    and "q \<noteq> dm_proxyAuthTokenPath d" and "ke_temp (le_token_keys e) \<noteq> Some q"
  shows "lw_fs w' q = lw_fs w q \<and> (\<exists>ks. lw_calls w' = lw_calls w @ ks)"
proof -
  define d2 where "d2 = d\<lparr>dm_cfg := Some cfg, dm_connSem := (0, GetMaxConnections cfg),
    dm_replayCache := NewReplayCache (GetReplayCacheTTL cfg) (GetReplayCacheMaxEntries cfg)\<rparr>"
  obtain r d3 w3 where s: "startHTTPProxy e cfg (d2, sweepStaleTempDirs e w) = (r, d3, w3)" by (metis surj_pair)
  have "dm_proxyAuthTokenPath d2 = dm_proxyAuthTokenPath d" by (simp add: d2_def)
  with start_proxy_fs [OF s, of q] assms(2-4) sweep_calls [of e w]
  have 3: "lw_fs w3 q = lw_fs w q" "\<exists>ks. lw_calls w3 = lw_calls w @ ks" by auto
  have "w' = w3 \<or> w' = w3\<lparr>lw_watching := lw_watching w'\<rparr>"
    using assms(1) s unfolding daemon_started_def d2_def
    by (auto simp: startConfigWatcher_def Let_def split: if_splits)
  with 3 show ?thesis by (metis life_world.select_convs(1,5) life_world.surjective life_world.update_convs(6))
qed

lemma written_secret_loads:
  assumes "WriteSecretWithMode ke path secret mode fs = (None, fs')" and "ke_temp ke \<noteq> Some path" and "fs2 path = fs' path"
  shows "LoadSecret fs2 (read_node fs2) path = Inr secret \<and> (\<exists>text. fs2 path = Some (Fs_File text mode (ke_uid ke)))"
  using replace_file_atomic [OF assms(1) [unfolded WriteSecretWithMode_def] assms(2)] assms(3)
  by (simp add: LoadSecret_def is_link_def read_node_def b64_line b64_decode_encode)

text \<open>C17: a daemon that has started has published its secret and opened its socket with the modes it was
  given. The wrapper loads from the configured file exactly the secret the daemon checks signatures with;
  the file has the requested mode, one of 0600 and 0640; the socket was made after any stale one was
  removed and given its mode, one of 0600 and 0660, right after it was bound (under umask 0177).\<close>
theorem startup_publishes_secret:
  assumes "daemon_Run e (d, w) = (None, d', w')" and "Load (le_read_file e) (le_yaml e) (le_compile e) (dm_configPath d) = Inr cfg"
    and "path = GetHMACSecretFile (le_paths e) cfg" and "dm_proxyAuthTokenPath d \<noteq> path"
    and "ke_temp (le_keys e) \<noteq> Some path" and "ke_temp (le_token_keys e) \<notin> {Some path, Some (dm_proxyAuthTokenPath d)}"
  shows "LoadSecret (lw_fs w') (read_node (lw_fs w')) path = Inr (dm_secret d') \<and>
    (\<exists>text. lw_fs w' path = Some (Fs_File text (dm_authFileMode d) (ke_uid (le_keys e)))) \<and>
    (dm_authFileMode d mod 512 = 384 \<or> dm_authFileMode d mod 512 = 416) \<and>
    (\<exists>pre post. lw_calls w' = pre @ [Call_Remove (dm_socketPath d), Call_Listen (dm_socketPath d), Call_Chmod (dm_socketPath d) (dm_socketFileMode d)] @ post) \<and>
    (dm_socketFileMode d mod 512 = 384 \<or> dm_socketFileMode d mod 512 = 432)"
proof -
  from assms(1) obtain cfg' lg secret w3 where r: "run_guards e d = None"
    "Load (le_read_file e) (le_yaml e) (le_compile e) (dm_configPath d) = Inr cfg'"
    "(d', w') = daemon_started e cfg' (d\<lparr>dm_auditLogger := lg, dm_secret := secret\<rparr>, w3)"
    "\<exists>w2. lw_fs w2 = lw_fs w \<and> run_steps (socket_steps e cfg' (d\<lparr>dm_auditLogger := lg, dm_secret := secret\<rparr>))
      (d\<lparr>dm_auditLogger := lg, dm_secret := secret\<rparr>) w2 = (None, w3)"
    by (rule Run_started)
  let ?d = "d\<lparr>dm_auditLogger := lg, dm_secret := secret\<rparr>"
  have cfg: "cfg' = cfg" using r(2) assms(2) by simp
  obtain w2 where st: "run_steps (socket_steps e cfg ?d) ?d w2 = (None, w3)" using r(4) cfg by blast
  from socket_steps_done [OF st] assms(3) obtain fs1 pre post where
    fs1: "WriteSecretWithMode (le_keys e) path secret (dm_authFileMode d) (lw_fs w2) = (None, fs1)" "lw_fs w3 = fs1" and
    calls: "lw_calls w3 = pre @ [Call_Remove (dm_socketPath d), Call_Listen (dm_socketPath d), Call_Chmod (dm_socketPath d) (dm_socketFileMode d)] @ post"
    by auto
  have started: "daemon_started e cfg (?d, w3) = (d', w')" using r(3) cfg by simp
  from started_fs [OF started, of path] assms(4,6) obtain ks where fs: "lw_fs w' path = fs1 path" "lw_calls w' = lw_calls w3 @ ks"
    using fs1(2) by auto
  have "dm_secret d' = secret"
  proof -
    obtain x d3 w4 where s: "startHTTPProxy e cfg (?d\<lparr>dm_cfg := Some cfg, dm_connSem := (0, GetMaxConnections cfg),
      dm_replayCache := NewReplayCache (GetReplayCacheTTL cfg) (GetReplayCacheMaxEntries cfg)\<rparr>, sweepStaleTempDirs e w3) = (x, d3, w4)"
      by (metis surj_pair)
    have "dm_secret d3 = secret" using start_proxy [OF s] proxy_only_fields by fastforce
    moreover have "d' = d3 \<or> d' = d3\<lparr>dm_configWatcherInit := True\<rparr>"
      using started s unfolding daemon_started_def by (auto simp: startConfigWatcher_def Let_def split: if_splits)
    ultimately show ?thesis by auto
  qed
  with written_secret_loads [where ?fs2.0 = "lw_fs w'", OF fs1(1) assms(5) fs(1)] fs(2) calls run_guards_ok [OF r(1)] show ?thesis
    by (auto simp: IsAllowedAuthFileMode_def IsAllowedSocketFileMode_def)
qed

theorem startup_publishes_secret_witness:
  "\<exists>d' w'. daemon_Run sample_life (fresh_daemon, sample_life_world) = (None, d', w') \<and>
     LoadSecret (lw_fs w') (read_node (lw_fs w')) ''/shared/run/auth'' = Inr (dm_secret d')"
proof -
  obtain d' w' where l: "daemon_Run sample_life (fresh_daemon, sample_life_world) = (None, d', w')"
    using sample_started by (metis prod.collapse)
  have "\<not> isl (Load (le_read_file sample_life) (le_yaml sample_life) (le_compile sample_life) (dm_configPath fresh_daemon))"
    "case Load (le_read_file sample_life) (le_yaml sample_life) (le_compile sample_life) (dm_configPath fresh_daemon) of
       Inl _ \<Rightarrow> False | Inr c \<Rightarrow> GetHMACSecretFile (le_paths sample_life) c = ''/shared/run/auth''"
    "dm_proxyAuthTokenPath fresh_daemon = ''/shared/run/proxy-auth-token''"
    by code_simp+
  then obtain cfg where c: "Load (le_read_file sample_life) (le_yaml sample_life) (le_compile sample_life) (dm_configPath fresh_daemon) = Inr cfg"
    "''/shared/run/auth'' = GetHMACSecretFile (le_paths sample_life) cfg" "dm_proxyAuthTokenPath fresh_daemon = ''/shared/run/proxy-auth-token''"
    by (auto split: sum.splits)
  from startup_publishes_secret [OF l c(1,2)] c(3) l show ?thesis by (simp add: sample_life_def sample_key_env_def)
qed

end
