(* ===== verification/Reload_Laws.thy ===== *)
theory Reload_Laws
  imports Lifecycle_Laws
begin

text \<open>
  The proxy token across restarts, the debounced reload of the watcher, and the places where a failed
  reload leaves more behind than the message "keeping previous config" says.
\<close>

section \<open>The proxy token\<close>

text \<open>C34: the proxy token survives restarts. Once a daemon has a token, from its file or newly made, every
  later daemon with the same token path that finds the file as it was left gets the same token; and the
  token is never empty. (Reading the file and the daemon's user are as they were; the random source fills
  its buffer.)\<close>
theorem proxy_token_persists:
  assumes "ensureProxyAuthToken e (d, w) = (None, d1, w1)" and "dm_proxyAuthToken d = []"
    and "\<forall>n b. le_rand e n = Some b \<longrightarrow> length b = n" and "ke_temp (le_token_keys e) \<noteq> Some (dm_proxyAuthTokenPath d)"
    and "te_euid (le_token e) = ke_uid (le_token_keys e)" "te_open (le_token e)" "te_handle (le_token e)" "te_stat (le_token e)" "te_read (le_token e)"
    and "dm_proxyAuthToken d2 = []" "dm_proxyAuthTokenPath d2 = dm_proxyAuthTokenPath d" "le_token e2 = le_token e"
    and "lw_fs w2 (dm_proxyAuthTokenPath d) = lw_fs w1 (dm_proxyAuthTokenPath d)"
  shows "ensureProxyAuthToken e2 (d2, w2) = (None, d2\<lparr>dm_proxyAuthToken := dm_proxyAuthToken d1\<rparr>, w2) \<and> dm_proxyAuthToken d1 \<noteq> []"
proof -
  let ?p = "dm_proxyAuthTokenPath d"
  have load: "loadProxyAuthToken (le_token e) ?p (lw_fs w1) = Inr (dm_proxyAuthToken d1)"
  proof (cases "loadProxyAuthToken (le_token e) ?p (lw_fs w)")
    case (Inr t)
    with assms(1,2) show ?thesis by (auto simp: ensureProxyAuthToken_def)
  next
    case (Inl x)
    with assms(1,2) obtain t fs where t: "generateProxyAuthToken (le_rand e) = Some t"
      "writeProxyAuthToken (le_token_keys e) ?p t (lw_fs w) = (None, fs)" "d1 = d\<lparr>dm_proxyAuthToken := t\<rparr>" "w1 = w\<lparr>lw_fs := fs\<rparr>"
      by (auto simp: ensureProxyAuthToken_def split: if_splits option.splits prod.splits)
    have "list_all printable t" using generated_token_valid [OF t(1)] assms(3) by blast
    from token_file_roundtrip [OF t(2) assms(4) this assms(5-9)] t(3,4) show ?thesis by simp
  qed
  have "loadProxyAuthToken (le_token e) ?p (lw_fs w2) = loadProxyAuthToken (le_token e) ?p (lw_fs w1)"
    using assms(13) by (simp add: loadProxyAuthToken_def)
  moreover have "dm_proxyAuthToken d1 \<noteq> []"
    using loaded_token_valid [OF load] by (auto simp: validateProxyAuthToken_def)
  ultimately show ?thesis using load assms(10-12) by (simp add: ensureProxyAuthToken_def)
qed

theorem proxy_token_persists_witness:
  "\<exists>d1 w1. ensureProxyAuthToken sample_life (fresh_daemon, sample_life_world) = (None, d1, w1) \<and>
     ensureProxyAuthToken sample_life (fresh_daemon, w1) = (None, fresh_daemon\<lparr>dm_proxyAuthToken := dm_proxyAuthToken d1\<rparr>, w1)"
proof -
  have "fst (ensureProxyAuthToken sample_life (fresh_daemon, sample_life_world)) = None" by code_simp
  then obtain d1 w1 where e: "ensureProxyAuthToken sample_life (fresh_daemon, sample_life_world) = (None, d1, w1)" by (metis prod.collapse)
  have p: "dm_proxyAuthTokenPath fresh_daemon = ''/shared/run/proxy-auth-token''" by code_simp
  have t: "dm_proxyAuthToken fresh_daemon = []" by (simp add: fresh_daemon_def daemon_New_def)
  from proxy_token_persists [OF e t, of fresh_daemon sample_life w1] t p e show ?thesis
    by (simp add: sample_life_def sample_key_env_def)
qed

section \<open>The debounce timer\<close>

text \<open>
  A run of the watch loop and the times at which it reloads; the changes of the file in a sequence of
  events, and those that no reload has followed yet.
\<close>

fun happens_at :: "watch_event \<Rightarrow> time option" where
  "happens_at (Fs_Event name ops now) = Some now"
| "happens_at (Timer_Fires now) = Some now"
| "happens_at _ = None"

inductive watch_run :: "string \<Rightarrow> watch_event list \<Rightarrow> time option list \<Rightarrow> watch_state \<Rightarrow> bool" for path where
  watch_start: "watch_run path [] [] watch_init"
| watch_turn: "watch_run path evs rs st \<Longrightarrow> configWatchLoop path ev st = Some (b, st') \<Longrightarrow>
     watch_run path (evs @ [ev]) (rs @ (if b then [happens_at ev] else [])) st'"

fun changes :: "string \<Rightarrow> watch_event list \<Rightarrow> time list" where
  "changes path [] = []"
| "changes path (Fs_Event name ops now # evs) = (if relevant_event path name ops then now # changes path evs else changes path evs)"
| "changes path (_ # evs) = changes path evs"

fun is_firing :: "watch_event \<Rightarrow> bool" where
  "is_firing (Timer_Fires now) = True"
| "is_firing _ = False"

definition unserved :: "string \<Rightarrow> watch_event list \<Rightarrow> time list" where
  "unserved path evs = changes path (rev (takeWhile (Not \<circ> is_firing) (rev evs)))"

lemma changes_append: "changes path (xs @ ys) = changes path xs @ changes path ys"
  by (induction path xs rule: changes.induct) auto

lemma unserved_snoc: "unserved path (evs @ [ev]) = (if is_firing ev then [] else unserved path evs @ changes path [ev])"
  by (simp add: unserved_def changes_append)

lemma unserved_Nil [simp]: "unserved path [] = []"
  by (simp add: unserved_def)

lemma watch_run_snoc:
  assumes "watch_run path (evs @ [ev]) rs st"
  obtains rs' st' b where "watch_run path evs rs' st'" "configWatchLoop path ev st' = Some (b, st)"
    "rs = rs' @ (if b then [happens_at ev] else [])"
  using assms by (cases rule: watch_run.cases) auto

lemma watch_run_prefix: "watch_run path (pre @ post) rs st \<Longrightarrow> \<exists>rs' st'. watch_run path pre rs' st'"
proof (induction post arbitrary: rs st rule: rev_induct)
  case (snoc ev post)
  from snoc.prems obtain rs' st' where "watch_run path (pre @ post) rs' st'"
    by (metis append.assoc watch_run_snoc)
  then show ?case by (rule snoc.IH)
qed (metis append_Nil2)

text \<open>The loop's invariant: the timer is set to half a second after the last change that no reload has followed.\<close>

lemma watch_timer:
  "watch_run path evs rs st \<Longrightarrow>
   wt_timer st = (if unserved path evs = [] then None else Some (last (unserved path evs) + configWatchDebounce))"
proof (induction rule: watch_run.induct)
  case (watch_turn evs rs st ev b st')
  then show ?case by (cases ev) (auto simp: unserved_snoc split: if_splits option.splits)
qed (simp add: watch_init_def)

lemma watch_reloads: "watch_run path evs rs st \<Longrightarrow> rs = map happens_at (filter is_firing evs)"
proof (induction rule: watch_run.induct)
  case (watch_turn evs rs st ev b st')
  then show ?case by (cases ev) (auto split: if_splits option.splits)
qed simp

lemma watch_fires:
  assumes "watch_run path (pre @ Timer_Fires now # post) rs st"
  shows "unserved path pre \<noteq> [] \<and> last (unserved path pre) + configWatchDebounce \<le> now"
proof -
  obtain rs1 st1 where "watch_run path (pre @ [Timer_Fires now]) rs1 st1"
    using watch_run_prefix [of path "pre @ [Timer_Fires now]" post rs st] assms by auto
  then obtain rs0 st0 b where 0: "watch_run path pre rs0 st0" "configWatchLoop path (Timer_Fires now) st0 = Some (b, st1)"
    by (rule watch_run_snoc)
  with watch_timer [OF 0(1)] show ?thesis by (auto split: if_splits)
qed

text \<open>
  What the runtime promises: while the timer is armed, nothing else is taken up later than \<open>slack\<close> after it
  was due, since a due timer is served first.
\<close>

definition watch_after :: "string \<Rightarrow> watch_event list \<Rightarrow> watch_state" where
  "watch_after path evs = fold (\<lambda>ev st. case configWatchLoop path ev st of None \<Rightarrow> st | Some (b, st') \<Rightarrow> st') evs watch_init"

definition timely :: "duration \<Rightarrow> string \<Rightarrow> watch_event list \<Rightarrow> bool" where
  "timely slack path evs \<longleftrightarrow>
     list_all (\<lambda>i. case (wt_timer (watch_after path (take i evs)), happens_at (evs ! i)) of
         (Some t, Some now) \<Rightarrow> now \<le> t + slack | _ \<Rightarrow> True) [0 ..< length evs]"

lemma watch_after_run: "watch_run path evs rs st \<Longrightarrow> watch_after path evs = st"
  by (induction rule: watch_run.induct) (simp_all add: watch_after_def)

lemma watch_prompt:
  assumes "watch_run path (pre @ ev # post) rs st" and "timely slack path (pre @ ev # post)"
    and "happens_at ev = Some now" and "unserved path pre \<noteq> []"
  shows "now \<le> last (unserved path pre) + configWatchDebounce + slack"
proof -
  obtain rs0 st0 where 0: "watch_run path pre rs0 st0" using watch_run_prefix [OF assms(1)] by blast
  have "length pre \<in> set [0 ..< length (pre @ ev # post)]" by simp
  with assms(2) have "case (wt_timer (watch_after path pre), happens_at ev) of (Some t, Some now) \<Rightarrow> now \<le> t + slack | _ \<Rightarrow> True"
    unfolding timely_def list_all_iff by (metis (no_types, lifting) append_eq_conv_conj nth_append_length)
  with watch_timer [OF 0] watch_after_run [OF 0] assms(3,4) show ?thesis by simp
qed

text \<open>C35: no change of the configuration file is lost and a burst of changes costs one reload. In every run
  of the watch loop the reloads are exactly the firings of the debounce timer. Each of them follows a change
  that no earlier reload has followed, by at least half a second after the last such change, so none falls
  into a burst. The timer is armed exactly while there is such a change, for half a second after the last
  one. And when the runtime serves a due timer within some slack before anything else, nothing happens later
  than half a second and the slack after the last such change but a reload has followed it.\<close>
theorem watcher_reloads_after_last_change:
  assumes "watch_run path evs rs st"
  shows "rs = map happens_at (filter is_firing evs) \<and>
    (\<forall>pre now post. evs = pre @ Timer_Fires now # post \<longrightarrow>
       unserved path pre \<noteq> [] \<and> last (unserved path pre) + configWatchDebounce \<le> now) \<and>
    wt_timer st = (if unserved path evs = [] then None else Some (last (unserved path evs) + configWatchDebounce)) \<and>
    (\<forall>slack pre ev post now. timely slack path evs \<longrightarrow> evs = pre @ ev # post \<longrightarrow> happens_at ev = Some now \<longrightarrow>
       last (unserved path pre) + configWatchDebounce + slack < now \<longrightarrow> unserved path pre = [])"
proof (intro conjI allI impI)
  fix pre now post assume "evs = pre @ Timer_Fires now # post"
  with watch_fires assms show "unserved path pre \<noteq> []" "last (unserved path pre) + configWatchDebounce \<le> now" by blast+
next
  fix slack pre ev post now
  assume t: "timely slack path evs" "evs = pre @ ev # post" "happens_at ev = Some now"
    and late: "last (unserved path pre) + configWatchDebounce + slack < now"
  show "unserved path pre = []" using watch_prompt [of path pre ev post rs st slack now] assms t late by force
qed (fact watch_reloads [OF assms], fact watch_timer [OF assms])

text \<open>Two changes of the file within a tenth of a second, another file, one reload; the timer is prompt.\<close>

definition burst :: "watch_event list" where
  "burst = [Fs_Event ''/etc/w.yaml'' [Op_Write] 0, Fs_Event ''/etc/w.yaml'' [Op_Chmod] 100000000,
     Fs_Event ''/etc/x'' [Op_Write] 300000000, Timer_Fires 600000000]"

lemma burst_run: "watch_run ''/etc/w.yaml'' burst [Some 600000000] watch_init"
proof -
  let ?p = "''/etc/w.yaml''" and ?ev = "\<lambda>n (o' :: fs_op) t. Fs_Event n [o'] (t :: time)"
  have b: "path_base ''/etc/w.yaml'' = ''w.yaml''" "path_base ''/etc/x'' = ''x''" by code_simp+
  note step = configWatchDebounce_def relevant_event_def b kubernetesDataLink_def watch_init_def
  have 1: "watch_run ?p [?ev ?p Op_Write 0] [] (watch_init\<lparr>wt_timer := Some 500000000\<rparr>)"
    using watch_turn [OF watch_start [of ?p], of "?ev ?p Op_Write 0" False] by (simp add: step)
  have 2: "watch_run ?p [?ev ?p Op_Write 0, ?ev ?p Op_Chmod 100000000] [] (watch_init\<lparr>wt_timer := Some 600000000\<rparr>)"
    using watch_turn [OF 1, of "?ev ?p Op_Chmod 100000000" False] by (simp add: step)
  have 3: "watch_run ?p [?ev ?p Op_Write 0, ?ev ?p Op_Chmod 100000000, ?ev ''/etc/x'' Op_Write 300000000] [] (watch_init\<lparr>wt_timer := Some 600000000\<rparr>)"
    using watch_turn [OF 2, of "?ev ''/etc/x'' Op_Write 300000000" False] by (simp add: step)
  show ?thesis using watch_turn [OF 3, of "Timer_Fires 600000000" True watch_init] by (simp add: burst_def watch_init_def)
qed

theorem watcher_reloads_after_last_change_witness:
  "timely 0 ''/etc/w.yaml'' burst \<and> unserved ''/etc/w.yaml'' (butlast burst) = [0, 100000000] \<and>
   unserved ''/etc/w.yaml'' burst = [] \<and> (100000000 :: time) + configWatchDebounce \<le> 600000000"
proof -
  have "timely 0 ''/etc/w.yaml'' burst" by code_simp
  moreover have u: "unserved ''/etc/w.yaml'' (butlast burst) = [0, 100000000]" "unserved ''/etc/w.yaml'' burst = []" by code_simp+
  moreover have "burst = butlast burst @ Timer_Fires 600000000 # []" by (simp add: burst_def)
  with watcher_reloads_after_last_change [OF burst_run] u(1)
  have "(100000000 :: time) + configWatchDebounce \<le> 600000000" by (metis last.simps list.distinct(1))
  ultimately show ?thesis by blast
qed

section \<open>What a failed reload leaves behind\<close>

text \<open>
  A reload that starts the HTTP proxy and then cannot open the new audit log keeps the old
  configuration, which has no \<open>http_proxy\<close> section, next to a running proxy. The next reload of a file
  that enables the proxy then dereferences the missing section.
\<close>

lemma reload_panics_after_failed_reload:
  assumes "dm_httpProxy d = Some p" and "dm_cfg d = Some old" and "c_http_proxy old = None"
    and "Load (le_read_file e) (le_yaml e) (le_compile e) (dm_configPath d) = Inr cfg" and "GetHTTPProxyEnabled cfg"
  shows "reloadConfig e (d, w) = (Reload_Panic, d, w)"
  using assms by (simp add: reloadConfig_def reload_proxy_def GetHTTPProxyConfig_def)

lemma failed_reload_keeps_proxy:
  assumes "dm_httpProxy d = None" and "Load (le_read_file e) (le_yaml e) (le_compile e) (dm_configPath d) = Inr cfg" and "GetHTTPProxyEnabled cfg"
    and "startHTTPProxy e cfg (d, w) = (None, d1, w1)" and "dm_httpProxy d1 \<noteq> None"
    and "auditConfigChanged (dm_cfg d) (Some cfg)"
    and "audit_New (le_audit e) (c_audit cfg) (snd (Close (le_close_bad e) (dm_auditLogger d1) (lw_audit w1))) = (Inl x, aw)"
  shows "\<exists>w2. reloadConfig e (d, w) = (Reload_Error (Life_Audit x), d1, w2) \<and> dm_cfg d1 = dm_cfg d \<and> dm_httpProxy d1 \<noteq> None"
proof -
  have c: "dm_cfg d1 = dm_cfg d" using start_proxy [OF assms(4)] proxy_only_fields by blast
  with assms show ?thesis
    by (simp add: reloadConfig_def reload_proxy_def start_step_def reload_audit_def GetAuditConfig_def)
qed

text \<open>
  The old audit logger is closed before the new one is opened. When that fails, going back to the old
  file does not help: its audit section has not changed, so the closed logger stays in use.
\<close>

lemma failed_audit_reload_silences_log:
  assumes "dm_auditLogger d = FileLogger path" and "dm_cfg d = Some old" and "dm_httpProxy d = None"
    and "\<not> GetHTTPProxyEnabled new" "\<not> GetHTTPProxyEnabled old" and "auditConfigChanged (Some old) (Some new)"
    and "Load (le_read_file e) (le_yaml e) (le_compile e) (dm_configPath d) = Inr new"
    and "audit_New (le_audit e) (c_audit new) (snd (Close (le_close_bad e) (FileLogger path) (lw_audit w))) = (Inl x, snd (Close (le_close_bad e) (FileLogger path) (lw_audit w)))"
    and "Load (le_read_file e2) (le_yaml e2) (le_compile e2) (dm_configPath d) = Inr old" and "cache_ok (dm_replayCache d)"
  shows "\<exists>w1 d2 w2. reloadConfig e (d, w) = (Reload_Error (Life_Audit x), d, w1) \<and> reloadConfig e2 (d, w1) = (Reload_Ok, d2, w2) \<and>
    dm_auditLogger d2 = FileLogger path \<and> aw_closed (lw_audit w2) (Sink_File path)"
proof -
  let ?aw = "snd (Close (le_close_bad e) (FileLogger path) (lw_audit w))"
  let ?w1 = "w\<lparr>lw_audit := ?aw\<rparr>"
  have 1: "reloadConfig e (d, w) = (Reload_Error (Life_Audit x), d, ?w1)"
    using assms(1-4,6-8) by (simp add: reloadConfig_def reload_proxy_def reload_audit_def GetAuditConfig_def)
  have "\<not> auditConfigChanged (Some old) (Some old)" by (simp add: auditConfigChanged_def split: option.split)
  then have "reloadConfig e2 (d, ?w1) = install_config old (d, ?w1)"
    using assms(2,3,5,9) by (simp add: reloadConfig_def reload_proxy_def reload_audit_def)
  moreover obtain r d2 w2 where i: "install_config old (d, ?w1) = (r, d2, w2)" by (metis surj_pair)
  moreover have "r = Reload_Ok" "dm_auditLogger d2 = FileLogger path" "aw_closed (lw_audit w2) (Sink_File path)"
    using install_parts [OF i assms(10)] assms(1) by auto
  ultimately show ?thesis using 1 by auto
qed

section \<open>The lifetime of a connection\<close>

text \<open>
  The deadline of \<open>max_connection_lifetime\<close> does not survive the first read: clearing the read deadline
  clears the overall one, and an answer clears the write deadline.
\<close>

lemma conn_lifetime_cleared:
  assumes "payload_of rd = Some pl"
  shows "\<exists>c0. cn_read_deadline c0 = None \<and> conn_body p resolve rd cfg w s d c = dispatch p resolve pl cfg w s d c0"
  using assms by (subst conn_body_payload) (auto intro: exI [of _ "c\<lparr>cn_read_deadline := None\<rparr>"])

lemma answer_clears_write_deadline:
  "dm_cfg d = Some cfg \<Longrightarrow> cn_write_deadline (sendJSON io d v c) = None"
proof -
  assume "dm_cfg d = Some cfg"
  moreover have "0 < GetWriteTimeout cfg" by (auto simp: GetWriteTimeout_def positive_duration_def config_defaults split: option.split)
  ultimately show ?thesis by (simp add: sendJSON_def with_write_deadline_def daemon_getConfig_def)
qed

end
