(* ===== verification/Served.thy ===== *)
theory Served
  imports Daemon_Laws Executor_Laws
begin

text \<open>
  The daemon's side of the agreement with the wrapper: a request that is written as the wrapper writes
  it, signed with the shared secret, from the allowed caller, is read back and run. And the other direction: a tool is run only for such a caller and request, and
  not twice for the same one.
\<close>

section \<open>What json.Marshal writes is read back untyped\<close>

lemma digits_nat_append: "digits_nat (xs @ [c]) = digits_nat xs * 10 + (char_code c - 48)"
  by (simp add: digits_nat_def)

lemma digits_nat_digits: "digits_nat (nat_digits n) = n"
proof (induction n rule: nat_digits.induct)
  case (1 n)
  show ?case
  proof (cases "n < 10")
    case True
    then show ?thesis by (subst nat_digits.simps) (simp add: digits_nat_def)
  next
    case False
    with 1 show ?thesis by (subst nat_digits.simps) (simp add: digits_nat_append)
  qed
qed

lemma takeWhile_digits:
  "\<forall>c \<in> set s. is_digit c \<Longrightarrow> takeWhile (\<lambda>c. c \<noteq> CHR ''e'' \<and> c \<noteq> CHR ''E'') s = s \<and> takeWhile (\<lambda>c. c \<noteq> CHR ''.'') s = s"
proof -
  have n: "\<not> is_digit CHR ''e''" "\<not> is_digit CHR ''E''" "\<not> is_digit CHR ''.''" by (simp_all add: is_digit_def char_code_def)
  assume "\<forall>c \<in> set s. is_digit c"
  with n show ?thesis unfolding takeWhile_eq_all_conv by metis
qed

lemma float_parts_int: "float_parts (format_int k) = (nat \<bar>k\<bar>, 0)"
proof -
  have t: "trim_prefix (format_int k) ''-'' = nat_digits (nat \<bar>k\<bar>)"
  proof (cases "k < 0")
    case True
    then show ?thesis by (simp add: format_int_def trim_prefix_def has_prefix_def)
  next
    case False
    have "hd (nat_digits (nat k)) \<noteq> CHR ''-''" using hd_nat_digits not_digit_signs by metis
    then have "\<not> has_prefix (nat_digits (nat k)) ''-''" by (cases "nat_digits (nat k)") auto
    with False show ?thesis by (simp add: format_int_def trim_prefix_def)
  qed
  have d: "takeWhile (\<lambda>c. c \<noteq> CHR ''e'' \<and> c \<noteq> CHR ''E'') (nat_digits n) = nat_digits n"
    "takeWhile (\<lambda>c. c \<noteq> CHR ''.'') (nat_digits n) = nat_digits n" for n
    using takeWhile_digits [of "nat_digits n"] nat_digits_is_digit by blast+
  show ?thesis unfolding float_parts_def t Let_def d by (simp add: digits_nat_digits trim_prefix_def digits_nat_def [of "[]"])
qed

lemma float_finite_int: "in_int64 k \<Longrightarrow> float_finite (format_int k)"
proof -
  assume "in_int64 k"
  then have "nat \<bar>k\<bar> \<le> 9223372036854775808" by (auto simp: in_int64_def max_int64_def min_int64_def)
  moreover have "(9223372036854775808 :: nat) < 2 ^ 1024 - 2 ^ 970" by simp
  ultimately have "nat \<bar>k\<bar> < 2 ^ 1024 - 2 ^ 970" by linarith
  then show ?thesis by (simp add: float_finite_def float_parts_int)
qed

lemma parse_int64_range: "parse_int64 s = Some n \<Longrightarrow> in_int64 n"
  by (auto simp: parse_int64_def Let_def split: list.splits option.splits if_splits)

lemma any_ok_if_valid: "json_valid v \<Longrightarrow> any_ok v"
proof (induction v)
  case (JNum x)
  then show ?case by (auto simp: int_lit_def parse_int64_range intro: float_finite_int split: option.splits)
next
  case (JArr vs)
  then show ?case by (auto simp: list_all_iff)
next
  case (JObj ms)
  then show ?case by (fastforce simp: list_all_iff)
qed simp_all

lemma unmarshal_any_print:
  assumes "list_all (\<lambda>(k, v). utf8_valid k \<and> json_valid v) es" and "flat es"
  shows "unmarshal_any (json_print (JObj es)) = Some (rev es)"
proof -
  have v: "json_valid (JObj es)" using assms(1) by simp
  have "json_parse (json_print (JObj es)) = Some (JObj es)" using v flat_depth [OF assms(2)] by (rule json_parse_print)
  then show ?thesis using any_ok_if_valid [OF v] by (simp add: unmarshal_any_def)
qed

lemma object_text:
  "json_print (JObj es) \<noteq> []" "printable (hd (json_print (JObj es)))" "printable (last (json_print (JObj es)))"
  by (simp_all add: printable_def char_code_def)

lemma object_line: "trim_space (json_print (JObj es) @ [LF]) = json_print (JObj es)" "trim_space (json_print (JObj es)) = json_print (JObj es)"
  using object_text trim_space_newline trim_space_ends by blast+

section \<open>A signed request is run\<close>

lemma marshalEnvCanonical_read_order:
  assumes "gomap_ok m"
  shows "marshalEnvCanonical (read_order m) = marshalEnvCanonical m"
proof -
  have k: "sort (map fst (read_order m)) = sort (map fst m)"
    by (rule properties_for_sort) (simp_all add: read_order_def flip: rev_map)
  have g: "map_get (read_order m) = map_get m" by (rule ext) (simp add: map_get_def map_of_read_order [OF assms])
  have "(read_order m = []) = (m = [])" by (metis length_0_conv length_rev length_sort read_order_def)
  then show ?thesis by (simp add: marshalEnvCanonical_def k g)
qed

definition as_read :: "ProxyRequest \<Rightarrow> ProxyRequest" where
  "as_read r = r\<lparr>pr_env := read_order (pr_env r)\<rparr>"

lemma as_read_simps [simp]:
  "pr_version (as_read r) = pr_version r" "pr_tool (as_read r) = pr_tool r" "pr_args (as_read r) = pr_args r"
  "pr_cwd (as_read r) = pr_cwd r" "pr_timestamp (as_read r) = pr_timestamp r" "pr_nonce (as_read r) = pr_nonce r"
  "pr_hmac (as_read r) = pr_hmac r" "pr_use_pty (as_read r) = pr_use_pty r" "pr_window_size (as_read r) = pr_window_size r"
  "pr_env (as_read r) = read_order (pr_env r)"
  by (simp_all add: as_read_def)

definition signed :: "mac_fun \<Rightarrow> bytes \<Rightarrow> ProxyRequest \<Rightarrow> bool" where
  "signed mac secret r \<longleftrightarrow>
     pr_hmac r = ComputeHMACWithPTY mac secret (pr_timestamp r) (pr_tool r) (pr_cwd r) (pr_args r) (pr_env r) (pr_nonce r) (pr_use_pty r)"

lemma signed_verifies:
  assumes "signed mac secret r" and "gomap_ok (pr_env r)" and "ValidateTimestamp (pr_timestamp r) now = None"
  shows "VerifyHMACWithPTY mac now secret (pr_timestamp r) (pr_tool r) (pr_cwd r) (pr_args r) (read_order (pr_env r)) (pr_nonce r)
    (pr_use_pty r) (pr_hmac r) = None"
  using assms(1,3)
  by (simp add: VerifyHMACWithPTY_iff signed_def ComputeHMACWithPTY_def hmac_message_def marshalEnvCanonical_read_order [OF assms(2)] b64_decode_encode)

lemma request_keys:
  assumes "json_ProxyRequest r = JObj es"
  shows "key_present (rev es) ''hmac''" and "\<not> key_present (rev es) ''admin''"
proof -
  note es = assms [unfolded json_ProxyRequest_def json.inject, symmetric]
  have m: "map_of (rev (opt_int ''version'' n)) k = None" "map_of (rev (opt_map ''env'' e)) k = None" "map_of (rev (opt_bool ''use_pty'' b)) k = None"
    "map_of (rev (case w of None \<Rightarrow> [] | Some x \<Rightarrow> [(''window_size'', json_WinSize x)])) k = None"
    if "k = ''hmac'' \<or> k = ''admin''" for k n e b w
    using that by (auto simp: opt_int_def opt_map_def opt_bool_def split: option.split)
  show "key_present (rev es) ''hmac''" "\<not> key_present (rev es) ''admin''"
    unfolding es by (simp_all add: key_present_def map_add_def m)
qed

lemma signed_request_executed:
  assumes ok: "ProxyRequest_ok r" "pr_version r = ProtocolVersion" "length (marshal_ProxyRequest r) < 65535"
    and signed: "signed (pv_mac p) (dm_secret d) r" "ValidateTimestamp (pr_timestamp r) (pv_auth_now p) = None"
    and caller: "verify_caller p cfg d = Inr (u, exe)"
    and new: "\<not> fst (SeenOrStore (proxy_key (UID u) (pr_hmac r)) (pv_replay_now p) (dm_replayCache d))"
    and tool: "map_of (c_tools cfg) (pr_tool r) = Some tool" "fst (checkToolArgs (nil_slice (pr_args r)) tool)"
    and exec: "NewToolExecutor (as_read r) tool cfg (dm_proxyAuthToken d) (dm_auditLogger d) (PID u) exe = Inr ex"
  shows "\<exists>d' c'. handleConnection p resolve (Read_Bytes (marshal_ProxyRequest r @ [LF])) cfg w s d c =
    (Executed ex (Run (pv_run p) (pv_events p) ex w), d', c', s)"
proof -
  obtain es where es: "json_ProxyRequest r = JObj es" by (simp add: json_ProxyRequest_def)
  have t: "trim_space (marshal_ProxyRequest r @ [LF]) = marshal_ProxyRequest r" "marshal_ProxyRequest r \<noteq> []"
    unfolding marshal_ProxyRequest_def es using object_line object_text by blast+
  have raw: "unmarshal_any (marshal_ProxyRequest r) = Some (rev es)"
    unfolding marshal_ProxyRequest_def es by (rule unmarshal_any_print [OF ProxyRequest_members [OF ok(1) es]])
  have un: "unmarshal_ProxyRequest (marshal_ProxyRequest r) = Some (as_read r)"
    using ProxyRequest_roundtrip [OF ok(1)] by (simp add: as_read_def)
  have g: "gomap_ok (pr_env r)" using ok(1) by (simp add: ProxyRequest_ok_def)
  note v = signed_verifies [OF signed(1) g signed(2)]
  obtain msg where cta: "checkToolArgs (nil_slice (pr_args r)) tool = (True, msg)" using tool(2) by (metis prod.collapse)
  let ?d0 = "if exe = [] then d\<lparr>dm_unverifiedLogged := True\<rparr> else d"
  have h: "\<exists>d'. handleProxyRequest p (marshal_ProxyRequest r) cfg (PID u) exe (UID u) w ?d0 c0 =
      (Executed ex (Run (pv_run p) (pv_events p) ex w), d', c0)" for c0
    by (cases "exe = []") (use ok(2) v new tool(1) cta exec un in \<open>simp_all add: handleProxyRequest_def replay_check_eq\<close>)
  have "length (marshal_ProxyRequest r @ [LF]) < header_limit" using ok(3) by (simp add: header_limit_def)
  then have pl: "payload_of (Read_Bytes (marshal_ProxyRequest r @ [LF])) = Some (marshal_ProxyRequest r)"
    using t by (simp add: payload_of_def)
  let ?c0 = "(set_deadlines p cfg c)\<lparr>cn_read_deadline := None\<rparr>"
  obtain d' where d': "handleProxyRequest p (marshal_ProxyRequest r) cfg (PID u) exe (UID u) w ?d0 ?c0 =
      (Executed ex (Run (pv_run p) (pv_events p) ex w), d', ?c0)" using h [of ?c0] by blast
  have "dispatch p resolve (marshal_ProxyRequest r) cfg w s d ?c0 = (Executed ex (Run (pv_run p) (pv_events p) ex w), d', ?c0, s)"
    unfolding dispatch_def raw option.case Let_def caller sum.case prod.case d' using request_keys [OF es] by simp
  then show ?thesis unfolding handleConnection_def by (subst conn_body_payload) (simp add: pl)
qed

section \<open>Properties\<close>

text \<open>C1: a tool runs only for a caller and a request that passed every check. If a connection ends in
  running an executor, then the request arrived in one read of less than 64 KiB; the caller's user is
  the allowed one; its executable is an allowed binary, or could not be read while the configuration
  does not insist; the request has the protocol's version, a signature over its own fields under the
  daemon's secret that is fresh and not in the replay cache, and is in the cache afterwards; it names a
  configured tool whose argument policy accepts its arguments. What runs is that tool for that request.\<close>
theorem tool_run_authorised:
  assumes "handleConnection p resolve rd cfg w s d c = (Executed ex run, d', c', s')"
  shows "\<exists>bs u req tool. rd = Read_Bytes bs \<and> length bs < 65536 \<and> unmarshal_ProxyRequest (trim_space bs) = Some req \<and>
    pv_creds p = Inr u \<and> UID u = dm_allowedUID d \<and>
    (case pv_exe p (PID u) of Inr exe \<Rightarrow> isAllowedBinary (pv_links p) (pv_cwd p) exe d | Inl _ \<Rightarrow> \<not> DenyUnverifiedCallerExe cfg) \<and>
    pr_version req = ProtocolVersion \<and>
    VerifyHMACWithPTY (pv_mac p) (pv_auth_now p) (dm_secret d) (pr_timestamp req) (pr_tool req) (pr_cwd req)
      (pr_args req) (pr_env req) (pr_nonce req) (pr_use_pty req) (pr_hmac req) = None \<and>
    SeenOrStore (proxy_key (UID u) (pr_hmac req)) (pv_replay_now p) (dm_replayCache d) = (False, dm_replayCache d') \<and>
    map_of (c_tools cfg) (pr_tool req) = Some tool \<and> fst (checkToolArgs (nil_slice (pr_args req)) tool) \<and>
    ex_req ex = req \<and> ex_tool ex = tool \<and> ex_cfg ex = cfg \<and> run = Run (pv_run p) (pv_events p) ex w"
proof -
  from assms obtain pl c0 c1 where pl: "payload_of rd = Some pl" "dispatch p resolve pl cfg w s d c0 = (Executed ex run, d', c1, s')"
    by (rule connection_Executed)
  from pl(1) obtain bs where bs: "rd = Read_Bytes bs" "length bs < 65536" "pl = trim_space bs"
    by (auto simp: payload_of_def header_limit_def split: read_outcome.splits if_splits)
  from pl(2) obtain u exe d0 where v: "verify_caller p cfg d = Inr (u, exe)"
    and d0: "d0 = (if exe = [] then d\<lparr>dm_unverifiedLogged := True\<rparr> else d)"
    and h: "handleProxyRequest p pl cfg (PID u) exe (UID u) w d0 c0 = (Executed ex run, d', c1)"
    by (rule dispatch_Executed)
  have same: "dm_secret d0 = dm_secret d" "dm_replayCache d0 = dm_replayCache d" by (simp_all add: d0)
  from h obtain req tool where req: "unmarshal_ProxyRequest pl = Some req" "pr_version req = ProtocolVersion"
      "VerifyHMACWithPTY (pv_mac p) (pv_auth_now p) (dm_secret d0) (pr_timestamp req) (pr_tool req) (pr_cwd req)
         (pr_args req) (pr_env req) (pr_nonce req) (pr_use_pty req) (pr_hmac req) = None"
      "\<not> fst (SeenOrStore (proxy_key (UID u) (pr_hmac req)) (pv_replay_now p) (dm_replayCache d0))"
      "d' = d0\<lparr>dm_replayCache := snd (SeenOrStore (proxy_key (UID u) (pr_hmac req)) (pv_replay_now p) (dm_replayCache d0))\<rparr>"
      "map_of (c_tools cfg) (pr_tool req) = Some tool" "fst (checkToolArgs (nil_slice (pr_args req)) tool)"
      "NewToolExecutor req tool cfg (dm_proxyAuthToken d0) (dm_auditLogger d0) (PID u) exe = Inr ex"
      "run = Run (pv_run p) (pv_events p) ex w"
    by (rule handleProxyRequest_Executed)
  have ex: "ex_req ex = req \<and> ex_tool ex = tool \<and> ex_cfg ex = cfg"
    using req(8) by (auto simp: NewToolExecutor_def split: if_splits)
  have sn: "SeenOrStore (proxy_key (UID u) (pr_hmac req)) (pv_replay_now p) (dm_replayCache d) = (False, dm_replayCache d')"
    using req(4,5) same by (simp add: prod_eq_iff)
  note vc = verify_caller_Inr [OF v]
  have exe: "case pv_exe p (PID u) of Inr x \<Rightarrow> isAllowedBinary (pv_links p) (pv_cwd p) x d | Inl _ \<Rightarrow> \<not> DenyUnverifiedCallerExe cfg"
    using vc by (auto split: sum.splits)
  show ?thesis
    by (intro exI [of _ bs] exI [of _ u] exI [of _ req] exI [of _ tool])
      (use bs req(1-3,6,7,9) vc exe ex sn same in simp)
qed

text \<open>A daemon, a caller and a request for the examples.\<close>

definition sample_daemon :: Daemon where
  "sample_daemon = daemon_New \<lparr>pn_exe = Some ''/usr/bin/claw-wrap'', pn_args = [''claw-wrap''], pn_uid = 1000, pn_links = Some,
     pn_cwd = Some ''/'', pn_paths = sample_path_env\<rparr> [\<lambda>d. d\<lparr>dm_secret := ''key'', dm_cfg := Some sample_config, dm_connSem := (1, 64)\<rparr>]"

definition sample_peer :: "time \<Rightarrow> unit peer_env" where
  "sample_peer now = \<lparr>pv_open_now = now, pv_header_now = now, pv_unix = True, pv_creds = Inr \<lparr>PID = 7, UID = 1000, GID = 1000\<rparr>,
     pv_exe = (\<lambda>_. Inr ''/usr/bin/claw-wrap''), pv_gate_exe = (\<lambda>_. Inr ''/usr/bin/claw-wrap''), pv_argv0 = (\<lambda>_. Inr ''claw-wrap''),
     pv_links = Some, pv_cwd = Some ''/'', pv_io = \<lparr>io_now = now, io_write1 = None, io_write2 = None\<rparr>, pv_auth_now = now,
     pv_replay_now = now, pv_mac = (\<lambda>k m. rev m), pv_path_env = sample_path_env, pv_run = sample_run, pv_events = []\<rparr>"

definition sample_signed :: ProxyRequest where
  "sample_signed = zero_ProxyRequest\<lparr>pr_version := 4, pr_tool := ''gh'', pr_cwd := ''/tmp'', pr_timestamp := ''100'', pr_nonce := ''n'',
     pr_env := [(''TERM'', ''xterm'')],
     pr_hmac := ComputeHMACWithPTY (\<lambda>k m. rev m) ''key'' ''100'' ''gh'' ''/tmp'' None [(''TERM'', ''xterm'')] ''n'' False\<rparr>"

lemma sample_caller:
  "verify_caller (sample_peer now) sample_config sample_daemon = Inr (\<lparr>PID = 7, UID = 1000, GID = 1000\<rparr>, ''/usr/bin/claw-wrap'')"
proof -
  have "list_ex (\<lambda>a. normalizeExecutablePath Some (Some ''/'') a = normalizeExecutablePath Some (Some ''/'') ''/usr/bin/claw-wrap'') (dm_allowedBinaries sample_daemon)"
    by code_simp
  then show ?thesis by (simp add: verify_caller_def sample_peer_def isAllowedBinary_def) (simp add: sample_daemon_def daemon_New_def)
qed

lemma sample_connection:
  "\<exists>ex d' c'. handleConnection (sample_peer (100 * second)) (\<lambda>_ _ s. (Inl (), s)) (Read_Bytes (marshal_ProxyRequest sample_signed @ [LF]))
     sample_config sample_world () sample_daemon \<lparr>cn_out = [], cn_read_deadline = None, cn_write_deadline = None, cn_closed = False\<rparr> =
     (Executed ex (Run sample_run [] ex sample_world), d', c', ())"
proof -
  have ok: "ProxyRequest_ok sample_signed" by code_simp
  have "int (length (marshal_ProxyRequest sample_signed)) < 65535" by code_simp
  then have len: "length (marshal_ProxyRequest sample_signed) < 65535" by simp
  have args: "fst (checkToolArgs [] (zero_tool\<lparr>td_binary := ''/usr/bin/gh''\<rparr>))" by code_simp
  obtain ex where ex: "NewToolExecutor (as_read sample_signed) (zero_tool\<lparr>td_binary := ''/usr/bin/gh''\<rparr>) sample_config (dm_proxyAuthToken sample_daemon)
      (dm_auditLogger sample_daemon) 7 ''/usr/bin/claw-wrap'' = Inr ex"
    by (simp add: NewToolExecutor_def zero_tool_def)
  have "signed (\<lambda>k m. rev m) ''key'' sample_signed" by (simp add: signed_def sample_signed_def zero_ProxyRequest_def)
  moreover have "\<not> fst (SeenOrStore key now (NewReplayCache 0 0))" for key now
    by (simp add: SeenOrStore_seen_iff NewReplayCache_def gomap_ok_def)
  ultimately show ?thesis
    using signed_request_executed [OF ok _ len, where p = "sample_peer (100 * second)" and d = sample_daemon and ex = ex
        and cfg = sample_config and w = sample_world and s = "()", OF _ _ _ sample_caller] args ex fresh_100
    by (force simp: sample_peer_def sample_daemon_def daemon_New_def sample_signed_def zero_ProxyRequest_def ProtocolVersion_def
        sample_config_def nil_slice_def)
qed

theorem tool_run_authorised_witness:
  "\<exists>ex run d' c'. handleConnection (sample_peer (100 * second)) (\<lambda>_ _ s. (Inl (), s)) (Read_Bytes (marshal_ProxyRequest sample_signed @ [LF]))
     sample_config sample_world () sample_daemon \<lparr>cn_out = [], cn_read_deadline = None, cn_write_deadline = None, cn_closed = False\<rparr> =
     (Executed ex run, d', c', ()) \<and> ex_cfg ex = sample_config"
proof -
  obtain ex d' c' where "handleConnection (sample_peer (100 * second)) (\<lambda>_ _ s. (Inl (), s)) (Read_Bytes (marshal_ProxyRequest sample_signed @ [LF]))
     sample_config sample_world () sample_daemon \<lparr>cn_out = [], cn_read_deadline = None, cn_write_deadline = None, cn_closed = False\<rparr> =
     (Executed ex (Run sample_run [] ex sample_world), d', c', ())" using sample_connection by blast
  with tool_run_authorised [OF this] show ?thesis by blast
qed

lemma executed_replay:
  assumes "handleConnection p resolve rd cfg w s d c = (Executed ex run, d', c', s')"
  shows "replay_step (dm_replayCache d) (proxy_key (dm_allowedUID d) (pr_hmac (ex_req ex))) (pv_replay_now p) False (dm_replayCache d')"
proof -
  from assms obtain pl c0 c1 where "dispatch p resolve pl cfg w s d c0 = (Executed ex run, d', c1, s')" by (rule connection_Executed)
  then obtain u exe d0 where v: "verify_caller p cfg d = Inr (u, exe)" and d0: "d0 = (if exe = [] then d\<lparr>dm_unverifiedLogged := True\<rparr> else d)"
    and h: "handleProxyRequest p pl cfg (PID u) exe (UID u) w d0 c0 = (Executed ex run, d', c1)" by (rule dispatch_Executed)
  from h obtain req tool where r: "\<not> fst (SeenOrStore (proxy_key (UID u) (pr_hmac req)) (pv_replay_now p) (dm_replayCache d0))"
    "d' = d0\<lparr>dm_replayCache := snd (SeenOrStore (proxy_key (UID u) (pr_hmac req)) (pv_replay_now p) (dm_replayCache d0))\<rparr>"
    "NewToolExecutor req tool cfg (dm_proxyAuthToken d0) (dm_auditLogger d0) (PID u) exe = Inr ex"
    by (rule handleProxyRequest_Executed)
  have "ex_req ex = req" using r(3) by (auto simp: NewToolExecutor_def split: if_splits)
  moreover have "UID u = dm_allowedUID d" "dm_replayCache d0 = dm_replayCache d" using verify_caller_Inr [OF v] by (simp_all add: d0)
  ultimately show ?thesis using r(1,2) by (intro replay_step.intros [OF refl]) (simp add: prod_eq_iff)
qed

text \<open>C2: a request is not run twice while the replay cache is not filled up. If a connection ran a tool
  for a signed request, then no connection whose replay check comes within the cache's lifetime of the
  first runs one for a request with the same signature text, whatever other connections ask the cache in
  between, provided that their keys, together with those that were already remembered for as long, are
  fewer than the cache has room for. (With \<open>maxEntries\<close> other signed requests in between the first is
  displaced and may be replayed.)\<close>
theorem replayed_connection_not_run:
  assumes "handleConnection p1 resolve1 rd1 cfg1 xw1 s1 d1 c1 = (Executed ex1 run1, d1', c1', s1')" and "cache_ok (dm_replayCache d1)"
    and "guard_run replay_step (dm_replayCache d1') rs (dm_replayCache d2)"
    and "\<forall>r \<in> set rs. snd r < pv_replay_now p1 + ttl (dm_replayCache d1)"
    and "handleConnection p2 resolve2 rd2 cfg2 xw2 s2 d2 c2 = (Executed ex2 run2, d2', c2', s2')" and "dm_allowedUID d2 = dm_allowedUID d1"
    and "pv_replay_now p2 < pv_replay_now p1 + ttl (dm_replayCache d1)"
    and "key = proxy_key (dm_allowedUID d1) (pr_hmac (ex_req ex1))"
    and "int (card (rivals (map_of (entries (dm_replayCache d1))) key (pv_replay_now p1 + ttl (dm_replayCache d1)) \<union> (fst ` set rs - {key})))
      < maxEntries (dm_replayCache d1)"
  shows "pr_hmac (ex_req ex2) \<noteq> pr_hmac (ex_req ex1)"
proof
  assume same: "pr_hmac (ex_req ex2) = pr_hmac (ex_req ex1)"
  have 1: "replay_step (dm_replayCache d1) key (pv_replay_now p1) False (dm_replayCache d1')" using executed_replay [OF assms(1)] assms(8) by simp
  have 2: "replay_step (dm_replayCache d2) key (pv_replay_now p2) False (dm_replayCache d2')"
    using executed_replay [OF assms(5)] same assms(6,8) by simp
  have "key \<noteq> []" by (simp add: assms(8) proxy_key_def)
  from rc.refused_in_lifetime [OF assms(2) this 1 assms(3,4) 2 assms(7,9)] show False by simp
qed

theorem replayed_connection_not_run_witness:
  "\<exists>ex d' c'. handleConnection (sample_peer (100 * second)) (\<lambda>_ _ s. (Inl (), s)) (Read_Bytes (marshal_ProxyRequest sample_signed @ [LF]))
     sample_config sample_world () sample_daemon \<lparr>cn_out = [], cn_read_deadline = None, cn_write_deadline = None, cn_closed = False\<rparr> =
     (Executed ex (Run sample_run [] ex sample_world), d', c', ()) \<and>
   (\<forall>ex2 run2 d2 c2 s2. handleConnection (sample_peer (101 * second)) (\<lambda>_ _ s. (Inl (), s)) (Read_Bytes (marshal_ProxyRequest sample_signed @ [LF]))
     sample_config sample_world () d' \<lparr>cn_out = [], cn_read_deadline = None, cn_write_deadline = None, cn_closed = False\<rparr> =
     (Executed ex2 run2, d2, c2, s2) \<longrightarrow> pr_hmac (ex_req ex2) \<noteq> pr_hmac (ex_req ex))"
proof -
  obtain ex d' c' where h: "handleConnection (sample_peer (100 * second)) (\<lambda>_ _ s. (Inl (), s)) (Read_Bytes (marshal_ProxyRequest sample_signed @ [LF]))
     sample_config sample_world () sample_daemon \<lparr>cn_out = [], cn_read_deadline = None, cn_write_deadline = None, cn_closed = False\<rparr> =
     (Executed ex (Run sample_run [] ex sample_world), d', c', ())" using sample_connection by blast
  have ok: "cache_ok (dm_replayCache sample_daemon)" "ttl (dm_replayCache sample_daemon) = 2 * minute"
    by (simp_all add: sample_daemon_def daemon_New_def) (simp add: NewReplayCache_def default_ttl_def)
  from connection_shared [OF h] have "dm_allowedUID d' = dm_allowedUID sample_daemon"
    by (induction rule: rtranclp_induct) (auto elim!: shared_stepE simp: d_inc_def)
  moreover have "pv_replay_now (sample_peer (101 * second)) < pv_replay_now (sample_peer (100 * second)) + ttl (dm_replayCache sample_daemon)"
    using ok(2) by (simp add: sample_peer_def)
  moreover have "entries (dm_replayCache sample_daemon) = []" "0 < maxEntries (dm_replayCache sample_daemon)"
    by (simp_all add: sample_daemon_def daemon_New_def) (simp_all add: NewReplayCache_def)
  ultimately have "pr_hmac (ex_req ex2) \<noteq> pr_hmac (ex_req ex)"
    if "handleConnection (sample_peer (101 * second)) (\<lambda>_ _ s. (Inl (), s)) (Read_Bytes (marshal_ProxyRequest sample_signed @ [LF]))
     sample_config sample_world () d' \<lparr>cn_out = [], cn_read_deadline = None, cn_write_deadline = None, cn_closed = False\<rparr> =
     (Executed ex2 run2, d2, c2, s2)" for ex2 run2 d2 c2 s2
    using replayed_connection_not_run [OF h ok(1) guard_run.run_Nil _ that _ _ refl] by (simp add: rivals_def)
  with h show ?thesis by blast
qed

section \<open>Refusals\<close>

text \<open>
  A refusal sent before the request is known to be administrative is framed by whether the object has
  an \<open>hmac\<close>. Signed administrative requests have one, so they get the length-prefixed form their sender
  does not read: it is not JSON.
\<close>

lemma refused_admin_is_framed:
  assumes "unmarshal_any pl = Some raw" "key_present raw ''hmac''" and "verify_caller p cfg d = Inl msg"
  shows "dispatch p resolve pl cfg w s d c = (Refused, d_inc ''caller_verify_fail'' d, sendProxyError (pv_io p) d msg c, s)"
  using assms by (simp add: dispatch_def Let_def)

text \<open>The error of a refused request to run a tool, as the frame on the connection.\<close>

lemma sent_error_decodes:
  assumes "dm_cfg d = Some cfg" and "io_write1 io = None" "io_write2 io = None" and "cn_out c = []"
    and "utf8_valid msg" and "length (marshal_ResponseMessage (error_message msg)) \<le> MaxMessageSize"
  shows "Decode unmarshal_ResponseMessage (cn_out (sendProxyError io d msg c)) = (Inr (error_message msg), [])"
proof -
  have "0 < GetWriteTimeout cfg" by (auto simp: GetWriteTimeout_def positive_duration_def config_defaults split: option.split)
  then have out: "cn_out (sendProxyError io d msg c) =
      snd (Encode (\<lambda>m. Some (marshal_ResponseMessage m)) None None (error_message msg))"
    using assms(1-4) by (simp add: sendProxyError_def with_write_deadline_def daemon_getConfig_def)
  have "ResponseMessage_ok (error_message msg)"
    using assms(5) by (simp add: ResponseMessage_ok_def error_message_def empty_response_def msg_types utf8_valid.simps char_code_def in_int64_def min_int64_def max_int64_def)
  then have "unmarshal_ResponseMessage (marshal_ResponseMessage (error_message msg)) = Some (error_message msg)"
    "marshal_ResponseMessage (error_message msg) \<noteq> []" by (simp_all add: rm.roundtrip rm.closed)
  with Decode_frame [OF _ assms(6), of unmarshal_ResponseMessage "[]"] assms(6) show ?thesis unfolding out by (simp add: Encode_def Let_def)
qed

end
