(* ===== verification/Wrapper.thy ===== *)
theory Wrapper
  imports Executor Key_Files Admin_Wire Framing
begin

text \<open>
  \<open>internal/wrapper/wrapper.go\<close>: the client. It signs a request with the shared secret, sends it, and
  relays input, signals and window sizes to the daemon and output and the exit code back. The two I/O
  loops are step functions on the events their \<open>select\<close> receives. What the process sees (directory,
  terminal, clock, random bytes) comes with \<open>wrap_env\<close>.
\<close>

section \<open>State and environment\<close>

record Wrapper =
  wr_socketPath :: string
  wr_authPath :: string

type_synonym wrapper_option = "Wrapper \<Rightarrow> Wrapper"

definition wrapper_WithSocketPath :: "string \<Rightarrow> wrapper_option" where
  "wrapper_WithSocketPath path w = w\<lparr>wr_socketPath := path\<rparr>"

definition WithAuthPath :: "string \<Rightarrow> wrapper_option" where
  "WithAuthPath path w = w\<lparr>wr_authPath := path\<rparr>"

definition wrapper_New :: "path_env \<Rightarrow> wrapper_option list \<Rightarrow> Wrapper" where
  "wrapper_New e opts = fold (\<lambda>opt w. opt w) opts \<lparr>wr_socketPath = SocketPath e, wr_authPath = AuthPath e\<rparr>"

record wrap_env =
  we_fs :: fs \<comment> \<open>the file system at the test for a link\<close>
  we_read_file :: "string \<Rightarrow> open_error + bytes"
  we_cwd :: "string option"
  we_getenv :: "string \<Rightarrow> string"
  we_is_terminal :: "int \<Rightarrow> bool"
  we_get_size :: "int \<Rightarrow> (int \<times> int) option" \<comment> \<open>columns and rows\<close>
  we_now :: int \<comment> \<open>seconds\<close>
  we_rand :: "nat \<Rightarrow> bytes option"
  we_mac :: mac_fun
  we_dial :: bool
  we_write1 :: "nat option"
  we_write2 :: bool

datatype wrap_error =
    Wrap_Secret key_error | Wrap_Cwd | Wrap_Nonce | Wrap_Connect | Wrap_Send frame_error
  | Wrap_Read frame_error | Wrap_Stdin frame_error | Wrap_Winsize frame_error
  | Wrap_Decode_Stdout | Wrap_Decode_Stderr | Wrap_File_Response | Wrap_Daemon string
  | Wrap_Admin_Write | Wrap_Admin_Read | Wrap_Admin_Unmarshal

section \<open>The terminal\<close>

definition callerTerminalEnv :: "(string \<Rightarrow> string) \<Rightarrow> (string, string) gomap" where
  "callerTerminalEnv lookup =
     (let term_value = trim_space (lookup ''TERM'');
          env1 = (if term_value \<noteq> [] then map_set ''TERM'' term_value [] else []);
          colorTerm = trim_space (lookup ''COLORTERM'')
      in if colorTerm \<noteq> [] then map_set ''COLORTERM'' colorTerm env1 else env1)"

fun detectWindowSizeFromFDs :: "int list \<Rightarrow> int list \<Rightarrow> (int \<Rightarrow> bool) \<Rightarrow> (int \<Rightarrow> (int \<times> int) option) \<Rightarrow> WinSize option" where
  "detectWindowSizeFromFDs [] seen isTerminal getSize = None"
| "detectWindowSizeFromFDs (fd # fds) seen isTerminal getSize =
     (if fd \<in> set seen then detectWindowSizeFromFDs fds seen isTerminal getSize
      else if \<not> isTerminal fd then detectWindowSizeFromFDs fds (fd # seen) isTerminal getSize
      else case getSize fd of
        None \<Rightarrow> detectWindowSizeFromFDs fds (fd # seen) isTerminal getSize
      | Some (cols, rows) \<Rightarrow>
          if cols \<le> 0 \<or> rows \<le> 0 then detectWindowSizeFromFDs fds (fd # seen) isTerminal getSize
          else Some \<lparr>ws_rows = rows mod 65536, ws_cols = cols mod 65536\<rparr>)"

text \<open>Standard output, input and error are the descriptors 1, 0 and 2.\<close>

definition detectWindowSize :: "wrap_env \<Rightarrow> WinSize option" where
  "detectWindowSize e = detectWindowSizeFromFDs [1, 0, 2] [] (we_is_terminal e) (we_get_size e)"

section \<open>The request\<close>

definition build_request :: "wrap_env \<Rightarrow> bytes \<Rightarrow> string \<Rightarrow> string \<Rightarrow> string list option \<Rightarrow> string \<Rightarrow> ProxyRequest" where
  "build_request e secret cwd toolName args nonce =
     (let usePTY = we_is_terminal e 0;
          winSize = (if usePTY then detectWindowSize e else None);
          reqEnv = (if usePTY then callerTerminalEnv (we_getenv e) else []);
          timestamp = format_int (we_now e)
      in \<lparr>pr_version = ProtocolVersion, pr_tool = toolName, pr_args = args, pr_cwd = cwd, pr_timestamp = timestamp, pr_nonce = nonce,
          pr_hmac = ComputeHMACWithPTY (we_mac e) secret timestamp toolName cwd args reqEnv nonce usePTY,
          pr_env = reqEnv, pr_use_pty = usePTY, pr_window_size = winSize\<rparr>)"

text \<open>\<open>RunTool\<close> up to its loop: the request and what was written to the connection.\<close>

definition RunTool :: "wrap_env \<Rightarrow> Wrapper \<Rightarrow> string \<Rightarrow> string list option \<Rightarrow> wrap_error + ProxyRequest \<times> bytes" where
  "RunTool e w toolName args =
     (case LoadSecret (we_fs e) (we_read_file e) (wr_authPath w) of
        Inl x \<Rightarrow> Inl (Wrap_Secret x)
      | Inr secret \<Rightarrow>
          (case we_cwd e of
             None \<Rightarrow> Inl Wrap_Cwd
           | Some cwd \<Rightarrow>
               (case GenerateNonce (we_rand e) of
                  None \<Rightarrow> Inl Wrap_Nonce
                | Some nonce \<Rightarrow>
                    if \<not> we_dial e then Inl Wrap_Connect
                    else let req = build_request e secret cwd toolName args nonce
                         in (case ND_Write (Some \<circ> marshal_ProxyRequest) (we_write1 e) (we_write2 e) req of
                               (Some x, out) \<Rightarrow> Inl (Wrap_Send x)
                             | (None, out) \<Rightarrow> Inr (req, out)))))"

section \<open>The I/O loops\<close>

datatype loop_end = Looping | Exit int | Failed wrap_error

record loop_state =
  lp_stdout :: bytes
  lp_stderr :: bytes
  lp_sent :: "WrapperMessage list"
  lp_eof_sent :: bool \<comment> \<open>\<open>stdinEOF\<close> was set to nil\<close>
  lp_raw :: bool \<comment> \<open>the terminal is in raw mode\<close>
  lp_end :: loop_end

definition loop_init :: "bool \<Rightarrow> loop_state" where
  "loop_init raw = \<lparr>lp_stdout = [], lp_stderr = [], lp_sent = [], lp_eof_sent = False, lp_raw = raw, lp_end = Looping\<rparr>"

text \<open>The answer to one message: whether the run is over, an error, and the streams after it.\<close>

definition wrapper_handleResponse :: "ResponseMessage \<Rightarrow> loop_state \<Rightarrow> (wrap_error + bool) \<times> loop_state" where
  "wrapper_handleResponse msg st =
     (if rm_type msg = MsgTypeStdout then
        (case b64_decode StdEncoding (rm_data msg) of
           None \<Rightarrow> (Inl Wrap_Decode_Stdout, st)
         | Some data \<Rightarrow> (Inr False, st\<lparr>lp_stdout := lp_stdout st @ data\<rparr>))
      else if rm_type msg = MsgTypeStderr then
        (case b64_decode StdEncoding (rm_data msg) of
           None \<Rightarrow> (Inl Wrap_Decode_Stderr, st)
         | Some data \<Rightarrow> (Inr False, st\<lparr>lp_stderr := lp_stderr st @ data\<rparr>))
      else if rm_type msg = MsgTypeFile then (Inl Wrap_File_Response, st)
      else if rm_type msg = MsgTypeDone then (Inr True, st)
      else if rm_type msg = MsgTypeError then (Inl (Wrap_Daemon (rm_message msg)), st)
      else (Inr False, st))"

text \<open>
  What the loops' \<open>select\<close> can receive. The flag of an event that writes says whether the write fails;
  \<open>Window_Changed\<close> carries the size \<open>detectWindowSize\<close> finds.
\<close>

datatype loop_event =
    Got_Response ResponseMessage
  | Read_Error frame_error
  | Stdin_Chunk bytes "frame_error option"
  | Stdin_End "frame_error option"
  | Got_Signal unix_signal "frame_error option"
  | Window_Changed "WinSize option" "frame_error option"

definition send_wrapper :: "frame_error option \<Rightarrow> WrapperMessage \<Rightarrow> loop_state \<Rightarrow> loop_state" where
  "send_wrapper fail m st = (if fail = None then st\<lparr>lp_sent := lp_sent st @ [m]\<rparr> else st)"

definition signal_name :: "unix_signal \<Rightarrow> string" where
  "signal_name sig = (case sig of SIGINT \<Rightarrow> ''SIGINT'' | SIGHUP \<Rightarrow> ''SIGHUP'' | _ \<Rightarrow> ''SIGTERM'')"

definition stdin_message :: "bytes \<Rightarrow> WrapperMessage" where
  "stdin_message chunk = zero_WrapperMessage\<lparr>wm_type := MsgTypeStdin, wm_data := b64_encode StdEncoding chunk\<rparr>"

definition eof_message :: WrapperMessage where
  "eof_message = zero_WrapperMessage\<lparr>wm_type := MsgTypeStdin, wm_eof := True\<rparr>"

definition signal_message :: "unix_signal \<Rightarrow> WrapperMessage" where
  "signal_message sig = zero_WrapperMessage\<lparr>wm_type := MsgTypeSignal, wm_signal := signal_name sig\<rparr>"

definition winsize_message :: "WinSize \<Rightarrow> WrapperMessage" where
  "winsize_message ws = zero_WrapperMessage\<lparr>wm_type := MsgTypeWinSize, wm_rows := ws_rows ws, wm_cols := ws_cols ws\<rparr>"

text \<open>Leaving the loop with an error restores a raw terminal, as does leaving the process.\<close>

definition leave :: "loop_end \<Rightarrow> loop_state \<Rightarrow> loop_state" where
  "leave x st = st\<lparr>lp_end := x, lp_raw := False\<rparr>"

definition sendWindowSize :: "WinSize option \<Rightarrow> frame_error option \<Rightarrow> loop_state \<Rightarrow> loop_state" where
  "sendWindowSize winSize fail st =
     (case winSize of
        None \<Rightarrow> st
      | Some ws \<Rightarrow>
          (case fail of None \<Rightarrow> send_wrapper None (winsize_message ws) st | Some x \<Rightarrow> leave (Failed (Wrap_Winsize x)) st))"

definition on_response :: "ResponseMessage \<Rightarrow> loop_state \<Rightarrow> loop_state" where
  "on_response msg st =
     (case wrapper_handleResponse msg st of
        (Inl x, st1) \<Rightarrow> leave (Failed x) st1
      | (Inr True, st1) \<Rightarrow> leave (Exit (rm_exit_code msg)) st1
      | (Inr False, st1) \<Rightarrow> st1)"

fun ioLoop :: "loop_event \<Rightarrow> loop_state \<Rightarrow> loop_state option" where
  "ioLoop (Got_Response msg) st = (if lp_end st \<noteq> Looping then None else Some (on_response msg st))"
| "ioLoop (Read_Error x) st = (if lp_end st \<noteq> Looping then None else Some (leave (Failed (Wrap_Read x)) st))"
| "ioLoop (Stdin_Chunk chunk fail) st =
     (if lp_end st \<noteq> Looping then None
      else case fail of None \<Rightarrow> Some (send_wrapper None (stdin_message chunk) st) | Some x \<Rightarrow> Some (leave (Failed (Wrap_Stdin x)) st))"
| "ioLoop (Stdin_End fail) st =
     (if lp_end st \<noteq> Looping \<or> lp_eof_sent st then None
      else Some ((send_wrapper fail eof_message st)\<lparr>lp_eof_sent := True\<rparr>))"
| "ioLoop (Got_Signal sig fail) st =
     (if lp_end st \<noteq> Looping then None else Some (send_wrapper fail (signal_message sig) st))"
| "ioLoop (Window_Changed winSize fail) st = None"

text \<open>\<open>ioLoopPTY\<close> has the same cases and one more, for \<open>SIGWINCH\<close>.\<close>

fun ioLoopPTY :: "loop_event \<Rightarrow> loop_state \<Rightarrow> loop_state option" where
  "ioLoopPTY (Window_Changed winSize fail) st = (if lp_end st \<noteq> Looping then None else Some (sendWindowSize winSize fail st))"
| "ioLoopPTY ev st = ioLoop ev st"

text \<open>Entering \<open>ioLoopPTY\<close>: raw mode and a first window size, or \<open>ioLoop\<close> when raw mode is refused.\<close>

definition enter_loop :: "wrap_env \<Rightarrow> bool \<Rightarrow> frame_error option \<Rightarrow> bool \<Rightarrow> bool \<times> loop_state" where
  "enter_loop e raw_ok fail usePTY =
     (if usePTY \<and> raw_ok then (True, sendWindowSize (detectWindowSize e) fail (loop_init True)) else (False, loop_init False))"

fun loop_run :: "bool \<Rightarrow> loop_event list \<Rightarrow> loop_state \<Rightarrow> loop_state option" where
  "loop_run pty [] st = Some st"
| "loop_run pty (ev # evs) st =
     (case (if pty then ioLoopPTY ev st else ioLoop ev st) of None \<Rightarrow> None | Some st1 \<Rightarrow> loop_run pty evs st1)"

text \<open>
  The response reader: it decodes until an error; a clean end of the stream is not reported. The first
  argument bounds the number of frames.
\<close>

fun response_reader :: "nat \<Rightarrow> bytes \<Rightarrow> loop_event list" where
  "response_reader 0 s = []"
| "response_reader (Suc n) s =
     (case Decode unmarshal_ResponseMessage s of
        (Inl x, r) \<Rightarrow> if x = ErrEOF then [] else [Read_Error x]
      | (Inr msg, r) \<Rightarrow> Got_Response msg # response_reader n r)"

section \<open>Administrative commands\<close>

definition buildAdminRequest :: "wrap_env \<Rightarrow> Wrapper \<Rightarrow> string \<Rightarrow> wrap_error + AdminRequest" where
  "buildAdminRequest e w command =
     (case LoadSecret (we_fs e) (we_read_file e) (wr_authPath w) of
        Inl x \<Rightarrow> Inl (Wrap_Secret x)
      | Inr secret \<Rightarrow>
          (case GenerateNonce (we_rand e) of
             None \<Rightarrow> Inl Wrap_Nonce
           | Some nonce \<Rightarrow>
               let timestamp = format_int (we_now e)
               in Inr \<lparr>ar_version = ProtocolVersion, ar_admin = command, ar_timestamp = timestamp, ar_nonce = nonce,
                       ar_hmac = ComputeHMAC (we_mac e) secret timestamp (''admin:'' @ command) [] None nonce\<rparr>))"

text \<open>\<open>reply\<close>: what one read returns after the request was written; \<open>None\<close> when the read fails.\<close>

definition sendAdminRequest :: "wrap_env \<Rightarrow> (bytes \<Rightarrow> bytes option) \<Rightarrow> AdminRequest \<Rightarrow> wrap_error + bytes" where
  "sendAdminRequest e reply req =
     (if \<not> we_dial e then Inl Wrap_Connect
      else if we_write1 e \<noteq> None then Inl Wrap_Admin_Write
      else case reply (json_print (json_AdminRequest req)) of
        None \<Rightarrow> Inl Wrap_Admin_Read
      | Some got \<Rightarrow>
          let data = take 65536 got
          in (case unmarshal_strings data of
                Some m \<Rightarrow> if map_get m ''error'' \<noteq> [] then Inl (Wrap_Daemon (map_get m ''error'')) else Inr data
              | None \<Rightarrow> Inr data))"

definition wrapper_List :: "wrap_env \<Rightarrow> (bytes \<Rightarrow> bytes option) \<Rightarrow> Wrapper \<Rightarrow> wrap_error + AdminListResponse" where
  "wrapper_List e reply w =
     (case buildAdminRequest e w ''list'' of
        Inl x \<Rightarrow> Inl x
      | Inr req \<Rightarrow>
          (case sendAdminRequest e reply req of
             Inl x \<Rightarrow> Inl x
           | Inr data \<Rightarrow> (case unmarshal_AdminListResponse data of None \<Rightarrow> Inl Wrap_Admin_Unmarshal | Some resp \<Rightarrow> Inr resp)))"

definition wrapper_Check :: "wrap_env \<Rightarrow> (bytes \<Rightarrow> bytes option) \<Rightarrow> Wrapper \<Rightarrow> wrap_error + AdminCheckResponse" where
  "wrapper_Check e reply w =
     (case buildAdminRequest e w ''check'' of
        Inl x \<Rightarrow> Inl x
      | Inr req \<Rightarrow>
          (case sendAdminRequest e reply req of
             Inl x \<Rightarrow> Inl x
           | Inr data \<Rightarrow> (case unmarshal_AdminCheckResponse data of None \<Rightarrow> Inl Wrap_Admin_Unmarshal | Some resp \<Rightarrow> Inr resp)))"

end
