(* ===== verification/Wrapper_Laws.thy ===== *)
theory Wrapper_Laws
  imports Wrapper Served Lifecycle_Laws
begin

text \<open>
  Wrapper and daemon together: the request the wrapper signs is the one the daemon runs.
\<close>

section \<open>The wrapper's request\<close>

lemma utf8_ascii: "\<forall>c \<in> set s. char_code c < 128 \<Longrightarrow> utf8_valid s"
proof (induction s)
  case (Cons c s)
  then show ?case by (subst utf8_valid.simps) simp
qed (simp add: utf8_valid.simps)

lemma utf8_printable: "\<forall>c \<in> set s. printable c \<Longrightarrow> utf8_valid s"
  by (rule utf8_ascii) (auto simp: printable_def)

lemma utf8_b64 [simp]: "utf8_valid (b64_encode e s)"
  by (rule utf8_printable) (blast dest: b64_printable)

lemma utf8_format_int [simp]: "utf8_valid (format_int n)"
proof (rule utf8_printable)
  have "printable c" if "c \<in> set (nat_digits k)" for c k
    using nat_digits_is_digit [OF that] by (simp add: is_digit_def printable_def)
  then show "\<forall>c \<in> set (format_int n). printable c" by (auto simp: format_int_def printable_def char_code_def [of "CHR ''-''"])
qed

lemma window_in_range: "detectWindowSizeFromFDs fds seen f g = Some ws \<Longrightarrow> uint16_ok (ws_rows ws) \<and> uint16_ok (ws_cols ws)"
  by (induction fds seen f g rule: detectWindowSizeFromFDs.induct) (auto simp: uint16_ok_def split: if_splits option.splits)

lemma terminal_env_ok: "gomap_ok (callerTerminalEnv f)"
  by (auto simp: callerTerminalEnv_def Let_def gomap_ok_def map_set_def)

lemma timestamp_near:
  assumes "min_int64 \<le> ts" "ts + 62135596800 \<le> max_int64" "\<bar>now - ts * second\<bar> \<le> MaxTimestampDrift"
  shows "ValidateTimestamp (format_int ts) now = None"
proof -
  from assms(1,2) have r: "in_int64 ts" "in_int64 (ts + 62135596800)" by (auto simp: in_int64_def)
  then show ?thesis
    using assms(3) by (simp add: ValidateTimestamp_iff [OF parse_int64_format_int [OF r(1)]] unix_time_id [OF r(2)])
qed

definition texts_valid :: "wrap_env \<Rightarrow> string \<Rightarrow> string \<Rightarrow> string list option \<Rightarrow> bool" where
  "texts_valid e cwd tool args \<longleftrightarrow> utf8_valid cwd \<and> utf8_valid tool \<and> args_valid args \<and> list_all entry_valid (callerTerminalEnv (we_getenv e))"

lemma build_request_ok:
  assumes "texts_valid e cwd tool args"
  shows "ProxyRequest_ok (build_request e secret cwd tool args (b64_encode StdEncoding bs))"
  using assms window_in_range [of "[1, 0, 2]" "[]" "we_is_terminal e" "we_get_size e"] terminal_env_ok [of "we_getenv e"]
  by (auto simp: ProxyRequest_ok_def build_request_def texts_valid_def Let_def ComputeHMACWithPTY_def ProtocolVersion_def gomap_ok_def
      in_int64_def min_int64_def max_int64_def detectWindowSize_def split: option.split)

lemma build_request_signed: "signed (we_mac e) secret (build_request e secret cwd tool args nonce)"
  by (simp add: signed_def build_request_def Let_def)

lemma build_request_fields:
  "pr_version (build_request e secret cwd tool args nonce) = ProtocolVersion" "pr_tool (build_request e secret cwd tool args nonce) = tool"
  "pr_args (build_request e secret cwd tool args nonce) = args" "pr_cwd (build_request e secret cwd tool args nonce) = cwd"
  "pr_timestamp (build_request e secret cwd tool args nonce) = format_int (we_now e)"
  "pr_use_pty (build_request e secret cwd tool args nonce) = we_is_terminal e 0"
  by (simp_all add: build_request_def Let_def)

lemma RunTool_Inr:
  assumes "RunTool e w tool args = Inr (req, out)"
  obtains secret cwd bs where "LoadSecret (we_fs e) (we_read_file e) (wr_authPath w) = Inr secret" and "we_cwd e = Some cwd"
    and "req = build_request e secret cwd tool args (b64_encode StdEncoding bs)" and "out = marshal_ProxyRequest req @ [LF]"
  using assms unfolding RunTool_def GenerateNonce_def ND_Write_def Let_def
  by (auto split: sum.splits option.splits if_splits prod.splits)

text \<open>C7: what the wrapper sends, the daemon runs. Take a daemon that published its secret where the
  wrapper reads it. A request the wrapper builds and sends, for a tool the configuration has and arguments
  its policy accepts, from the allowed caller, within five seconds by the two clocks, of less than 64 KiB
  and not seen before, ends in running that tool: with the arguments, the directory, the terminal flag and
  the environment (as a map) the wrapper was called with.\<close>
theorem wrapper_request_is_run:
  assumes "RunTool e wr tool args = Inr (req, out)" and "LoadSecret (we_fs e) (we_read_file e) (wr_authPath wr) = Inr (dm_secret d)"
    and "we_cwd e = Some cwd" "texts_valid e cwd tool args" and "we_mac e = pv_mac p"
    and "min_int64 \<le> we_now e" "we_now e + 62135596800 \<le> max_int64" "\<bar>pv_auth_now p - we_now e * second\<bar> \<le> MaxTimestampDrift"
    and "length out < 65536" and "verify_caller p cfg d = Inr (u, exe)"
    and "\<not> fst (SeenOrStore (proxy_key (UID u) (pr_hmac req)) (pv_replay_now p) (dm_replayCache d))"
    and "map_of (c_tools cfg) tool = Some td" "fst (checkToolArgs (nil_slice args) td)"
    and "NewToolExecutor (as_read req) td cfg (dm_proxyAuthToken d) (dm_auditLogger d) (PID u) exe = Inr ex"
  shows "\<exists>d' c'. handleConnection p resolve (Read_Bytes out) cfg w s d c = (Executed ex (Run (pv_run p) (pv_events p) ex w), d', c', s) \<and>
    ex_tool ex = td \<and> pr_tool (ex_req ex) = tool \<and> pr_args (ex_req ex) = args \<and> pr_cwd (ex_req ex) = cwd \<and>
    pr_use_pty (ex_req ex) = we_is_terminal e 0 \<and> map_of (pr_env (ex_req ex)) = map_of (pr_env req)"
proof -
  from assms(1) obtain secret cwd' bs where r: "LoadSecret (we_fs e) (we_read_file e) (wr_authPath wr) = Inr secret" "we_cwd e = Some cwd'"
    "req = build_request e secret cwd' tool args (b64_encode StdEncoding bs)" "out = marshal_ProxyRequest req @ [LF]"
    by (rule RunTool_Inr)
  have same: "secret = dm_secret d" "cwd' = cwd" using r(1,2) assms(2,3) by simp_all
  note req = r(3) [unfolded same]
  note f = build_request_fields [of e "dm_secret d" cwd tool args "b64_encode StdEncoding bs", folded req]
  have ok: "ProxyRequest_ok req" unfolding req by (rule build_request_ok [OF assms(4)])
  have len: "length (marshal_ProxyRequest req) < 65535" using assms(9) r(4) by simp
  have sg: "signed (pv_mac p) (dm_secret d) req" using build_request_signed [of e "dm_secret d"] assms(5) by (simp add: req)
  have ts: "ValidateTimestamp (pr_timestamp req) (pv_auth_now p) = None" using timestamp_near [OF assms(6-8)] f(5) by simp
  have ex: "ex_req ex = as_read req" "ex_tool ex = td" using assms(14) by (auto simp: NewToolExecutor_def split: if_splits)
  have "gomap_ok (pr_env req)" using ok by (simp add: ProxyRequest_ok_def)
  with ex f have e: "ex_tool ex = td \<and> pr_tool (ex_req ex) = tool \<and> pr_args (ex_req ex) = args \<and> pr_cwd (ex_req ex) = cwd \<and>
    pr_use_pty (ex_req ex) = we_is_terminal e 0 \<and> map_of (pr_env (ex_req ex)) = map_of (pr_env req)" by (simp add: map_of_read_order)
  have "\<exists>d' c'. handleConnection p resolve (Read_Bytes out) cfg w s d c = (Executed ex (Run (pv_run p) (pv_events p) ex w), d', c', s)"
    unfolding r(4) using signed_request_executed [OF ok f(1) len sg ts assms(10,11) _ _ assms(14)] assms(12,13) f(2,3) by simp
  with e show ?thesis by blast
qed

definition sample_wrap :: wrap_env where
  "sample_wrap = \<lparr>we_fs = Map.empty, we_read_file = (\<lambda>p. Inr (b64_encode StdEncoding ''key'' @ [LF])), we_cwd = Some ''/tmp'', we_getenv = (\<lambda>k. if k = ''TERM'' then ''xterm'' else []),
     we_is_terminal = (\<lambda>fd. True), we_get_size = (\<lambda>fd. Some (80, 24)), we_now = 100, we_rand = (\<lambda>n. Some (replicate n CHR ''n'')), we_mac = (\<lambda>k m. rev m),
     we_dial = True, we_write1 = None, we_write2 = False\<rparr>"

definition sample_client :: Wrapper where
  "sample_client = wrapper_New sample_path_env []"

lemma sample_secret: "LoadSecret (we_fs sample_wrap) (we_read_file sample_wrap) (wr_authPath sample_client) = Inr (dm_secret sample_daemon)"
  by code_simp

lemma sample_new: "\<not> fst (SeenOrStore key now (dm_replayCache sample_daemon))"
  by (simp add: SeenOrStore_seen_iff NewReplayCache_def gomap_ok_def sample_daemon_def daemon_New_def)

definition sample_sent :: ProxyRequest where
  "sample_sent = build_request sample_wrap ''key'' ''/tmp'' ''gh'' (Some [''repo'', ''list'']) (b64_encode StdEncoding (replicate NonceSize CHR ''n''))"

theorem wrapper_request_is_run_witness:
  "\<exists>req out ex d' c'. RunTool sample_wrap sample_client ''gh'' (Some [''repo'', ''list'']) = Inr (req, out) \<and>
     handleConnection (sample_peer (103 * second)) (\<lambda>_ _ s. (Inl (), s)) (Read_Bytes out) sample_config sample_world () sample_daemon idle_conn =
       (Executed ex (Run sample_run [] ex sample_world), d', c', ()) \<and> pr_args (ex_req ex) = Some [''repo'', ''list'']"
proof -
  have "int (length (marshal_ProxyRequest sample_sent)) < 1000" by code_simp
  then have l: "length (marshal_ProxyRequest sample_sent) < 1000" by simp
  have "dm_secret sample_daemon = ''key''" "GenerateNonce (we_rand sample_wrap) = Some (b64_encode StdEncoding (replicate NonceSize CHR ''n''))"
    "we_cwd sample_wrap = Some ''/tmp''" "we_dial sample_wrap" "we_write1 sample_wrap = None" "\<not> we_write2 sample_wrap"
    by (simp_all add: sample_daemon_def daemon_New_def GenerateNonce_def sample_wrap_def)
  with sample_secret l obtain req out where r: "RunTool sample_wrap sample_client ''gh'' (Some [''repo'', ''list'']) = Inr (req, out)"
    and out: "out = marshal_ProxyRequest sample_sent @ [LF]"
    by (simp add: RunTool_def ND_Write_def MaxMessageSize_def Let_def sample_sent_def [symmetric])
  have len: "length out < 65536" using l out by simp
  have cwd: "we_cwd sample_wrap = Some ''/tmp''" "we_mac sample_wrap = pv_mac (sample_peer (103 * second))" by (simp_all add: sample_wrap_def sample_peer_def)
  have tv: "texts_valid sample_wrap ''/tmp'' ''gh'' (Some [''repo'', ''list''])" by code_simp
  have t: "min_int64 \<le> we_now sample_wrap" "we_now sample_wrap + 62135596800 \<le> max_int64"
    "\<bar>pv_auth_now (sample_peer (103 * second)) - we_now sample_wrap * second\<bar> \<le> MaxTimestampDrift"
    by (simp_all add: sample_wrap_def sample_peer_def min_int64_def max_int64_def MaxTimestampDrift_def)
  let ?td = "zero_tool\<lparr>td_binary := ''/usr/bin/gh''\<rparr>"
  have tool: "map_of (c_tools sample_config) ''gh'' = Some ?td" by (simp add: sample_config_def)
  have args: "fst (checkToolArgs (nil_slice (Some [''repo'', ''list''])) ?td)" by code_simp
  obtain ex where ex: "NewToolExecutor (as_read req) ?td sample_config (dm_proxyAuthToken sample_daemon) (dm_auditLogger sample_daemon) 7 ''/usr/bin/claw-wrap'' = Inr ex"
    by (simp add: NewToolExecutor_def zero_tool_def)
  have run: "pv_run (sample_peer (103 * second)) = sample_run" "pv_events (sample_peer (103 * second)) = []" by (simp_all add: sample_peer_def)
  from wrapper_request_is_run [OF r sample_secret cwd(1) tv cwd(2) t len sample_caller sample_new tool args, of ex "\<lambda>_ _ s. (Inl (), s)" sample_world "()" idle_conn] ex r run
  show ?thesis by auto
qed

end
