(* ===== verification/Relay_Laws.thy ===== *)
theory Relay_Laws
  imports Wrapper_Laws Lifecycle_Laws
begin

text \<open>
  The wrapper's loops: output and exit code reach the caller, input and signals reach the daemon in order, the terminal is restored.
\<close>

section \<open>Events and messages\<close>

fun responses :: "loop_event list \<Rightarrow> ResponseMessage list" where
  "responses [] = []"
| "responses (Got_Response m # evs) = m # responses evs"
| "responses (_ # evs) = responses evs"

definition payload :: "ResponseMessage \<Rightarrow> bytes" where
  "payload m = (case b64_decode StdEncoding (rm_data m) of None \<Rightarrow> [] | Some d \<Rightarrow> d)"

definition stream_text :: "string \<Rightarrow> ResponseMessage list \<Rightarrow> bytes" where
  "stream_text stream ms = concat (map payload (filter (\<lambda>m. rm_type m = stream) ms))"

fun sent_for :: "loop_event \<Rightarrow> WrapperMessage list" where
  "sent_for (Stdin_Chunk chunk None) = [stdin_message chunk]"
| "sent_for (Stdin_End None) = [eof_message]"
| "sent_for (Got_Signal sig None) = [signal_message sig]"
| "sent_for (Window_Changed (Some ws) None) = [winsize_message ws]"
| "sent_for _ = []"

fun typed :: "loop_event list \<Rightarrow> bytes" where
  "typed [] = []"
| "typed (Stdin_Chunk chunk None # evs) = chunk @ typed evs"
| "typed (_ # evs) = typed evs"

abbreviation loop_step :: "bool \<Rightarrow> loop_event \<Rightarrow> loop_state \<Rightarrow> loop_state option" where
  "loop_step pty ev st \<equiv> (if pty then ioLoopPTY ev st else ioLoop ev st)"

lemma on_response_streams:
  "lp_stdout (on_response m st) = lp_stdout st @ stream_text MsgTypeStdout [m]" "lp_stderr (on_response m st) = lp_stderr st @ stream_text MsgTypeStderr [m]"
  "lp_sent (on_response m st) = lp_sent st"
  by (auto simp: on_response_def wrapper_handleResponse_def stream_text_def payload_def leave_def msg_types split: option.split)

lemma step_effect:
  assumes "loop_step pty ev st = Some st'"
  shows "lp_stdout st' = lp_stdout st @ stream_text MsgTypeStdout (responses [ev])" "lp_stderr st' = lp_stderr st @ stream_text MsgTypeStderr (responses [ev])"
    "lp_sent st' = lp_sent st @ sent_for ev" "lp_end st = Looping"
  using assms by (cases ev; cases pty; auto simp: on_response_streams leave_def send_wrapper_def sendWindowSize_def stream_text_def split: if_splits option.splits)+

lemma responses_Cons: "responses (ev # evs) = responses [ev] @ responses evs"
  by (cases ev) simp_all

lemma stream_text_append: "stream_text t (xs @ ys) = stream_text t xs @ stream_text t ys"
  by (simp add: stream_text_def)

lemma loop_run_effect:
  "loop_run pty evs st = Some st' \<Longrightarrow>
     lp_stdout st' = lp_stdout st @ stream_text MsgTypeStdout (responses evs) \<and> lp_stderr st' = lp_stderr st @ stream_text MsgTypeStderr (responses evs) \<and>
     lp_sent st' = lp_sent st @ concat (map sent_for evs)"
proof (induction evs arbitrary: st)
  case Nil
  then show ?case by (simp add: stream_text_def)
next
  case (Cons ev evs)
  then obtain st1 where s: "loop_step pty ev st = Some st1" "loop_run pty evs st1 = Some st'" by (auto split: option.splits if_splits)
  with Cons.IH [OF s(2)] step_effect [OF s(1)] show ?case by (simp only: responses_Cons [of ev evs] stream_text_append) simp
qed

lemma ended_no_step: "loop_run pty evs st = Some st' \<Longrightarrow> lp_end st \<noteq> Looping \<Longrightarrow> evs = [] \<and> st' = st"
  using step_effect(4) by (cases evs) (auto split: option.splits if_splits)

lemma done_ends:
  assumes "loop_run pty evs st = Some st'" and "m \<in> set (responses evs)" and "rm_type m = MsgTypeDone"
  shows "lp_end st' = Exit (rm_exit_code m)"
  using assms(1,2)
proof (induction evs arbitrary: st)
  case (Cons ev evs)
  then obtain st1 where s: "loop_step pty ev st = Some st1" "loop_run pty evs st1 = Some st'" by (auto split: option.splits if_splits)
  show ?case
  proof (cases "m \<in> set (responses [ev])")
    case True
    then have ev: "ev = Got_Response m" by (cases ev) simp_all
    with s(1) have "lp_end st1 = Exit (rm_exit_code m)"
      using assms(3) by (auto simp: on_response_def wrapper_handleResponse_def leave_def msg_types split: if_splits)
    with ended_no_step [OF s(2)] show ?thesis by simp
  next
    case False
    then have "m \<in> set (responses evs)" using Cons.prems(2) responses_Cons [of ev evs] by auto
    with Cons.IH [OF s(2)] show ?thesis by blast
  qed
qed simp

lemma reader_frames:
  "\<forall>m \<in> set ms. rm.fits m \<Longrightarrow> length ms < n \<Longrightarrow>
   response_reader n (concat (map (\<lambda>m. snd (Encode (Some \<circ> marshal_ResponseMessage) None None m)) ms)) = map Got_Response ms"
proof (induction ms arbitrary: n)
  case Nil
  then show ?case by (cases n) (simp_all add: Decode_def)
next
  case (Cons m ms)
  then obtain k where n: "n = Suc k" by (cases n) auto
  have m: "rm.fits m" using Cons.prems by simp
  then have "marshal_ResponseMessage m \<noteq> []" "length (marshal_ResponseMessage m) \<le> MaxMessageSize"
    "unmarshal_ResponseMessage (marshal_ResponseMessage m) = Some m"
    using rm.closed rm.roundtrip by (auto simp: rm.fits_def)
  with Cons n Decode_frame [of "marshal_ResponseMessage m" unmarshal_ResponseMessage] show ?case
    by (simp add: rm.frame_written [OF m] del: o_apply)
qed

section \<open>Properties\<close>

text \<open>C12: the caller sees what the tool wrote and gets its exit code. Let the daemon frame output messages
  followed by the final one, and let the wrapper's loop, in either mode, take them from its reader, with
  input, signals and window changes arriving in between in any way. Then standard output and standard error
  receive exactly the bytes of their messages in order and the process exits with the tool's code.\<close>
theorem output_and_exit_relayed:
  assumes "\<forall>m \<in> set (ms @ [fin]). ResponseMessage_ok m \<and> length (marshal_ResponseMessage m) \<le> MaxMessageSize"
    and "rm_type fin = MsgTypeDone"
    and "wire = concat (map (\<lambda>m. snd (Encode (Some \<circ> marshal_ResponseMessage) None None m)) (ms @ [fin]))" and "Suc (length ms) < n"
    and "responses evs = responses (response_reader n wire)" and "loop_run pty evs (loop_init raw) = Some st"
  shows "lp_end st = Exit (rm_exit_code fin) \<and> lp_stdout st = stream_text MsgTypeStdout ms \<and> lp_stderr st = stream_text MsgTypeStderr ms"
proof -
  have m: "responses (map Got_Response xs) = xs" for xs by (induction xs) simp_all
  have "\<forall>m \<in> set (ms @ [fin]). rm.fits m" using assms(1) by (simp add: rm.fits_def)
  from reader_frames [OF this, of n] assms(3,4) have "response_reader n wire = map Got_Response (ms @ [fin])" by simp
  with assms(5) have r: "responses evs = ms @ [fin]" by (simp only: m)
  have o: "stream_text t [fin] = []" if "t = MsgTypeStdout \<or> t = MsgTypeStderr" for t
    using assms(2) that by (auto simp: stream_text_def msg_types)
  have "lp_end st = Exit (rm_exit_code fin)" using done_ends [OF assms(6) _ assms(2)] r by simp
  with loop_run_effect [OF assms(6)] o show ?thesis by (simp add: r stream_text_append loop_init_def)
qed

definition sample_out :: ResponseMessage where
  "sample_out = empty_response\<lparr>rm_type := MsgTypeStdout, rm_data := b64_encode StdEncoding ''hi''\<rparr>"

theorem output_and_exit_relayed_witness:
  "\<exists>st. loop_run False [Got_Response sample_out, Stdin_End None, Got_Response sample_done] (loop_init False) = Some st \<and>
     lp_stdout st = ''hi'' \<and> lp_end st = Exit (rm_exit_code sample_done)"
proof -
  let ?evs = "[Got_Response sample_out, Stdin_End None, Got_Response sample_done]"
  have "loop_run False ?evs (loop_init False) \<noteq> None" by code_simp
  then obtain st where st: "loop_run False ?evs (loop_init False) = Some st" by blast
  have ok: "ResponseMessage_ok sample_out" "ResponseMessage_ok sample_done" "rm_type sample_done = MsgTypeDone"
    "stream_text MsgTypeStdout [sample_out] = ''hi''" by code_simp+
  have len: "int (length (marshal_ResponseMessage sample_out)) < 1000" "int (length (marshal_ResponseMessage sample_done)) < 1000" by code_simp+
  let ?wire = "concat (map (\<lambda>m. snd (Encode (Some \<circ> marshal_ResponseMessage) None None m)) ([sample_out] @ [sample_done]))"
  have all: "\<forall>m \<in> set ([sample_out] @ [sample_done]). ResponseMessage_ok m \<and> length (marshal_ResponseMessage m) \<le> MaxMessageSize"
    using ok len by (auto simp: MaxMessageSize_def)
  then have "responses ?evs = responses (response_reader 3 ?wire)"
    using reader_frames [of "[sample_out, sample_done]" 3] by (simp add: rm.fits_def del: o_apply response_reader.simps)
  from output_and_exit_relayed [OF all ok(3) refl, of 3 ?evs False False st] this st ok(4) show ?thesis by simp
qed

section \<open>Input\<close>

lemma sent_ok:
  "loop_run pty evs st = Some st' \<Longrightarrow> \<forall>ws x. Window_Changed (Some ws) x \<in> set evs \<longrightarrow> uint16_ok (ws_rows ws) \<and> uint16_ok (ws_cols ws) \<Longrightarrow>
   m \<in> set (concat (map sent_for evs)) \<Longrightarrow> WrapperMessage_ok m"
proof -
  have n: "utf8_valid MsgTypeStdin" "utf8_valid MsgTypeSignal" "utf8_valid MsgTypeWinSize" "utf8_valid (signal_name sig)" "utf8_valid []" "uint16_ok 0" for sig
    by (rule utf8_ascii; simp add: msg_types signal_name_def char_code_def split: unix_signal.split)+ (simp add: uint16_ok_def)
  have "WrapperMessage_ok m" if "m \<in> set (sent_for ev)" "\<forall>ws x. ev = Window_Changed (Some ws) x \<longrightarrow> uint16_ok (ws_rows ws) \<and> uint16_ok (ws_cols ws)" for ev
    using that by (induction ev rule: sent_for.induct)
      (auto simp: WrapperMessage_ok_def stdin_message_def eof_message_def signal_message_def winsize_message_def zero_WrapperMessage_def n)
  moreover assume "m \<in> set (concat (map sent_for evs))" "\<forall>ws x. Window_Changed (Some ws) x \<in> set evs \<longrightarrow> uint16_ok (ws_rows ws) \<and> uint16_ok (ws_cols ws)"
  ultimately show ?thesis by auto
qed

definition stdin_data :: "WrapperMessage \<Rightarrow> bytes" where
  "stdin_data m = (if wm_type m = MsgTypeStdin then (case b64_decode StdEncoding (wm_data m) of None \<Rightarrow> [] | Some d \<Rightarrow> d) else [])"

lemma typed_Cons: "typed (ev # evs) = typed [ev] @ typed evs"
  by (cases "ev # evs" rule: typed.cases) auto

lemma stdin_data_sent: "concat (map stdin_data (concat (map sent_for evs))) = typed evs"
proof -
  have e: "b64_decode StdEncoding [] = Some []" by code_simp
  have s: "concat (map stdin_data (sent_for ev)) = typed [ev]" for ev
    by (induction ev rule: sent_for.induct)
      (simp_all add: stdin_data_def stdin_message_def eof_message_def signal_message_def winsize_message_def zero_WrapperMessage_def msg_types b64_decode_encode e)
  show ?thesis
  proof (induction evs)
    case (Cons ev evs)
    then show ?case by (subst typed_Cons) (simp add: s)
  qed simp
qed

lemma one_eof: "loop_run pty evs st = Some st' \<Longrightarrow> length (filter (\<lambda>m. m = eof_message) (concat (map sent_for evs))) \<le> (if lp_eof_sent st then 0 else 1)"
proof (induction evs arbitrary: st)
  case (Cons ev evs)
  then obtain st1 where s: "loop_step pty ev st = Some st1" "loop_run pty evs st1 = Some st'" by (auto split: option.splits if_splits)
  have d: "stdin_message c \<noteq> eof_message" "signal_message g \<noteq> eof_message" "winsize_message z \<noteq> eof_message" for c g z
    by (auto simp: stdin_message_def eof_message_def signal_message_def winsize_message_def zero_WrapperMessage_def msg_types)
  have "length (filter (\<lambda>m. m = eof_message) (sent_for ev)) + (if lp_eof_sent st1 then 0 else 1) \<le> (if lp_eof_sent st then 0 else (1::nat))"
    using s(1) by (induction ev rule: sent_for.induct)
      (auto simp: d on_response_def wrapper_handleResponse_def leave_def send_wrapper_def sendWindowSize_def split: if_splits option.splits sum.splits prod.splits bool.splits)
  with Cons.IH [OF s(2)] show ?case by simp
qed simp

text \<open>C13: what the caller types reaches the daemon. In any run of a loop, the lines the wrapper wrote are
  read back by the daemon's line reader one by one and unchanged; the data in them, in order, are the bytes
  taken from standard input, and the end of input is announced at most once. (Lines are shorter than the
  reader's limit; window sizes come from \<open>detectWindowSize\<close>, so they fit 16 bits.)\<close>
theorem input_reaches_daemon:
  assumes "loop_run pty evs (loop_init raw) = Some st"
    and "\<forall>ws x. Window_Changed (Some ws) x \<in> set evs \<longrightarrow> (\<exists>e. detectWindowSize e = Some ws)"
    and "\<forall>m \<in> set (lp_sent st). int (length (marshal_WrapperMessage m)) < limit" and "0 < limit" "limit \<le> int MaxMessageSize"
  shows "fst (read_n unmarshal_WrapperMessage (Suc (length (lp_sent st)))
       (NewNDJSONReaderWithLimit (concat (map (\<lambda>m. snd (ND_Write (Some \<circ> marshal_WrapperMessage) None False m)) (lp_sent st))) limit)) =
       map Inr (lp_sent st) @ [Inl ErrEOF] \<and>
     concat (map stdin_data (lp_sent st)) = typed evs \<and> length (filter (\<lambda>m. m = eof_message) (lp_sent st)) \<le> 1"
proof -
  have s: "lp_sent st = concat (map sent_for evs)" using loop_run_effect [OF assms(1)] by (simp add: loop_init_def)
  have w: "\<forall>ws x. Window_Changed (Some ws) x \<in> set evs \<longrightarrow> uint16_ok (ws_rows ws) \<and> uint16_ok (ws_cols ws)"
    using assms(2) window_in_range unfolding detectWindowSize_def by metis
  have "\<forall>m \<in> set (lp_sent st). wm.fits m \<and> length (marshal_WrapperMessage m) < nat limit"
    using sent_ok [OF assms(1) w] assms(3-5) s by (fastforce simp: wm.fits_def)
  then have "fst (read_n unmarshal_WrapperMessage (Suc (length (lp_sent st)))
       (NewNDJSONReaderWithLimit (concat (map (\<lambda>m. snd (ND_Write (Some \<circ> marshal_WrapperMessage) None False m)) (lp_sent st))) limit)) =
       map Inr (lp_sent st) @ [Inl ErrEOF]"
    using assms(4,5) by (intro wm.lines_read) (simp_all add: NewNDJSONReaderWithLimit_def)
  moreover have "length (filter (\<lambda>m. m = eof_message) (lp_sent st)) \<le> 1"
    using one_eof [OF assms(1)] by (simp add: s loop_init_def)
  ultimately show ?thesis using stdin_data_sent [of evs] by (simp only: s simp_thms)
qed

theorem input_reaches_daemon_witness:
  "\<exists>st. loop_run False [Stdin_Chunk ''ab'' None, Got_Signal SIGINT None, Stdin_Chunk ''c'' None, Stdin_End None] (loop_init False) = Some st \<and>
     concat (map stdin_data (lp_sent st)) = ''abc''"
proof -
  let ?evs = "[Stdin_Chunk ''ab'' None, Got_Signal SIGINT None, Stdin_Chunk ''c'' None, Stdin_End None]"
  obtain st where st: "loop_run False ?evs (loop_init False) = Some st"
    and s: "lp_sent st = [stdin_message ''ab'', signal_message SIGINT, stdin_message ''c'', eof_message]"
    by (simp add: loop_init_def send_wrapper_def)
  have l: "list_all (\<lambda>m. int (length (marshal_WrapperMessage m)) < 1000) [stdin_message ''ab'', signal_message SIGINT, stdin_message ''c'', eof_message]"
    by code_simp
  from input_reaches_daemon [OF st, of 1000] s l st show ?thesis by (simp add: list_all_iff MaxMessageSize_def)
qed

section \<open>The terminal\<close>

lemma raw_step: "loop_step pty ev st = Some st' \<Longrightarrow> (lp_raw st \<longleftrightarrow> pty) \<Longrightarrow> (lp_raw st' \<longleftrightarrow> pty \<and> lp_end st' = Looping)"
  using step_effect(4) [of pty ev st st']
  by (cases ev) (auto simp: on_response_def wrapper_handleResponse_def leave_def send_wrapper_def sendWindowSize_def
      split: if_splits option.splits sum.splits prod.splits bool.splits)

lemma raw_run: "loop_run pty evs st = Some st' \<Longrightarrow> (lp_raw st \<longleftrightarrow> pty \<and> lp_end st = Looping) \<Longrightarrow> (lp_raw st' \<longleftrightarrow> pty \<and> lp_end st' = Looping)"
proof (induction evs arbitrary: st)
  case (Cons ev evs)
  then obtain st1 where s: "loop_step pty ev st = Some st1" "loop_run pty evs st1 = Some st'" by (auto split: option.splits if_splits)
  have "lp_end st = Looping" using step_effect(4) [OF s(1)] .
  with raw_step [OF s(1)] Cons.prems(2) have "lp_raw st1 \<longleftrightarrow> pty \<and> lp_end st1 = Looping" by simp
  with Cons.IH [OF s(2)] show ?case by blast
qed simp

text \<open>The terminal is in raw mode only while the terminal loop runs. On every way out, the end of the
  tool, an error of the daemon, an undecodable or unreadable response, a failed write, also one right at the
  start, it has been restored.\<close>

lemma terminal_restored:
  assumes "enter_loop e raw_ok fail usePTY = (pty, st0)" and "loop_run pty evs st0 = Some st"
  shows "lp_raw st \<longleftrightarrow> usePTY \<and> raw_ok \<and> lp_end st = Looping"
proof -
  have "(lp_raw st0 \<longleftrightarrow> pty \<and> lp_end st0 = Looping) \<and> (pty \<longleftrightarrow> usePTY \<and> raw_ok)"
    using assms(1) by (auto simp: enter_loop_def loop_init_def sendWindowSize_def send_wrapper_def leave_def split: if_splits option.splits)
  with raw_run [OF assms(2)] show ?thesis by blast
qed

lemma terminal_restored_witness:
  "\<exists>st0 st. enter_loop sample_wrap True None True = (True, st0) \<and> loop_run True [Read_Error ErrEmptyMessage] st0 = Some st \<and> \<not> lp_raw st"
proof -
  obtain st0 where e: "enter_loop sample_wrap True None True = (True, st0)" and l: "lp_end st0 = Looping"
    by (simp add: enter_loop_def sendWindowSize_def send_wrapper_def loop_init_def detectWindowSize_def sample_wrap_def)
  then obtain st where r: "loop_run True [Read_Error ErrEmptyMessage] st0 = Some st" and x: "lp_end st \<noteq> Looping" by (simp add: leave_def)
  from terminal_restored [OF e r] x e r show ?thesis by blast
qed

end
