(* ===== verification/Admin_Laws.thy ===== *)
theory Admin_Laws
  imports Wrapper_Laws Lifecycle_Laws
begin

text \<open>
  The administrative commands across wrapper and daemon: the list of tools arrives as configured, and
  credentials are resolved only for a signed, fresh \<open>check\<close> of a caller that is claw-wrap itself.
\<close>

section \<open>The request on the wire\<close>

definition AdminRequest_ok :: "AdminRequest \<Rightarrow> bool" where
  "AdminRequest_ok r \<longleftrightarrow> in_int64 (ar_version r) \<and> utf8_valid (ar_admin r) \<and> utf8_valid (ar_timestamp r) \<and> utf8_valid (ar_nonce r) \<and> utf8_valid (ar_hmac r)"

lemma admin_members:
  assumes "AdminRequest_ok r" "json_AdminRequest r = JObj es"
  shows "list_all (\<lambda>(k, v). utf8_valid k \<and> json_valid v) es" "flat es" "key_present (rev es) ''admin''"
proof -
  note es = assms(2) [unfolded json_AdminRequest_def json.inject, symmetric]
  show "list_all (\<lambda>(k, v). utf8_valid k \<and> json_valid v) es" using assms(1) unfolding es by (simp add: AdminRequest_ok_def opt_valid)
  show "flat es" unfolding es by (simp add: flat_def opt_int_def)
  have "map_of (rev (opt_int ''version'' n)) ''admin'' = None" for n by (simp add: opt_int_def)
  then show "key_present (rev es) ''admin''" unfolding es by (simp add: key_present_def)
qed

lemma AdminRequest_roundtrip:
  assumes "AdminRequest_ok r"
  shows "unmarshal_AdminRequest (json_print (json_AdminRequest r)) = Some r"
proof -
  obtain es where es: "json_AdminRequest r = JObj es" by (simp add: json_AdminRequest_def)
  note m = admin_members [OF assms es]
  have v: "dec_members AdminRequest_names AdminRequest_field (opt_int ''version'' (ar_version r)) zero_AdminRequest = Some (zero_AdminRequest\<lparr>ar_version := ar_version r\<rparr>)"
    using assms by (simp add: opt_int_def find_field_def AdminRequest_names_def AdminRequest_field_def dec_int_format AdminRequest_ok_def zero_AdminRequest_def)
  have "dec_members AdminRequest_names AdminRequest_field es zero_AdminRequest = Some r"
    using es [symmetric] unfolding json_AdminRequest_def json.inject
    by (simp only: dec_members_append v option.case)
       (simp add: find_field_def AdminRequest_names_def AdminRequest_field_def dec_str_def zero_AdminRequest_def)
  then show ?thesis unfolding unmarshal_AdminRequest_def es unmarshal_print [OF m(1,2)] .
qed

lemma build_admin:
  assumes "buildAdminRequest e w command = Inr req" and "LoadSecret (we_fs e) (we_read_file e) (wr_authPath w) = Inr secret" and "utf8_valid command"
  shows "AdminRequest_ok req" "ar_version req = ProtocolVersion" "ar_admin req = command" "ar_timestamp req = format_int (we_now e)"
    "ar_hmac req = ComputeHMAC (we_mac e) secret (ar_timestamp req) (''admin:'' @ command) [] None (ar_nonce req)"
  using assms by (auto simp: buildAdminRequest_def GenerateNonce_def AdminRequest_ok_def ProtocolVersion_def ComputeHMAC_def ComputeHMACWithEnv_def
      ComputeHMACWithPTY_def in_int64_def min_int64_def max_int64_def Let_def split: option.splits)

section \<open>List\<close>

lemma list_tools_ok:
  assumes "gomap_ok tools"
  shows "gomap_ok (list_tools tools)"
    and "map_of (list_tools tools) = map_option (\<lambda>t. \<lparr>ti_binary = td_binary t, ti_mode = (if td_config_file t \<noteq> None then ''config_file'' else ''env'')\<rparr>) \<circ> map_of tools"
proof -
  define f :: "ToolDef \<Rightarrow> ToolInfo" where "f = (\<lambda>t. \<lparr>ti_binary = td_binary t, ti_mode = (if td_config_file t \<noteq> None then ''config_file'' else ''env'')\<rparr>)"
  have l: "list_tools ts = foldl (\<lambda>m (name, tool). map_set name (f tool) m) [] ts" for ts by (simp add: list_tools_def f_def)
  have g: "gomap_ok acc \<Longrightarrow> gomap_ok (foldl (\<lambda>m (name, tool). map_set name (f tool) m) acc ts)" for acc ts
    by (induction ts arbitrary: acc) auto
  show "gomap_ok (list_tools tools)" unfolding l by (rule g) (simp add: gomap_ok_def)
  have "distinct (map fst ts) \<Longrightarrow> map_of (foldl (\<lambda>m (name, tool). map_set name (f tool) m) acc ts) = map_of acc ++ (map_option f \<circ> map_of ts)" for acc ts
  proof (induction ts arbitrary: acc)
    case (Cons t ts)
    obtain n x where t: "t = (n, x)" by (cases t)
    have "map_of ts n = None" using Cons.prems by (simp add: t map_of_eq_None_iff)
    with Cons show ?case by (auto simp: t map_add_def fun_eq_iff split: option.split)
  qed (simp add: map_add_def fun_eq_iff)
  from this [of tools "[]"] assms have "map_of (list_tools tools) = map_option f \<circ> map_of tools"
    unfolding l by (simp add: gomap_ok_def map_add_def fun_eq_iff split: option.split)
  then show "map_of (list_tools tools) = map_option (\<lambda>t. \<lparr>ti_binary = td_binary t, ti_mode = (if td_config_file t \<noteq> None then ''config_file'' else ''env'')\<rparr>) \<circ> map_of tools"
    unfolding f_def .
qed

text \<open>The daemon as the wrapper's peer: the bytes it answers one request with.\<close>

definition daemon_reply ::
  "'x peer_env \<Rightarrow> ('e, 's) resolver \<Rightarrow> Config \<Rightarrow> exec_world \<Rightarrow> 's \<Rightarrow> Daemon \<Rightarrow> bytes \<Rightarrow> bytes option" where
  "daemon_reply p resolve cfg w s d req =
     (case handleConnection p resolve (Read_Bytes req) cfg w s d idle_conn of (r, d', c', s') \<Rightarrow> Some (cn_out c'))"

lemma daemon_list_reply:
  assumes "AdminRequest_ok req" "ar_version req = ProtocolVersion" "ar_admin req = ''list''"
    and "VerifyHMAC (pv_mac p) (pv_auth_now p) (dm_secret d) (ar_timestamp req) ''admin:list'' [] None (ar_nonce req) (ar_hmac req) = None"
    and "verify_caller p cfg d = Inr (u, exe)" and "\<not> fst (SeenOrStore (admin_key (UID u) (ar_hmac req)) (pv_replay_now p) (dm_replayCache d))"
    and "dm_cfg d = Some cfg0" "io_write1 (pv_io p) = None" and "length (json_print (json_AdminRequest req)) < 65536"
  shows "daemon_reply p resolve cfg w s d (json_print (json_AdminRequest req)) = Some (json_print (json_AdminListResponse (list_response d cfg)))"
proof -
  obtain es where es: "json_AdminRequest req = JObj es" by (simp add: json_AdminRequest_def)
  note m = admin_members [OF assms(1) es]
  let ?t = "json_print (json_AdminRequest req)"
  have t: "trim_space ?t = ?t" "?t \<noteq> []" "unmarshal_any ?t = Some (rev es)" unfolding es using object_line object_text unmarshal_any_print [OF m(1,2)] by blast+
  have pl: "payload_of (Read_Bytes ?t) = Some ?t" using t assms(9) by (simp add: payload_of_def header_limit_def)
  have un: "unmarshal_AdminRequest ?t = Some req" by (rule AdminRequest_roundtrip [OF assms(1)])
  have "0 < GetWriteTimeout cfg0" by (auto simp: GetWriteTimeout_def positive_duration_def config_defaults split: option.split)
  then have send: "cn_out (sendJSON (pv_io p) d1 v c) = cn_out c @ json_print v" if "dm_cfg d1 = Some cfg0" for d1 v c
    using that assms(8) by (simp add: sendJSON_def with_write_deadline_def daemon_getConfig_def conn_write_def)
  let ?d0 = "if exe = [] then d\<lparr>dm_unverifiedLogged := True\<rparr> else d" and ?c0 = "(set_deadlines p cfg idle_conn)\<lparr>cn_read_deadline := None\<rparr>"
  have c0: "cn_out ?c0 = []" by (simp add: set_deadlines_def idle_conn_def Let_def)
  have l: "list_response (?d0\<lparr>dm_replayCache := x\<rparr>) cfg = list_response d cfg" for x by (simp add: list_response_def)
  have "\<exists>d1 c1. handleAdminRequest p resolve ?t cfg (UID u) (PID u) s ?d0 ?c0 = (d1, c1, s) \<and> cn_out c1 = json_print (json_AdminListResponse (list_response d cfg))"
    using assms(2-4,6,7) send [of _ _ ?c0] c0 l unfolding handleAdminRequest_def un replay_check_eq by (cases "exe = []") (simp_all add: Let_def)
  then obtain d1 c1 where h: "handleAdminRequest p resolve ?t cfg (UID u) (PID u) s ?d0 ?c0 = (d1, c1, s)"
    "cn_out c1 = json_print (json_AdminListResponse (list_response d cfg))" by blast
  have "dispatch p resolve ?t cfg w s d ?c0 = (Refused, d1, c1, s)"
    unfolding dispatch_def t(3) option.case Let_def assms(5) sum.case prod.case h(1) using m(3) by simp
  then have "conn_body p resolve (Read_Bytes ?t) cfg w s d (set_deadlines p cfg idle_conn) = (Refused, d1, c1, s)"
    by (subst conn_body_payload) (simp add: pl)
  with h(2) show ?thesis by (simp add: daemon_reply_def handleConnection_def)
qed

lemma list_answer_is_no_error: "unmarshal_strings (json_print (json_AdminListResponse r)) = None \<or> \<not> AdminListResponse_ok r"
proof (cases "AdminListResponse_ok r")
  case True
  let ?es = "[(''tools'', json_map json_ToolInfo (al_tools r))] @ opt_str ''version'' (al_version r)"
  have v: "json_valid (JObj ?es)"
    using True json_map_valid [of json_ToolInfo "al_tools r"] opt_valid(1) [of "''version''" "al_version r"]
    by (auto simp: AdminListResponse_ok_def json_ToolInfo_def list_all_iff)
  have "flat ?es" using flat_json_map [of json_ToolInfo "''tools''" "al_tools r"] by (simp add: json_ToolInfo_def flat_def opt_str_def)
  from json_parse_print [OF v flat_depth [OF this]] show ?thesis
    by (simp add: unmarshal_strings_def unmarshal_def json_AdminListResponse_def dec_map_def json_map_def dec_str_def del: json_print.simps)
qed simp

section \<open>Properties\<close>

text \<open>C33: \<open>claw-wrap list\<close> shows the daemon's tools. When the wrapper's signed request reaches a daemon with
  the same secret, in time, not seen before, from the allowed caller, and the answer fits one read, the
  wrapper returns the daemon's version and, under each configured name and no other, the tool's binary and
  how it gets its credentials.\<close>
theorem list_returns_configured_tools:
  assumes "buildAdminRequest e wr ''list'' = Inr req" and "LoadSecret (we_fs e) (we_read_file e) (wr_authPath wr) = Inr (dm_secret d)"
    and "we_mac e = pv_mac p" "we_dial e" "we_write1 e = None"
    and "min_int64 \<le> we_now e" "we_now e + 62135596800 \<le> max_int64" "\<bar>pv_auth_now p - we_now e * second\<bar> \<le> MaxTimestampDrift"
    and "verify_caller p cfg d = Inr (u, exe)" and "\<not> fst (SeenOrStore (admin_key (UID u) (ar_hmac req)) (pv_replay_now p) (dm_replayCache d))"
    and "dm_cfg d = Some cfg0" "io_write1 (pv_io p) = None" and "length (json_print (json_AdminRequest req)) < 65536"
    and "length (json_print (json_AdminListResponse (list_response d cfg))) \<le> 65536"
    and "AdminListResponse_ok (list_response d cfg)" and "gomap_ok (c_tools cfg)"
  shows "\<exists>resp. wrapper_List e (daemon_reply p resolve cfg w s d) wr = Inr resp \<and> al_version resp = dm_version d \<and>
    map_of (al_tools resp) = map_option (\<lambda>t. \<lparr>ti_binary = td_binary t, ti_mode = (if td_config_file t \<noteq> None then ''config_file'' else ''env'')\<rparr>) \<circ> map_of (c_tools cfg)"
proof -
  have "utf8_valid ''list''" by (simp add: utf8_valid.simps char_code_def)
  note b = build_admin [OF assms(1,2) this]
  have "VerifyHMAC (pv_mac p) (pv_auth_now p) (dm_secret d) (ar_timestamp req) ''admin:list'' [] None (ar_nonce req) (ar_hmac req) = None"
    using timestamp_near [OF assms(6-8)] b(4,5) assms(3)
    by (simp add: auth_wrappers VerifyHMACWithPTY_iff ComputeHMACWithPTY_def b64_decode_encode)
  from daemon_list_reply [OF b(1-3) this assms(9-13)]
  have reply: "daemon_reply p resolve cfg w s d (json_print (json_AdminRequest req)) = Some (json_print (json_AdminListResponse (list_response d cfg)))" .
  then have "sendAdminRequest e (daemon_reply p resolve cfg w s d) req = Inr (json_print (json_AdminListResponse (list_response d cfg)))"
    using list_answer_is_no_error [of "list_response d cfg"] assms(4,5,14,15) by (simp add: sendAdminRequest_def Let_def)
  with assms(1) AdminListResponse_roundtrip [OF assms(15)]
  have "wrapper_List e (daemon_reply p resolve cfg w s d) wr = Inr ((list_response d cfg)\<lparr>al_tools := read_back (al_tools (list_response d cfg))\<rparr>)"
    by (simp add: wrapper_List_def)
  then show ?thesis
    using list_tools_ok [OF assms(16)] map_of_read_back [OF list_tools_ok(1) [OF assms(16)]] by (simp add: list_response_def)
qed

text \<open>C14: credentials are resolved by an administrative request only for a \<open>check\<close> that is signed under the
  daemon's secret, fresh and not replayed, from a process whose executable is an allowed binary and which was
  started under the name claw-wrap, so not through a tool's link. Otherwise the resolver is not called.\<close>
theorem check_only_for_claw_wrap:
  assumes "handleAdminRequest p resolve data cfg uid pid s d c = (d', c', s')" and "s' \<noteq> s"
  shows "\<exists>req exe argv0. unmarshal_AdminRequest data = Some req \<and> ar_admin req = ''check'' \<and> ar_version req = ProtocolVersion \<and>
    VerifyHMAC (pv_mac p) (pv_auth_now p) (dm_secret d) (ar_timestamp req) ''admin:check'' [] None (ar_nonce req) (ar_hmac req) = None \<and>
    \<not> fst (SeenOrStore (admin_key uid (ar_hmac req)) (pv_replay_now p) (dm_replayCache d)) \<and>
    pv_gate_exe p pid = Inr exe \<and> isAllowedBinary (pv_links p) (pv_cwd p) exe d \<and> pv_argv0 p pid = Inr argv0 \<and> path_base argv0 = ''claw-wrap''"
proof -
  have same: "isAllowedBinary l w x (d\<lparr>dm_replayCache := r\<rparr>) = isAllowedBinary l w x d" for l w x r by (simp add: isAllowedBinary_def)
  from assms obtain req where r: "unmarshal_AdminRequest data = Some req" "ar_admin req = ''check''" "ar_version req = ProtocolVersion"
    "VerifyHMAC (pv_mac p) (pv_auth_now p) (dm_secret d) (ar_timestamp req) (''admin:'' @ ar_admin req) [] None (ar_nonce req) (ar_hmac req) = None"
    "\<not> fst (SeenOrStore (admin_key uid (ar_hmac req)) (pv_replay_now p) (dm_replayCache d))"
    "authorizeAdminCheckCaller p pid (d\<lparr>dm_replayCache := snd (SeenOrStore (admin_key uid (ar_hmac req)) (pv_replay_now p) (dm_replayCache d))\<rparr>) = None"
    unfolding handleAdminRequest_def replay_check_eq Let_def
    by (auto split: option.splits if_splits bool.splits prod.splits)
  from r(6) have g: "\<exists>exe argv0. pv_gate_exe p pid = Inr exe \<and> isAllowedBinary (pv_links p) (pv_cwd p) exe d \<and> pv_argv0 p pid = Inr argv0 \<and> path_base argv0 = ''claw-wrap''"
    by (auto simp: authorizeAdminCheckCaller_def same split: sum.splits if_splits)
  with r show ?thesis by simp
qed

definition sample_admin :: "string \<Rightarrow> AdminRequest" where
  "sample_admin command = projr (buildAdminRequest sample_wrap sample_client command)"

theorem list_returns_configured_tools_witness:
  "\<exists>resp. wrapper_List sample_wrap (daemon_reply (sample_peer (103 * second)) (\<lambda>_ _ s. (Inl (), s)) sample_config sample_world () sample_daemon) sample_client = Inr resp \<and>
     map_of (al_tools resp) ''gh'' = Some \<lparr>ti_binary = ''/usr/bin/gh'', ti_mode = ''env''\<rparr>"
proof -
  have "\<not> isl (buildAdminRequest sample_wrap sample_client ''list'')" by code_simp
  then have b: "buildAdminRequest sample_wrap sample_client ''list'' = Inr (sample_admin ''list'')" unfolding sample_admin_def by simp
  have l: "int (length (json_print (json_AdminRequest (sample_admin ''list'')))) < 65536"
    "int (length (json_print (json_AdminListResponse (list_response sample_daemon sample_config)))) \<le> 65536" by code_simp+
  have ok: "AdminListResponse_ok (list_response sample_daemon sample_config)" "gomap_ok (c_tools sample_config)" by code_simp+
  have t: "min_int64 \<le> we_now sample_wrap" "we_now sample_wrap + 62135596800 \<le> max_int64"
    "\<bar>pv_auth_now (sample_peer (103 * second)) - we_now sample_wrap * second\<bar> \<le> MaxTimestampDrift"
    "we_mac sample_wrap = pv_mac (sample_peer (103 * second))" "we_dial sample_wrap" "we_write1 sample_wrap = None" "io_write1 (pv_io (sample_peer (103 * second))) = None"
    by (simp_all add: sample_wrap_def sample_peer_def min_int64_def max_int64_def MaxTimestampDrift_def)
  have d: "dm_cfg sample_daemon = Some sample_config" by (simp add: sample_daemon_def daemon_New_def)
  from list_returns_configured_tools [OF b sample_secret t(4-6) t(1-3) sample_caller sample_new d t(7) _ _ ok, of "\<lambda>_ _ s. (Inl (), s)" sample_world "()"] l
  show ?thesis by (auto simp: sample_config_def zero_tool_def)
qed

theorem check_only_for_claw_wrap_witness:
  "\<exists>d' c'. handleAdminRequest (sample_peer (100 * second)) (\<lambda>_ _ s. (Inr ''secret'' :: unit + string, Suc s)) (json_print (json_AdminRequest (sample_admin ''check'')))
     (zero_config\<lparr>c_credentials := [(''tok'', zero_cred)]\<rparr>) 1000 7 0 sample_daemon idle_conn = (d', c', Suc 0) \<and>
     pv_argv0 (sample_peer (100 * second)) 7 = Inr ''claw-wrap''"
proof -
  let ?h = "handleAdminRequest (sample_peer (100 * second)) (\<lambda>_ _ s. (Inr ''secret'' :: unit + string, Suc s)) (json_print (json_AdminRequest (sample_admin ''check'')))
     (zero_config\<lparr>c_credentials := [(''tok'', zero_cred)]\<rparr>) 1000 7 0 sample_daemon idle_conn"
  have "snd (snd ?h) = Suc 0" by code_simp
  then obtain d' c' where h: "?h = (d', c', Suc 0)" by (metis prod.collapse)
  from check_only_for_claw_wrap [OF h] h show ?thesis by (simp add: sample_peer_def)
qed

end
