(* ===== verification/Cli.thy ===== *)
theory Cli
  imports Daemon_Life Wrapper
begin

text \<open>
  \<open>cmd/claw-wrap/main.go\<close> and \<open>sudo_unix.go\<close>: the choice between tool and command, the flags of the daemon
  and of the installer, what list and check print, and the installation of the tools' links.
\<close>

section \<open>The command line\<close>

datatype cli_action =
    Act_Tool string "string list"
  | Act_Daemon "string list"
  | Act_List
  | Act_Check
  | Act_Install "string list"
  | Act_Keychain
  | Act_Version
  | Act_Help int \<comment> \<open>the exit code after the help text\<close>
  | Act_Unknown string

definition claw_name :: string where "claw_name = ''claw-wrap''"

text \<open>\<open>main\<close>: the words of the command line after the program's own path.\<close>

definition cli_main :: "bool \<Rightarrow> string \<Rightarrow> string list \<Rightarrow> cli_action" where
  "cli_main keychainSetupAvailable arg0 args =
     (let execName = path_base arg0
      in if execName \<noteq> claw_name then Act_Tool execName args
         else case args of
           [] \<Rightarrow> Act_Help 0
         | c # rest \<Rightarrow>
             if c = ''daemon'' then Act_Daemon rest
             else if c = ''list'' then Act_List
             else if c = ''check'' then Act_Check
             else if c = ''install'' then Act_Install rest
             else if c = ''keychain-setup'' then (if \<not> keychainSetupAvailable then Act_Unknown c else Act_Keychain)
             else if c \<in> set [''version'', ''-v'', ''--version''] then Act_Version
             else if c \<in> set [''help'', ''-h'', ''--help''] then Act_Help 0
             else Act_Unknown c)"

definition runAsTool :: "path_env \<Rightarrow> wrap_env \<Rightarrow> string \<Rightarrow> string list \<Rightarrow> wrap_error + ProxyRequest \<times> bytes" where
  "runAsTool e we toolName args = RunTool we (wrapper_New e []) toolName (Some args)"

definition printHelp :: "string \<Rightarrow> bool \<Rightarrow> string list" where
  "printHelp version keychainSetupAvailable =
     [''claw-wrap '' @ version @ '' - OpenClaw credential wrapper'', [],
      ''Usage:'',
      ''  claw-wrap <command> [options]'',
      ''  <toolname> [args...]    (when invoked via symlink)'', [],
      ''Commands:'',
      ''  daemon          Start the secrets daemon'',
      ''  list            List configured tools'',
      ''  check           Verify all credentials are accessible'',
      ''  install         Create symlinks for all tools'',
      ''                  --install-dir PATH  Install location (default: /usr/local/bin)'',
      ''                  --config PATH       Config file path'',
      ''                  --force             Replace existing files''] @
     (if keychainSetupAvailable then [''  keychain-setup  Add credential to macOS Keychain''] else []) @
     [''  version         Show version'',
      ''  help            Show this help'', [],
      ''Examples:'',
      ''  claw-wrap daemon         # Start daemon'',
      ''  claw-wrap list           # Show tools'',
      ''  claw-wrap install        # Create symlinks (auto-elevates with sudo if needed)'',
      ''  bird whoami              # Run bird with credentials (via symlink)'']"

section \<open>claw-wrap daemon\<close>

datatype flag_error = Bad_Uid string | Bad_Gid string | Bad_Auth_Mode mode_error | Bad_Socket_Mode mode_error
datatype daemon_flags = Show_Help | Start_With "daemon_option list"

text \<open>\<open>strconv.ParseUint(s, 10, 32)\<close>\<close>

definition parse_uint32 :: "string \<Rightarrow> int option" where
  "parse_uint32 s = (case parse_digits 10 s of None \<Rightarrow> None | Some n \<Rightarrow> if n < 4294967296 then Some n else None)"

fun runDaemon :: "string \<Rightarrow> string list \<Rightarrow> daemon_option list \<Rightarrow> flag_error + daemon_flags" where
  "runDaemon version [] opts = Inr (Start_With (opts @ [WithVersion version]))"
| "runDaemon version [a] opts =
     (if a = ''-h'' \<or> a = ''--help'' then Inr Show_Help else runDaemon version [] opts)"
| "runDaemon version (a # v # rest) opts =
     (if a = ''--socket'' then runDaemon version rest (opts @ [daemon_WithSocketPath v])
      else if a = ''--config'' then runDaemon version rest (opts @ [WithConfigPath v])
      else if a = ''--uid'' then
        (case parse_uint32 v of None \<Rightarrow> Inl (Bad_Uid v) | Some uid \<Rightarrow> runDaemon version rest (opts @ [WithAllowedUID uid]))
      else if a = ''--runtime-gid'' then
        (case parse_int64 v of
           None \<Rightarrow> Inl (Bad_Gid v)
         | Some gid \<Rightarrow> if gid < 0 then Inl (Bad_Gid v) else runDaemon version rest (opts @ [WithRuntimeGID gid]))
      else if a = ''--auth-mode'' then
        (case ParseAuthFileMode v of Inl x \<Rightarrow> Inl (Bad_Auth_Mode x) | Inr mode \<Rightarrow> runDaemon version rest (opts @ [WithAuthFileMode mode]))
      else if a = ''--socket-mode'' then
        (case ParseSocketFileMode v of Inl x \<Rightarrow> Inl (Bad_Socket_Mode x) | Inr mode \<Rightarrow> runDaemon version rest (opts @ [WithSocketFileMode mode]))
      else if a = ''-h'' \<or> a = ''--help'' then Inr Show_Help
      else runDaemon version (v # rest) opts)"

section \<open>claw-wrap list and check\<close>

text \<open>\<open>%-12s\<close>: padded on the right to a width in runes.\<close>

definition pad_right :: "nat \<Rightarrow> string \<Rightarrow> string" where
  "pad_right width s = s @ replicate (width - length (runes s)) CHR '' ''"

definition warnVersionMismatch :: "path_env \<Rightarrow> string \<Rightarrow> string \<Rightarrow> string option" where
  "warnVersionMismatch e version daemonVersion =
     (if daemonVersion \<noteq> [] \<and> daemonVersion \<noteq> version
      then Some (''Warning: daemon is '' @ daemonVersion @ '', client is '' @ version @ '' '' @ [CHR 0xE2, CHR 0x80, CHR 0x94] @ '' restart daemon:'' @ [LF] @ ''  '' @ RestartHint e @ [LF, LF])
      else None)"

text \<open>Both commands print in the map's iteration order; \<open>check\<close> fails when a credential did.\<close>

definition list_lines :: "AdminListResponse \<Rightarrow> string list" where
  "list_lines resp =
     [''Configured tools:'', []] @
     map (\<lambda>(name, info). ''  '' @ pad_right 12 name @ '' '' @ ti_binary info @ '' ('' @ ti_mode info @ '')'') (al_tools resp)"

text \<open>The result: an error of the client, or the warning on standard error and the lines on standard output.\<close>

definition runList :: "path_env \<Rightarrow> wrap_env \<Rightarrow> (bytes \<Rightarrow> bytes option) \<Rightarrow> string \<Rightarrow> wrap_error + string option \<times> string list" where
  "runList e we reply version =
     (case wrapper_List we reply (wrapper_New e []) of
        Inl x \<Rightarrow> Inl x
      | Inr resp \<Rightarrow> Inr (warnVersionMismatch e version (al_version resp), list_lines resp))"

definition check_line :: "string \<times> CredentialInfo \<Rightarrow> string" where
  "check_line x =
     (case x of (name, info) \<Rightarrow>
        if ci_status info = ''ok'' then ''  '' @ pad_right 24 name @ '' OK ('' @ ci_preview info @ '')''
        else ''  '' @ pad_right 24 name @ '' FAILED'')"

definition proxy_lines :: "HTTPProxyInfo \<Rightarrow> string list" where
  "proxy_lines h =
     [[], ''HTTP Proxy:'', ''  Listen:     '' @ hi_listen h, ''  CA cert:    '' @ hi_ca_cert_path h] @
     (if hi_auth_token_path h \<noteq> [] then [''  Auth token: '' @ hi_auth_token_path h] else []) @
     [[], ''Usage:''] @
     [if hi_auth_token_path h \<noteq> []
      then ''  export HTTPS_PROXY='' @ [DQUOTE] @ ''http://claw:$(cat '' @ hi_auth_token_path h @ '')@'' @ hi_listen h @ [DQUOTE]
      else ''  export HTTPS_PROXY='' @ [DQUOTE] @ ''http://'' @ hi_listen h @ [DQUOTE],
      ''  export SSL_CERT_FILE='' @ [DQUOTE] @ hi_ca_cert_path h @ [DQUOTE]]"

definition check_lines :: "AdminCheckResponse \<Rightarrow> bool \<times> string list" where
  "check_lines resp =
     (let allOk = list_all (\<lambda>(name, info). ci_status info = ''ok'') (ac_credentials resp);
          ls = [''Checking credentials...'', []] @ map check_line (ac_credentials resp)
      in if \<not> allOk then (False, ls)
         else (True, ls @ (case ac_http_proxy resp of None \<Rightarrow> [] | Some h \<Rightarrow> if hi_enabled h then proxy_lines h else [])))"

definition runCheck :: "path_env \<Rightarrow> wrap_env \<Rightarrow> (bytes \<Rightarrow> bytes option) \<Rightarrow> string \<Rightarrow> wrap_error + string option \<times> bool \<times> string list" where
  "runCheck e we reply version =
     (case wrapper_Check we reply (wrapper_New e []) of
        Inl x \<Rightarrow> Inl x
      | Inr resp \<Rightarrow> Inr (warnVersionMismatch e version (ac_version resp), check_lines resp))"

section \<open>claw-wrap install\<close>

datatype inode = In_File bytes | In_Dir | In_Link string | In_Special

type_synonym ifs = "string \<rightharpoonup> inode"

text \<open>What the installer meets besides the directory's entries: failing calls, resolved links, its own path.\<close>

record install_env =
  ie_lstat_err :: "string \<Rightarrow> bool" \<comment> \<open>an error other than absence\<close>
  ie_readlink_err :: "string \<Rightarrow> bool"
  ie_eval :: "string \<Rightarrow> string option"
  ie_cwd :: "string option"
  ie_remove :: "string \<Rightarrow> bool"
  ie_symlink :: "string \<Rightarrow> bool"
  ie_exe :: "string option"
  ie_stat_dir :: "string \<Rightarrow> bool option" \<comment> \<open>\<open>Some True\<close>: a directory; \<open>None\<close>: not there, or an error\<close>
  ie_create :: "string \<Rightarrow> bool"
  ie_follow :: "string \<Rightarrow> string" \<comment> \<open>where the links at a path end\<close>
  ie_uid :: int

datatype install_fail = Bad_Name | Lstat_Failed | Readlink_Failed | Conflict | Is_Directory | Remove_Failed | Symlink_Failed
datatype install_result = Created | Replaced | Unchanged | Install_Failed install_fail

definition safeToolNameRegex :: regex where
  "safeToolNameRegex =
     Cat Bol (Cat (Plus (Chr (\<lambda>c. is_upper c \<or> is_lower c \<or> is_digit c \<or> c = CHR ''.'' \<or> c = CHR ''_'' \<or> c = CHR ''-''))) Eol)"

definition normalizeInstallPath :: "install_env \<Rightarrow> string \<Rightarrow> string" where
  "normalizeInstallPath e path =
     (let p1 = (case ie_eval e path of Some resolved \<Rightarrow> resolved | None \<Rightarrow> path);
          p2 = (case path_abs (ie_cwd e) p1 of Some a \<Rightarrow> a | None \<Rightarrow> p1)
      in path_clean p2)"

definition symlinkPointsTo :: "install_env \<Rightarrow> string \<Rightarrow> string \<Rightarrow> string \<Rightarrow> bool option" where
  "symlinkPointsTo e linkPath link targetPath =
     (if ie_readlink_err e linkPath then None
      else let actualTarget = (if is_abs link then link else path_join [path_dir linkPath, link])
           in Some (normalizeInstallPath e actualTarget = normalizeInstallPath e targetPath))"

definition removeInstallTarget :: "install_env \<Rightarrow> string \<Rightarrow> inode \<Rightarrow> ifs \<Rightarrow> install_fail option \<times> ifs" where
  "removeInstallTarget e path node fs =
     (if node = In_Dir then (Some Is_Directory, fs)
      else if ie_remove e path then (None, fs(path := None)) else (Some Remove_Failed, fs))"

definition make_link :: "install_env \<Rightarrow> string \<Rightarrow> string \<Rightarrow> install_result \<Rightarrow> ifs \<Rightarrow> install_result \<times> ifs" where
  "make_link e claw linkPath result fs =
     (if ie_symlink e linkPath \<and> fs linkPath = None then (result, fs(linkPath \<mapsto> In_Link claw)) else (Install_Failed Symlink_Failed, fs))"

text \<open>One tool of the loop: what is at its link path decides.\<close>

definition replace_target :: "install_env \<Rightarrow> bool \<Rightarrow> string \<Rightarrow> string \<Rightarrow> inode \<Rightarrow> ifs \<Rightarrow> install_result \<times> ifs" where
  "replace_target e force claw linkPath node fs =
     (if \<not> force then (Install_Failed Conflict, fs)
      else case removeInstallTarget e linkPath node fs of
        (Some x, fs1) \<Rightarrow> (Install_Failed x, fs1)
      | (None, fs1) \<Rightarrow> make_link e claw linkPath Replaced fs1)"

definition install_tool :: "install_env \<Rightarrow> bool \<Rightarrow> string \<Rightarrow> string \<Rightarrow> string \<Rightarrow> ifs \<Rightarrow> install_result \<times> ifs" where
  "install_tool e force claw installDir toolName fs =
     (if \<not> match_string safeToolNameRegex toolName then (Install_Failed Bad_Name, fs)
      else let linkPath = path_join [installDir, toolName]
           in if ie_lstat_err e linkPath then (Install_Failed Lstat_Failed, fs)
              else case fs linkPath of
                None \<Rightarrow> make_link e claw linkPath Created fs
              | Some (In_Link link) \<Rightarrow>
                  (case symlinkPointsTo e linkPath link claw of
                     None \<Rightarrow> (Install_Failed Readlink_Failed, fs)
                   | Some True \<Rightarrow> (Unchanged, fs)
                   | Some False \<Rightarrow> replace_target e force claw linkPath (In_Link link) fs)
              | Some node \<Rightarrow> replace_target e force claw linkPath node fs)"

fun install_loop :: "install_env \<Rightarrow> bool \<Rightarrow> string \<Rightarrow> string \<Rightarrow> string list \<Rightarrow> ifs \<Rightarrow> install_result list \<times> ifs" where
  "install_loop e force claw dir [] fs = ([], fs)"
| "install_loop e force claw dir (t # ts) fs =
     (case install_tool e force claw dir t fs of (r, fs1) \<Rightarrow> (case install_loop e force claw dir ts fs1 of (rs, fs2) \<Rightarrow> (r # rs, fs2)))"

definition selfExePath :: "install_env \<Rightarrow> string option" where
  "selfExePath e =
     (case ie_exe e of None \<Rightarrow> None | Some exe \<Rightarrow> map_option path_clean (path_abs (ie_cwd e) exe))"

text \<open>
  \<open>os.Create\<close> opens for writing, makes the file when there is none and empties the one there is. It follows a
  symbolic link: the file made or emptied is then the one the link leads to. A directory cannot be opened so,
  and a device or pipe has nothing to empty.
\<close>

definition create_target :: "install_env \<Rightarrow> string \<Rightarrow> ifs \<Rightarrow> string" where
  "create_target e path fs = (case fs path of Some (In_Link link) \<Rightarrow> ie_follow e path | _ \<Rightarrow> path)"

definition os_Create :: "install_env \<Rightarrow> string \<Rightarrow> ifs \<Rightarrow> ifs option" where
  "os_Create e path fs =
     (let target = create_target e path fs
      in if \<not> ie_create e path \<or> fs target = Some In_Dir then None
         else if fs target = Some In_Special then Some fs
         else Some (fs(target \<mapsto> In_File [])))"

text \<open>\<open>canWriteDir\<close> makes a test file and removes the entry of its name, also one that was there before.\<close>

definition canWriteDir :: "install_env \<Rightarrow> string \<Rightarrow> ifs \<Rightarrow> bool \<times> bool \<times> ifs" where
  "canWriteDir e dir fs =
     (let testFile = path_join [dir, ''.claw-wrap-test'']
      in if ie_stat_dir e dir \<noteq> Some True then (False, False, fs)
         else case os_Create e testFile fs of
           None \<Rightarrow> (False, True, fs)
         | Some fs1 \<Rightarrow> (True, True, if ie_remove e testFile then fs1(testFile := None) else fs1))"

definition isRoot :: "install_env \<Rightarrow> bool" where "isRoot e = (ie_uid e = 0)"

fun install_flags :: "string list \<Rightarrow> string \<times> string \<times> bool \<Rightarrow> string \<times> string \<times> bool" where
  "install_flags [] acc = acc"
| "install_flags [a] (dir, cfg, force) = (dir, cfg, force \<or> a = ''--force'')"
| "install_flags (a # v # rest) (dir, cfg, force) =
     (if a = ''--install-dir'' then install_flags rest (v, cfg, force)
      else if a = ''--config'' then install_flags rest (dir, v, force)
      else install_flags (v # rest) (dir, cfg, force \<or> a = ''--force''))"

datatype install_outcome =
    Install_Load load_error | No_Tools string | No_Self | No_Directory string | Not_Writable string | Reexec_Sudo
  | Install_Done nat nat nat \<comment> \<open>created, replaced, unchanged\<close>
  | Links_Failed nat nat nat bool \<comment> \<open>failed, total, conflicts, and whether to advise --force\<close>

definition is_failed :: "install_result \<Rightarrow> bool" where
  "is_failed r = (case r of Install_Failed _ \<Rightarrow> True | _ \<Rightarrow> False)"

definition count_results :: "install_result \<Rightarrow> install_result list \<Rightarrow> nat" where
  "count_results r rs = length (filter (\<lambda>x. x = r) rs)"

definition install_summary :: "bool \<Rightarrow> install_result list \<Rightarrow> install_outcome" where
  "install_summary force rs =
     (let failed = length (filter is_failed rs); conflicts = count_results (Install_Failed Conflict) rs
      in if failed > 0 then Links_Failed failed (length rs) conflicts (conflicts > 0 \<and> \<not> force)
         else Install_Done (count_results Created rs) (count_results Replaced rs) (count_results Unchanged rs))"

text \<open>\<open>runInstall\<close>; the names come in the map's iteration order.\<close>

definition runInstall ::
  "install_env \<Rightarrow> (string \<Rightarrow> load_error + Config) \<Rightarrow> string list \<Rightarrow> ifs \<Rightarrow> install_outcome \<times> ifs" where
  "runInstall e load args fs =
     (let (dir0, cfg0, force) = install_flags args ([], [], False);
          configPath = (if cfg0 = [] then ConfigPath else cfg0);
          installDir = (if dir0 = [] then ''/usr/local/bin'' else dir0)
      in case load configPath of
           Inl x \<Rightarrow> (Install_Load x, fs)
         | Inr cfg \<Rightarrow>
             if c_tools cfg = [] then (No_Tools configPath, fs)
             else (case selfExePath e of
                     None \<Rightarrow> (No_Self, fs)
                   | Some claw \<Rightarrow>
                       (case canWriteDir e installDir fs of
                          (canWrite, dirExists, fs1) \<Rightarrow>
                            if \<not> dirExists then (No_Directory installDir, fs1)
                            else if \<not> canWrite then (if isRoot e then (Not_Writable installDir, fs1) else (Reexec_Sudo, fs1))
                            else (case install_loop e force claw installDir (map fst (c_tools cfg)) fs1 of
                                    (rs, fs2) \<Rightarrow> (install_summary force rs, fs2)))))"

text \<open>\<open>reexecWithSudo\<close>: the command the process is replaced by.\<close>

definition reexecWithSudo :: "string option \<Rightarrow> string option \<Rightarrow> string list \<Rightarrow> string list option" where
  "reexecWithSudo sudo exe args =
     (case sudo of None \<Rightarrow> None | Some s \<Rightarrow> (case exe of None \<Rightarrow> None | Some x \<Rightarrow> Some ([s, x] @ args)))"

section \<open>claw-wrap keychain-setup\<close>

text \<open>
  \<open>KeychainSetup\<close> of \<open>keychain_darwin.go\<close>, and of the stub elsewhere. It runs \<open>security\<close> twice, the second
  time with \<open>-w\<close> as the last word, so that the tool asks for the secret itself. What a failing command
  printed, on either stream, is the text its result carries.
\<close>

datatype keychain_error =
    Keychain_Usage | Keychain_No_Self | Keychain_Not_Macos | Keychain_Exists | Keychain_Locked | Keychain_Cancelled | Keychain_Add_Failed

definition keychain_failure :: "string \<Rightarrow> keychain_error" where
  "keychain_failure text =
     (let stderr = to_lower (trim_space text)
      in if contains_str stderr ''already exists'' then Keychain_Exists
         else if contains_str stderr ''interaction is not allowed'' then Keychain_Locked
         else if contains_str stderr ''user canceled'' \<or> contains_str stderr ''operation canceled'' then Keychain_Cancelled
         else Keychain_Add_Failed)"

definition KeychainSetup :: "sys \<Rightarrow> string \<Rightarrow> string \<Rightarrow> command list \<Rightarrow> keychain_error option \<times> command list" where
  "KeychainSetup s serviceName binaryPath tr =
     (if pe_goos (sy_paths s) \<noteq> ''darwin'' then (Some Keychain_Not_Macos, tr)
      else let (_, tr1) = run_command s \<lparr>cm_argv = [''security'', ''delete-generic-password'', ''-s'', serviceName, ''-a'', keychainAccountName],
                              cm_env = None\<rparr> tr;
               args = [''add-generic-password'', ''-s'', serviceName, ''-a'', keychainAccountName, ''-U''] @
                      (if binaryPath \<noteq> [] then [''-T'', binaryPath] else []) @ [''-w''];
               (r, tr2) = run_command s \<lparr>cm_argv = ''security'' # args, cm_env = None\<rparr> tr1
           in (case r of
                 Cmd_Output out \<Rightarrow> None
               | Cmd_Exit code text \<Rightarrow> Some (keychain_failure text)
               | _ \<Rightarrow> Some (keychain_failure []), tr2))"

datatype keychain_run = Keychain_Help | Keychain_Done string

definition runKeychainSetup :: "sys \<Rightarrow> install_env \<Rightarrow> string list \<Rightarrow> command list \<Rightarrow> (keychain_error + keychain_run) \<times> command list" where
  "runKeychainSetup s e args tr =
     (case args of
        [] \<Rightarrow> (Inl Keychain_Usage, tr)
      | a # rest \<Rightarrow>
          if a = ''-h'' \<or> a = ''--help'' then (Inr Keychain_Help, tr)
          else case selfExePath e of
            None \<Rightarrow> (Inl Keychain_No_Self, tr)
          | Some binaryPath \<Rightarrow>
              (case KeychainSetup s a binaryPath tr of
                 (Some x, tr1) \<Rightarrow> (Inl x, tr1)
               | (None, tr1) \<Rightarrow> (Inr (Keychain_Done (''keychain:'' @ a)), tr1)))"

end
