(* ===== verification/Cli_Laws.thy ===== *)
theory Cli_Laws
  imports Cli Lifecycle_Laws
begin

text \<open>
  What the command line guarantees: the daemon's flags give a daemon that passes its own start-up checks,
  and the installer makes every tool's link or says so, touching nothing else but its test file.
\<close>

section \<open>Flags of the daemon\<close>

definition good_option :: "daemon_option \<Rightarrow> bool" where
  "good_option opt \<longleftrightarrow> (\<forall>d. let d' = opt d in
     (-1 \<le> dm_runtimeGID d \<longrightarrow> -1 \<le> dm_runtimeGID d') \<and> (0 \<le> dm_allowedUID d \<longrightarrow> 0 \<le> dm_allowedUID d' \<and> (dm_allowedUID d < 4294967296 \<longrightarrow> dm_allowedUID d' < 4294967296)) \<and>
     (IsAllowedAuthFileMode (dm_authFileMode d) \<longrightarrow> IsAllowedAuthFileMode (dm_authFileMode d')) \<and>
     (IsAllowedSocketFileMode (dm_socketFileMode d) \<longrightarrow> IsAllowedSocketFileMode (dm_socketFileMode d')) \<and>
     dm_allowedBinaries d' = dm_allowedBinaries d \<and> dm_proxyAuthToken d' = dm_proxyAuthToken d \<and> dm_metrics d' = dm_metrics d)"

lemma good_paths: "good_option (daemon_WithSocketPath v)" "good_option (WithConfigPath v)" "good_option (WithVersion v)"
  by (simp_all add: good_option_def daemon_WithSocketPath_def WithConfigPath_def WithVersion_def)

lemma good_uid: "parse_uint32 v = Some n \<Longrightarrow> good_option (WithAllowedUID n)"
  using digits_val_nonneg [of 0 10 v n]
  by (auto simp: good_option_def WithAllowedUID_def parse_uint32_def parse_digits_def split: option.splits if_splits)

lemma good_modes:
  "ParseAuthFileMode v = Inr m \<Longrightarrow> good_option (WithAuthFileMode m)" "ParseSocketFileMode v = Inr m \<Longrightarrow> good_option (WithSocketFileMode m)"
  "0 \<le> g \<Longrightarrow> good_option (WithRuntimeGID g)"
  by (auto simp: good_option_def WithAuthFileMode_def WithSocketFileMode_def WithRuntimeGID_def ParseAuthFileMode_def ParseSocketFileMode_def
      split: sum.splits if_splits)

lemma good_snoc: "\<forall>opt \<in> set opts. good_option opt \<Longrightarrow> good_option opt0 \<Longrightarrow> \<forall>opt \<in> set (opts @ [opt0]). good_option opt"
  by simp

lemma flags_good:
  "runDaemon version args opts = Inr (Start_With opts') \<Longrightarrow> \<forall>opt \<in> set opts. good_option opt \<Longrightarrow> \<forall>opt \<in> set opts'. good_option opt"
proof (induction version args opts rule: runDaemon.induct)
  case (1 version opts)
  from 1(1) have "opts' = opts @ [WithVersion version]" by simp
  then show ?case using good_snoc [OF 1(2) good_paths(3)] by simp
next
  case (2 version a opts)
  from 2(2) have "\<not> (a = ''-h'' \<or> a = ''--help'')" "runDaemon version [] opts = Inr (Start_With opts')" by (simp_all only: runDaemon.simps split: if_splits) simp_all
  from 2(1) [OF this 2(3)] show ?case .
next
  case (3 version a v rest opts)
  note run = 3(8) and good = 3(9)
  consider "a = ''--socket''" | "a = ''--config''" | "a = ''--uid''" | "a = ''--runtime-gid''" | "a = ''--auth-mode''" | "a = ''--socket-mode''"
    | "a = ''-h'' \<or> a = ''--help''"
    | "a \<noteq> ''--socket''" "a \<noteq> ''--config''" "a \<noteq> ''--uid''" "a \<noteq> ''--runtime-gid''" "a \<noteq> ''--auth-mode''" "a \<noteq> ''--socket-mode''"
      "\<not> (a = ''-h'' \<or> a = ''--help'')"
    by blast
  then show ?case
  proof cases
    case 1
    then show ?thesis using run 3(1) good_snoc [OF good good_paths(1)] by simp
  next
    case 2
    then show ?thesis using run 3(2) good_snoc [OF good good_paths(2)] by simp
  next
    case 3
    then obtain n where "parse_uint32 v = Some n" using run by (cases "parse_uint32 v") simp_all
    then show ?thesis using 3 run "3.IH"(3) good_snoc [OF good good_uid] by simp
  next
    case 4
    then obtain n where "parse_int64 v = Some n" "0 \<le> n" using run by (cases "parse_int64 v") (simp_all split: if_splits)
    then show ?thesis using 4 run "3.IH"(4) good_snoc [OF good good_modes(3)] by simp
  next
    case 5
    then obtain n where "ParseAuthFileMode v = Inr n" using run by (cases "ParseAuthFileMode v") simp_all
    then show ?thesis using 5 run "3.IH"(5) good_snoc [OF good good_modes(1)] by simp
  next
    case 6
    then obtain n where "ParseSocketFileMode v = Inr n" using run by (cases "ParseSocketFileMode v") simp_all
    then show ?thesis using 6 run "3.IH"(6) good_snoc [OF good good_modes(2)] by simp
  next
    case 7
    then show ?thesis using run by auto
  next
    case 8
    then have "runDaemon version (v # rest) opts = Inr (Start_With opts')" using run by simp
    with "3.IH"(7) [OF 8] good show ?thesis by simp
  qed
qed

lemma fold_good:
  "\<forall>opt \<in> set opts. good_option opt \<Longrightarrow> -1 \<le> dm_runtimeGID d \<Longrightarrow> 0 \<le> dm_allowedUID d \<Longrightarrow> dm_allowedUID d < 4294967296 \<Longrightarrow>
   IsAllowedAuthFileMode (dm_authFileMode d) \<Longrightarrow> IsAllowedSocketFileMode (dm_socketFileMode d) \<Longrightarrow>
   let d' = fold (\<lambda>opt d. opt d) opts d in
     -1 \<le> dm_runtimeGID d' \<and> 0 \<le> dm_allowedUID d' \<and> dm_allowedUID d' < 4294967296 \<and> IsAllowedAuthFileMode (dm_authFileMode d') \<and>
     IsAllowedSocketFileMode (dm_socketFileMode d') \<and> dm_allowedBinaries d' = dm_allowedBinaries d \<and> dm_proxyAuthToken d' = dm_proxyAuthToken d \<and>
     dm_metrics d' = dm_metrics d"
proof (induction opts arbitrary: d)
  case (Cons opt opts)
  have g: "good_option opt" using Cons.prems(1) by simp
  have "let d' = fold (\<lambda>opt d. opt d) opts (opt d) in
     -1 \<le> dm_runtimeGID d' \<and> 0 \<le> dm_allowedUID d' \<and> dm_allowedUID d' < 4294967296 \<and> IsAllowedAuthFileMode (dm_authFileMode d') \<and>
     IsAllowedSocketFileMode (dm_socketFileMode d') \<and> dm_allowedBinaries d' = dm_allowedBinaries (opt d) \<and> dm_proxyAuthToken d' = dm_proxyAuthToken (opt d) \<and>
     dm_metrics d' = dm_metrics (opt d)"
    by (rule Cons.IH) (use Cons.prems g in \<open>auto simp: good_option_def Let_def\<close>)
  then show ?case using g by (simp add: good_option_def Let_def)
qed simp

text \<open>C39: whatever flags \<open>claw-wrap daemon\<close> accepts, the daemon they make is well formed: its user fits 32 bits,
  its runtime group is unset or not negative, the modes of the secret and of the socket are allowed ones, so its
  start-up refuses none of them; and no flag widens the set of binaries that may call it.\<close>
theorem daemon_flags_well_formed:
  assumes "runDaemon version args [] = Inr (Start_With opts)"
  shows "let d = daemon_New p opts in
    0 \<le> dm_allowedUID d \<and> dm_allowedUID d < 4294967296 \<and> -1 \<le> dm_runtimeGID d \<and>
    IsAllowedAuthFileMode (dm_authFileMode d) \<and> IsAllowedSocketFileMode (dm_socketFileMode d) \<and> dm_allowedBinaries d = own_binaries p \<and>
    (ValidateRuntimeDirEnv (le_paths e) = None \<longrightarrow> run_guards e d = None)"
proof -
  have g: "\<forall>opt \<in> set opts. good_option opt" using flags_good [OF assms] by simp
  have m: "IsAllowedAuthFileMode 384" "IsAllowedSocketFileMode 384" by (simp_all add: IsAllowedAuthFileMode_def IsAllowedSocketFileMode_def)
  define d0 where "d0 = daemon_New p []"
  have n: "daemon_New p opts = fold (\<lambda>opt d. opt d) opts d0" by (simp add: daemon_New_def d0_def)
  have f: "-1 \<le> dm_runtimeGID d0" "0 \<le> dm_allowedUID d0" "dm_allowedUID d0 < 4294967296" "IsAllowedAuthFileMode (dm_authFileMode d0)"
    "IsAllowedSocketFileMode (dm_socketFileMode d0)" "dm_allowedBinaries d0 = own_binaries p"
    using m by (simp_all add: d0_def daemon_New_def defaultAuthFileMode_def defaultSocketFileMode_def)
  from fold_good [OF g f(1-5)] f(6) show ?thesis by (simp add: n Let_def run_guards_def)
qed

theorem daemon_flags_well_formed_witness:
  "\<exists>opts. runDaemon ''1.0'' [''--auth-mode'', ''0640'', ''--uid'', ''1001''] [] = Inr (Start_With opts) \<and>
     IsAllowedAuthFileMode (dm_authFileMode (daemon_New \<lparr>pn_exe = None, pn_args = [], pn_uid = 0, pn_links = Some, pn_cwd = None, pn_paths = sample_path_env\<rparr> opts))"
proof -
  let ?r = "runDaemon ''1.0'' [''--auth-mode'', ''0640'', ''--uid'', ''1001''] []"
  have "case ?r of Inr (Start_With opts) \<Rightarrow> True | _ \<Rightarrow> False" by code_simp
  then obtain opts where r: "?r = Inr (Start_With opts)" by (auto split: sum.splits daemon_flags.splits)
  from daemon_flags_well_formed [OF r] r show ?thesis by (auto simp: Let_def)
qed

section \<open>The installer\<close>

definition links_to :: "install_env \<Rightarrow> string \<Rightarrow> string \<Rightarrow> ifs \<Rightarrow> bool" where
  "links_to e claw p fs \<longleftrightarrow> (\<exists>link. fs p = Some (In_Link link) \<and> (link = claw \<or> symlinkPointsTo e p link claw = Some True))"

text \<open>What one tool may change: its own link path, never a directory, and an existing entry only when forced.\<close>

definition may_change :: "bool \<Rightarrow> string \<Rightarrow> string list \<Rightarrow> ifs \<Rightarrow> string \<Rightarrow> bool" where
  "may_change force dir ts fs p \<longleftrightarrow>
     (\<exists>t \<in> set ts. match_string safeToolNameRegex t \<and> p = path_join [dir, t]) \<and> fs p \<noteq> Some In_Dir \<and> (fs p \<noteq> None \<longrightarrow> force)"

lemma make_link_cases:
  assumes "make_link e claw lp res fs = (r, fs')"
  shows "(\<forall>p. p \<noteq> lp \<longrightarrow> fs' p = fs p) \<and> (\<not> is_failed r \<longrightarrow> fs' lp = Some (In_Link claw))"
  using assms by (auto simp: make_link_def is_failed_def split: if_splits)

lemma replace_target_cases:
  assumes "replace_target e force claw lp node fs = (r, fs')" "fs lp = Some node"
  shows "(\<forall>p. p \<noteq> lp \<longrightarrow> fs' p = fs p) \<and> (fs' lp \<noteq> fs lp \<longrightarrow> force \<and> fs lp \<noteq> Some In_Dir) \<and> (\<not> is_failed r \<longrightarrow> fs' lp = Some (In_Link claw))"
proof (cases "force \<and> node \<noteq> In_Dir \<and> ie_remove e lp")
  case True
  then have "make_link e claw lp Replaced (fs(lp := None)) = (r, fs')"
    using assms(1) by (simp add: replace_target_def removeInstallTarget_def)
  from make_link_cases [OF this] True assms(2) show ?thesis by simp
next
  case False
  then have "fs' = fs \<and> is_failed r"
    using assms(1) by (auto simp: replace_target_def removeInstallTarget_def is_failed_def split: if_splits)
  then show ?thesis by simp
qed

lemma only_link:
  assumes "\<forall>p. p \<noteq> path_join [dir, t] \<longrightarrow> fs' p = fs p" "match_string safeToolNameRegex t"
    "fs' (path_join [dir, t]) \<noteq> fs (path_join [dir, t]) \<longrightarrow> fs (path_join [dir, t]) \<noteq> Some In_Dir \<and> (fs (path_join [dir, t]) \<noteq> None \<longrightarrow> force)"
  shows "\<forall>p. fs' p \<noteq> fs p \<longrightarrow> may_change force dir [t] fs p"
proof (intro allI impI)
  fix p assume d: "fs' p \<noteq> fs p"
  then have p: "p = path_join [dir, t]" using assms(1) by blast
  with d assms(2,3) show "may_change force dir [t] fs p" by (simp add: may_change_def)
qed

lemma install_tool_cases:
  assumes "install_tool e force claw dir t fs = (r, fs')"
  shows "(\<forall>p. fs' p \<noteq> fs p \<longrightarrow> may_change force dir [t] fs p) \<and> (\<not> is_failed r \<longrightarrow> links_to e claw (path_join [dir, t]) fs')"
proof -
  let ?lp = "path_join [dir, t]"
  have stay: "fs' = fs \<and> is_failed r \<Longrightarrow> ?thesis" by simp
  show ?thesis
  proof (cases "match_string safeToolNameRegex t \<and> \<not> ie_lstat_err e ?lp")
    case False
    then show ?thesis using assms by (intro stay) (auto simp: install_tool_def Let_def is_failed_def split: if_splits)
  next
    case True
    then have name: "match_string safeToolNameRegex t" and lstat: "\<not> ie_lstat_err e ?lp" by simp_all
    note step = assms [unfolded install_tool_def Let_def, simplified name lstat if_True if_False simp_thms]
    have other: ?thesis if "replace_target e force claw ?lp node fs = (r, fs')" "fs ?lp = Some node" for node
      using replace_target_cases [OF that] only_link [of dir t fs' fs force] name by (simp add: links_to_def)
    show ?thesis
    proof (cases "fs ?lp")
      case None
      then have "make_link e claw ?lp Created fs = (r, fs')" using step by simp
      from make_link_cases [OF this] only_link [of dir t fs' fs force] name None show ?thesis by (simp add: links_to_def)
    next
      case (Some node)
      show ?thesis
      proof (cases "\<exists>link. node = In_Link link \<and> symlinkPointsTo e ?lp link claw \<noteq> Some False")
        case True
        then obtain link where l: "node = In_Link link" "symlinkPointsTo e ?lp link claw \<noteq> Some False" by blast
        then show ?thesis using step Some by (auto simp: is_failed_def links_to_def split: option.splits bool.splits)
      next
        case False
        then have "replace_target e force claw ?lp node fs = (r, fs')" using step Some by (cases node) simp_all
        from other [OF this Some] show ?thesis .
      qed
    qed
  qed
qed

text \<open>A link that is right stays right through the tools that follow it, even one of the same path.\<close>

lemma links_to_kept:
  assumes "install_tool e force claw dir t fs = (r, fs')" "\<not> is_failed r" "links_to e claw p fs"
  shows "links_to e claw p fs'"
proof (cases "p = path_join [dir, t]")
  case True
  then show ?thesis using install_tool_cases [OF assms(1)] assms(2) by simp
next
  case False
  then have "\<not> may_change force dir [t] fs p" by (simp add: may_change_def)
  then have "fs' p = fs p" using install_tool_cases [OF assms(1)] by blast
  then show ?thesis using assms(3) by (simp add: links_to_def)
qed

lemma install_loop_cases:
  assumes "install_loop e force claw dir ts fs = (rs, fs')"
  shows "(\<forall>p. fs' p \<noteq> fs p \<longrightarrow> may_change force dir ts fs p) \<and> length rs = length ts \<and>
    ((\<forall>r \<in> set rs. \<not> is_failed r) \<longrightarrow> (\<forall>p. links_to e claw p fs \<longrightarrow> links_to e claw p fs') \<and> (\<forall>t \<in> set ts. links_to e claw (path_join [dir, t]) fs'))"
  using assms
proof (induction ts arbitrary: fs rs)
  case (Cons t ts)
  obtain r fs1 where one: "install_tool e force claw dir t fs = (r, fs1)" by (metis surj_pair)
  obtain rs1 fs2 where more: "install_loop e force claw dir ts fs1 = (rs1, fs2)" by (metis surj_pair)
  have eqs: "rs = r # rs1" "fs' = fs2" using Cons.prems one more by simp_all
  note rest = Cons.IH [of fs1 rs1, unfolded eqs(2), OF more] and first = install_tool_cases [OF one]
  have "may_change force dir (t # ts) fs p" if "fs' p \<noteq> fs p" for p
  proof (cases "fs1 p = fs p")
    case True
    then have "may_change force dir ts fs1 p" using rest that eqs by metis
    with True show ?thesis by (auto simp: may_change_def)
  next
    case False
    then have "may_change force dir [t] fs p" using first by blast
    then show ?thesis unfolding may_change_def by auto
  qed
  moreover have "(\<forall>p. links_to e claw p fs \<longrightarrow> links_to e claw p fs') \<and> (\<forall>t \<in> set (t # ts). links_to e claw (path_join [dir, t]) fs')"
    if ok: "\<forall>r \<in> set rs. \<not> is_failed r"
  proof -
    have "\<not> is_failed r" "\<forall>r \<in> set rs1. \<not> is_failed r" using ok eqs by simp_all
    then show ?thesis using first rest links_to_kept [OF one] eqs by simp
  qed
  ultimately show ?case using rest eqs by simp
qed simp

lemma summary_done: "install_summary force rs = Install_Done c r u \<Longrightarrow> (\<forall>x \<in> set rs. \<not> is_failed x) \<and> c + r + u = length rs"
proof -
  assume s: "install_summary force rs = Install_Done c r u"
  then have none: "filter is_failed rs = []" and n: "c = count_results Created rs" "r = count_results Replaced rs" "u = count_results Unchanged rs"
    by (simp_all add: install_summary_def Let_def split: if_splits)
  have "\<forall>x \<in> set rs. \<not> is_failed x \<Longrightarrow> count_results Created rs + count_results Replaced rs + count_results Unchanged rs = length rs"
    by (induction rs) (auto simp: count_results_def is_failed_def split: install_result.splits)
  with none n show ?thesis by (simp add: filter_empty_conv)
qed

text \<open>
  What the writability test may touch: the entry \<open>.claw-wrap-test\<close> of the directory and, when that is a
  symbolic link, the file it leads to.
\<close>

definition test_paths :: "install_env \<Rightarrow> string \<Rightarrow> ifs \<Rightarrow> string set" where
  "test_paths e dir fs =
     {path_join [dir, ''.claw-wrap-test'']} \<union>
     {p. \<exists>link. fs (path_join [dir, ''.claw-wrap-test'']) = Some (In_Link link) \<and> p = ie_follow e (path_join [dir, ''.claw-wrap-test''])}"

lemma create_target_test: "create_target e (path_join [dir, ''.claw-wrap-test'']) fs \<in> test_paths e dir fs"
  by (auto simp: create_target_def test_paths_def split: option.splits inode.splits)

lemma canWriteDir_frame:
  assumes "canWriteDir e dir fs = (w, x, fs1)" and "p \<notin> test_paths e dir fs"
  shows "fs1 p = fs p"
proof -
  let ?t = "path_join [dir, ''.claw-wrap-test'']"
  have "p \<noteq> ?t" using assms(2) by (simp add: test_paths_def)
  moreover have "p \<noteq> create_target e ?t fs" using assms(2) create_target_test by metis
  ultimately show ?thesis using assms(1)
    by (auto simp: canWriteDir_def os_Create_def Let_def split: if_splits option.splits)
qed

text \<open>
  A link of that name is lost without \<open>--force\<close>, and the file it leads to is emptied.
\<close>

lemma install_test_truncates_link_target:
  assumes "ie_stat_dir e dir = Some True" and "ie_create e (path_join [dir, ''.claw-wrap-test''])"
    and "ie_remove e (path_join [dir, ''.claw-wrap-test''])"
    and "fs (path_join [dir, ''.claw-wrap-test'']) = Some (In_Link link)"
    and "ie_follow e (path_join [dir, ''.claw-wrap-test'']) = p" and "fs p = Some (In_File content)"
    and "p \<noteq> path_join [dir, ''.claw-wrap-test'']"
  shows "snd (snd (canWriteDir e dir fs)) = fs(p \<mapsto> In_File [], path_join [dir, ''.claw-wrap-test''] := None)"
  using assms by (auto simp: canWriteDir_def os_Create_def create_target_def Let_def)

text \<open>C40: \<open>claw-wrap install\<close> changes nothing but the links of the configured tools and what its test of the
  directory touches, the entry \<open>.claw-wrap-test\<close>, which is made and removed even if there was one, and the
  file such an entry links to. Whatever the outcome, any other entry that was there is replaced only under
  \<open>--force\<close>, and a directory never. When it reports success, every configured tool is reached through a link in
  the install directory that leads to the program itself, and the three counts it prints add up to the tools.\<close>
theorem install_links_every_tool:
  assumes "runInstall e load args fs = (out, fs')" and fl: "install_flags args ([], [], False) = (d0, c0, force)"
    and l: "load (if c0 = [] then ConfigPath else c0) = Inr cfg"
  defines "dir \<equiv> (if d0 = [] then ''/usr/local/bin'' else d0)"
  shows "(\<forall>p. fs' p \<noteq> fs p \<longrightarrow> p \<in> test_paths e dir fs \<or> may_change force dir (map fst (c_tools cfg)) fs p) \<and>
    (\<forall>c r u. out = Install_Done c r u \<longrightarrow> c + r + u = length (c_tools cfg) \<and>
       (\<exists>claw. selfExePath e = Some claw \<and> (\<forall>t \<in> fst ` set (c_tools cfg). links_to e claw (path_join [dir, t]) fs')))"
proof -
  obtain w x fs1 where cw: "canWriteDir e dir fs = (w, x, fs1)" by (metis surj_pair)
  note test = canWriteDir_frame [OF cw]
  note run = assms(1) [unfolded runInstall_def fl Let_def prod.case dir_def [symmetric] l sum.case]
  show ?thesis
  proof (cases "\<exists>claw. c_tools cfg \<noteq> [] \<and> selfExePath e = Some claw \<and> x \<and> w")
    case False
    then have "(fs' = fs \<or> fs' = fs1) \<and> (\<forall>c r u. out \<noteq> Install_Done c r u)"
      using run cw by (auto split: if_splits option.splits)
    then show ?thesis using test by auto
  next
    case True
    then obtain claw where t: "c_tools cfg \<noteq> []" "selfExePath e = Some claw" "x" "w" by blast
    obtain rs fs2 where il: "install_loop e force claw dir (map fst (c_tools cfg)) fs1 = (rs, fs2)" by (metis surj_pair)
    have o: "out = install_summary force rs" "fs' = fs2" using run t cw il by simp_all
    note loop = install_loop_cases [OF il]
    have frame: "may_change force dir (map fst (c_tools cfg)) fs p" if "fs' p \<noteq> fs p" "p \<notin> test_paths e dir fs" for p
    proof -
      have "may_change force dir (map fst (c_tools cfg)) fs1 p" using loop that test [of p] o(2) by metis
      then show ?thesis using test [OF that(2)] by (simp add: may_change_def)
    qed
    have links: "c + r + u = length (c_tools cfg) \<and> (\<forall>t \<in> fst ` set (c_tools cfg). links_to e claw (path_join [dir, t]) fs')" if "out = Install_Done c r u" for c r u
    proof -
      have "install_summary force rs = Install_Done c r u" using that o(1) by metis
      note s = summary_done [OF this]
      then have "\<forall>t \<in> set (map fst (c_tools cfg)). links_to e claw (path_join [dir, t]) fs2" using loop by blast
      moreover have "length rs = length (c_tools cfg)" using loop by simp
      ultimately show ?thesis using s o(2) by simp
    qed
    show ?thesis
    proof (intro conjI allI impI)
      fix p assume "fs' p \<noteq> fs p"
      then show "p \<in> test_paths e dir fs \<or> may_change force dir (map fst (c_tools cfg)) fs p" using frame by blast
    next
      fix c r u assume "out = Install_Done c r u"
      note links [OF this]
      then show "c + r + u = length (c_tools cfg)"
        "\<exists>claw. selfExePath e = Some claw \<and> (\<forall>t \<in> fst ` set (c_tools cfg). links_to e claw (path_join [dir, t]) fs')"
        using t(2) by blast+
    qed
  qed
qed

definition sample_install :: install_env where
  "sample_install = \<lparr>ie_lstat_err = (\<lambda>_. False), ie_readlink_err = (\<lambda>_. False), ie_eval = (\<lambda>_. None), ie_cwd = Some ''/'', ie_remove = (\<lambda>_. True),
     ie_symlink = (\<lambda>_. True), ie_exe = Some ''/opt/claw-wrap'', ie_stat_dir = (\<lambda>_. Some True), ie_create = (\<lambda>_. True), ie_follow = id, ie_uid = 0\<rparr>"

theorem install_links_every_tool_witness:
  "\<exists>fs'. runInstall sample_install (\<lambda>_. Inr sample_config) [''--force'', ''--install-dir'', ''/bin''] (\<lambda>_. None) = (Install_Done 1 0 0, fs') \<and>
     (\<forall>t \<in> fst ` set (c_tools sample_config). links_to sample_install ''/opt/claw-wrap'' (path_join [''/bin'', t]) fs')"
proof -
  let ?r = "runInstall sample_install (\<lambda>_. Inr sample_config) [''--force'', ''--install-dir'', ''/bin''] (\<lambda>_. None)"
  have r: "?r = (Install_Done 1 0 0, snd ?r)" by (rule prod_eqI, code_simp, simp)
  have fl: "install_flags [''--force'', ''--install-dir'', ''/bin''] ([], [], False) = (''/bin'', [], True)" by code_simp
  have self: "selfExePath sample_install = Some ''/opt/claw-wrap''" by code_simp
  from install_links_every_tool [OF r fl refl] self r show ?thesis by (intro exI [of _ "snd ?r"]) simp
qed

end
