(* ===== verification/Spec2Isabelle.thy ===== *)
theory Spec2Isabelle
  imports Prelude Base64 Hmac Json Auth Replay Regexp Types Redactor OutputBuf Json_Value Wire Framing Args_Policy Interpolate Modes Paths Config Cache System Secure_Files Sources Go_Time Backends Github_App Ssrf Host_Names Ca Http_Proxy Proxy_Laws Audit_Log Tool_Env Executor Executor_Laws Executor_Effects Executor_Files Key_Files Peer Admin_Wire Daemon Daemon_Life Daemon_Laws Lifecycle_Laws Reload_Laws Served Wrapper Wrapper_Laws Relay_Laws Admin_Laws Cli Cli_Laws
begin

text \<open>
  \<^bold>\<open>claw-wrap: a credential proxy for command-line tools.\<close>

  \<^bold>\<open>The program.\<close> An unprivileged agent calls \<open>gh\<close>, \<open>npm\<close> and the like through links to the program
  claw-wrap. As a \<^emph>\<open>wrapper\<close> (\<open>src/internal/wrapper\<close>) it signs the request with a shared secret, sends it over
  a Unix socket and relays input, signals, output and the exit code. The \<^emph>\<open>daemon\<close> (\<open>src/internal/daemon\<close>)
  identifies the caller, checks the signature (\<open>src/internal/auth\<close>), its freshness and the replay cache, the
  tool's argument policy and environment rules, fetches the tool's credentials (\<open>src/internal/credentials\<close>),
  runs the tool with them and streams its output back through a redactor; every run is written to the
  audit log (\<open>src/internal/audit\<close>). Tools that speak HTTP may be sent through a local intercepting \<^emph>\<open>proxy\<close>
  (\<open>src/internal/httpproxy\<close>) that injects a credential into the requests a route admits. Configuration is
  \<open>src/internal/config\<close>, messages and framing \<open>src/internal/protocol\<close> and \<open>src/internal/framing\<close>, the command
  line \<open>src/cmd/claw-wrap\<close>.

  \<^bold>\<open>How it is modelled.\<close> Go functions are HOL functions of the same name, structs are records, enumerations
  and error values datatypes, an error return is the left side of a sum or an option, a string or byte
  slice is a list of bytes, an \<open>int64\<close> is an integer with the wrap-around written out where a sum or product
  can leave the range, a Go map is an association list in one of its iteration orders. What a function asks of the operating
  system, of the clock, of the random source or of a library outside the repository is an argument: a
  record of answers (\<open>sys\<close>, \<open>key_env\<close>, \<open>life_env\<close>, \<open>wrap_env\<close>, \<open>install_env\<close>, \<open>ca_sys\<close>, \<open>github_sys\<close>), so each
  failing call is a branch and each theorem holds for every outcome of the calls unless it says so.
  Concurrent parts are step functions or relations on the state they share, one step per critical
  section, and the theorems quantify over the sequences of steps.

  \<^bold>\<open>The theories\<close>, in the order of the data flow:

  \<^item> \<open>Prelude\<close>: integers, time, the \<open>strings\<close> and \<open>strconv\<close> functions, maps; the locale \<open>simulation\<close>.
    \<open>Base64\<close>, \<open>Hmac\<close> (HMAC-SHA-256 on words), \<open>Json\<close> and \<open>Json_Value\<close> (printer, parser, round trip),
    \<open>Regexp\<close>, \<open>Go_Time\<close>, \<open>Paths\<close>, \<open>Host_Names\<close> (URLs): the parts of Go's library the sources use.
  \<^item> \<open>Types\<close>, \<open>Wire\<close>, \<open>Admin_Wire\<close>, \<open>Framing\<close>: messages, their JSON form, and the two framings, with the
    round trips (locale \<open>message_codec\<close>, interpreted on both message types).
  \<^item> \<open>Auth\<close>: what is signed and how it is verified; a signature binds every field (C3). \<open>Replay\<close>: the cache of
    seen signatures behind the locale \<open>replay_guard\<close>: a replay is refused while the cache is not filled up
    (C8), settings can be changed and keep what fits (C36). \<open>Key_Files\<close>: the files of the secret and of the proxy token.
  \<^item> \<open>Config\<close>, \<open>Args_Policy\<close>, \<open>Interpolate\<close>, \<open>Modes\<close>: validation (C22), the policy decision (C5), templates (C38).
  \<^item> \<open>System\<close>, \<open>Sources\<close>, \<open>Secure_Files\<close>, \<open>Backends\<close>, \<open>Github_App\<close>, \<open>Cache\<close>: credentials. When a reader
    of a secret file succeeds and with what value (C30), what reaches a command line (C31), what a minted
    token is (C32); the cache refines a specification without eviction (C28, an interpretation of
    \<open>simulation\<close>) and never serves an expired value (C29).
  \<^item> \<open>Redactor\<close> (locale \<open>stream_filter\<close>; C4, C9) and \<open>OutputBuf\<close> (C10, C11): the way of a tool's output.
  \<^item> \<open>Tool_Env\<close> (C6), \<open>Audit_Log\<close> (C37), \<open>Executor\<close> with \<open>Executor_Laws\<close> (one final message, C19),
    \<open>Executor_Effects\<close> (signals, C21), \<open>Executor_Files\<close> (what is left, C20): one run of a tool.
  \<^item> \<open>Ssrf\<close> (C25), \<open>Ca\<close> (C27), \<open>Http_Proxy\<close>, \<open>Proxy_Laws\<close> (C23, C24, C26): the HTTP proxy.
  \<^item> \<open>Peer\<close>, \<open>Daemon\<close>, \<open>Daemon_Life\<close>: the caller's identity, one connection, the daemon's life.
    \<open>Daemon_Laws\<close> and \<open>Lifecycle_Laws\<close>: the invariant of reachable states (C15), slots (C18), reload (C16),
    start-up (C17); \<open>Reload_Laws\<close>: the proxy token (C34) and the debounced watcher (C35); \<open>Served\<close>: who gets a
    tool run (C1) and that none is run twice (C2).
  \<^item> \<open>Wrapper\<close>, \<open>Wrapper_Laws\<close> (C7), \<open>Relay_Laws\<close> (C12, C13), \<open>Admin_Laws\<close> (C14, C33): wrapper and daemon
    together, from the bytes one writes to the bytes the other reads.
  \<^item> \<open>Cli\<close>, \<open>Cli_Laws\<close> (C39, C40): flags, printed answers, the installer.

  \<^bold>\<open>Bounds.\<close> Recursion is structural or has a measure. \<open>json_parse\<close> runs its parser with twice the length of the text
  and two as bound, which \<open>json_parse_print\<close> shows to be enough for every printed value within the nesting
  limit. \<open>trim_loop\<close> of the replay cache, a loop that would not end on an empty map over its bound, is a
  \<^theory_text>\<open>partial_function\<close>; C36 shows that it returns. \<open>response_reader\<close> takes the number of frames
  it may read; C12 holds for every bound from the number of messages sent.
  The event lists of \<open>exec_run\<close>, of the daemon's steps and of the wrapper's loops are finite but otherwise arbitrary.

  \<^bold>\<open>What is assumed.\<close> HMAC-SHA-256 is collision-free where a theorem says so (\<open>mac_code\<close> and the hypotheses of
  C3); a certificate parses back to its template and time-zone offsets lie within a day of each other
  (\<open>x509_library\<close>); the runtime serves a due timer within a slack (\<open>timely\<close>, in C35 only). Replay protection
  holds while the cache is not filled up (C2, C8), redaction of the final text for tools without
  \<open>redact_output\<close> expressions (C4, C9: with them, for the text the expressions are given), environment rules for names without an equals sign
  (C6), removal of files unless the removal fails (C20). The lemmas beside these theorems show that the
  conditions are needed: \<open>replay_accepted_when_displaced\<close>, \<open>equals_sign_defeats_env_rules\<close>.

  \<^bold>\<open>What is not modelled.\<close> Log lines and the help texts; \<open>strings.ToLower\<close> and \<open>EqualFold\<close> beyond ASCII, save for the two
  letters that fold into ASCII (bytes above 127 are left alone by \<open>to_lower\<close>); the lengths of read and write
  deadlines, which show as events; the build stubs of other platforms; the compilation of regular
  expressions from the configuration file and YAML decoding, which are arguments; the libraries goproxy,
  fsnotify, age, gojq and pty, of which the answers the code relies on are arguments.
\<close>

end
